(* ===== verification/Prelude.thy ===== *)
theory Prelude
  imports Main "HOL-Library.Word"
begin

text \<open>
  The shared vocabulary of the development: the machine integers of the driver, the ways a
  C function can go wrong (\<open>fault\<close>) and the sequencing of fallible steps (\<open>bindR\<close>), checked
  array accesses, and the generic facts on words, lists and ring indices that the component
  theories use.
\<close>

unbundle bit_operations_syntax

section \<open>Machine integers and outcomes\<close>

type_synonym u8 = "8 word"
type_synonym u16 = "16 word"
type_synonym u32 = "32 word"
type_synonym u64 = "64 word"

text \<open>
  What stops a C function that does not return: an index outside its array, a call or an
  access through a null pointer, a fired \<open>BUG_ON\<close>, a division by zero, or a loop that has used up the
  iterations after which it can only repeat itself.
\<close>

datatype fault = Index_Range | Null_Pointer | Bug_On | Div_Zero | Diverges

type_synonym 'a result = "fault + 'a"

definition bindR :: "'a result \<Rightarrow> ('a \<Rightarrow> 'b result) \<Rightarrow> 'b result" where
  "bindR m f = (case m of Inl e \<Rightarrow> Inl e | Inr x \<Rightarrow> f x)"

text \<open>\<open>BUG_ON(c)\<close> stops the machine when its condition holds.\<close>

definition BUG_ON :: "bool \<Rightarrow> unit result" where
  "BUG_ON c = (if c then Inl Bug_On else Inr ())"

text \<open>C arrays of a fixed length: reading or writing outside is a fault.\<close>

definition aget :: "'a list \<Rightarrow> nat \<Rightarrow> 'a result" where
  "aget xs i = (if i < length xs then Inr (xs ! i) else Inl Index_Range)"

definition aset :: "'a list \<Rightarrow> nat \<Rightarrow> 'a \<Rightarrow> 'a list result" where
  "aset xs i v = (if i < length xs then Inr (xs[i := v]) else Inl Index_Range)"

text \<open>The \<open>errno\<close> values the driver returns, negated, and its two status codes.\<close>

datatype errno = EPERM | EIO | EAGAIN | ENOMEM | EFAULT | EINVAL | EOPNOTSUPP

datatype status = Success | Failure | Errno errno

text \<open>\<open>if (ret)\<close> on such a code.\<close>

definition failed :: "status \<Rightarrow> bool" where
  "failed r \<longleftrightarrow> r \<noteq> Success"

text \<open>Socket buffers: those the driver allocates, by number of allocation, and those the stack hands over.\<close>

datatype skb_ref = Alloc nat | Stack nat

text \<open>The direction of a DMA mapping.\<close>

datatype dma_dir = DMA_TO_DEVICE | DMA_FROM_DEVICE

section \<open>Sequencing\<close>

named_theorems run_simps \<open>evaluation of fallible steps\<close>

lemma bindR_Inl [simp, run_simps]: "bindR (Inl e) f = Inl e"
  by (simp add: bindR_def)

lemma bindR_Inr [simp, run_simps]: "bindR (Inr x) f = f x"
  by (simp add: bindR_def)

lemma bindR_eq_Inr: "bindR m f = Inr y \<longleftrightarrow> (\<exists>x. m = Inr x \<and> f x = Inr y)"
  by (cases m) simp_all

lemma bindR_eq_Inl:
  "bindR m f = Inl e \<longleftrightarrow> m = Inl e \<or> (\<exists>x. m = Inr x \<and> f x = Inl e)"
  by (cases m) auto

lemma bindR_assoc: "bindR (bindR m f) g = bindR m (\<lambda>x. bindR (f x) g)"
  by (cases m) simp_all

lemma BUG_ON_simps [simp, run_simps]:
  "BUG_ON True = Inl Bug_On" "BUG_ON False = Inr ()"
  by (simp_all add: BUG_ON_def)

lemma BUG_ON_not: "\<not> c \<Longrightarrow> BUG_ON c = Inr ()"
  by (simp add: BUG_ON_def)

lemma BUG_ON_eq_Inr: "BUG_ON c = Inr u \<longleftrightarrow> \<not> c"
  by (simp add: BUG_ON_def)

lemma aget_in [run_simps]: "i < length xs \<Longrightarrow> aget xs i = Inr (xs ! i)"
  by (simp add: aget_def)

lemma aget_out: "length xs \<le> i \<Longrightarrow> aget xs i = Inl Index_Range"
  by (simp add: aget_def)

lemma aget_eq_Inr: "aget xs i = Inr v \<longleftrightarrow> i < length xs \<and> v = xs ! i"
  by (auto simp: aget_def)

lemma aset_in [run_simps]: "i < length xs \<Longrightarrow> aset xs i v = Inr (xs[i := v])"
  by (simp add: aset_def)

lemma aset_out: "length xs \<le> i \<Longrightarrow> aset xs i v = Inl Index_Range"
  by (simp add: aset_def)

lemma aset_eq_Inr: "aset xs i v = Inr ys \<longleftrightarrow> i < length xs \<and> ys = xs[i := v]"
  by (auto simp: aset_def)

text \<open>The counted loop \<open>for (i = a; i < a + n; i++) body(i)\<close>, stopped by the first fault.\<close>

fun for_upto :: "nat \<Rightarrow> nat \<Rightarrow> (nat \<Rightarrow> 's \<Rightarrow> 's result) \<Rightarrow> 's \<Rightarrow> 's result" where
  "for_upto a 0 body s = Inr s"
| "for_upto a (Suc n) body s = bindR (body a s) (for_upto (Suc a) n body)"

lemma for_upto_inv:
  assumes "\<And>i s. a \<le> i \<Longrightarrow> i < a + n \<Longrightarrow> P s \<Longrightarrow> \<exists>s'. body i s = Inr s' \<and> P s'" "P s"
  shows "\<exists>s'. for_upto a n body s = Inr s' \<and> P s'"
  using assms
proof (induction n arbitrary: a s)
  case (Suc n)
  obtain s1 where s1: "body a s = Inr s1" "P s1" using Suc.prems(1) [of a s] Suc.prems(2) by auto
  have "\<exists>s'. for_upto (Suc a) n body s1 = Inr s' \<and> P s'"
    using s1(2) by (intro Suc.IH Suc.prems(1)) auto
  with s1(1) show ?case by simp
qed simp

lemmas result_elims = bindR_eq_Inr aget_eq_Inr aset_eq_Inr BUG_ON_eq_Inr

lemma failed_simps [simp]: "\<not> failed Success" "failed Failure" "failed (Errno e)"
  by (simp_all add: failed_def)

section \<open>Bit masks\<close>

lemma or_and_self: "(b OR x) AND b = (b :: 'a::len word)"
  by (simp add: bit_eq_iff bit_simps)

lemma not_and_self: "(NOT b AND x) AND b = (0 :: 'a::len word)"
  by (simp add: bit_eq_iff bit_simps)

lemma or_and_disjoint: "b AND m = 0 \<Longrightarrow> (b OR x) AND m = x AND (m :: 'a::len word)"
  by (simp add: bit_eq_iff bit_simps) blast

lemma not_and_disjoint: "b AND m = 0 \<Longrightarrow> (NOT b AND x) AND m = x AND (m :: 'a::len word)"
  by (simp add: bit_eq_iff bit_simps) blast

lemma field_or_and: "v AND NOT m = 0 \<Longrightarrow> ((x AND NOT m) OR v) AND m = (v :: 'a::len word)"
  by (simp add: bit_eq_iff bit_simps) blast

lemma field_or_frame:
  "v AND NOT m = 0 \<Longrightarrow> ((x AND NOT m) OR v) AND NOT m = x AND NOT (m :: 'a::len word)"
  by (simp add: bit_eq_iff bit_simps) blast

text \<open>Consecutive set-bits and clear-bits on one register, as one mask.\<close>

lemma or_chain3: "a OR (b OR (c OR x)) = x OR (c OR b OR (a :: 'a::len word))"
  by (simp add: ac_simps)

lemma and_chain2: "a AND (b AND x) = x AND (b AND (a :: 'a::len word))"
  by (simp add: ac_simps)

section \<open>Byte packing\<close>

text \<open>Big-endian and little-endian packing of bytes in a 32-bit register, read back byte by byte.\<close>

lemma mask_ff: "(0xff :: u32) = mask 8"
  by (simp add: mask_eq_exp_minus_1)

lemma unpack4:
  fixes a b c d :: u8
  defines "w \<equiv> push_bit 24 (ucast a) OR push_bit 16 (ucast b) OR push_bit 8 (ucast c) OR (ucast d :: u32)"
  shows unpack4_24: "ucast (drop_bit 24 w AND 0xff) = a"
    and unpack4_16: "ucast (drop_bit 16 w AND 0xff) = b"
    and unpack4_8: "ucast (drop_bit 8 w AND 0xff) = c"
    and unpack4_0: "ucast (w AND 0xff) = d"
  unfolding mask_ff w_def by (rule bit_word_eqI; auto simp: bit_simps dest: bit_imp_le_length)+

lemma unpack2:
  fixes a b :: u8
  assumes "h AND 0xffff = 0"
  defines "w \<equiv> push_bit 8 (ucast a) OR ucast b OR (h :: u32)"
  shows unpack2_8: "ucast (drop_bit 8 w AND 0xff) = a"
    and unpack2_0: "ucast (w AND 0xff) = b"
proof -
  have "(0xffff :: u32) = mask 16"
    by (simp add: mask_eq_exp_minus_1)
  with assms(1) have h: "\<not> bit h n" if "n < 16" for n
    using that by (auto simp: bit_eq_iff bit_simps dest: spec [where x = n])
  show "ucast (drop_bit 8 w AND 0xff) = a" "ucast (w AND 0xff) = b"
    unfolding mask_ff w_def
    by (rule bit_word_eqI; auto simp: bit_simps h dest: bit_imp_le_length)+
qed

section \<open>Buffers\<close>

text \<open>\<open>memcpy\<close> into a buffer at an offset; past the end of the buffer it is a fault.\<close>

definition memcpy_at :: "'b list \<Rightarrow> nat \<Rightarrow> 'b list \<Rightarrow> 'b list result" where
  "memcpy_at data off bs =
     (if off + length bs \<le> length data
      then Inr (take off data @ bs @ drop (off + length bs) data) else Inl Index_Range)"

lemma memcpy_at_length: "memcpy_at data off bs = Inr d \<Longrightarrow> length d = length data"
  by (auto simp: memcpy_at_def split: if_splits)

lemma memcpy_at_before:
  "memcpy_at data off bs = Inr d \<Longrightarrow> k \<le> off \<Longrightarrow> take k d = take k data"
  by (auto simp: memcpy_at_def min_def split: if_splits)

lemma memcpy_at_here:
  "memcpy_at data off bs = Inr d \<Longrightarrow> take (length bs) (drop off d) = bs"
  by (auto simp: memcpy_at_def split: if_splits)

text \<open>
  The string loops of the ethtool operations: one string per cell of \<open>w\<close> bytes, the data
  pointer advanced by \<open>w\<close> after each.
\<close>

fun copy_cells :: "nat \<Rightarrow> 'b list list \<Rightarrow> nat \<Rightarrow> 'b list \<Rightarrow> 'b list result" where
  "copy_cells w [] off data = Inr data"
| "copy_cells w (x # xs) off data =
     bindR (memcpy_at data off x) (copy_cells w xs (off + w))"

lemma copy_cells_length: "copy_cells w xs off data = Inr d \<Longrightarrow> length d = length data"
  by (induction w xs off data rule: copy_cells.induct)
     (auto simp: bindR_eq_Inr dest: memcpy_at_length)

lemma copy_cells_before:
  "copy_cells w xs off data = Inr d \<Longrightarrow> k \<le> off \<Longrightarrow> take k d = take k data"
proof (induction w xs off data rule: copy_cells.induct)
  case (2 w x xs off data)
  then obtain d1 where d1: "memcpy_at data off x = Inr d1" "copy_cells w xs (off + w) d1 = Inr d"
    by (auto simp: bindR_eq_Inr)
  with "2.IH" "2.prems"(2) have "take k d = take k d1" by simp
  with memcpy_at_before [OF d1(1) "2.prems"(2)] show ?case by simp
qed simp

lemma copy_cells_total:
  assumes "\<forall>x \<in> set xs. length x \<le> w" "off + length xs * w \<le> length data"
  shows "\<exists>d. copy_cells w xs off data = Inr d"
  using assms
proof (induction xs arbitrary: off data)
  case (Cons x xs)
  then have "off + length x \<le> length data" by (simp add: add_mult_distrib)
  then obtain d1 where d1: "memcpy_at data off x = Inr d1" by (simp add: memcpy_at_def)
  have "off + w + length xs * w \<le> length d1"
    using Cons.prems(2) memcpy_at_length [OF d1] by (simp add: algebra_simps)
  with Cons.IH [of "off + w" d1] Cons.prems(1) d1 show ?case by simp
qed simp

lemma copy_cells_at:
  assumes "copy_cells w xs off data = Inr d" "i < length xs" "\<forall>x \<in> set xs. length x \<le> w"
  shows "take (length (xs ! i)) (drop (off + i * w) d) = xs ! i"
  using assms
proof (induction w xs off data arbitrary: i rule: copy_cells.induct)
  case (2 w x xs off data)
  then obtain d1 where d1: "memcpy_at data off x = Inr d1" "copy_cells w xs (off + w) d1 = Inr d"
    by (auto simp: bindR_eq_Inr)
  show ?case
  proof (cases i)
    case 0
    have x: "length x \<le> w" using "2.prems"(3) by simp
    have "take (off + w) d = take (off + w) d1"
      by (rule copy_cells_before [OF d1(2)]) simp
    then have "drop off (take (off + w) d) = drop off (take (off + w) d1)" by simp
    then have "take w (drop off d) = take w (drop off d1)" by (simp add: take_drop add.commute)
    then have "take (length x) (take w (drop off d)) = take (length x) (take w (drop off d1))" by simp
    with x memcpy_at_here [OF d1(1)] 0 show ?thesis by (simp add: min_absorb1)
  next
    case (Suc j)
    with "2.IH" [OF d1(2), of j] "2.prems" show ?thesis by (simp add: algebra_simps)
  qed
qed simp

text \<open>A computation that returns a value with a property.\<close>

definition yields :: "('a \<Rightarrow> bool) \<Rightarrow> 'a result \<Rightarrow> bool" where
  "yields Q m \<longleftrightarrow> (\<exists>x. m = Inr x \<and> Q x)"

lemma yields_Inr [simp]: "yields Q (Inr x) = Q x" "\<not> yields Q (Inl e)"
  by (simp_all add: yields_def)

lemma yields_bind:
  assumes "yields P m" "\<And>x. P x \<Longrightarrow> yields Q (f x)"
  shows "yields Q (bindR m f)"
  using assms by (auto simp: yields_def)

lemma yields_bind2:
  assumes "yields (\<lambda>(r, w). P w) m" "\<And>r w. P w \<Longrightarrow> yields Q (f r w)"
  shows "yields Q (bindR m (\<lambda>(r, w). f r w))"
  using assms by (auto simp: yields_def)

lemma yields_if:
  assumes "b \<Longrightarrow> yields Q x" "\<not> b \<Longrightarrow> yields Q y"
  shows "yields Q (if b then x else y)"
  using assms by simp

lemma yields_upto:
  assumes "\<And>i s. i < n \<Longrightarrow> P s \<Longrightarrow> yields P (f i s)" "P s"
  shows "yields P (for_upto 0 n f s)"
  unfolding yields_def by (rule for_upto_inv [where P = P]) (use assms in \<open>auto simp: yields_def\<close>)

text \<open>A loop whose invariant depends on the index it stands at.\<close>

lemma yields_upto_index:
  assumes "\<And>i s. a \<le> i \<Longrightarrow> i < a + n \<Longrightarrow> P i s \<Longrightarrow> yields (P (Suc i)) (f i s)" "P a s"
  shows "yields (P (a + n)) (for_upto a n f s)"
  using assms
proof (induction n arbitrary: a s)
  case (Suc n)
  obtain s1 where s1: "f a s = Inr s1" "P (Suc a) s1" using Suc.prems(1) [of a s] Suc.prems(2) by (auto simp: yields_def)
  have "yields (P (Suc a + n)) (for_upto (Suc a) n f s1)" using s1(2) by (intro Suc.IH Suc.prems(1)) auto
  with s1(1) show ?case by simp
qed simp

text \<open>A computation whose value, if it returns one, has a property.\<close>

definition ends :: "('a \<Rightarrow> bool) \<Rightarrow> 'a result \<Rightarrow> bool" where
  "ends Q m \<longleftrightarrow> (\<forall>x. m = Inr x \<longrightarrow> Q x)"

lemma ends_simps [simp]: "ends Q (Inr x) = Q x" "ends Q (Inl e)"
  by (simp_all add: ends_def)

lemma endsD: "ends Q m \<Longrightarrow> m = Inr x \<Longrightarrow> Q x"
  by (simp add: ends_def)

lemma endsI: "(\<And>x. m = Inr x \<Longrightarrow> Q x) \<Longrightarrow> ends Q m"
  by (simp add: ends_def)

lemma ends_any: "(\<And>x. ends Q (f x)) \<Longrightarrow> ends Q (bindR m f)"
  by (auto simp: ends_def bindR_eq_Inr)

lemma ends_bind:
  assumes "ends P m" "\<And>x. P x \<Longrightarrow> ends Q (f x)"
  shows "ends Q (bindR m f)"
  using assms by (auto simp: ends_def bindR_eq_Inr)

lemma ends_bind2:
  assumes "ends (\<lambda>(r, w). P w) m" "\<And>r w. P w \<Longrightarrow> ends Q (f r w)"
  shows "ends Q (bindR m (\<lambda>(r, w). f r w))"
  using assms by (auto simp: ends_def bindR_eq_Inr)

lemma ends_if:
  assumes "b \<Longrightarrow> ends Q x" "\<not> b \<Longrightarrow> ends Q y"
  shows "ends Q (if b then x else y)"
  using assms by simp

lemma ends_upto:
  assumes "\<And>i s. P s \<Longrightarrow> ends P (f i s)" "P s"
  shows "ends P (for_upto a n f s)"
  using assms(2) by (induction n arbitrary: a s) (auto intro: ends_bind assms(1))

lemma yields_ends: "yields P m \<Longrightarrow> ends Q m \<Longrightarrow> yields (\<lambda>x. P x \<and> Q x) m"
  by (auto simp: yields_def ends_def)

end
