(* ===== verification/Hal_If.thy ===== *)
theory Hal_If
  imports Prelude
begin

text \<open>
  The GMAC hardware abstraction of \<open>hal/include/nss_dp_hal_if.h\<close>: the device context
  \<open>nss_gmac_hal_dev\<close> with the register window behind \<open>mac_base\<close>, the register accessors
  and the bit helpers built on them. The locale \<open>reg_file\<close> states what any register window
  of the driver promises (a read returns the last value written at that offset) and proves
  once what the set-bits, clear-bits and field-programming idioms do; the MAC window and the
  EDMA window both interpret it.
\<close>

section \<open>Register windows\<close>

locale reg_file =
  fixes rd :: "'s \<Rightarrow> u32 \<Rightarrow> u32"
    and wr :: "'s \<Rightarrow> u32 \<Rightarrow> u32 \<Rightarrow> 's"
  assumes rd_wr: "rd (wr s r v) q = (if q = r then v else rd s q)"
begin

lemma rd_same: "rd (wr s r v) r = v"
  by (simp add: rd_wr)

lemma rd_other: "q \<noteq> r \<Longrightarrow> rd (wr s r v) q = rd s q"
  by (simp add: rd_wr)

lemma set_bits_on: "rd (wr s r (b OR rd s r)) r AND b = b"
  by (simp add: rd_wr or_and_self)

lemma set_bits_keep: "b AND m = 0 \<Longrightarrow> rd (wr s r (b OR rd s r)) r AND m = rd s r AND m"
  by (simp add: rd_wr or_and_disjoint)

lemma clear_bits_off: "rd (wr s r (NOT b AND rd s r)) r AND b = 0"
  by (simp add: rd_wr not_and_self)

lemma clear_bits_keep: "b AND m = 0 \<Longrightarrow> rd (wr s r (NOT b AND rd s r)) r AND m = rd s r AND m"
  by (simp add: rd_wr not_and_disjoint)

text \<open>
  The field idiom: read, clear the mask, OR the value in, write back. The field holds
  exactly the value, and the other bits are untouched, provided the value lies in the mask.
\<close>

lemma field_written: "v AND NOT m = 0 \<Longrightarrow> rd (wr s r ((rd s r AND NOT m) OR v)) r AND m = v"
  by (simp add: rd_wr field_or_and)

lemma field_frame:
  "v AND NOT m = 0 \<Longrightarrow>
     rd (wr s r ((rd s r AND NOT m) OR v)) r AND NOT m = rd s r AND NOT m"
  by (simp add: rd_wr field_or_frame)

end

section \<open>The GMAC HAL device\<close>

text \<open>
  \<open>nghd_regs\<close> is the register window behind \<open>mac_base\<close>, by byte offset; the accesses of
  the code are the relaxed 32-bit ones. \<open>nghd_mac_base\<close> keeps the pointer itself (0 for
  NULL). Net devices and memory resources are named by numbers. The lock \<open>slock\<close> is not
  state: each helper below is one critical section.
\<close>

datatype gmac_device_type = GMAC_HAL_TYPE_QCOM | GMAC_HAL_TYPE_SYN_XGMAC | GMAC_HAL_TYPE_SYN_GMAC

text \<open>The bit numbers of \<open>flags\<close> in \<open>struct nss_dp_dev\<close> (\<open>enum nss_dp_state\<close>).\<close>

abbreviation (input) NSS_DP_UP :: nat where "NSS_DP_UP \<equiv> 0"
abbreviation (input) NSS_DP_RXCSUM :: nat where "NSS_DP_RXCSUM \<equiv> 1"
abbreviation (input) NSS_DP_AUTONEG :: nat where "NSS_DP_AUTONEG \<equiv> 2"
abbreviation (input) NSS_DP_LINKPOLL :: nat where "NSS_DP_LINKPOLL \<equiv> 3"

record gmac_hal_platform_data =
  pd_netdev :: nat
  pd_reg_len :: u32
  pd_mactype :: u32
  pd_macid :: u32

record nss_gmac_hal_dev =
  nghd_mac_base :: u64
  nghd_version :: u32
  nghd_drv_flags :: u32
  nghd_link_state :: u32
  nghd_duplex_mode :: u32
  nghd_speed :: u32
  nghd_loop_back_mode :: u32
  nghd_phy_mii_type :: u32
  nghd_netdev :: nat
  nghd_memres :: "nat option"
  nghd_mac_reg_len :: u32
  nghd_mac_id :: u32
  nghd_regs :: "u32 \<Rightarrow> u32"

definition hal_read_reg :: "'a nss_gmac_hal_dev_scheme \<Rightarrow> u32 \<Rightarrow> u32" where
  "hal_read_reg nghd regoffset = nghd_regs nghd regoffset"

definition hal_write_reg :: "'a nss_gmac_hal_dev_scheme \<Rightarrow> u32 \<Rightarrow> u32 \<Rightarrow> 'a nss_gmac_hal_dev_scheme" where
  "hal_write_reg nghd regoffset regdata =
     nghd\<lparr>nghd_regs := (nghd_regs nghd)(regoffset := regdata)\<rparr>"

definition hal_set_reg_bits :: "'a nss_gmac_hal_dev_scheme \<Rightarrow> u32 \<Rightarrow> u32 \<Rightarrow> 'a nss_gmac_hal_dev_scheme" where
  "hal_set_reg_bits nghd regoffset bitpos =
     (let data = bitpos OR hal_read_reg nghd regoffset
      in hal_write_reg nghd regoffset data)"

definition hal_clear_reg_bits :: "'a nss_gmac_hal_dev_scheme \<Rightarrow> u32 \<Rightarrow> u32 \<Rightarrow> 'a nss_gmac_hal_dev_scheme" where
  "hal_clear_reg_bits nghd regoffset bitpos =
     (let data = NOT bitpos AND hal_read_reg nghd regoffset
      in hal_write_reg nghd regoffset data)"

definition hal_check_reg_bits :: "'a nss_gmac_hal_dev_scheme \<Rightarrow> u32 \<Rightarrow> u32 \<Rightarrow> bool" where
  "hal_check_reg_bits nghd regoffset bitpos \<longleftrightarrow> (bitpos AND hal_read_reg nghd regoffset) \<noteq> 0"

text \<open>
  A HAL operation is handed a pointer to the context. The Synopsys operations open with
  \<open>BUG_ON(nghd == NULL)\<close>.
\<close>

definition nonnull :: "'d option \<Rightarrow> ('d \<Rightarrow> 'r) \<Rightarrow> 'r result" where
  "nonnull nghd f = bindR (BUG_ON (nghd = None)) (\<lambda>_. Inr (f (the nghd)))"

lemma nonnull_simps [simp]: "nonnull None f = Inl Bug_On" "nonnull (Some d) f = Inr (f d)"
  by (simp_all add: nonnull_def)

section \<open>What the helpers do\<close>

named_theorems hal_simps \<open>register effects of the HAL helpers\<close>

interpretation mac: reg_file
  "hal_read_reg :: 'a nss_gmac_hal_dev_scheme \<Rightarrow> u32 \<Rightarrow> u32" hal_write_reg
  by unfold_locales (simp add: hal_read_reg_def hal_write_reg_def)

lemma read_write [hal_simps]:
  "hal_read_reg (hal_write_reg nghd r v) q = (if q = r then v else hal_read_reg nghd q)"
  by (rule mac.rd_wr)

lemma read_set_bits [hal_simps]:
  "hal_read_reg (hal_set_reg_bits nghd r b) q =
     (if q = r then b OR hal_read_reg nghd r else hal_read_reg nghd q)"
  by (simp add: hal_set_reg_bits_def mac.rd_wr)

lemma read_clear_bits [hal_simps]:
  "hal_read_reg (hal_clear_reg_bits nghd r b) q =
     (if q = r then NOT b AND hal_read_reg nghd r else hal_read_reg nghd q)"
  by (simp add: hal_clear_reg_bits_def mac.rd_wr)

lemma set_reg_bits_on: "hal_read_reg (hal_set_reg_bits nghd r b) r AND b = b"
  unfolding hal_set_reg_bits_def Let_def by (rule mac.set_bits_on)

lemma clear_reg_bits_off: "hal_read_reg (hal_clear_reg_bits nghd r b) r AND b = 0"
  unfolding hal_clear_reg_bits_def Let_def by (rule mac.clear_bits_off)

lemma set_reg_bits_keep:
  "b AND m = 0 \<Longrightarrow> hal_read_reg (hal_set_reg_bits nghd r b) r AND m = hal_read_reg nghd r AND m"
  unfolding hal_set_reg_bits_def Let_def by (rule mac.set_bits_keep)

lemma clear_reg_bits_keep:
  "b AND m = 0 \<Longrightarrow> hal_read_reg (hal_clear_reg_bits nghd r b) r AND m = hal_read_reg nghd r AND m"
  unfolding hal_clear_reg_bits_def Let_def by (rule mac.clear_bits_keep)

lemma check_after_set: "b \<noteq> 0 \<Longrightarrow> hal_check_reg_bits (hal_set_reg_bits nghd r b) r b"
  using set_reg_bits_on [of nghd r b] by (simp add: hal_check_reg_bits_def and.commute)

lemma check_after_clear: "\<not> hal_check_reg_bits (hal_clear_reg_bits nghd r b) r b"
  using clear_reg_bits_off [of nghd r b] by (simp add: hal_check_reg_bits_def and.commute)

text \<open>Writes leave everything of the context but the register window alone.\<close>

lemma hal_write_frame [simp]:
  "nghd_netdev (hal_write_reg nghd r v) = nghd_netdev nghd"
  "nghd_mac_id (hal_write_reg nghd r v) = nghd_mac_id nghd"
  "nghd_mac_base (hal_write_reg nghd r v) = nghd_mac_base nghd"
  "nghd_duplex_mode (hal_write_reg nghd r v) = nghd_duplex_mode nghd"
  by (simp_all add: hal_write_reg_def)

lemma hal_bits_frame [simp]:
  "nghd_netdev (hal_set_reg_bits nghd r v) = nghd_netdev nghd"
  "nghd_netdev (hal_clear_reg_bits nghd r v) = nghd_netdev nghd"
  "nghd_mac_id (hal_set_reg_bits nghd r v) = nghd_mac_id nghd"
  "nghd_mac_id (hal_clear_reg_bits nghd r v) = nghd_mac_id nghd"
  "nghd_mac_base (hal_set_reg_bits nghd r v) = nghd_mac_base nghd"
  "nghd_mac_base (hal_clear_reg_bits nghd r v) = nghd_mac_base nghd"
  "nghd_duplex_mode (hal_set_reg_bits nghd r v) = nghd_duplex_mode nghd"
  "nghd_duplex_mode (hal_clear_reg_bits nghd r v) = nghd_duplex_mode nghd"
  by (simp_all add: hal_set_reg_bits_def hal_clear_reg_bits_def Let_def)

section \<open>MAC addresses and string sets\<close>

text \<open>The six bytes of an Ethernet address, \<open>macaddr[0]\<close> first.\<close>

datatype eth_addr = Eth u8 u8 u8 u8 u8 u8

text \<open>
  What the upper layer relies on when it programs a station address: reading it back gives
  the address programmed last.
\<close>

locale mac_addr_unit =
  fixes set_addr :: "'d \<Rightarrow> eth_addr \<Rightarrow> 'd result"
    and get_addr :: "'d \<Rightarrow> eth_addr result"
  assumes get_set: "bindR (set_addr d a) get_addr = Inr a"
begin

lemma set_ok: "\<exists>d'. set_addr d a = Inr d' \<and> get_addr d' = Inr a"
  using get_set [of d a] by (simp add: bindR_eq_Inr)

lemma set_inj: "set_addr d a = set_addr d b \<Longrightarrow> a = b"
  by (metis get_set sum.inject(2))

lemma last_wins: "bindR (bindR (set_addr d a) (\<lambda>d. set_addr d b)) get_addr = Inr b"
proof -
  obtain d' where "set_addr d a = Inr d'" using set_ok by blast
  then show ?thesis by (simp add: get_set)
qed

end

text \<open>The string sets of ethtool the HAL knows, and any other.\<close>

datatype eth_ss = ETH_SS_STATS | ETH_SS_PRIV_FLAGS | ETH_SS_OTHER

text \<open>
  The ethtool core asks for the size of a string set, allocates that many cells of
  \<open>ETH_GSTRING_LEN\<close> bytes and lets the driver fill them. What makes this safe: the count and
  the strings come from one table, whose names fit a cell.
\<close>

locale string_sets =
  fixes names :: "eth_ss \<Rightarrow> string list option"
    and count :: "eth_ss \<Rightarrow> errno + nat"
    and fill :: "nat \<Rightarrow> eth_ss \<Rightarrow> string \<Rightarrow> (status \<times> string) result"
    and cell :: "nat \<Rightarrow> string \<Rightarrow> string"
    and width :: nat
  assumes count_some: "names ss = Some xs \<Longrightarrow> count ss = Inr (length xs)"
    and count_none: "names ss = None \<Longrightarrow> \<exists>e. count ss = Inl e"
    and fill_some: "names ss = Some xs \<Longrightarrow>
          fill len ss data = bindR (copy_cells len (map (cell len) xs) 0 data) (\<lambda>d. Inr (Success, d))"
    and fill_none: "names ss = None \<Longrightarrow> \<exists>e. fill len ss data = Inr (Errno e, data)"
    and fits: "names ss = Some xs \<Longrightarrow> x \<in> set xs \<Longrightarrow> length x \<le> width"
    and cell_fits: "length x \<le> len \<Longrightarrow> length (cell len x) \<le> len"
    and cell_prefix: "length x \<le> len \<Longrightarrow> \<exists>z. cell len x = x @ z"
begin

lemma fill_ok:
  assumes "count ss = Inr n" "width \<le> len" "length data = n * len"
  shows "\<exists>d. fill len ss data = Inr (Success, d) \<and> length d = length data
           \<and> (\<forall>i < n. take (length (the (names ss) ! i)) (drop (i * len) d) = the (names ss) ! i)"
proof -
  from assms(1) obtain xs where xs: "names ss = Some xs"
    using count_none [of ss] by (cases "names ss") auto
  with assms(1) count_some have n: "n = length xs" by auto
  define cs where "cs = map (cell len) xs"
  have w: "length x \<le> len" if "x \<in> set xs" for x
    using fits [OF xs that] assms(2) by simp
  then have cw: "\<forall>c \<in> set cs. length c \<le> len"
    by (auto simp: cs_def intro: cell_fits)
  then obtain d where d: "copy_cells len cs 0 data = Inr d"
    using copy_cells_total [of cs len 0 data] assms(3) n by (auto simp: cs_def)
  have "take (length (xs ! i)) (drop (i * len) d) = xs ! i" if i: "i < n" for i
  proof -
    obtain z where z: "cs ! i = xs ! i @ z"
      using cell_prefix [of "xs ! i" len] w i n by (auto simp: cs_def)
    have "take (length (cs ! i)) (drop (i * len) d) = cs ! i"
      using copy_cells_at [OF d _ cw, of i] i n by (simp add: cs_def)
    then have "take (length (xs ! i)) (take (length (cs ! i)) (drop (i * len) d)) = xs ! i"
      by (simp add: z)
    then show ?thesis by (simp add: z min_def)
  qed
  with d copy_cells_length [OF d] fill_some [OF xs] xs show ?thesis by (simp add: cs_def)
qed

lemma fill_rejects: "count ss = Inl e \<Longrightarrow> \<exists>e'. fill len ss data = Inr (Errno e', data)"
  using count_some fill_none by (cases "names ss") force+

end

text \<open>The fields of \<open>rtnl_link_stats64\<close> that the HALs fill in.\<close>

record rtnl_link_stats64 =
  st_rx_packets :: u64
  st_tx_packets :: u64
  st_rx_bytes :: u64
  st_tx_bytes :: u64
  st_rx_errors :: u64
  st_tx_errors :: u64
  st_rx_dropped :: u64
  st_tx_dropped :: u64
  st_multicast :: u64
  st_collisions :: u64
  st_rx_length_errors :: u64
  st_rx_over_errors :: u64
  st_rx_crc_errors :: u64
  st_rx_frame_errors :: u64
  st_rx_fifo_errors :: u64
  st_rx_missed_errors :: u64
  st_tx_aborted_errors :: u64
  st_tx_carrier_errors :: u64
  st_tx_fifo_errors :: u64
  st_tx_window_errors :: u64

text \<open>What transmit functions and interrupt handlers return.\<close>

datatype netdev_tx_t = NETDEV_TX_OK | NETDEV_TX_BUSY

datatype irqreturn_t = IRQ_NONE | IRQ_HANDLED

text \<open>
  The answers of the platform to a HAL \<open>init\<close>: the memory resource of the device and its
  size, whether its region can be reserved, whether the context can be allocated, the
  mapped base address (0 when \<open>devm_ioremap_nocache\<close> fails) and the register window found there.
\<close>

record plat_env =
  pe_resource :: "nat option"
  pe_resource_size :: u32
  pe_request_mem_region :: "nat option"
  pe_kzalloc :: bool
  pe_ioremap :: u64
  pe_window :: "u32 \<Rightarrow> u32"

text \<open>A zeroed context (\<open>devm_kzalloc\<close>) over a register window.\<close>

definition kzalloc_nghd :: "(u32 \<Rightarrow> u32) \<Rightarrow> nss_gmac_hal_dev" where
  "kzalloc_nghd w = \<lparr>nghd_mac_base = 0, nghd_version = 0, nghd_drv_flags = 0,
     nghd_link_state = 0, nghd_duplex_mode = 0, nghd_speed = 0, nghd_loop_back_mode = 0,
     nghd_phy_mii_type = 0, nghd_netdev = 0, nghd_memres = None, nghd_mac_reg_len = 0,
     nghd_mac_id = 0, nghd_regs = w\<rparr>"

end
