(* ===== verification/Qcom_Gmac.thy ===== *)
theory Qcom_Gmac
  imports Hal_If
begin

text \<open>
  The Qualcomm 1G MAC: the register offsets and bits of \<open>qcom_reg.h\<close> that the code uses, the
  bit helpers of \<open>qcom_dev.h\<close>, one definition each, and the HAL operations of \<open>qcom_if.c\<close>
  that \<open>qcom_hal_ops\<close> exports. The MIB counters live in the switch driver; the counter block
  it fills in is the argument \<open>fal_mib_counter_get\<close>, keyed by the field names this code
  uses and generic in the width of a counter.
\<close>

section \<open>Registers\<close>

abbreviation (input) QCOM_MAC_ENABLE :: u32 where "QCOM_MAC_ENABLE \<equiv> 0x0000"
abbreviation (input) QCOM_RX_FLOW_ENABLE :: u32 where "QCOM_RX_FLOW_ENABLE \<equiv> 0x20"
abbreviation (input) QCOM_TX_FLOW_ENABLE :: u32 where "QCOM_TX_FLOW_ENABLE \<equiv> 0x40"
abbreviation (input) QCOM_MAC_CTRL0 :: u32 where "QCOM_MAC_CTRL0 \<equiv> 0x0010"
abbreviation (input) QCOM_RX_MAC_ENABLE :: u32 where "QCOM_RX_MAC_ENABLE \<equiv> 1"
abbreviation (input) QCOM_TX_MAC_ENABLE :: u32 where "QCOM_TX_MAC_ENABLE \<equiv> 0x2"
abbreviation (input) QCOM_DUPLEX :: u32 where "QCOM_DUPLEX \<equiv> 0x10"
abbreviation (input) QCOM_IPGT_POS :: u32 where "QCOM_IPGT_POS \<equiv> 0x0000007f"
abbreviation (input) QCOM_IPGT_LSB :: nat where "QCOM_IPGT_LSB \<equiv> 0"
abbreviation (input) QCOM_IPGR2_POS :: u32 where "QCOM_IPGR2_POS \<equiv> 0x00007f00"
abbreviation (input) QCOM_IPGR2_LSB :: nat where "QCOM_IPGR2_LSB \<equiv> 8"
abbreviation (input) QCOM_HALF_THDF_CTRL :: u32 where "QCOM_HALF_THDF_CTRL \<equiv> 0x8000"
abbreviation (input) QCOM_FLCHK :: u32 where "QCOM_FLCHK \<equiv> 0x40000"
abbreviation (input) QCOM_ABEBE :: u32 where "QCOM_ABEBE \<equiv> 0x80000"
abbreviation (input) QCOM_AMAXE :: u32 where "QCOM_AMAXE \<equiv> 0x10000000"
abbreviation (input) QCOM_BPNB :: u32 where "QCOM_BPNB \<equiv> 0x20000000"
abbreviation (input) QCOM_NOBO :: u32 where "QCOM_NOBO \<equiv> 0x40000000"
abbreviation (input) QCOM_DRBNIB_RXOK :: u32 where "QCOM_DRBNIB_RXOK \<equiv> 0x80000000"
abbreviation (input) QCOM_MAC_CTRL1 :: u32 where "QCOM_MAC_CTRL1 \<equiv> 0x0014"
abbreviation (input) QCOM_JAM_IPG_POS :: u32 where "QCOM_JAM_IPG_POS \<equiv> 0x0000000f"
abbreviation (input) QCOM_JAM_IPG_LSB :: nat where "QCOM_JAM_IPG_LSB \<equiv> 0"
abbreviation (input) QCOM_TPAUSE :: u32 where "QCOM_TPAUSE \<equiv> 0x10"
abbreviation (input) QCOM_TCTL :: u32 where "QCOM_TCTL \<equiv> 0x20"
abbreviation (input) QCOM_SSTCT :: u32 where "QCOM_SSTCT \<equiv> 0x40"
abbreviation (input) QCOM_SIMR :: u32 where "QCOM_SIMR \<equiv> 0x80"
abbreviation (input) QCOM_RETRY_POS :: u32 where "QCOM_RETRY_POS \<equiv> 0x00000f00"
abbreviation (input) QCOM_RETRY_LSB :: nat where "QCOM_RETRY_LSB \<equiv> 8"
abbreviation (input) QCOM_PRLEN_POS :: u32 where "QCOM_PRLEN_POS \<equiv> 0x0000f000"
abbreviation (input) QCOM_PRLEN_LSB :: nat where "QCOM_PRLEN_LSB \<equiv> 8"
abbreviation (input) QCOM_PPAD :: u32 where "QCOM_PPAD \<equiv> 0x10000"
abbreviation (input) QCOM_POVR :: u32 where "QCOM_POVR \<equiv> 0x20000"
abbreviation (input) QCOM_PHUG :: u32 where "QCOM_PHUG \<equiv> 0x40000"
abbreviation (input) QCOM_MBOF :: u32 where "QCOM_MBOF \<equiv> 0x80000"
abbreviation (input) QCOM_LCOL_POS :: u32 where "QCOM_LCOL_POS \<equiv> 0x0ff00000"
abbreviation (input) QCOM_LCOL_LSB :: nat where "QCOM_LCOL_LSB \<equiv> 20"
abbreviation (input) QCOM_LONG_JAM :: u32 where "QCOM_LONG_JAM \<equiv> 0x10000000"
abbreviation (input) QCOM_MAC_CTRL2 :: u32 where "QCOM_MAC_CTRL2 \<equiv> 0x0018"
abbreviation (input) QCOM_IPG_DEC_LEN :: u32 where "QCOM_IPG_DEC_LEN \<equiv> 0x2"
abbreviation (input) QCOM_TEST_PAUSE :: u32 where "QCOM_TEST_PAUSE \<equiv> 0x4"
abbreviation (input) QCOM_MAC_LOOPBACK :: u32 where "QCOM_MAC_LOOPBACK \<equiv> 0x10"
abbreviation (input) QCOM_IPG_DEC :: u32 where "QCOM_IPG_DEC \<equiv> 0x20"
abbreviation (input) QCOM_SRS_SEL :: u32 where "QCOM_SRS_SEL \<equiv> 0x40"
abbreviation (input) QCOM_CRC_RSV :: u32 where "QCOM_CRC_RSV \<equiv> 0x80"
abbreviation (input) QCOM_MAC_DBG_CTRL :: u32 where "QCOM_MAC_DBG_CTRL \<equiv> 0x001c"
abbreviation (input) QCOM_DBG_IPGR1_POS :: u32 where "QCOM_DBG_IPGR1_POS \<equiv> 0x0000007f"
abbreviation (input) QCOM_DBG_IPGR1_LSB :: nat where "QCOM_DBG_IPGR1_LSB \<equiv> 0"
abbreviation (input) QCOM_DBG_HIHG_IPG_POS :: u32 where "QCOM_DBG_HIHG_IPG_POS \<equiv> 0x0000ff00"
abbreviation (input) QCOM_DBG_HIHG_IPG_LSB :: nat where "QCOM_DBG_HIHG_IPG_LSB \<equiv> 8"
abbreviation (input) QCOM_DBG_MAC_IPG_CTRL_POS :: u32 where "QCOM_DBG_MAC_IPG_CTRL_POS \<equiv> 0x0000ff00"
abbreviation (input) QCOM_DBG_MAC_IPG_CTRL_LSB :: nat where "QCOM_DBG_MAC_IPG_CTRL_LSB \<equiv> 20"
abbreviation (input) QCOM_DBG_MAC_LEN_CTRL :: u32 where "QCOM_DBG_MAC_LEN_CTRL \<equiv> 0x40000000"
abbreviation (input) QCOM_DBG_EDxSDFR_TRANS :: u32 where "QCOM_DBG_EDxSDFR_TRANS \<equiv> 0x80000000"
abbreviation (input) QCOM_MAC_DBG_ADDR :: u32 where "QCOM_MAC_DBG_ADDR \<equiv> 0x0020"
abbreviation (input) QCOM_MAC_DBG_DATA :: u32 where "QCOM_MAC_DBG_DATA \<equiv> 0x0024"
abbreviation (input) QCOM_MAC_JMB_SIZE :: u32 where "QCOM_MAC_JMB_SIZE \<equiv> 0x0030"
abbreviation (input) QCOM_MAC_MIB_CTRL :: u32 where "QCOM_MAC_MIB_CTRL \<equiv> 0x0034"
abbreviation (input) QCOM_MAC_ADDR0 :: u32 where "QCOM_MAC_ADDR0 \<equiv> 0x0008"
abbreviation (input) QCOM_MAC_ADDR1 :: u32 where "QCOM_MAC_ADDR1 \<equiv> 0x000c"

section \<open>Device helpers\<close>

datatype (plugins only: size) qcom_mib =
    RxBroad | RxPause | RxUniCast | RxMulti | RxFcsErr | RxAllignErr | RxRunt | RxFragment
  | RxJumboFcsErr | RxJumboAligenErr | Rx64Byte | Rx128Byte | Rx256Byte | Rx512Byte
  | Rx1024Byte | Rx1518Byte | RxMaxByte | RxTooLong | RxGoodByte | RxBadByte | RxOverFlow
  | TxBroad | TxPause | TxMulti | TxUnderRun | Tx64Byte | Tx128Byte | Tx256Byte | Tx512Byte
  | Tx1024Byte | Tx1518Byte | TxMaxByte | TxOverSize | TxByte | TxCollision | TxAbortCol
  | TxMultiCol | TxSingalCol | TxExcDefer | TxDefer | TxLateCol | TxUniCast

text \<open>The subclass of the base HAL device: the base context and the counter block.\<close>

record 'c qcom_hal_dev = nss_gmac_hal_dev +
  qhd_stats :: "qcom_mib \<Rightarrow> 'c"

definition qcom_set_rx_flow_ctrl :: "'a nss_gmac_hal_dev_scheme \<Rightarrow> 'a nss_gmac_hal_dev_scheme" where
  "qcom_set_rx_flow_ctrl nghd = hal_set_reg_bits nghd QCOM_MAC_ENABLE QCOM_RX_FLOW_ENABLE"

definition qcom_clear_rx_flow_ctrl :: "'a nss_gmac_hal_dev_scheme \<Rightarrow> 'a nss_gmac_hal_dev_scheme" where
  "qcom_clear_rx_flow_ctrl nghd = hal_clear_reg_bits nghd QCOM_MAC_ENABLE QCOM_RX_FLOW_ENABLE"

definition qcom_set_tx_flow_ctrl :: "'a nss_gmac_hal_dev_scheme \<Rightarrow> 'a nss_gmac_hal_dev_scheme" where
  "qcom_set_tx_flow_ctrl nghd = hal_set_reg_bits nghd QCOM_MAC_ENABLE QCOM_TX_FLOW_ENABLE"

definition qcom_clear_tx_flow_ctrl :: "'a nss_gmac_hal_dev_scheme \<Rightarrow> 'a nss_gmac_hal_dev_scheme" where
  "qcom_clear_tx_flow_ctrl nghd = hal_clear_reg_bits nghd QCOM_MAC_ENABLE QCOM_TX_FLOW_ENABLE"

definition qcom_clear_mac_ctrl0 :: "'a nss_gmac_hal_dev_scheme \<Rightarrow> 'a nss_gmac_hal_dev_scheme" where
  "qcom_clear_mac_ctrl0 nghd = hal_write_reg nghd QCOM_MAC_CTRL0 0"

definition qcom_rx_enable :: "'a nss_gmac_hal_dev_scheme \<Rightarrow> 'a nss_gmac_hal_dev_scheme" where
  "qcom_rx_enable nghd = hal_set_reg_bits nghd QCOM_MAC_ENABLE QCOM_RX_MAC_ENABLE"

definition qcom_rx_disable :: "'a nss_gmac_hal_dev_scheme \<Rightarrow> 'a nss_gmac_hal_dev_scheme" where
  "qcom_rx_disable nghd = hal_clear_reg_bits nghd QCOM_MAC_ENABLE QCOM_RX_MAC_ENABLE"

definition qcom_tx_enable :: "'a nss_gmac_hal_dev_scheme \<Rightarrow> 'a nss_gmac_hal_dev_scheme" where
  "qcom_tx_enable nghd = hal_set_reg_bits nghd QCOM_MAC_ENABLE QCOM_TX_MAC_ENABLE"

definition qcom_tx_disable :: "'a nss_gmac_hal_dev_scheme \<Rightarrow> 'a nss_gmac_hal_dev_scheme" where
  "qcom_tx_disable nghd = hal_clear_reg_bits nghd QCOM_MAC_ENABLE QCOM_TX_MAC_ENABLE"

definition qcom_set_full_duplex :: "'a nss_gmac_hal_dev_scheme \<Rightarrow> 'a nss_gmac_hal_dev_scheme" where
  "qcom_set_full_duplex nghd = hal_set_reg_bits nghd QCOM_MAC_ENABLE QCOM_DUPLEX"

definition qcom_set_half_duplex :: "'a nss_gmac_hal_dev_scheme \<Rightarrow> 'a nss_gmac_hal_dev_scheme" where
  "qcom_set_half_duplex nghd = hal_clear_reg_bits nghd QCOM_MAC_ENABLE QCOM_DUPLEX"

definition qcom_set_ipgt :: "'a nss_gmac_hal_dev_scheme \<Rightarrow> u32 \<Rightarrow> 'a nss_gmac_hal_dev_scheme" where
  "qcom_set_ipgt nghd ipgt =
     (let data = hal_read_reg nghd QCOM_MAC_CTRL0;
          data = data AND NOT QCOM_IPGT_POS;
          ipgt = push_bit QCOM_IPGT_LSB ipgt;
          data = data OR ipgt
      in hal_write_reg nghd QCOM_MAC_CTRL0 data)"

definition qcom_set_ipgr :: "'a nss_gmac_hal_dev_scheme \<Rightarrow> u32 \<Rightarrow> 'a nss_gmac_hal_dev_scheme" where
  "qcom_set_ipgr nghd ipgr =
     (let data = hal_read_reg nghd QCOM_MAC_CTRL0;
          data = data AND NOT QCOM_IPGR2_POS;
          ipgr = push_bit QCOM_IPGR2_LSB ipgr;
          data = data OR ipgr
      in hal_write_reg nghd QCOM_MAC_CTRL0 data)"

definition qcom_set_half_thdf_ctrl :: "'a nss_gmac_hal_dev_scheme \<Rightarrow> 'a nss_gmac_hal_dev_scheme" where
  "qcom_set_half_thdf_ctrl nghd = hal_set_reg_bits nghd QCOM_MAC_CTRL0 QCOM_HALF_THDF_CTRL"

definition qcom_reset_half_thdf_ctrl :: "'a nss_gmac_hal_dev_scheme \<Rightarrow> 'a nss_gmac_hal_dev_scheme" where
  "qcom_reset_half_thdf_ctrl nghd = hal_clear_reg_bits nghd QCOM_MAC_CTRL0 QCOM_HALF_THDF_CTRL"

definition qcom_set_frame_len_chk :: "'a nss_gmac_hal_dev_scheme \<Rightarrow> 'a nss_gmac_hal_dev_scheme" where
  "qcom_set_frame_len_chk nghd = hal_set_reg_bits nghd QCOM_MAC_CTRL0 QCOM_FLCHK"

definition qcom_reset_frame_len_chk :: "'a nss_gmac_hal_dev_scheme \<Rightarrow> 'a nss_gmac_hal_dev_scheme" where
  "qcom_reset_frame_len_chk nghd = hal_clear_reg_bits nghd QCOM_MAC_CTRL0 QCOM_FLCHK"

definition qcom_set_abebe :: "'a nss_gmac_hal_dev_scheme \<Rightarrow> 'a nss_gmac_hal_dev_scheme" where
  "qcom_set_abebe nghd = hal_set_reg_bits nghd QCOM_MAC_CTRL0 QCOM_ABEBE"

definition qcom_reset_abebe :: "'a nss_gmac_hal_dev_scheme \<Rightarrow> 'a nss_gmac_hal_dev_scheme" where
  "qcom_reset_abebe nghd = hal_clear_reg_bits nghd QCOM_MAC_CTRL0 QCOM_ABEBE"

definition qcom_set_amaxe :: "'a nss_gmac_hal_dev_scheme \<Rightarrow> 'a nss_gmac_hal_dev_scheme" where
  "qcom_set_amaxe nghd = hal_set_reg_bits nghd QCOM_MAC_CTRL0 QCOM_AMAXE"

definition qcom_reset_amaxe :: "'a nss_gmac_hal_dev_scheme \<Rightarrow> 'a nss_gmac_hal_dev_scheme" where
  "qcom_reset_amaxe nghd = hal_clear_reg_bits nghd QCOM_MAC_CTRL0 QCOM_AMAXE"

definition qcom_set_bpnb :: "'a nss_gmac_hal_dev_scheme \<Rightarrow> 'a nss_gmac_hal_dev_scheme" where
  "qcom_set_bpnb nghd = hal_set_reg_bits nghd QCOM_MAC_CTRL0 QCOM_BPNB"

definition qcom_reset_bpnb :: "'a nss_gmac_hal_dev_scheme \<Rightarrow> 'a nss_gmac_hal_dev_scheme" where
  "qcom_reset_bpnb nghd = hal_clear_reg_bits nghd QCOM_MAC_CTRL0 QCOM_BPNB"

definition qcom_set_nobo :: "'a nss_gmac_hal_dev_scheme \<Rightarrow> 'a nss_gmac_hal_dev_scheme" where
  "qcom_set_nobo nghd = hal_set_reg_bits nghd QCOM_MAC_CTRL0 QCOM_NOBO"

definition qcom_reset_nobo :: "'a nss_gmac_hal_dev_scheme \<Rightarrow> 'a nss_gmac_hal_dev_scheme" where
  "qcom_reset_nobo nghd = hal_clear_reg_bits nghd QCOM_MAC_CTRL0 QCOM_NOBO"

definition qcom_set_drbnib_rxok :: "'a nss_gmac_hal_dev_scheme \<Rightarrow> 'a nss_gmac_hal_dev_scheme" where
  "qcom_set_drbnib_rxok nghd = hal_set_reg_bits nghd QCOM_MAC_CTRL0 QCOM_DRBNIB_RXOK"

definition qcom_reset_drbnib_rxok :: "'a nss_gmac_hal_dev_scheme \<Rightarrow> 'a nss_gmac_hal_dev_scheme" where
  "qcom_reset_drbnib_rxok nghd = hal_clear_reg_bits nghd QCOM_MAC_CTRL0 QCOM_DRBNIB_RXOK"

definition qcom_set_jam_ipg :: "'a nss_gmac_hal_dev_scheme \<Rightarrow> u32 \<Rightarrow> 'a nss_gmac_hal_dev_scheme" where
  "qcom_set_jam_ipg nghd jam_ipg =
     (let data = hal_read_reg nghd QCOM_MAC_CTRL1;
          data = data AND NOT QCOM_JAM_IPG_POS;
          jam_ipg = push_bit QCOM_JAM_IPG_LSB jam_ipg;
          data = data OR jam_ipg
      in hal_write_reg nghd QCOM_MAC_CTRL1 data)"

definition qcom_set_ctrl1_test_pause :: "'a nss_gmac_hal_dev_scheme \<Rightarrow> 'a nss_gmac_hal_dev_scheme" where
  "qcom_set_ctrl1_test_pause nghd = hal_set_reg_bits nghd QCOM_MAC_CTRL1 QCOM_TPAUSE"

definition qcom_reset_ctrl1_test_pause :: "'a nss_gmac_hal_dev_scheme \<Rightarrow> 'a nss_gmac_hal_dev_scheme" where
  "qcom_reset_ctrl1_test_pause nghd = hal_clear_reg_bits nghd QCOM_MAC_CTRL1 QCOM_TPAUSE"

definition qcom_set_tctl :: "'a nss_gmac_hal_dev_scheme \<Rightarrow> 'a nss_gmac_hal_dev_scheme" where
  "qcom_set_tctl nghd = hal_set_reg_bits nghd QCOM_MAC_CTRL1 QCOM_TCTL"

definition qcom_reset_tctl :: "'a nss_gmac_hal_dev_scheme \<Rightarrow> 'a nss_gmac_hal_dev_scheme" where
  "qcom_reset_tctl nghd = hal_clear_reg_bits nghd QCOM_MAC_CTRL1 QCOM_TCTL"

definition qcom_set_sstct :: "'a nss_gmac_hal_dev_scheme \<Rightarrow> 'a nss_gmac_hal_dev_scheme" where
  "qcom_set_sstct nghd = hal_set_reg_bits nghd QCOM_MAC_CTRL1 QCOM_SSTCT"

definition qcom_reset_sstct :: "'a nss_gmac_hal_dev_scheme \<Rightarrow> 'a nss_gmac_hal_dev_scheme" where
  "qcom_reset_sstct nghd = hal_clear_reg_bits nghd QCOM_MAC_CTRL1 QCOM_SSTCT"

definition qcom_set_simr :: "'a nss_gmac_hal_dev_scheme \<Rightarrow> 'a nss_gmac_hal_dev_scheme" where
  "qcom_set_simr nghd = hal_set_reg_bits nghd QCOM_MAC_CTRL1 QCOM_SIMR"

definition qcom_reset_simr :: "'a nss_gmac_hal_dev_scheme \<Rightarrow> 'a nss_gmac_hal_dev_scheme" where
  "qcom_reset_simr nghd = hal_clear_reg_bits nghd QCOM_MAC_CTRL1 QCOM_SIMR"

definition qcom_set_retry :: "'a nss_gmac_hal_dev_scheme \<Rightarrow> u32 \<Rightarrow> 'a nss_gmac_hal_dev_scheme" where
  "qcom_set_retry nghd retry =
     (let data = hal_read_reg nghd QCOM_MAC_CTRL1;
          data = data AND NOT QCOM_RETRY_POS;
          retry = push_bit QCOM_RETRY_LSB retry;
          data = data OR retry
      in hal_write_reg nghd QCOM_MAC_CTRL1 data)"

definition qcom_set_prlen :: "'a nss_gmac_hal_dev_scheme \<Rightarrow> u32 \<Rightarrow> 'a nss_gmac_hal_dev_scheme" where
  "qcom_set_prlen nghd prlen =
     (let data = hal_read_reg nghd QCOM_MAC_CTRL1;
          data = data AND NOT QCOM_PRLEN_POS;
          prlen = push_bit QCOM_PRLEN_LSB prlen;
          data = data OR prlen
      in hal_write_reg nghd QCOM_MAC_CTRL1 data)"

definition qcom_set_ppad :: "'a nss_gmac_hal_dev_scheme \<Rightarrow> 'a nss_gmac_hal_dev_scheme" where
  "qcom_set_ppad nghd = hal_set_reg_bits nghd QCOM_MAC_CTRL1 QCOM_PPAD"

definition qcom_reset_ppad :: "'a nss_gmac_hal_dev_scheme \<Rightarrow> 'a nss_gmac_hal_dev_scheme" where
  "qcom_reset_ppad nghd = hal_clear_reg_bits nghd QCOM_MAC_CTRL1 QCOM_PPAD"

definition qcom_set_povr :: "'a nss_gmac_hal_dev_scheme \<Rightarrow> 'a nss_gmac_hal_dev_scheme" where
  "qcom_set_povr nghd = hal_set_reg_bits nghd QCOM_MAC_CTRL1 QCOM_POVR"

definition qcom_reset_povr :: "'a nss_gmac_hal_dev_scheme \<Rightarrow> 'a nss_gmac_hal_dev_scheme" where
  "qcom_reset_povr nghd = hal_clear_reg_bits nghd QCOM_MAC_CTRL1 QCOM_POVR"

definition qcom_set_phug :: "'a nss_gmac_hal_dev_scheme \<Rightarrow> 'a nss_gmac_hal_dev_scheme" where
  "qcom_set_phug nghd = hal_set_reg_bits nghd QCOM_MAC_CTRL1 QCOM_PHUG"

definition qcom_reset_phug :: "'a nss_gmac_hal_dev_scheme \<Rightarrow> 'a nss_gmac_hal_dev_scheme" where
  "qcom_reset_phug nghd = hal_clear_reg_bits nghd QCOM_MAC_CTRL1 QCOM_PHUG"

definition qcom_set_mbof :: "'a nss_gmac_hal_dev_scheme \<Rightarrow> 'a nss_gmac_hal_dev_scheme" where
  "qcom_set_mbof nghd = hal_set_reg_bits nghd QCOM_MAC_CTRL1 QCOM_MBOF"

definition qcom_reset_mbof :: "'a nss_gmac_hal_dev_scheme \<Rightarrow> 'a nss_gmac_hal_dev_scheme" where
  "qcom_reset_mbof nghd = hal_clear_reg_bits nghd QCOM_MAC_CTRL1 QCOM_MBOF"

definition qcom_set_lcol :: "'a nss_gmac_hal_dev_scheme \<Rightarrow> u32 \<Rightarrow> 'a nss_gmac_hal_dev_scheme" where
  "qcom_set_lcol nghd lcol =
     (let data = hal_read_reg nghd QCOM_MAC_CTRL1;
          data = data AND NOT QCOM_LCOL_POS;
          lcol = push_bit QCOM_LCOL_LSB lcol;
          data = data OR lcol
      in hal_write_reg nghd QCOM_MAC_CTRL1 data)"

definition qcom_set_long_jam :: "'a nss_gmac_hal_dev_scheme \<Rightarrow> 'a nss_gmac_hal_dev_scheme" where
  "qcom_set_long_jam nghd = hal_set_reg_bits nghd QCOM_MAC_CTRL1 QCOM_LONG_JAM"

definition qcom_reset_long_jam :: "'a nss_gmac_hal_dev_scheme \<Rightarrow> 'a nss_gmac_hal_dev_scheme" where
  "qcom_reset_long_jam nghd = hal_clear_reg_bits nghd QCOM_MAC_CTRL1 QCOM_LONG_JAM"

definition qcom_set_ipg_dec_len :: "'a nss_gmac_hal_dev_scheme \<Rightarrow> 'a nss_gmac_hal_dev_scheme" where
  "qcom_set_ipg_dec_len nghd = hal_set_reg_bits nghd QCOM_MAC_CTRL2 QCOM_IPG_DEC_LEN"

definition qcom_reset_ipg_dec_len :: "'a nss_gmac_hal_dev_scheme \<Rightarrow> 'a nss_gmac_hal_dev_scheme" where
  "qcom_reset_ipg_dec_len nghd = hal_clear_reg_bits nghd QCOM_MAC_CTRL2 QCOM_IPG_DEC_LEN"

definition qcom_set_ctrl2_test_pause :: "'a nss_gmac_hal_dev_scheme \<Rightarrow> 'a nss_gmac_hal_dev_scheme" where
  "qcom_set_ctrl2_test_pause nghd = hal_set_reg_bits nghd QCOM_MAC_CTRL2 QCOM_TEST_PAUSE"

definition qcom_reset_ctrl2_test_pause :: "'a nss_gmac_hal_dev_scheme \<Rightarrow> 'a nss_gmac_hal_dev_scheme" where
  "qcom_reset_ctrl2_test_pause nghd = hal_clear_reg_bits nghd QCOM_MAC_CTRL2 QCOM_TEST_PAUSE"

definition qcom_set_mac_loopback :: "'a nss_gmac_hal_dev_scheme \<Rightarrow> 'a nss_gmac_hal_dev_scheme" where
  "qcom_set_mac_loopback nghd = hal_set_reg_bits nghd QCOM_MAC_CTRL2 QCOM_MAC_LOOPBACK"

definition qcom_reset_mac_loopback :: "'a nss_gmac_hal_dev_scheme \<Rightarrow> 'a nss_gmac_hal_dev_scheme" where
  "qcom_reset_mac_loopback nghd = hal_clear_reg_bits nghd QCOM_MAC_CTRL2 QCOM_MAC_LOOPBACK"

definition qcom_set_ipg_dec :: "'a nss_gmac_hal_dev_scheme \<Rightarrow> 'a nss_gmac_hal_dev_scheme" where
  "qcom_set_ipg_dec nghd = hal_set_reg_bits nghd QCOM_MAC_CTRL2 QCOM_IPG_DEC"

definition qcom_reset_ipg_dec :: "'a nss_gmac_hal_dev_scheme \<Rightarrow> 'a nss_gmac_hal_dev_scheme" where
  "qcom_reset_ipg_dec nghd = hal_clear_reg_bits nghd QCOM_MAC_CTRL2 QCOM_IPG_DEC"

definition qcom_set_crs_sel :: "'a nss_gmac_hal_dev_scheme \<Rightarrow> 'a nss_gmac_hal_dev_scheme" where
  "qcom_set_crs_sel nghd = hal_set_reg_bits nghd QCOM_MAC_CTRL2 QCOM_SRS_SEL"

definition qcom_reset_crs_sel :: "'a nss_gmac_hal_dev_scheme \<Rightarrow> 'a nss_gmac_hal_dev_scheme" where
  "qcom_reset_crs_sel nghd = hal_clear_reg_bits nghd QCOM_MAC_CTRL2 QCOM_SRS_SEL"

definition qcom_set_crc_rsv :: "'a nss_gmac_hal_dev_scheme \<Rightarrow> 'a nss_gmac_hal_dev_scheme" where
  "qcom_set_crc_rsv nghd = hal_set_reg_bits nghd QCOM_MAC_CTRL2 QCOM_CRC_RSV"

definition qcom_reset_crc_rsv :: "'a nss_gmac_hal_dev_scheme \<Rightarrow> 'a nss_gmac_hal_dev_scheme" where
  "qcom_reset_crc_rsv nghd = hal_clear_reg_bits nghd QCOM_MAC_CTRL2 QCOM_CRC_RSV"

definition qcom_set_ipgr1 :: "'a nss_gmac_hal_dev_scheme \<Rightarrow> u32 \<Rightarrow> 'a nss_gmac_hal_dev_scheme" where
  "qcom_set_ipgr1 nghd ipgr1 =
     (let data = hal_read_reg nghd QCOM_MAC_DBG_CTRL;
          data = data AND NOT QCOM_DBG_IPGR1_POS;
          ipgr1 = push_bit QCOM_DBG_IPGR1_LSB ipgr1;
          data = data OR ipgr1
      in hal_write_reg nghd QCOM_MAC_DBG_CTRL data)"

definition qcom_set_hihg_ipg :: "'a nss_gmac_hal_dev_scheme \<Rightarrow> u32 \<Rightarrow> 'a nss_gmac_hal_dev_scheme" where
  "qcom_set_hihg_ipg nghd hihg_ipg =
     (let data = hal_read_reg nghd QCOM_MAC_DBG_CTRL;
          data = data AND NOT QCOM_DBG_HIHG_IPG_POS;
          data = data OR push_bit QCOM_DBG_HIHG_IPG_LSB hihg_ipg
      in hal_write_reg nghd QCOM_MAC_DBG_CTRL data)"

definition qcom_set_mac_ipg_ctrl :: "'a nss_gmac_hal_dev_scheme \<Rightarrow> u32 \<Rightarrow> 'a nss_gmac_hal_dev_scheme" where
  "qcom_set_mac_ipg_ctrl nghd mac_ipg_ctrl =
     (let data = hal_read_reg nghd QCOM_MAC_DBG_CTRL;
          data = data AND NOT QCOM_DBG_MAC_IPG_CTRL_POS;
          data = data OR push_bit QCOM_DBG_MAC_IPG_CTRL_LSB mac_ipg_ctrl
      in hal_write_reg nghd QCOM_MAC_DBG_CTRL data)"

definition qcom_set_mac_len_ctrl :: "'a nss_gmac_hal_dev_scheme \<Rightarrow> 'a nss_gmac_hal_dev_scheme" where
  "qcom_set_mac_len_ctrl nghd = hal_set_reg_bits nghd QCOM_MAC_DBG_CTRL QCOM_DBG_MAC_LEN_CTRL"

definition qcom_reset_mac_len_ctrl :: "'a nss_gmac_hal_dev_scheme \<Rightarrow> 'a nss_gmac_hal_dev_scheme" where
  "qcom_reset_mac_len_ctrl nghd = hal_clear_reg_bits nghd QCOM_MAC_DBG_CTRL QCOM_DBG_MAC_LEN_CTRL"

definition qcom_set_edxsdfr_transmit :: "'a nss_gmac_hal_dev_scheme \<Rightarrow> 'a nss_gmac_hal_dev_scheme" where
  "qcom_set_edxsdfr_transmit nghd = hal_set_reg_bits nghd QCOM_MAC_DBG_CTRL QCOM_DBG_EDxSDFR_TRANS"

definition qcom_reset_edxsdfr_transmit :: "'a nss_gmac_hal_dev_scheme \<Rightarrow> 'a nss_gmac_hal_dev_scheme" where
  "qcom_reset_edxsdfr_transmit nghd = hal_clear_reg_bits nghd QCOM_MAC_DBG_CTRL QCOM_DBG_EDxSDFR_TRANS"

definition qcom_set_mac_dbg_addr :: "'a nss_gmac_hal_dev_scheme \<Rightarrow> u8 \<Rightarrow> 'a nss_gmac_hal_dev_scheme" where
  "qcom_set_mac_dbg_addr nghd mac_dbg_addr = hal_write_reg nghd QCOM_MAC_DBG_ADDR (ucast mac_dbg_addr)"

definition qcom_set_mac_dbg_data :: "'a nss_gmac_hal_dev_scheme \<Rightarrow> u32 \<Rightarrow> 'a nss_gmac_hal_dev_scheme" where
  "qcom_set_mac_dbg_data nghd mac_dbg_data = hal_write_reg nghd QCOM_MAC_DBG_DATA mac_dbg_data"

definition qcom_set_mac_jumbosize :: "'a nss_gmac_hal_dev_scheme \<Rightarrow> u16 \<Rightarrow> 'a nss_gmac_hal_dev_scheme" where
  "qcom_set_mac_jumbosize nghd mac_jumbo_size = hal_write_reg nghd QCOM_MAC_JMB_SIZE (ucast mac_jumbo_size)"

definition qcom_clear_mib_ctrl :: "'a nss_gmac_hal_dev_scheme \<Rightarrow> 'a nss_gmac_hal_dev_scheme" where
  "qcom_clear_mib_ctrl nghd = hal_write_reg nghd QCOM_MAC_MIB_CTRL 0"

definition qcom_set_mib_ctrl :: "'a nss_gmac_hal_dev_scheme \<Rightarrow> u32 \<Rightarrow> 'a nss_gmac_hal_dev_scheme" where
  "qcom_set_mib_ctrl nghd mib_settings = hal_set_reg_bits nghd QCOM_MAC_MIB_CTRL mib_settings"

text \<open>\<open>fal_mib_counter_get(0, mac_id, stats)\<close> returns a code and fills the block.\<close>

definition qcom_get_stats ::
  "(u32 \<Rightarrow> int \<times> (qcom_mib \<Rightarrow> 'c)) \<Rightarrow> 'c qcom_hal_dev \<Rightarrow> int \<times> 'c qcom_hal_dev" where
  "qcom_get_stats fal_mib_counter_get qhd =
     (let (ret, stats) = fal_mib_counter_get (nghd_mac_id qhd);
          qhd = qhd\<lparr>qhd_stats := stats\<rparr>
      in if ret < 0 then (-1, qhd) else (0, qhd))"

section \<open>HAL operations\<close>

definition qcom_gstrings_stats :: "(string \<times> qcom_mib) list" where
  "qcom_gstrings_stats =
     [(''rx_broadcast'', RxBroad),
      (''rx_pause'', RxPause),
      (''rx_unicast'', RxUniCast),
      (''rx_multicast'', RxMulti),
      (''rx_fcserr'', RxFcsErr),
      (''rx_alignerr'', RxAllignErr),
      (''rx_runt'', RxRunt),
      (''rx_frag'', RxFragment),
      (''rx_jmbfcserr'', RxJumboFcsErr),
      (''rx_jmbalignerr'', RxJumboAligenErr),
      (''rx_pkt64'', Rx64Byte),
      (''rx_pkt65to127'', Rx128Byte),
      (''rx_pkt128to255'', Rx256Byte),
      (''rx_pkt256to511'', Rx512Byte),
      (''rx_pkt512to1023'', Rx1024Byte),
      (''rx_pkt1024to1518'', Rx1518Byte),
      (''rx_pkt1519tox'', RxMaxByte),
      (''rx_toolong'', RxTooLong),
      (''rx_pktgoodbyte'', RxGoodByte),
      (''rx_pktbadbyte'', RxBadByte),
      (''rx_overflow'', RxOverFlow),
      (''tx_broadcast'', TxBroad),
      (''tx_pause'', TxPause),
      (''tx_multicast'', TxMulti),
      (''tx_underrun'', TxUnderRun),
      (''tx_pkt64'', Tx64Byte),
      (''tx_pkt65to127'', Tx128Byte),
      (''tx_pkt128to255'', Tx256Byte),
      (''tx_pkt256to511'', Tx512Byte),
      (''tx_pkt512to1023'', Tx1024Byte),
      (''tx_pkt1024to1518'', Tx1518Byte),
      (''tx_pkt1519tox'', TxMaxByte),
      (''tx_oversize'', TxOverSize),
      (''tx_pktbyte_h'', TxByte),
      (''tx_collisions'', TxCollision),
      (''tx_abortcol'', TxAbortCol),
      (''tx_multicol'', TxMultiCol),
      (''tx_singlecol'', TxSingalCol),
      (''tx_exesdeffer'', TxExcDefer),
      (''tx_deffer'', TxDefer),
      (''tx_latecol'', TxLateCol),
      (''tx_unicast'', TxUniCast)]"

definition qcom_strings_priv_flags :: "string list" where
  "qcom_strings_priv_flags = [''linkpoll'', ''tstamp'', ''tsmode'']"

definition QCOM_STATS_LEN :: nat where
  "QCOM_STATS_LEN = length qcom_gstrings_stats"

definition QCOM_PRIV_FLAGS_LEN :: nat where
  "QCOM_PRIV_FLAGS_LEN = length qcom_strings_priv_flags"

text \<open>Deprecated entry points: they warn and return 0.\<close>

definition qcom_set_mac_speed :: "'a nss_gmac_hal_dev_scheme \<Rightarrow> u32 \<Rightarrow> int" where
  "qcom_set_mac_speed nghd mac_speed = 0"

definition qcom_get_mac_speed :: "'a nss_gmac_hal_dev_scheme \<Rightarrow> u32" where
  "qcom_get_mac_speed nghd = 0"

definition qcom_set_duplex_mode :: "'a nss_gmac_hal_dev_scheme \<Rightarrow> u8 \<Rightarrow> 'a nss_gmac_hal_dev_scheme" where
  "qcom_set_duplex_mode nghd duplex_mode = nghd"

definition qcom_get_duplex_mode :: "'a nss_gmac_hal_dev_scheme \<Rightarrow> u8" where
  "qcom_get_duplex_mode nghd = 0"

definition qcom_rx_flow_control :: "'a nss_gmac_hal_dev_scheme \<Rightarrow> bool \<Rightarrow> 'a nss_gmac_hal_dev_scheme" where
  "qcom_rx_flow_control nghd enabled =
     (if enabled then qcom_set_rx_flow_ctrl nghd else qcom_clear_rx_flow_ctrl nghd)"

definition qcom_tx_flow_control :: "'a nss_gmac_hal_dev_scheme \<Rightarrow> bool \<Rightarrow> 'a nss_gmac_hal_dev_scheme" where
  "qcom_tx_flow_control nghd enabled =
     (if enabled then qcom_set_tx_flow_ctrl nghd else qcom_clear_tx_flow_ctrl nghd)"

definition qcom_get_mib_stats ::
  "(u32 \<Rightarrow> int \<times> (qcom_mib \<Rightarrow> 'c)) \<Rightarrow> 'c qcom_hal_dev \<Rightarrow> int \<times> 'c qcom_hal_dev" where
  "qcom_get_mib_stats fal_mib_counter_get qhd =
     (let (ret, qhd) = qcom_get_stats fal_mib_counter_get qhd
      in if ret \<noteq> 0 then (-1, qhd) else (0, qhd))"

text \<open>The frame size lives in the switch driver too.\<close>

definition qcom_set_maxframe :: "(u32 \<Rightarrow> u32 \<Rightarrow> int) \<Rightarrow> 'a nss_gmac_hal_dev_scheme \<Rightarrow> u32 \<Rightarrow> int" where
  "qcom_set_maxframe fal_port_max_frame_size_set nghd maxframe =
     fal_port_max_frame_size_set (nghd_mac_id nghd) maxframe"

definition qcom_get_maxframe :: "(u32 \<Rightarrow> int \<times> u32) \<Rightarrow> 'a nss_gmac_hal_dev_scheme \<Rightarrow> int" where
  "qcom_get_maxframe fal_port_max_frame_size_get nghd =
     (let (ret, mtu) = fal_port_max_frame_size_get (nghd_mac_id nghd)
      in if ret = 0 then sint mtu else ret)"

definition qcom_get_netdev_stats ::
  "(u32 \<Rightarrow> int \<times> (qcom_mib \<Rightarrow> 'c::len word)) \<Rightarrow> 'c word qcom_hal_dev \<Rightarrow> rtnl_link_stats64
     \<Rightarrow> int \<times> 'c word qcom_hal_dev \<times> rtnl_link_stats64" where
  "qcom_get_netdev_stats fal_mib_counter_get qhd stats =
     (let (ret, qhd) = qcom_get_mib_stats fal_mib_counter_get qhd; hal_stats = qhd_stats qhd
      in if ret \<noteq> 0 then (-1, qhd, stats)
         else
          (let stats = stats\<lparr>
             st_rx_packets := ucast (hal_stats RxUniCast + hal_stats RxBroad + hal_stats RxMulti),
             st_tx_packets := ucast (hal_stats TxUniCast + hal_stats TxBroad + hal_stats TxMulti),
             st_rx_bytes := ucast (hal_stats RxGoodByte),
             st_tx_bytes := ucast (hal_stats TxByte),
             st_rx_crc_errors := ucast (hal_stats RxFcsErr + hal_stats RxJumboFcsErr),
             st_rx_frame_errors := ucast (hal_stats RxAllignErr + hal_stats RxJumboAligenErr),
             st_rx_fifo_errors := ucast (hal_stats RxRunt)\<rparr>;
             stats = stats\<lparr>st_rx_errors :=
               st_rx_crc_errors stats + st_rx_frame_errors stats + st_rx_fifo_errors stats\<rparr>;
             stats = stats\<lparr>
             st_rx_dropped := ucast (hal_stats RxTooLong) + st_rx_errors stats,
             st_tx_fifo_errors := ucast (hal_stats TxUnderRun),
             st_tx_aborted_errors := ucast (hal_stats TxAbortCol)\<rparr>;
             stats = stats\<lparr>
             st_tx_errors := st_tx_fifo_errors stats + st_tx_aborted_errors stats,
             st_collisions := ucast (hal_stats TxCollision),
             st_multicast := ucast (hal_stats RxMulti)\<rparr>
           in (0, qhd, stats)))"

definition qcom_get_strset_count :: "'a nss_gmac_hal_dev_scheme \<Rightarrow> eth_ss \<Rightarrow> errno + nat" where
  "qcom_get_strset_count nghd sset =
     (case sset of ETH_SS_STATS \<Rightarrow> Inr QCOM_STATS_LEN
      | ETH_SS_PRIV_FLAGS \<Rightarrow> Inr QCOM_PRIV_FLAGS_LEN
      | ETH_SS_OTHER \<Rightarrow> Inl EPERM)"

text \<open>
  \<open>len\<close> is \<open>ETH_GSTRING_LEN\<close>; the buffer is the caller's. The status comes with the
  buffer's new contents.
\<close>

definition qcom_get_strings ::
  "nat \<Rightarrow> 'a nss_gmac_hal_dev_scheme \<Rightarrow> eth_ss \<Rightarrow> string \<Rightarrow> (status \<times> string) result" where
  "qcom_get_strings len nghd sset data =
     (case sset of
        ETH_SS_STATS \<Rightarrow>
          bindR (copy_cells len (map fst qcom_gstrings_stats) 0 data) (\<lambda>data. Inr (Success, data))
      | ETH_SS_PRIV_FLAGS \<Rightarrow>
          bindR (copy_cells len qcom_strings_priv_flags 0 data) (\<lambda>data. Inr (Success, data))
      | ETH_SS_OTHER \<Rightarrow> Inr (Errno EPERM, data))"

text \<open>
  Each value is read through a 32-bit pointer to the counter: its low 32 bits on the
  little-endian targets of this driver.
\<close>

definition qcom_get_eth_stats ::
  "(u32 \<Rightarrow> int \<times> (qcom_mib \<Rightarrow> 'c::len word)) \<Rightarrow> 'c word qcom_hal_dev \<Rightarrow> u64 list
     \<Rightarrow> (int \<times> 'c word qcom_hal_dev \<times> u64 list) result" where
  "qcom_get_eth_stats fal_mib_counter_get qhd data =
     (let (ret, qhd) = qcom_get_mib_stats fal_mib_counter_get qhd
      in if ret \<noteq> 0 then Inr (-1, qhd, data)
         else bindR (memcpy_at data 0
                (map (\<lambda>(str, m). ucast (ucast (qhd_stats qhd m) :: u32)) qcom_gstrings_stats))
              (\<lambda>data. Inr (0, qhd, data)))"

definition qcom_send_pause_frame :: "'a nss_gmac_hal_dev_scheme \<Rightarrow> 'a nss_gmac_hal_dev_scheme" where
  "qcom_send_pause_frame nghd = qcom_set_ctrl2_test_pause nghd"

definition qcom_stop_pause_frame :: "'a nss_gmac_hal_dev_scheme \<Rightarrow> 'a nss_gmac_hal_dev_scheme" where
  "qcom_stop_pause_frame nghd = qcom_reset_ctrl2_test_pause nghd"

text \<open>\<open>speed\<close> is \<open>SPEED_1000\<close>.\<close>

definition qcom_start :: "u32 \<Rightarrow> 'a nss_gmac_hal_dev_scheme \<Rightarrow> int \<times> 'a nss_gmac_hal_dev_scheme" where
  "qcom_start speed nghd =
     (let nghd = qcom_set_full_duplex nghd
      in if qcom_set_mac_speed nghd speed \<noteq> 0 then (-1, nghd)
         else (let nghd = qcom_tx_enable nghd; nghd = qcom_rx_enable nghd in (0, nghd)))"

definition qcom_stop :: "'a nss_gmac_hal_dev_scheme \<Rightarrow> int \<times> 'a nss_gmac_hal_dev_scheme" where
  "qcom_stop nghd = (let nghd = qcom_tx_disable nghd; nghd = qcom_rx_disable nghd in (0, nghd))"

text \<open>
  The result is the new context, or NULL. \<open>z\<close> is the zeroed counter block; a failed MIB
  flush is only reported.
\<close>

definition qcom_init ::
  "plat_env \<Rightarrow> (qcom_mib \<Rightarrow> 'c) \<Rightarrow> gmac_hal_platform_data \<Rightarrow> 'c qcom_hal_dev option" where
  "qcom_init env z gmacpdata =
     (case pe_resource env of
        None \<Rightarrow> None
      | Some res \<Rightarrow>
          if pe_request_mem_region env = None then None
          else if \<not> pe_kzalloc env then None
          else
           (let qhd = nss_gmac_hal_dev.extend (kzalloc_nghd (pe_window env)) (qcom_hal_dev.fields z);
                qhd = qhd\<lparr>nghd_netdev := pd_netdev gmacpdata\<rparr>;
                qhd = qhd\<lparr>nghd_mac_id := pd_macid gmacpdata\<rparr>;
                qhd = qhd\<lparr>nghd_mac_base := pe_ioremap env\<rparr>
            in if nghd_mac_base qhd = 0 then None else Some qhd))"

definition qcom_get_mac_address :: "'a nss_gmac_hal_dev_scheme \<Rightarrow> eth_addr" where
  "qcom_get_mac_address nghd =
     (let data = hal_read_reg nghd QCOM_MAC_ADDR0;
          m5 = ucast (drop_bit 8 data AND 0xff);
          m4 = ucast (data AND 0xff);
          data = hal_read_reg nghd QCOM_MAC_ADDR1;
          m0 = ucast (drop_bit 24 data AND 0xff);
          m1 = ucast (drop_bit 16 data AND 0xff);
          m2 = ucast (drop_bit 8 data AND 0xff);
          m3 = ucast (data AND 0xff)
      in Eth m0 m1 m2 m3 m4 m5)"

fun qcom_set_mac_address :: "'a nss_gmac_hal_dev_scheme \<Rightarrow> eth_addr \<Rightarrow> 'a nss_gmac_hal_dev_scheme" where
  "qcom_set_mac_address nghd (Eth m0 m1 m2 m3 m4 m5) =
     (let data = push_bit 8 (ucast m5) OR ucast m4;
          nghd = hal_write_reg nghd QCOM_MAC_ADDR0 data;
          data = push_bit 24 (ucast m0) OR push_bit 16 (ucast m1)
                   OR push_bit 8 (ucast m2) OR ucast m3
      in hal_write_reg nghd QCOM_MAC_ADDR1 data)"

section \<open>Correctness\<close>

lemmas qcom_mac_ops =
  qcom_set_full_duplex_def qcom_tx_enable_def qcom_rx_enable_def
  qcom_tx_disable_def qcom_rx_disable_def qcom_set_mac_speed_def
  qcom_set_rx_flow_ctrl_def qcom_clear_rx_flow_ctrl_def
  qcom_set_tx_flow_ctrl_def qcom_clear_tx_flow_ctrl_def

interpretation qcom_addr: mac_addr_unit
  "\<lambda>(d :: 'a nss_gmac_hal_dev_scheme) a. Inr (qcom_set_mac_address d a)"
  "\<lambda>d. Inr (qcom_get_mac_address d)"
proof
  fix d :: "'a nss_gmac_hal_dev_scheme" and a
  show "bindR (Inr (qcom_set_mac_address d a)) (\<lambda>d. Inr (qcom_get_mac_address d)) = Inr a"
    using unpack2_8 [of 0] unpack2_0 [of 0]
    by (cases a) (simp add: qcom_get_mac_address_def hal_simps Let_def
                            unpack4_24 unpack4_16 unpack4_8 unpack4_0
                       del: drop_bit_or)
qed

definition qcom_string_table :: "eth_ss \<Rightarrow> string list option" where
  "qcom_string_table ss =
     (case ss of ETH_SS_STATS \<Rightarrow> Some (map fst qcom_gstrings_stats)
      | ETH_SS_PRIV_FLAGS \<Rightarrow> Some qcom_strings_priv_flags | ETH_SS_OTHER \<Rightarrow> None)"

interpretation qcom_str: string_sets qcom_string_table "qcom_get_strset_count nghd"
  "\<lambda>len. qcom_get_strings len nghd" "\<lambda>len x. x" 16
proof
  fix ss xs x
  assume "qcom_string_table ss = Some xs" "x \<in> set xs"
  then show "length x \<le> 16"
    by (cases ss) (auto simp: qcom_string_table_def qcom_gstrings_stats_def qcom_strings_priv_flags_def)
qed (auto simp: qcom_string_table_def qcom_get_strset_count_def qcom_get_strings_def
       QCOM_STATS_LEN_def QCOM_PRIV_FLAGS_LEN_def split: eth_ss.splits)

lemma qcom_enable_other:
  assumes "r \<noteq> QCOM_MAC_ENABLE"
  shows "hal_read_reg (snd (qcom_start speed nghd)) r = hal_read_reg nghd r"
    and "hal_read_reg (snd (qcom_stop nghd)) r = hal_read_reg nghd r"
  using assms by (simp_all add: qcom_start_def qcom_stop_def qcom_mac_ops hal_simps)

lemma qcom_start_enable:
  "hal_read_reg (snd (qcom_start speed nghd)) QCOM_MAC_ENABLE
     = (hal_read_reg nghd QCOM_MAC_ENABLE OR (QCOM_DUPLEX OR QCOM_TX_MAC_ENABLE OR QCOM_RX_MAC_ENABLE))"
  by (simp add: qcom_start_def qcom_mac_ops hal_simps, subst or_chain3, simp)

lemma qcom_stop_enable:
  "hal_read_reg (snd (qcom_stop nghd)) QCOM_MAC_ENABLE
     = (hal_read_reg nghd QCOM_MAC_ENABLE AND NOT (QCOM_TX_MAC_ENABLE OR QCOM_RX_MAC_ENABLE))"
  by (simp add: qcom_stop_def qcom_mac_ops hal_simps, subst and_chain2, simp)
end
