(* ===== verification/Syn_Xgmac.thy ===== *)
theory Syn_Xgmac
  imports Hal_If
begin

text \<open>
  The Synopsys 10G MAC: the bit helpers of \<open>syn/xgmac/syn_dev.h\<close> and the HAL operations of
  \<open>syn/xgmac/syn_if.c\<close>. The operations take a pointer to the context and stop the machine on
  NULL. The counter block is filled by the switch driver (\<open>fal_get_xgmib_info\<close>, an argument),
  keyed by the field names this code uses and generic in the width of a counter.
\<close>

section \<open>Registers\<close>

abbreviation (input) SYN_MAC_RX_FLOW_CTL :: u32 where "SYN_MAC_RX_FLOW_CTL \<equiv> 0x0090"
abbreviation (input) SYN_MAC_RX_FLOW_ENABLE :: u32 where "SYN_MAC_RX_FLOW_ENABLE \<equiv> 0x00000001"
abbreviation (input) SYN_MAC_Q0_TX_FLOW_CTL :: u32 where "SYN_MAC_Q0_TX_FLOW_CTL \<equiv> 0x0070"
abbreviation (input) SYN_MAC_TX_FLOW_ENABLE :: u32 where "SYN_MAC_TX_FLOW_ENABLE \<equiv> 0x00000002"
abbreviation (input) SYN_MAC_TX_PAUSE_SEND :: u32 where "SYN_MAC_TX_PAUSE_SEND \<equiv> 0x00000001"
abbreviation (input) SYN_MAC_TX_CONFIG :: u32 where "SYN_MAC_TX_CONFIG \<equiv> 0x0000"
abbreviation (input) SYN_MAC_RX_CONFIG :: u32 where "SYN_MAC_RX_CONFIG \<equiv> 0x0004"
abbreviation (input) SYN_MAC_RX_ENABLE :: u32 where "SYN_MAC_RX_ENABLE \<equiv> 0x00000001"
abbreviation (input) SYN_MAC_PACKET_FILTER :: u32 where "SYN_MAC_PACKET_FILTER \<equiv> 0x0008"
abbreviation (input) SYN_MAC_TX_ENABLE :: u32 where "SYN_MAC_TX_ENABLE \<equiv> 0x00000001"
abbreviation (input) SYN_MAC_MMC_CTL :: u32 where "SYN_MAC_MMC_CTL \<equiv> 0x0800"
abbreviation (input) SYN_MAC_MMC_RSTONRD :: u32 where "SYN_MAC_MMC_RSTONRD \<equiv> 0x00000004"
abbreviation (input) SYN_MAC_JUMBO_FRAME_ENABLE :: u32 where "SYN_MAC_JUMBO_FRAME_ENABLE \<equiv> 0x00000100"
abbreviation (input) SYN_MAC_ADDR0_HIGH :: u32 where "SYN_MAC_ADDR0_HIGH \<equiv> 0x0300"
abbreviation (input) SYN_MAC_ADDR0_LOW :: u32 where "SYN_MAC_ADDR0_LOW \<equiv> 0x0304"
abbreviation (input) SYN_MAC_ADDR_RSVD_BIT :: u32 where "SYN_MAC_ADDR_RSVD_BIT \<equiv> 0x80000000"

section \<open>Device helpers\<close>

datatype (plugins only: size) fal_xgmib =
    XG_RxFrame | XG_RxByte | XG_RxByteGood | XG_RxBroadGood | XG_RxMultiGood |
    XG_RxFcsErr | XG_RxRuntErr | XG_RxJabberError | XG_RxUndersizeGood |
    XG_RxOversizeGood | XG_Rx64Byte | XG_Rx128Byte | XG_Rx256Byte | XG_Rx512Byte |
    XG_Rx1024Byte | XG_RxMaxByte | XG_RxUnicastGood | XG_RxLengthError |
    XG_RxOutOfRangeError | XG_RxPause | XG_RxOverFlow | XG_RxVLANFrameGoodBad |
    XG_RxWatchDogError | XG_RxLPIUsec | XG_RxLPITran | XG_RxDropFrameGoodBad |
    XG_RxDropByteGoodBad | XG_TxByte | XG_TxFrame | XG_TxBroadGood | XG_TxBroad |
    XG_TxMultiGood | XG_TxMulti | XG_Tx64Byte | XG_Tx128Byte | XG_Tx256Byte |
    XG_Tx512Byte | XG_Tx1024Byte | XG_TxMaxByte | XG_TxUnicast | XG_TxUnderFlowError |
    XG_TxByteGood | XG_TxFrameGood | XG_TxPause | XG_TxVLANFrameGood | XG_TxLPIUsec |
    XG_TxLPITran

record 'c syn_hal_dev = nss_gmac_hal_dev +
  shd_stats :: "fal_xgmib \<Rightarrow> 'c"

definition syn_set_rx_flow_ctrl :: "'a nss_gmac_hal_dev_scheme \<Rightarrow> 'a nss_gmac_hal_dev_scheme" where
  "syn_set_rx_flow_ctrl nghd = hal_set_reg_bits nghd SYN_MAC_RX_FLOW_CTL SYN_MAC_RX_FLOW_ENABLE"

definition syn_clear_rx_flow_ctrl :: "'a nss_gmac_hal_dev_scheme \<Rightarrow> 'a nss_gmac_hal_dev_scheme" where
  "syn_clear_rx_flow_ctrl nghd = hal_clear_reg_bits nghd SYN_MAC_RX_FLOW_CTL SYN_MAC_RX_FLOW_ENABLE"

definition syn_set_tx_flow_ctrl :: "'a nss_gmac_hal_dev_scheme \<Rightarrow> 'a nss_gmac_hal_dev_scheme" where
  "syn_set_tx_flow_ctrl nghd = hal_set_reg_bits nghd SYN_MAC_Q0_TX_FLOW_CTL SYN_MAC_TX_FLOW_ENABLE"

definition syn_send_tx_pause_frame :: "'a nss_gmac_hal_dev_scheme \<Rightarrow> 'a nss_gmac_hal_dev_scheme" where
  "syn_send_tx_pause_frame nghd =
     (let nghd = hal_set_reg_bits nghd SYN_MAC_Q0_TX_FLOW_CTL SYN_MAC_TX_FLOW_ENABLE
      in hal_set_reg_bits nghd SYN_MAC_Q0_TX_FLOW_CTL SYN_MAC_TX_PAUSE_SEND)"

definition syn_clear_tx_flow_ctrl :: "'a nss_gmac_hal_dev_scheme \<Rightarrow> 'a nss_gmac_hal_dev_scheme" where
  "syn_clear_tx_flow_ctrl nghd = hal_clear_reg_bits nghd SYN_MAC_Q0_TX_FLOW_CTL SYN_MAC_TX_FLOW_ENABLE"

definition syn_clear_mac_ctrl :: "'a nss_gmac_hal_dev_scheme \<Rightarrow> 'a nss_gmac_hal_dev_scheme" where
  "syn_clear_mac_ctrl nghd =
     (let nghd = hal_write_reg nghd SYN_MAC_TX_CONFIG 0
      in hal_write_reg nghd SYN_MAC_RX_CONFIG 0)"

definition syn_rx_enable :: "'a nss_gmac_hal_dev_scheme \<Rightarrow> 'a nss_gmac_hal_dev_scheme" where
  "syn_rx_enable nghd =
     (let nghd = hal_set_reg_bits nghd SYN_MAC_RX_CONFIG SYN_MAC_RX_ENABLE
      in hal_set_reg_bits nghd SYN_MAC_PACKET_FILTER SYN_MAC_RX_ENABLE)"

definition syn_rx_disable :: "'a nss_gmac_hal_dev_scheme \<Rightarrow> 'a nss_gmac_hal_dev_scheme" where
  "syn_rx_disable nghd = hal_clear_reg_bits nghd SYN_MAC_RX_CONFIG SYN_MAC_RX_ENABLE"

definition syn_tx_enable :: "'a nss_gmac_hal_dev_scheme \<Rightarrow> 'a nss_gmac_hal_dev_scheme" where
  "syn_tx_enable nghd = hal_set_reg_bits nghd SYN_MAC_TX_CONFIG SYN_MAC_TX_ENABLE"

definition syn_tx_disable :: "'a nss_gmac_hal_dev_scheme \<Rightarrow> 'a nss_gmac_hal_dev_scheme" where
  "syn_tx_disable nghd = hal_clear_reg_bits nghd SYN_MAC_TX_CONFIG SYN_MAC_TX_ENABLE"

definition syn_set_mmc_stats :: "'a nss_gmac_hal_dev_scheme \<Rightarrow> 'a nss_gmac_hal_dev_scheme" where
  "syn_set_mmc_stats nghd = hal_set_reg_bits nghd SYN_MAC_MMC_CTL SYN_MAC_MMC_RSTONRD"

definition syn_rx_jumbo_frame_enable :: "'a nss_gmac_hal_dev_scheme \<Rightarrow> 'a nss_gmac_hal_dev_scheme" where
  "syn_rx_jumbo_frame_enable nghd = hal_set_reg_bits nghd SYN_MAC_RX_CONFIG SYN_MAC_JUMBO_FRAME_ENABLE"

definition syn_rx_jumbo_frame_disable :: "'a nss_gmac_hal_dev_scheme \<Rightarrow> 'a nss_gmac_hal_dev_scheme" where
  "syn_rx_jumbo_frame_disable nghd = hal_clear_reg_bits nghd SYN_MAC_RX_CONFIG SYN_MAC_JUMBO_FRAME_ENABLE"

definition syn_set_full_duplex :: "'a nss_gmac_hal_dev_scheme \<Rightarrow> 'a nss_gmac_hal_dev_scheme" where
  "syn_set_full_duplex nghd = nghd"

definition syn_set_half_duplex :: "'a nss_gmac_hal_dev_scheme \<Rightarrow> 'a nss_gmac_hal_dev_scheme" where
  "syn_set_half_duplex nghd = nghd"

text \<open>\<open>fal_get_xgmib_info(0, mac_id, stats)\<close> returns a code and fills the block.\<close>

definition syn_get_stats ::
  "(u32 \<Rightarrow> int \<times> (fal_xgmib \<Rightarrow> 'c)) \<Rightarrow> 'c syn_hal_dev \<Rightarrow> int \<times> 'c syn_hal_dev" where
  "syn_get_stats fal_get_xgmib_info shd =
     (let (ret, stats) = fal_get_xgmib_info (nghd_mac_id shd);
          shd = shd\<lparr>shd_stats := stats\<rparr>
      in if ret \<noteq> 0 then (-1, shd) else (0, shd))"

section \<open>HAL operations\<close>

definition syn_gstrings_stats :: "(string \<times> fal_xgmib) list" where
  "syn_gstrings_stats =
     [(''rx_frame'', XG_RxFrame),
      (''rx_bytes'', XG_RxByte),
      (''rx_bytes_g'', XG_RxByteGood),
      (''rx_broadcast'', XG_RxBroadGood),
      (''rx_multicast'', XG_RxMultiGood),
      (''rx_crc_err'', XG_RxFcsErr),
      (''rx_runt_err'', XG_RxRuntErr),
      (''rx_jabber_err'', XG_RxJabberError),
      (''rx_undersize'', XG_RxUndersizeGood),
      (''rx_oversize'', XG_RxOversizeGood),
      (''rx_pkt64'', XG_Rx64Byte),
      (''rx_pkt65to127'', XG_Rx128Byte),
      (''rx_pkt128to255'', XG_Rx256Byte),
      (''rx_pkt256to511'', XG_Rx512Byte),
      (''rx_pkt512to1023'', XG_Rx1024Byte),
      (''rx_pkt1024tomax'', XG_RxMaxByte),
      (''rx_unicast'', XG_RxUnicastGood),
      (''rx_len_err'', XG_RxLengthError),
      (''rx_outofrange_err_ctr'', XG_RxOutOfRangeError),
      (''rx_pause'', XG_RxPause),
      (''rx_fifo_overflow'', XG_RxOverFlow),
      (''rx_vlan'', XG_RxVLANFrameGoodBad),
      (''rx_wdog'', XG_RxWatchDogError),
      (''rx_lpi_usec_ctr'', XG_RxLPIUsec),
      (''rx_lpi_tran_ctr'', XG_RxLPITran),
      (''rx_drop_frame_ctr'', XG_RxDropFrameGoodBad),
      (''rx_drop_byte_ctr'', XG_RxDropByteGoodBad),
      (''tx_bytes'', XG_TxByte),
      (''tx_frame'', XG_TxFrame),
      (''tx_broadcast'', XG_TxBroadGood),
      (''tx_broadcast_gb'', XG_TxBroad),
      (''tx_multicast'', XG_TxMultiGood),
      (''tx_multicast_gb'', XG_TxMulti),
      (''tx_pkt64'', XG_Tx64Byte),
      (''tx_pkt65to127'', XG_Tx128Byte),
      (''tx_pkt128to255'', XG_Tx256Byte),
      (''tx_pkt256to511'', XG_Tx512Byte),
      (''tx_pkt512to1023'', XG_Tx1024Byte),
      (''tx_pkt1024tomax'', XG_TxMaxByte),
      (''tx_unicast'', XG_TxUnicast),
      (''tx_underflow_err'', XG_TxUnderFlowError),
      (''tx_bytes_g'', XG_TxByteGood),
      (''tx_frame_g'', XG_TxFrameGood),
      (''tx_pause'', XG_TxPause),
      (''tx_vlan'', XG_TxVLANFrameGood),
      (''tx_lpi_usec_ctr'', XG_TxLPIUsec),
      (''tx_lpi_tran_ctr'', XG_TxLPITran)]"

definition syn_strings_priv_flags :: "string list" where
  "syn_strings_priv_flags = [''test'']"

definition SYN_STATS_LEN :: nat where
  "SYN_STATS_LEN = length syn_gstrings_stats"

definition SYN_PRIV_FLAGS_LEN :: nat where
  "SYN_PRIV_FLAGS_LEN = length syn_strings_priv_flags"

definition syn_rx_flow_control ::
  "'a nss_gmac_hal_dev_scheme option \<Rightarrow> bool \<Rightarrow> 'a nss_gmac_hal_dev_scheme result" where
  "syn_rx_flow_control nghd enabled = nonnull nghd (\<lambda>nghd.
     if enabled then syn_set_rx_flow_ctrl nghd else syn_clear_rx_flow_ctrl nghd)"

definition syn_tx_flow_control ::
  "'a nss_gmac_hal_dev_scheme option \<Rightarrow> bool \<Rightarrow> 'a nss_gmac_hal_dev_scheme result" where
  "syn_tx_flow_control nghd enabled = nonnull nghd (\<lambda>nghd.
     if enabled then syn_set_tx_flow_ctrl nghd else syn_clear_tx_flow_ctrl nghd)"

definition syn_get_mmc_stats ::
  "(u32 \<Rightarrow> int \<times> (fal_xgmib \<Rightarrow> 'c)) \<Rightarrow> 'c syn_hal_dev option \<Rightarrow> (int \<times> 'c syn_hal_dev) result" where
  "syn_get_mmc_stats fal_get_xgmib_info nghd = nonnull nghd (\<lambda>nghd.
     let (ret, nghd) = syn_get_stats fal_get_xgmib_info nghd
     in if ret \<noteq> 0 then (-1, nghd) else (0, nghd))"

text \<open>The frame size lives in the switch driver.\<close>

definition syn_get_max_frame_size :: "(u32 \<Rightarrow> int \<times> u32) \<Rightarrow> 'a nss_gmac_hal_dev_scheme \<Rightarrow> int" where
  "syn_get_max_frame_size fal_port_max_frame_size_get nghd =
     (let (ret, mtu) = fal_port_max_frame_size_get (nghd_mac_id nghd)
      in if ret = 0 then sint mtu else ret)"

definition syn_set_max_frame_size :: "(u32 \<Rightarrow> u32 \<Rightarrow> int) \<Rightarrow> 'a nss_gmac_hal_dev_scheme \<Rightarrow> u32 \<Rightarrow> int" where
  "syn_set_max_frame_size fal_port_max_frame_size_set nghd val =
     fal_port_max_frame_size_set (nghd_mac_id nghd) val"

text \<open>Deprecated entry points: they warn and return 0.\<close>

definition syn_set_mac_speed :: "'a nss_gmac_hal_dev_scheme \<Rightarrow> u32 \<Rightarrow> int" where
  "syn_set_mac_speed nghd mac_speed = 0"

definition syn_get_mac_speed :: "'a nss_gmac_hal_dev_scheme \<Rightarrow> u32" where
  "syn_get_mac_speed nghd = 0"

definition syn_set_duplex_mode :: "'a nss_gmac_hal_dev_scheme \<Rightarrow> u8 \<Rightarrow> 'a nss_gmac_hal_dev_scheme" where
  "syn_set_duplex_mode nghd duplex_mode = nghd"

definition syn_get_duplex_mode :: "'a nss_gmac_hal_dev_scheme \<Rightarrow> u8" where
  "syn_get_duplex_mode nghd = 0"

definition syn_get_netdev_stats ::
  "(u32 \<Rightarrow> int \<times> (fal_xgmib \<Rightarrow> 'c::len word)) \<Rightarrow> 'c word syn_hal_dev option \<Rightarrow> rtnl_link_stats64
     \<Rightarrow> (int \<times> 'c word syn_hal_dev \<times> rtnl_link_stats64) result" where
  "syn_get_netdev_stats fal_get_xgmib_info nghd stats = nonnull nghd (\<lambda>shd.
     let (ret, shd) = syn_get_stats fal_get_xgmib_info shd; hal_stats = shd_stats shd
     in if ret \<noteq> 0 then (-1, shd, stats)
        else (0, shd, stats\<lparr>
          st_rx_packets := ucast (hal_stats XG_RxUnicastGood + hal_stats XG_RxBroadGood
                                    + hal_stats XG_RxMultiGood),
          st_tx_packets := ucast (hal_stats XG_TxUnicast + hal_stats XG_TxBroadGood
                                    + hal_stats XG_TxMultiGood),
          st_rx_bytes := ucast (hal_stats XG_RxByte),
          st_tx_bytes := ucast (hal_stats XG_TxByte),
          st_multicast := ucast (hal_stats XG_RxMultiGood),
          st_rx_dropped := ucast (hal_stats XG_RxDropFrameGoodBad),
          st_rx_length_errors := ucast (hal_stats XG_RxLengthError),
          st_rx_crc_errors := ucast (hal_stats XG_RxFcsErr),
          st_rx_fifo_errors := ucast (hal_stats XG_RxOverFlow)\<rparr>))"

text \<open>Each value is read through a 32-bit pointer to the counter: its low 32 bits.\<close>

definition syn_get_eth_stats ::
  "(u32 \<Rightarrow> int \<times> (fal_xgmib \<Rightarrow> 'c::len word)) \<Rightarrow> 'c word syn_hal_dev option \<Rightarrow> u64 list
     \<Rightarrow> (int \<times> 'c word syn_hal_dev \<times> u64 list) result" where
  "syn_get_eth_stats fal_get_xgmib_info nghd data =
     bindR (nonnull nghd (syn_get_stats fal_get_xgmib_info)) (\<lambda>(ret, shd).
       if ret \<noteq> 0 then Inr (-1, shd, data)
       else bindR (memcpy_at data 0
              (map (\<lambda>(str, m). ucast (ucast (shd_stats shd m) :: u32)) syn_gstrings_stats))
            (\<lambda>data. Inr (0, shd, data)))"

definition syn_get_strset_count ::
  "'a nss_gmac_hal_dev_scheme option \<Rightarrow> eth_ss \<Rightarrow> (errno + nat) result" where
  "syn_get_strset_count nghd sset = nonnull nghd (\<lambda>nghd.
     case sset of ETH_SS_STATS \<Rightarrow> Inr SYN_STATS_LEN
     | ETH_SS_PRIV_FLAGS \<Rightarrow> Inr SYN_PRIV_FLAGS_LEN
     | ETH_SS_OTHER \<Rightarrow> Inl EPERM)"

definition syn_get_strings ::
  "nat \<Rightarrow> 'a nss_gmac_hal_dev_scheme option \<Rightarrow> eth_ss \<Rightarrow> string \<Rightarrow> (status \<times> string) result" where
  "syn_get_strings len nghd stringset data =
     bindR (BUG_ON (nghd = None)) (\<lambda>_.
     case stringset of
       ETH_SS_STATS \<Rightarrow>
         bindR (copy_cells len (map fst syn_gstrings_stats) 0 data) (\<lambda>data. Inr (Success, data))
     | ETH_SS_PRIV_FLAGS \<Rightarrow>
         bindR (copy_cells len syn_strings_priv_flags 0 data) (\<lambda>data. Inr (Success, data))
     | ETH_SS_OTHER \<Rightarrow> Inr (Errno EPERM, data))"

definition syn_send_pause_frame ::
  "'a nss_gmac_hal_dev_scheme option \<Rightarrow> 'a nss_gmac_hal_dev_scheme result" where
  "syn_send_pause_frame nghd = nonnull nghd syn_send_tx_pause_frame"

text \<open>\<open>speed\<close> is \<open>SPEED_10000\<close>.\<close>

definition syn_start ::
  "u32 \<Rightarrow> 'a nss_gmac_hal_dev_scheme option \<Rightarrow> (int \<times> 'a nss_gmac_hal_dev_scheme) result" where
  "syn_start speed nghd = nonnull nghd (\<lambda>nghd.
     let nghd = syn_tx_enable nghd; nghd = syn_rx_enable nghd; nghd = syn_set_full_duplex nghd
     in if syn_set_mac_speed nghd speed \<noteq> 0 then (-1, nghd) else (0, nghd))"

definition syn_stop ::
  "'a nss_gmac_hal_dev_scheme option \<Rightarrow> (int \<times> 'a nss_gmac_hal_dev_scheme) result" where
  "syn_stop nghd = nonnull nghd (\<lambda>nghd.
     let nghd = syn_tx_disable nghd; nghd = syn_rx_disable nghd in (0, nghd))"

text \<open>The result is the new context, or NULL; a failed MIB flush is only reported.\<close>

definition syn_init ::
  "plat_env \<Rightarrow> (fal_xgmib \<Rightarrow> 'c) \<Rightarrow> gmac_hal_platform_data \<Rightarrow> 'c syn_hal_dev option" where
  "syn_init env z gmacpdata =
     (case pe_resource env of
        None \<Rightarrow> None
      | Some res \<Rightarrow>
          if pe_request_mem_region env = None then None
          else if \<not> pe_kzalloc env then None
          else
           (let shd = nss_gmac_hal_dev.extend (kzalloc_nghd (pe_window env)) (syn_hal_dev.fields z);
                shd = shd\<lparr>nghd_netdev := pd_netdev gmacpdata\<rparr>;
                shd = shd\<lparr>nghd_mac_id := pd_macid gmacpdata\<rparr>;
                shd = shd\<lparr>nghd_mac_base := pe_ioremap env\<rparr>
            in if nghd_mac_base shd = 0 then None else Some shd))"

definition syn_set_mac_address ::
  "'a nss_gmac_hal_dev_scheme option \<Rightarrow> eth_addr \<Rightarrow> 'a nss_gmac_hal_dev_scheme result" where
  "syn_set_mac_address nghd macaddr = nonnull nghd (\<lambda>nghd.
     case macaddr of Eth m0 m1 m2 m3 m4 m5 \<Rightarrow>
     let data = push_bit 8 (ucast m5) OR ucast m4 OR SYN_MAC_ADDR_RSVD_BIT;
         nghd = hal_write_reg nghd SYN_MAC_ADDR0_HIGH data;
         data = push_bit 24 (ucast m3) OR push_bit 16 (ucast m2)
                  OR push_bit 8 (ucast m1) OR ucast m0
     in hal_write_reg nghd SYN_MAC_ADDR0_LOW data)"

definition syn_get_mac_address :: "'a nss_gmac_hal_dev_scheme option \<Rightarrow> eth_addr result" where
  "syn_get_mac_address nghd = nonnull nghd (\<lambda>nghd.
     let data = hal_read_reg nghd SYN_MAC_ADDR0_HIGH;
         m5 = ucast (drop_bit 8 data AND 0xff);
         m4 = ucast (data AND 0xff);
         data = hal_read_reg nghd SYN_MAC_ADDR0_LOW;
         m3 = ucast (drop_bit 24 data AND 0xff);
         m2 = ucast (drop_bit 16 data AND 0xff);
         m1 = ucast (drop_bit 8 data AND 0xff);
         m0 = ucast (data AND 0xff)
     in Eth m0 m1 m2 m3 m4 m5)"

section \<open>Correctness\<close>

lemmas xgmac_ops =
  syn_tx_enable_def syn_rx_enable_def syn_tx_disable_def syn_rx_disable_def
  syn_set_full_duplex_def syn_set_mac_speed_def
  syn_set_rx_flow_ctrl_def syn_clear_rx_flow_ctrl_def syn_set_tx_flow_ctrl_def
  syn_clear_tx_flow_ctrl_def syn_send_tx_pause_frame_def

interpretation xgmac_addr: mac_addr_unit
  "\<lambda>(d :: 'a nss_gmac_hal_dev_scheme). syn_set_mac_address (Some d)"
  "\<lambda>d. syn_get_mac_address (Some d)"
proof
  fix d :: "'a nss_gmac_hal_dev_scheme" and a
  have rsvd: "SYN_MAC_ADDR_RSVD_BIT AND 0xffff = 0" by simp
  show "bindR (syn_set_mac_address (Some d) a) (\<lambda>d. syn_get_mac_address (Some d)) = Inr a"
    by (cases a) (simp add: syn_set_mac_address_def syn_get_mac_address_def hal_simps Let_def
                            unpack4_24 unpack4_16 unpack4_8 unpack4_0
                            unpack2_8 [OF rsvd] unpack2_0 [OF rsvd]
                       del: drop_bit_or)
qed

definition xgmac_string_table :: "eth_ss \<Rightarrow> string list option" where
  "xgmac_string_table ss =
     (case ss of ETH_SS_STATS \<Rightarrow> Some (map fst syn_gstrings_stats)
      | ETH_SS_PRIV_FLAGS \<Rightarrow> Some syn_strings_priv_flags | ETH_SS_OTHER \<Rightarrow> None)"

interpretation xgmac_str: string_sets xgmac_string_table
  "\<lambda>ss. projr (syn_get_strset_count (Some nghd) ss)"
  "\<lambda>len. syn_get_strings len (Some nghd)" "\<lambda>len x. x" 21
proof
  fix ss xs x
  assume "xgmac_string_table ss = Some xs" "x \<in> set xs"
  then show "length x \<le> 21"
    by (cases ss) (auto simp: xgmac_string_table_def syn_gstrings_stats_def syn_strings_priv_flags_def)
qed (auto simp: xgmac_string_table_def syn_get_strset_count_def syn_get_strings_def
       SYN_STATS_LEN_def SYN_PRIV_FLAGS_LEN_def split: eth_ss.splits)

text \<open>Starting and stopping touch the enable bits of the two configuration registers and the filter.\<close>

lemma xgmac_start_regs:
  assumes "syn_start speed (Some nghd) = Inr (ret, d)"
  shows "ret = 0"
    and "hal_read_reg d r =
      (if r \<in> {SYN_MAC_TX_CONFIG, SYN_MAC_RX_CONFIG, SYN_MAC_PACKET_FILTER}
       then 1 OR hal_read_reg nghd r else hal_read_reg nghd r)"
  using assms by (auto simp: syn_start_def xgmac_ops hal_simps Let_def)

lemma xgmac_stop_regs:
  assumes "syn_stop (Some nghd) = Inr (ret, d)"
  shows "ret = 0"
    and "hal_read_reg d r =
      (if r \<in> {SYN_MAC_TX_CONFIG, SYN_MAC_RX_CONFIG}
       then NOT 1 AND hal_read_reg nghd r else hal_read_reg nghd r)"
  using assms by (auto simp: syn_stop_def xgmac_ops hal_simps Let_def)

end
