(* ===== verification/Syn_Gmac.thy ===== *)
theory Syn_Gmac
  imports Hal_If
begin

text \<open>
  The Synopsys 1G MAC of ipq50xx: the registers of \<open>syn/gmac/syn_reg.h\<close> that the code uses and
  the operations of \<open>syn/gmac/syn_if.c\<close>, among them the DMA controls that the GMAC data plane
  drives. The statistics structure is the one of \<open>arch/ipq50xx/nss_ipq50xx.h\<close>.
\<close>

section \<open>Registers\<close>

abbreviation (input) SYN_MAC_FLOW_CONTROL :: u32 where "SYN_MAC_FLOW_CONTROL \<equiv> 0x0018"
abbreviation (input) SYN_MAC_FC_RX_FLOW_CONTROL :: u32 where "SYN_MAC_FC_RX_FLOW_CONTROL \<equiv> 0x00000004"
abbreviation (input) SYN_MAC_FC_TX_FLOW_CONTROL :: u32 where "SYN_MAC_FC_TX_FLOW_CONTROL \<equiv> 0x00000002"
abbreviation (input) SYN_MAC_FC_SEND_PAUSE_FRAME :: u32 where
  "SYN_MAC_FC_SEND_PAUSE_FRAME \<equiv> 0x00000001"
abbreviation (input) SYN_MAC_CONFIGURATION :: u32 where "SYN_MAC_CONFIGURATION \<equiv> 0x0000"
abbreviation (input) SYN_MAC_RX :: u32 where "SYN_MAC_RX \<equiv> 0x00000004"
abbreviation (input) SYN_MAC_FRAME_FILTER :: u32 where "SYN_MAC_FRAME_FILTER \<equiv> 0x0004"
abbreviation (input) SYN_MAC_FILTER_OFF :: u32 where "SYN_MAC_FILTER_OFF \<equiv> 0x80000000"
abbreviation (input) SYN_MAC_TX :: u32 where "SYN_MAC_TX \<equiv> 0x00000008"
abbreviation (input) SYN_MAC_RX_IPC_OFFLOAD :: u32 where "SYN_MAC_RX_IPC_OFFLOAD \<equiv> 0x00000400"
abbreviation (input) SYN_DMA_OPERATION_MODE :: u32 where "SYN_DMA_OPERATION_MODE \<equiv> 0x1018"
abbreviation (input) SYN_DMA_DISABLE_DROP_TCP_CS :: u32 where
  "SYN_DMA_DISABLE_DROP_TCP_CS \<equiv> 0x04000000"
abbreviation (input) SYN_INTERRUPT_MASK :: u32 where "SYN_INTERRUPT_MASK \<equiv> 0x003c"
abbreviation (input) SYN_MMC_TX_INTERRUPT_MASK :: u32 where "SYN_MMC_TX_INTERRUPT_MASK \<equiv> 0x0110"
abbreviation (input) SYN_MMC_RX_INTERRUPT_MASK :: u32 where "SYN_MMC_RX_INTERRUPT_MASK \<equiv> 0x010c"
abbreviation (input) SYN_MMC_IPC_RX_INTR_MASK :: u32 where "SYN_MMC_IPC_RX_INTR_MASK \<equiv> 0x0200"
abbreviation (input) SYN_DMA_INT_ENABLE :: u32 where "SYN_DMA_INT_ENABLE \<equiv> 0x101c"
abbreviation (input) SYN_DMA_INT_DISABLE :: u32 where "SYN_DMA_INT_DISABLE \<equiv> 0"
abbreviation (input) SYN_DMA_INT_NORMAL :: u32 where "SYN_DMA_INT_NORMAL \<equiv> 0x00010000"
abbreviation (input) SYN_DMA_IE_NORMAL :: u32 where "SYN_DMA_IE_NORMAL \<equiv> SYN_DMA_INT_NORMAL"
abbreviation (input) SYN_DMA_INT_ABNORMAL :: u32 where "SYN_DMA_INT_ABNORMAL \<equiv> 0x00008000"
abbreviation (input) SYN_DMA_IE_ABNORMAL :: u32 where "SYN_DMA_IE_ABNORMAL \<equiv> SYN_DMA_INT_ABNORMAL"
abbreviation (input) SYN_DMA_INT_BUS_ERROR :: u32 where "SYN_DMA_INT_BUS_ERROR \<equiv> 0x00002000"
abbreviation (input) SYN_DMA_INT_ERROR_MASK :: u32 where
  "SYN_DMA_INT_ERROR_MASK \<equiv> SYN_DMA_INT_BUS_ERROR"
abbreviation (input) SYN_DMA_INT_RX_NO_BUFFER :: u32 where "SYN_DMA_INT_RX_NO_BUFFER \<equiv> 0x00000080"
abbreviation (input) SYN_DMA_INT_RX_ABN_MASK :: u32 where
  "SYN_DMA_INT_RX_ABN_MASK \<equiv> SYN_DMA_INT_RX_NO_BUFFER"
abbreviation (input) SYN_DMA_INT_RX_COMPLETED :: u32 where "SYN_DMA_INT_RX_COMPLETED \<equiv> 0x00000040"
abbreviation (input) SYN_DMA_INT_RX_NORM_MASK :: u32 where
  "SYN_DMA_INT_RX_NORM_MASK \<equiv> SYN_DMA_INT_RX_COMPLETED"
abbreviation (input) SYN_DMA_INT_RX_STOPPED :: u32 where "SYN_DMA_INT_RX_STOPPED \<equiv> 0x00000100"
abbreviation (input) SYN_DMA_INT_RX_STOPPED_MASK :: u32 where
  "SYN_DMA_INT_RX_STOPPED_MASK \<equiv> SYN_DMA_INT_RX_STOPPED"
abbreviation (input) SYN_DMA_INT_TX_UNDERFLOW :: u32 where "SYN_DMA_INT_TX_UNDERFLOW \<equiv> 0x00000020"
abbreviation (input) SYN_DMA_INT_TX_ABN_MASK :: u32 where
  "SYN_DMA_INT_TX_ABN_MASK \<equiv> SYN_DMA_INT_TX_UNDERFLOW"
abbreviation (input) SYN_DMA_INT_TX_COMPLETED :: u32 where "SYN_DMA_INT_TX_COMPLETED \<equiv> 0x00000001"
abbreviation (input) SYN_DMA_INT_TX_NORM_MASK :: u32 where
  "SYN_DMA_INT_TX_NORM_MASK \<equiv> SYN_DMA_INT_TX_COMPLETED"
abbreviation (input) SYN_DMA_INT_TX_STOPPED :: u32 where "SYN_DMA_INT_TX_STOPPED \<equiv> 0x00000002"
abbreviation (input) SYN_DMA_INT_TX_STOPPED_MASK :: u32 where
  "SYN_DMA_INT_TX_STOPPED_MASK \<equiv> SYN_DMA_INT_TX_STOPPED"
abbreviation (input) SYN_DMA_INT_EN :: u32 where
  "SYN_DMA_INT_EN \<equiv> SYN_DMA_IE_NORMAL OR SYN_DMA_IE_ABNORMAL OR
     SYN_DMA_INT_ERROR_MASK OR SYN_DMA_INT_RX_ABN_MASK OR SYN_DMA_INT_RX_NORM_MASK OR
     SYN_DMA_INT_RX_STOPPED_MASK OR SYN_DMA_INT_TX_ABN_MASK OR SYN_DMA_INT_TX_NORM_MASK OR
     SYN_DMA_INT_TX_STOPPED_MASK"
abbreviation (input) SYN_DMA_BUS_MODE :: u32 where "SYN_DMA_BUS_MODE \<equiv> 0x1000"
abbreviation (input) SYN_DMA_BURST_LENGTH32 :: u32 where "SYN_DMA_BURST_LENGTH32 \<equiv> 0x00002000"
abbreviation (input) SYN_DMA_BURST_LENGTHX8 :: u32 where "SYN_DMA_BURST_LENGTHX8 \<equiv> 0x01000000"
abbreviation (input) SYN_DMA_DESCRIPTOR_SKIP0 :: u32 where "SYN_DMA_DESCRIPTOR_SKIP0 \<equiv> 0x00000000"
abbreviation (input) SYN_DMA_DESCRIPTOR8_WORDS :: u32 where "SYN_DMA_DESCRIPTOR8_WORDS \<equiv> 0x00000080"
abbreviation (input) SYN_DMA_ARBIT_PR :: u32 where "SYN_DMA_ARBIT_PR \<equiv> 0x00000002"
abbreviation (input) SYN_DMA_ADDRESS_ALIGNED_BEATS :: u32 where
  "SYN_DMA_ADDRESS_ALIGNED_BEATS \<equiv> 0x02000000"
abbreviation (input) SYN_DMA_BUS_MODE_VAL :: u32 where
  "SYN_DMA_BUS_MODE_VAL \<equiv> SYN_DMA_BURST_LENGTH32 OR SYN_DMA_BURST_LENGTHX8 OR
     SYN_DMA_DESCRIPTOR_SKIP0 OR SYN_DMA_DESCRIPTOR8_WORDS OR SYN_DMA_ARBIT_PR OR
     SYN_DMA_ADDRESS_ALIGNED_BEATS"
abbreviation (input) SYN_DMA_STATUS :: u32 where "SYN_DMA_STATUS \<equiv> 0x1014"
abbreviation (input) SYN_DMA_RX_START :: u32 where "SYN_DMA_RX_START \<equiv> 0x00000002"
abbreviation (input) SYN_DMA_TX_START :: u32 where "SYN_DMA_TX_START \<equiv> 0x00002000"
abbreviation (input) SYN_DMA_TX_POLL_DEMAND :: u32 where "SYN_DMA_TX_POLL_DEMAND \<equiv> 0x1004"
abbreviation (input) SYN_DMA_MISSED_FRAME_AND_BUFF_OVERFLOW_COUNTER :: u32 where
  "SYN_DMA_MISSED_FRAME_AND_BUFF_OVERFLOW_COUNTER \<equiv> 0x1020"
abbreviation (input) SYN_DMA_TX_DESCRIPTOR_LIST_ADDRESS :: u32 where
  "SYN_DMA_TX_DESCRIPTOR_LIST_ADDRESS \<equiv> 0x1010"
abbreviation (input) SYN_DMA_RX_DESCRIPTOR_LIST_ADDRESS :: u32 where
  "SYN_DMA_RX_DESCRIPTOR_LIST_ADDRESS \<equiv> 0x100c"
abbreviation (input) SYN_DMA_AXI_BUS_MODE :: u32 where "SYN_DMA_AXI_BUS_MODE \<equiv> 0x1028"
abbreviation (input) SYN_DMA_AXI_BLEN16 :: u32 where "SYN_DMA_AXI_BLEN16 \<equiv> 0x00000008"
abbreviation (input) SYN_DMA_RD_OSR_NUM_REQS8 :: u32 where "SYN_DMA_RD_OSR_NUM_REQS8 \<equiv> 0x00070000"
abbreviation (input) SYN_DMA_WR_OSR_NUM_REQS8 :: u32 where "SYN_DMA_WR_OSR_NUM_REQS8 \<equiv> 0x00700000"
abbreviation (input) SYN_DMA_AXI_BUS_MODE_VAL :: u32 where
  "SYN_DMA_AXI_BUS_MODE_VAL \<equiv> SYN_DMA_AXI_BLEN16 OR SYN_DMA_RD_OSR_NUM_REQS8 OR
     SYN_DMA_WR_OSR_NUM_REQS8"
abbreviation (input) SYN_DMA_TX_STORE_AND_FORWARD :: u32 where
  "SYN_DMA_TX_STORE_AND_FORWARD \<equiv> 0x00200000"
abbreviation (input) SYN_DMA_RX_STORE_AND_FORWARD :: u32 where
  "SYN_DMA_RX_STORE_AND_FORWARD \<equiv> 0x02000000"
abbreviation (input) SYN_DMA_RX_THRESH_CTRL128 :: u32 where "SYN_DMA_RX_THRESH_CTRL128 \<equiv> 0x00000018"
abbreviation (input) SYN_DMA_TX_SECOND_FRAME :: u32 where "SYN_DMA_TX_SECOND_FRAME \<equiv> 0x00000004"
abbreviation (input) SYN_DMA_OMR :: u32 where
  "SYN_DMA_OMR \<equiv> SYN_DMA_TX_STORE_AND_FORWARD OR SYN_DMA_RX_STORE_AND_FORWARD OR
     SYN_DMA_RX_THRESH_CTRL128 OR SYN_DMA_TX_SECOND_FRAME"
abbreviation (input) SYN_MAC_BROADCAST :: u32 where "SYN_MAC_BROADCAST \<equiv> 0x00000020"
abbreviation (input) SYN_MAC_MULTICAST_FILTER :: u32 where "SYN_MAC_MULTICAST_FILTER \<equiv> 0x00000010"
abbreviation (input) SYN_MAC_PROMISCUOUS_MODE_ON :: u32 where
  "SYN_MAC_PROMISCUOUS_MODE_ON \<equiv> 0x00000001"
abbreviation (input) SYN_MAC_ADDR_HIGH_AE :: u32 where "SYN_MAC_ADDR_HIGH_AE \<equiv> 0x80000000"
abbreviation (input) SYN_MAC_ADDR0_HIGH :: u32 where "SYN_MAC_ADDR0_HIGH \<equiv> 0x0040"
abbreviation (input) SYN_MAC_ADDR0_LOW :: u32 where "SYN_MAC_ADDR0_LOW \<equiv> 0x0044"

section \<open>Device helpers\<close>

text \<open>
  The statistics structure, as a function of its fields (the ten \<open>hw_errs\<close> by index), and
  the subclass of the base HAL device that keeps a copy of it.
\<close>

datatype (plugins only: size) nss_dp_hal_gmac_stats_field =
    GS_rx_bytes | GS_rx_packets | GS_rx_errors | GS_rx_receive_errors |
    GS_rx_descriptor_errors | GS_rx_late_collision_errors | GS_rx_dribble_bit_errors |
    GS_rx_length_errors | GS_rx_ip_header_errors | GS_rx_ip_payload_errors |
    GS_rx_no_buffer_errors | GS_rx_transport_csum_bypassed | GS_tx_bytes | GS_tx_packets |
    GS_tx_collisions | GS_tx_errors | GS_tx_jabber_timeout_errors |
    GS_tx_frame_flushed_errors | GS_tx_loss_of_carrier_errors | GS_tx_no_carrier_errors |
    GS_tx_late_collision_errors | GS_tx_excessive_collision_errors |
    GS_tx_excessive_deferral_errors | GS_tx_underflow_errors | GS_tx_ip_header_errors |
    GS_tx_ip_payload_errors | GS_tx_dropped | GS_hw_errs nat | GS_rx_missed |
    GS_fifo_overflows | GS_rx_scatter_errors | GS_tx_ts_create_errors | GS_gmac_total_ticks
    | GS_gmac_worst_case_ticks | GS_gmac_iterations | GS_tx_pause_frames |
    GS_mmc_rx_overflow_errors | GS_mmc_rx_watchdog_timeout_errors | GS_mmc_rx_crc_errors |
    GS_mmc_rx_ip_header_errors | GS_mmc_rx_octets_g | GS_mmc_rx_ucast_frames |
    GS_mmc_rx_bcast_frames | GS_mmc_rx_mcast_frames | GS_mmc_rx_undersize |
    GS_mmc_rx_oversize | GS_mmc_rx_jabber | GS_mmc_rx_octets_gb | GS_mmc_rx_frag_frames_g |
    GS_mmc_tx_octets_g | GS_mmc_tx_ucast_frames | GS_mmc_tx_bcast_frames |
    GS_mmc_tx_mcast_frames | GS_mmc_tx_deferred | GS_mmc_tx_single_col |
    GS_mmc_tx_multiple_col | GS_mmc_tx_octets_gb

type_synonym nss_dp_gmac_stats = "nss_dp_hal_gmac_stats_field \<Rightarrow> u64"

record syn_hal_dev = nss_gmac_hal_dev +
  shd_stats :: nss_dp_gmac_stats

definition syn_gstrings_stats :: "(string \<times> nss_dp_hal_gmac_stats_field) list" where
  "syn_gstrings_stats =
     [(''rx_bytes'', GS_rx_bytes),
      (''rx_packets'', GS_rx_packets),
      (''rx_errors'', GS_rx_errors),
      (''rx_receive_errors'', GS_rx_receive_errors),
      (''rx_descriptor_errors'', GS_rx_descriptor_errors),
      (''rx_late_collision_errors'', GS_rx_late_collision_errors),
      (''rx_dribble_bit_errors'', GS_rx_dribble_bit_errors),
      (''rx_length_errors'', GS_rx_length_errors),
      (''rx_ip_header_errors'', GS_rx_ip_header_errors),
      (''rx_ip_payload_errors'', GS_rx_ip_payload_errors),
      (''rx_no_buffer_errors'', GS_rx_no_buffer_errors),
      (''rx_transport_csum_bypassed'', GS_rx_transport_csum_bypassed),
      (''tx_bytes'', GS_tx_bytes),
      (''tx_packets'', GS_tx_packets),
      (''tx_collisions'', GS_tx_collisions),
      (''tx_errors'', GS_tx_errors),
      (''tx_jabber_timeout_errors'', GS_tx_jabber_timeout_errors),
      (''tx_frame_flushed_errors'', GS_tx_frame_flushed_errors),
      (''tx_loss_of_carrier_errors'', GS_tx_loss_of_carrier_errors),
      (''tx_no_carrier_errors'', GS_tx_no_carrier_errors),
      (''tx_late_collision_errors'', GS_tx_late_collision_errors),
      (''tx_excessive_collision_errors'', GS_tx_excessive_collision_errors),
      (''tx_excessive_deferral_errors'', GS_tx_excessive_deferral_errors),
      (''tx_underflow_errors'', GS_tx_underflow_errors),
      (''tx_ip_header_errors'', GS_tx_ip_header_errors),
      (''tx_ip_payload_errors'', GS_tx_ip_payload_errors),
      (''tx_dropped'', GS_tx_dropped),
      (''rx_missed'', GS_rx_missed),
      (''fifo_overflows'', GS_fifo_overflows),
      (''rx_scatter_errors'', GS_rx_scatter_errors),
      (''tx_ts_create_errors'', GS_tx_ts_create_errors),
      (''pmt_interrupts'', GS_hw_errs 0),
      (''mmc_interrupts'', GS_hw_errs 1),
      (''line_interface_interrupts'', GS_hw_errs 2),
      (''fatal_bus_error_interrupts'', GS_hw_errs 3),
      (''rx_buffer_unavailable_interrupts'', GS_hw_errs 4),
      (''rx_process_stopped_interrupts'', GS_hw_errs 5),
      (''tx_underflow_interrupts'', GS_hw_errs 6),
      (''rx_overflow_interrupts'', GS_hw_errs 7),
      (''tx_jabber_timeout_interrutps'', GS_hw_errs 8),
      (''tx_process_stopped_interrutps'', GS_hw_errs 9),
      (''gmac_total_ticks'', GS_gmac_total_ticks),
      (''gmac_worst_case_ticks'', GS_gmac_worst_case_ticks),
      (''gmac_iterations'', GS_gmac_iterations),
      (''tx_pause_frames'', GS_tx_pause_frames),
      (''mmc_rx_overflow_errors'', GS_mmc_rx_overflow_errors),
      (''mmc_rx_watchdog_timeout_errors'', GS_mmc_rx_watchdog_timeout_errors),
      (''mmc_rx_crc_errors'', GS_mmc_rx_crc_errors),
      (''mmc_rx_ip_header_errors'', GS_mmc_rx_ip_header_errors),
      (''mmc_rx_octets_g'', GS_mmc_rx_octets_g),
      (''mmc_rx_ucast_frames'', GS_mmc_rx_ucast_frames),
      (''mmc_rx_bcast_frames'', GS_mmc_rx_bcast_frames),
      (''mmc_rx_mcast_frames'', GS_mmc_rx_mcast_frames),
      (''mmc_rx_undersize'', GS_mmc_rx_undersize),
      (''mmc_rx_oversize'', GS_mmc_rx_oversize),
      (''mmc_rx_jabber'', GS_mmc_rx_jabber),
      (''mmc_rx_octets_gb'', GS_mmc_rx_octets_gb),
      (''mmc_rx_frag_frames_g'', GS_mmc_rx_frag_frames_g),
      (''mmc_tx_octets_g'', GS_mmc_tx_octets_g),
      (''mmc_tx_ucast_frames'', GS_mmc_tx_ucast_frames),
      (''mmc_tx_bcast_frames'', GS_mmc_tx_bcast_frames),
      (''mmc_tx_mcast_frames'', GS_mmc_tx_mcast_frames),
      (''mmc_tx_deferred'', GS_mmc_tx_deferred),
      (''mmc_tx_single_col'', GS_mmc_tx_single_col),
      (''mmc_tx_multiple_col'', GS_mmc_tx_multiple_col),
      (''mmc_tx_octets_gb'', GS_mmc_tx_octets_gb)]"

definition SYN_STATS_LEN :: nat where
  "SYN_STATS_LEN = length syn_gstrings_stats"

definition syn_set_rx_flow_ctrl :: "'a nss_gmac_hal_dev_scheme \<Rightarrow> 'a nss_gmac_hal_dev_scheme" where
  "syn_set_rx_flow_ctrl nghd = hal_set_reg_bits nghd SYN_MAC_FLOW_CONTROL SYN_MAC_FC_RX_FLOW_CONTROL"

definition syn_clear_rx_flow_ctrl :: "'a nss_gmac_hal_dev_scheme \<Rightarrow> 'a nss_gmac_hal_dev_scheme" where
  "syn_clear_rx_flow_ctrl nghd = hal_clear_reg_bits nghd SYN_MAC_FLOW_CONTROL SYN_MAC_FC_RX_FLOW_CONTROL"

definition syn_set_tx_flow_ctrl :: "'a nss_gmac_hal_dev_scheme \<Rightarrow> 'a nss_gmac_hal_dev_scheme" where
  "syn_set_tx_flow_ctrl nghd = hal_set_reg_bits nghd SYN_MAC_FLOW_CONTROL SYN_MAC_FC_TX_FLOW_CONTROL"

definition syn_send_tx_pause_frame :: "'a nss_gmac_hal_dev_scheme \<Rightarrow> 'a nss_gmac_hal_dev_scheme" where
  "syn_send_tx_pause_frame nghd =
     (let nghd = syn_set_tx_flow_ctrl nghd
      in hal_set_reg_bits nghd SYN_MAC_FLOW_CONTROL SYN_MAC_FC_SEND_PAUSE_FRAME)"

definition syn_clear_tx_flow_ctrl :: "'a nss_gmac_hal_dev_scheme \<Rightarrow> 'a nss_gmac_hal_dev_scheme" where
  "syn_clear_tx_flow_ctrl nghd = hal_clear_reg_bits nghd SYN_MAC_FLOW_CONTROL SYN_MAC_FC_TX_FLOW_CONTROL"

definition syn_rx_enable :: "'a nss_gmac_hal_dev_scheme \<Rightarrow> 'a nss_gmac_hal_dev_scheme" where
  "syn_rx_enable nghd =
     (let nghd = hal_set_reg_bits nghd SYN_MAC_CONFIGURATION SYN_MAC_RX
      in hal_set_reg_bits nghd SYN_MAC_FRAME_FILTER SYN_MAC_FILTER_OFF)"

definition syn_tx_enable :: "'a nss_gmac_hal_dev_scheme \<Rightarrow> 'a nss_gmac_hal_dev_scheme" where
  "syn_tx_enable nghd = hal_set_reg_bits nghd SYN_MAC_CONFIGURATION SYN_MAC_TX"

definition syn_enable_rx_chksum_offload :: "'a nss_gmac_hal_dev_scheme \<Rightarrow> 'a nss_gmac_hal_dev_scheme" where
  "syn_enable_rx_chksum_offload nghd = hal_set_reg_bits nghd SYN_MAC_CONFIGURATION SYN_MAC_RX_IPC_OFFLOAD"

definition syn_disable_rx_chksum_offload :: "'a nss_gmac_hal_dev_scheme \<Rightarrow> 'a nss_gmac_hal_dev_scheme" where
  "syn_disable_rx_chksum_offload nghd = hal_clear_reg_bits nghd SYN_MAC_CONFIGURATION SYN_MAC_RX_IPC_OFFLOAD"

definition syn_rx_tcpip_chksum_drop_enable :: "'a nss_gmac_hal_dev_scheme \<Rightarrow> 'a nss_gmac_hal_dev_scheme" where
  "syn_rx_tcpip_chksum_drop_enable nghd =
     hal_clear_reg_bits nghd SYN_DMA_OPERATION_MODE SYN_DMA_DISABLE_DROP_TCP_CS"

text \<open>\<open>flags\<close> is the status word of the net device's \<open>nss_dp_dev\<close>.\<close>

definition syn_ipc_offload_init :: "u64 \<Rightarrow> 'a nss_gmac_hal_dev_scheme \<Rightarrow> 'a nss_gmac_hal_dev_scheme" where
  "syn_ipc_offload_init flags nghd =
     (if bit flags NSS_DP_RXCSUM
      then (let nghd = syn_enable_rx_chksum_offload nghd in syn_rx_tcpip_chksum_drop_enable nghd)
      else syn_disable_rx_chksum_offload nghd)"

definition syn_disable_mac_interrupt :: "'a nss_gmac_hal_dev_scheme \<Rightarrow> 'a nss_gmac_hal_dev_scheme" where
  "syn_disable_mac_interrupt nghd = hal_write_reg nghd SYN_INTERRUPT_MASK 0xffffffff"

definition syn_disable_mmc_tx_interrupt ::
  "'a nss_gmac_hal_dev_scheme \<Rightarrow> u32 \<Rightarrow> 'a nss_gmac_hal_dev_scheme" where
  "syn_disable_mmc_tx_interrupt nghd m = hal_set_reg_bits nghd SYN_MMC_TX_INTERRUPT_MASK m"

definition syn_disable_mmc_rx_interrupt ::
  "'a nss_gmac_hal_dev_scheme \<Rightarrow> u32 \<Rightarrow> 'a nss_gmac_hal_dev_scheme" where
  "syn_disable_mmc_rx_interrupt nghd m = hal_set_reg_bits nghd SYN_MMC_RX_INTERRUPT_MASK m"

definition syn_disable_mmc_ipc_rx_interrupt ::
  "'a nss_gmac_hal_dev_scheme \<Rightarrow> u32 \<Rightarrow> 'a nss_gmac_hal_dev_scheme" where
  "syn_disable_mmc_ipc_rx_interrupt nghd m = hal_set_reg_bits nghd SYN_MMC_IPC_RX_INTR_MASK m"

definition syn_disable_dma_interrupt :: "'a nss_gmac_hal_dev_scheme \<Rightarrow> 'a nss_gmac_hal_dev_scheme" where
  "syn_disable_dma_interrupt nghd = hal_write_reg nghd SYN_DMA_INT_ENABLE SYN_DMA_INT_DISABLE"

definition syn_enable_dma_interrupt :: "'a nss_gmac_hal_dev_scheme \<Rightarrow> 'a nss_gmac_hal_dev_scheme" where
  "syn_enable_dma_interrupt nghd = hal_write_reg nghd SYN_DMA_INT_ENABLE SYN_DMA_INT_EN"

definition syn_disable_interrupt_all :: "'a nss_gmac_hal_dev_scheme \<Rightarrow> 'a nss_gmac_hal_dev_scheme" where
  "syn_disable_interrupt_all nghd =
     (let nghd = syn_disable_mac_interrupt nghd;
          nghd = syn_disable_dma_interrupt nghd;
          nghd = syn_disable_mmc_tx_interrupt nghd 0xffffffff;
          nghd = syn_disable_mmc_rx_interrupt nghd 0xffffffff
      in syn_disable_mmc_ipc_rx_interrupt nghd 0xffffffff)"

definition syn_dma_bus_mode_init :: "'a nss_gmac_hal_dev_scheme \<Rightarrow> 'a nss_gmac_hal_dev_scheme" where
  "syn_dma_bus_mode_init nghd = hal_write_reg nghd SYN_DMA_BUS_MODE SYN_DMA_BUS_MODE_VAL"

text \<open>The status register clears the bits written as one; the code writes back what it reads.\<close>

definition syn_clear_dma_status :: "'a nss_gmac_hal_dev_scheme \<Rightarrow> 'a nss_gmac_hal_dev_scheme" where
  "syn_clear_dma_status nghd =
     (let data = hal_read_reg nghd SYN_DMA_STATUS in hal_write_reg nghd SYN_DMA_STATUS data)"

definition syn_enable_dma_rx :: "'a nss_gmac_hal_dev_scheme \<Rightarrow> 'a nss_gmac_hal_dev_scheme" where
  "syn_enable_dma_rx nghd =
     (let data = hal_read_reg nghd SYN_DMA_OPERATION_MODE;
          data = data OR SYN_DMA_RX_START
      in hal_write_reg nghd SYN_DMA_OPERATION_MODE data)"

definition syn_disable_dma_rx :: "'a nss_gmac_hal_dev_scheme \<Rightarrow> 'a nss_gmac_hal_dev_scheme" where
  "syn_disable_dma_rx nghd =
     (let data = hal_read_reg nghd SYN_DMA_OPERATION_MODE;
          data = data AND NOT SYN_DMA_RX_START
      in hal_write_reg nghd SYN_DMA_OPERATION_MODE data)"

definition syn_enable_dma_tx :: "'a nss_gmac_hal_dev_scheme \<Rightarrow> 'a nss_gmac_hal_dev_scheme" where
  "syn_enable_dma_tx nghd =
     (let data = hal_read_reg nghd SYN_DMA_OPERATION_MODE;
          data = data OR SYN_DMA_TX_START
      in hal_write_reg nghd SYN_DMA_OPERATION_MODE data)"

definition syn_disable_dma_tx :: "'a nss_gmac_hal_dev_scheme \<Rightarrow> 'a nss_gmac_hal_dev_scheme" where
  "syn_disable_dma_tx nghd =
     (let data = hal_read_reg nghd SYN_DMA_OPERATION_MODE;
          data = data AND NOT SYN_DMA_TX_START
      in hal_write_reg nghd SYN_DMA_OPERATION_MODE data)"

definition syn_resume_dma_tx :: "'a nss_gmac_hal_dev_scheme \<Rightarrow> 'a nss_gmac_hal_dev_scheme" where
  "syn_resume_dma_tx nghd = hal_write_reg nghd SYN_DMA_TX_POLL_DEMAND 0"

definition syn_get_rx_missed :: "'a nss_gmac_hal_dev_scheme \<Rightarrow> u32" where
  "syn_get_rx_missed nghd =
     (let missed_frame_buff_overflow = hal_read_reg nghd SYN_DMA_MISSED_FRAME_AND_BUFF_OVERFLOW_COUNTER
      in missed_frame_buff_overflow AND 0xffff)"

definition syn_get_fifo_overflows :: "'a nss_gmac_hal_dev_scheme \<Rightarrow> u32" where
  "syn_get_fifo_overflows nghd =
     (let missed_frame_buff_overflow = hal_read_reg nghd SYN_DMA_MISSED_FRAME_AND_BUFF_OVERFLOW_COUNTER
      in drop_bit 17 missed_frame_buff_overflow AND 0x7ff)"

definition syn_init_tx_desc_base :: "'a nss_gmac_hal_dev_scheme \<Rightarrow> u32 \<Rightarrow> 'a nss_gmac_hal_dev_scheme" where
  "syn_init_tx_desc_base nghd tx_desc_dma =
     hal_write_reg nghd SYN_DMA_TX_DESCRIPTOR_LIST_ADDRESS tx_desc_dma"

definition syn_init_rx_desc_base :: "'a nss_gmac_hal_dev_scheme \<Rightarrow> u32 \<Rightarrow> 'a nss_gmac_hal_dev_scheme" where
  "syn_init_rx_desc_base nghd rx_desc_dma =
     hal_write_reg nghd SYN_DMA_RX_DESCRIPTOR_LIST_ADDRESS rx_desc_dma"

definition syn_dma_axi_bus_mode_init :: "'a nss_gmac_hal_dev_scheme \<Rightarrow> 'a nss_gmac_hal_dev_scheme" where
  "syn_dma_axi_bus_mode_init nghd = hal_write_reg nghd SYN_DMA_AXI_BUS_MODE SYN_DMA_AXI_BUS_MODE_VAL"

definition syn_dma_operation_mode_init :: "'a nss_gmac_hal_dev_scheme \<Rightarrow> 'a nss_gmac_hal_dev_scheme" where
  "syn_dma_operation_mode_init nghd = hal_write_reg nghd SYN_DMA_OPERATION_MODE SYN_DMA_OMR"

definition syn_broadcast_enable :: "'a nss_gmac_hal_dev_scheme \<Rightarrow> 'a nss_gmac_hal_dev_scheme" where
  "syn_broadcast_enable nghd = hal_clear_reg_bits nghd SYN_MAC_FRAME_FILTER SYN_MAC_BROADCAST"

definition syn_multicast_enable :: "'a nss_gmac_hal_dev_scheme \<Rightarrow> 'a nss_gmac_hal_dev_scheme" where
  "syn_multicast_enable nghd = hal_set_reg_bits nghd SYN_MAC_FRAME_FILTER SYN_MAC_MULTICAST_FILTER"

definition syn_promisc_enable :: "'a nss_gmac_hal_dev_scheme \<Rightarrow> 'a nss_gmac_hal_dev_scheme" where
  "syn_promisc_enable nghd =
     (let nghd = hal_set_reg_bits nghd SYN_MAC_FRAME_FILTER SYN_MAC_FILTER_OFF
      in hal_set_reg_bits nghd SYN_MAC_FRAME_FILTER SYN_MAC_PROMISCUOUS_MODE_ON)"

section \<open>HAL operations\<close>

text \<open>
  The statistics come from the registered data plane: \<open>ops\<close> is \<open>data_plane_ops\<close> of the net
  device (\<open>None\<close> for NULL), whose \<open>get_stats\<close> entry, applied to the data-plane context,
  updates the structure it is given (\<open>None\<close> for a NULL entry).
\<close>

type_synonym stats_src = "(nss_dp_gmac_stats \<Rightarrow> nss_dp_gmac_stats result) option option"

definition syn_get_stats :: "stats_src \<Rightarrow> syn_hal_dev option \<Rightarrow> (int \<times> syn_hal_dev) result" where
  "syn_get_stats ops nghd =
     bindR (nonnull nghd (\<lambda>shd. shd)) (\<lambda>shd.
     case ops of
       None \<Rightarrow> Inr (-1, shd)
     | Some None \<Rightarrow> Inl Null_Pointer
     | Some (Some get_stats) \<Rightarrow>
         bindR (get_stats (shd_stats shd)) (\<lambda>s. Inr (0, shd\<lparr>shd_stats := s\<rparr>)))"

definition syn_rx_flow_control ::
  "'a nss_gmac_hal_dev_scheme option \<Rightarrow> bool \<Rightarrow> 'a nss_gmac_hal_dev_scheme result" where
  "syn_rx_flow_control nghd enabled = nonnull nghd (\<lambda>nghd.
     if enabled then syn_set_rx_flow_ctrl nghd else syn_clear_rx_flow_ctrl nghd)"

definition syn_tx_flow_control ::
  "'a nss_gmac_hal_dev_scheme option \<Rightarrow> bool \<Rightarrow> 'a nss_gmac_hal_dev_scheme result" where
  "syn_tx_flow_control nghd enabled = nonnull nghd (\<lambda>nghd.
     if enabled then syn_set_tx_flow_ctrl nghd else syn_clear_tx_flow_ctrl nghd)"

definition syn_get_max_frame_size ::
  "(u32 \<Rightarrow> int \<times> u32) \<Rightarrow> 'a nss_gmac_hal_dev_scheme option \<Rightarrow> int result" where
  "syn_get_max_frame_size fal_port_max_frame_size_get nghd = nonnull nghd (\<lambda>nghd.
     let (ret, mtu) = fal_port_max_frame_size_get (nghd_mac_id nghd)
     in if ret = 0 then sint mtu else ret)"

definition syn_set_max_frame_size ::
  "(u32 \<Rightarrow> u32 \<Rightarrow> int) \<Rightarrow> 'a nss_gmac_hal_dev_scheme option \<Rightarrow> u32 \<Rightarrow> int result" where
  "syn_set_max_frame_size fal_port_max_frame_size_set nghd val = nonnull nghd (\<lambda>nghd.
     fal_port_max_frame_size_set (nghd_mac_id nghd) val)"

text \<open>Deprecated entry points: they warn and return 0.\<close>

definition syn_set_mac_speed :: "'a nss_gmac_hal_dev_scheme option \<Rightarrow> u32 \<Rightarrow> int result" where
  "syn_set_mac_speed nghd mac_speed = nonnull nghd (\<lambda>nghd. 0)"

definition syn_get_mac_speed :: "'a nss_gmac_hal_dev_scheme option \<Rightarrow> u32 result" where
  "syn_get_mac_speed nghd = nonnull nghd (\<lambda>nghd. 0)"

definition syn_set_duplex_mode ::
  "'a nss_gmac_hal_dev_scheme option \<Rightarrow> u8 \<Rightarrow> 'a nss_gmac_hal_dev_scheme result" where
  "syn_set_duplex_mode nghd duplex_mode = nonnull nghd (\<lambda>nghd. nghd)"

definition syn_get_duplex_mode :: "'a nss_gmac_hal_dev_scheme option \<Rightarrow> u8 result" where
  "syn_get_duplex_mode nghd = nonnull nghd (\<lambda>nghd. 0)"

definition syn_get_netdev_stats ::
  "stats_src \<Rightarrow> syn_hal_dev option \<Rightarrow> rtnl_link_stats64
     \<Rightarrow> (int \<times> syn_hal_dev \<times> rtnl_link_stats64) result" where
  "syn_get_netdev_stats ops nghd stats =
     bindR (BUG_ON (nghd = None)) (\<lambda>_.
     bindR (syn_get_stats ops nghd) (\<lambda>(ret, shd).
     let ndo_stats = shd_stats shd
     in if ret \<noteq> 0 then Inr (-1, shd, stats)
        else Inr (0, shd, stats\<lparr>
          st_rx_packets := ndo_stats GS_rx_packets,
          st_rx_bytes := ndo_stats GS_rx_bytes,
          st_rx_errors := ndo_stats GS_rx_errors,
          st_rx_dropped := ndo_stats GS_rx_errors,
          st_rx_length_errors := ndo_stats GS_rx_length_errors,
          st_rx_over_errors := ndo_stats GS_mmc_rx_overflow_errors,
          st_rx_crc_errors := ndo_stats GS_mmc_rx_crc_errors,
          st_rx_frame_errors := ndo_stats GS_rx_dribble_bit_errors,
          st_rx_fifo_errors := ndo_stats GS_fifo_overflows,
          st_rx_missed_errors := ndo_stats GS_rx_missed,
          st_collisions := ndo_stats GS_tx_collisions + ndo_stats GS_rx_late_collision_errors,
          st_tx_packets := ndo_stats GS_tx_packets,
          st_tx_bytes := ndo_stats GS_tx_bytes,
          st_tx_errors := ndo_stats GS_tx_errors,
          st_tx_dropped := ndo_stats GS_tx_dropped,
          st_tx_carrier_errors := ndo_stats GS_tx_loss_of_carrier_errors
                                    + ndo_stats GS_tx_no_carrier_errors,
          st_tx_fifo_errors := ndo_stats GS_tx_underflow_errors,
          st_tx_window_errors := ndo_stats GS_tx_late_collision_errors\<rparr>)))"

text \<open>
  Each 64-bit counter is read through a 32-bit pointer: its low 32 bits on the little-endian
  targets of this driver.
\<close>

definition syn_get_eth_stats ::
  "stats_src \<Rightarrow> syn_hal_dev option \<Rightarrow> u64 list \<Rightarrow> (int \<times> syn_hal_dev \<times> u64 list) result" where
  "syn_get_eth_stats ops nghd data =
     bindR (BUG_ON (nghd = None)) (\<lambda>_.
     bindR (syn_get_stats ops nghd) (\<lambda>(ret, shd).
       if ret \<noteq> 0 then Inr (-1, shd, data)
       else bindR (memcpy_at data 0
              (map (\<lambda>(str, f). ucast (ucast (shd_stats shd f) :: u32)) syn_gstrings_stats))
            (\<lambda>data. Inr (0, shd, data))))"

definition syn_get_strset_count ::
  "'a nss_gmac_hal_dev_scheme option \<Rightarrow> eth_ss \<Rightarrow> (errno + nat) result" where
  "syn_get_strset_count nghd sset = nonnull nghd (\<lambda>nghd.
     case sset of ETH_SS_STATS \<Rightarrow> Inr SYN_STATS_LEN | _ \<Rightarrow> Inl EPERM)"

text \<open>
  This table's names sit in arrays of \<open>ETH_GSTRING_LEN\<close> bytes, zero-filled, which are
  copied whole.
\<close>

definition stat_string :: "nat \<Rightarrow> string \<Rightarrow> string" where
  "stat_string len s = s @ replicate (len - length s) (CHR 0x00)"

definition syn_get_strings ::
  "nat \<Rightarrow> 'a nss_gmac_hal_dev_scheme option \<Rightarrow> eth_ss \<Rightarrow> string \<Rightarrow> (status \<times> string) result" where
  "syn_get_strings len nghd stringset data =
     bindR (BUG_ON (nghd = None)) (\<lambda>_.
     case stringset of
       ETH_SS_STATS \<Rightarrow>
         bindR (copy_cells len (map (stat_string len) (map fst syn_gstrings_stats)) 0 data)
           (\<lambda>data. Inr (Success, data))
     | _ \<Rightarrow> Inr (Errno EPERM, data))"

definition syn_send_pause_frame ::
  "'a nss_gmac_hal_dev_scheme option \<Rightarrow> 'a nss_gmac_hal_dev_scheme result" where
  "syn_send_pause_frame nghd = nonnull nghd syn_send_tx_pause_frame"

text \<open>\<open>None\<close> as the address is a NULL pointer: nothing is programmed, nothing is read.\<close>

definition syn_set_mac_address ::
  "'a nss_gmac_hal_dev_scheme option \<Rightarrow> eth_addr option \<Rightarrow> 'a nss_gmac_hal_dev_scheme result" where
  "syn_set_mac_address nghd macaddr = nonnull nghd (\<lambda>nghd.
     case macaddr of
       None \<Rightarrow> nghd
     | Some (Eth m0 m1 m2 m3 m4 m5) \<Rightarrow>
         let data = push_bit 8 (ucast m5) OR ucast m4 OR SYN_MAC_ADDR_HIGH_AE;
             nghd = hal_write_reg nghd SYN_MAC_ADDR0_HIGH data;
             data = push_bit 24 (ucast m3) OR push_bit 16 (ucast m2)
                      OR push_bit 8 (ucast m1) OR ucast m0
         in hal_write_reg nghd SYN_MAC_ADDR0_LOW data)"

definition syn_get_mac_address ::
  "'a nss_gmac_hal_dev_scheme option \<Rightarrow> eth_addr option \<Rightarrow> eth_addr option result" where
  "syn_get_mac_address nghd macaddr = nonnull nghd (\<lambda>nghd.
     case macaddr of
       None \<Rightarrow> None
     | Some _ \<Rightarrow>
         let data = hal_read_reg nghd SYN_MAC_ADDR0_HIGH;
             m5 = ucast (drop_bit 8 data AND 0xff);
             m4 = ucast (data AND 0xff);
             data = hal_read_reg nghd SYN_MAC_ADDR0_LOW;
             m3 = ucast (drop_bit 24 data AND 0xff);
             m2 = ucast (drop_bit 16 data AND 0xff);
             m1 = ucast (drop_bit 8 data AND 0xff);
             m0 = ucast (data AND 0xff)
         in Some (Eth m0 m1 m2 m3 m4 m5))"

text \<open>
  \<open>clk_enable\<close> is the platform's \<open>nss_dp_hal_clk_enable\<close>, acting on the state \<open>p\<close> of the
  clock framework.
\<close>

definition syn_dma_init ::
  "('p \<Rightarrow> 'p) \<Rightarrow> 'a nss_gmac_hal_dev_scheme \<Rightarrow> 'p \<Rightarrow> 'a nss_gmac_hal_dev_scheme \<times> 'p" where
  "syn_dma_init clk_enable nghd p =
     (let p = clk_enable p;
          nghd = syn_dma_bus_mode_init nghd;
          nghd = syn_dma_axi_bus_mode_init nghd;
          nghd = syn_dma_operation_mode_init nghd
      in (nghd, p))"

text \<open>
  The new context or NULL, the status word of the net device, and the clock state. The
  order is the code's: the context is allocated before the region is requested, and the
  checksum flag is set before the mapping can fail. \<open>duplex_full\<close> is \<open>DUPLEX_FULL\<close>.
\<close>

definition syn_init ::
  "plat_env \<Rightarrow> ('p \<Rightarrow> 'p) \<Rightarrow> u32 \<Rightarrow> gmac_hal_platform_data \<Rightarrow> u64 \<Rightarrow> 'p
     \<Rightarrow> syn_hal_dev option \<times> u64 \<times> 'p" where
  "syn_init env clk_enable duplex_full gmacpdata flags p =
     (case pe_resource env of
        None \<Rightarrow> (None, flags, p)
      | Some res \<Rightarrow>
          if \<not> pe_kzalloc env then (None, flags, p)
          else
           (let shd = nss_gmac_hal_dev.extend (kzalloc_nghd (pe_window env))
                        (syn_hal_dev.fields (\<lambda>_. 0));
                shd = shd\<lparr>nghd_mac_reg_len := pe_resource_size env\<rparr>;
                shd = shd\<lparr>nghd_memres := pe_request_mem_region env\<rparr>
            in if nghd_memres shd = None then (None, flags, p)
               else
                (let shd = shd\<lparr>nghd_netdev := pd_netdev gmacpdata\<rparr>;
                     shd = shd\<lparr>nghd_mac_id := pd_macid gmacpdata\<rparr>;
                     shd = shd\<lparr>nghd_duplex_mode := duplex_full\<rparr>;
                     flags = set_bit NSS_DP_RXCSUM flags;
                     shd = shd\<lparr>nghd_mac_base := pe_ioremap env\<rparr>
                 in if nghd_mac_base shd = 0 then (None, flags, p)
                    else
                     (let shd = syn_disable_interrupt_all shd;
                          (shd, p) = syn_dma_init clk_enable shd p;
                          shd = syn_ipc_offload_init flags shd;
                          shd = syn_promisc_enable shd;
                          shd = syn_broadcast_enable shd;
                          shd = syn_multicast_enable shd;
                          shd = syn_rx_enable shd;
                          shd = syn_tx_enable shd
                      in (Some shd, flags, p)))))"

text \<open>What \<open>syn_exit\<close> gives back to the platform, in order.\<close>

datatype plat_call = Devm_iounmap u64 | Devm_release_mem_region nat u32

definition syn_exit ::
  "'a nss_gmac_hal_dev_scheme \<Rightarrow> ('a nss_gmac_hal_dev_scheme \<times> plat_call list) result" where
  "syn_exit nghd =
     (case nghd_memres nghd of
        None \<Rightarrow> Inl Null_Pointer
      | Some res \<Rightarrow>
          Inr (nghd\<lparr>nghd_memres := None, nghd_mac_base := 0\<rparr>,
               [Devm_iounmap (nghd_mac_base nghd),
                Devm_release_mem_region res (nghd_mac_reg_len nghd)]))"

section \<open>Correctness\<close>

lemmas gmac_init_ops =
  syn_disable_interrupt_all_def syn_disable_mac_interrupt_def syn_disable_dma_interrupt_def
  syn_disable_mmc_tx_interrupt_def syn_disable_mmc_rx_interrupt_def
  syn_disable_mmc_ipc_rx_interrupt_def syn_dma_init_def syn_dma_bus_mode_init_def
  syn_dma_axi_bus_mode_init_def syn_dma_operation_mode_init_def syn_ipc_offload_init_def
  syn_enable_rx_chksum_offload_def syn_disable_rx_chksum_offload_def
  syn_rx_tcpip_chksum_drop_enable_def syn_promisc_enable_def syn_broadcast_enable_def
  syn_multicast_enable_def syn_rx_enable_def syn_tx_enable_def

lemmas gmac_dma_ops =
  syn_enable_dma_rx_def syn_disable_dma_rx_def syn_enable_dma_tx_def syn_disable_dma_tx_def

interpretation gmac_addr: mac_addr_unit
  "\<lambda>(d :: 'a nss_gmac_hal_dev_scheme) a. syn_set_mac_address (Some d) (Some a)"
  "\<lambda>d. bindR (syn_get_mac_address (Some d) (Some buf)) (\<lambda>a. Inr (the a))" for buf
proof
  fix d :: "'a nss_gmac_hal_dev_scheme" and a
  have ae: "SYN_MAC_ADDR_HIGH_AE AND 0xffff = 0" by simp
  show "bindR (syn_set_mac_address (Some d) (Some a))
          (\<lambda>d. bindR (syn_get_mac_address (Some d) (Some buf)) (\<lambda>a. Inr (the a))) = Inr a"
    by (cases a) (simp add: syn_set_mac_address_def syn_get_mac_address_def hal_simps Let_def
                            unpack4_24 unpack4_16 unpack4_8 unpack4_0
                            unpack2_8 [OF ae] unpack2_0 [OF ae]
                       del: drop_bit_or)
qed

definition gmac_string_table :: "eth_ss \<Rightarrow> string list option" where
  "gmac_string_table ss =
     (case ss of ETH_SS_STATS \<Rightarrow> Some (map fst syn_gstrings_stats) | _ \<Rightarrow> None)"

interpretation gmac_str: string_sets gmac_string_table
  "\<lambda>ss. projr (syn_get_strset_count (Some nghd) ss)"
  "\<lambda>len. syn_get_strings len (Some nghd)" stat_string 32
proof
  fix ss xs x
  assume "gmac_string_table ss = Some xs" "x \<in> set xs"
  then show "length x \<le> 32"
    by (cases ss) (auto simp: gmac_string_table_def syn_gstrings_stats_def)
qed (auto simp: gmac_string_table_def syn_get_strset_count_def syn_get_strings_def
       SYN_STATS_LEN_def stat_string_def split: eth_ss.splits)

end
