(* ===== verification/Hal_Props.thy ===== *)
theory Hal_Props
  imports Qcom_Gmac Syn_Xgmac Syn_Gmac
begin

text \<open>
  Properties of the three MAC drivers behind \<open>nss_gmac_hal_ops\<close>, over the interpretations of their
  interfaces: station addresses, string sets, start and stop, register fields.
\<close>

section \<open>Station addresses and string sets\<close>

text \<open>
  C13. Station addresses survive the registers of all three MACs: reading back after programming gives
  the six bytes in their order, whatever was programmed before.
\<close>

theorem hal_mac_address_roundtrip:
  "qcom_get_mac_address (qcom_set_mac_address d a) = a
   \<and> bindR (Syn_Xgmac.syn_set_mac_address (Some e) a) (\<lambda>d. Syn_Xgmac.syn_get_mac_address (Some d)) = Inr a
   \<and> bindR (Syn_Gmac.syn_set_mac_address (Some f) (Some a)) (\<lambda>d. Syn_Gmac.syn_get_mac_address (Some d) (Some b)) = Inr (Some a)"
proof (intro conjI)
  show "qcom_get_mac_address (qcom_set_mac_address d a) = a"
    using qcom_addr.get_set [of d a] by simp
  show "bindR (Syn_Xgmac.syn_set_mac_address (Some e) a) (\<lambda>d. Syn_Xgmac.syn_get_mac_address (Some d)) = Inr a"
    by (rule xgmac_addr.get_set)
  show "bindR (Syn_Gmac.syn_set_mac_address (Some f) (Some a)) (\<lambda>d. Syn_Gmac.syn_get_mac_address (Some d) (Some b)) = Inr (Some a)"
    using gmac_addr.get_set [of f a b]
    by (auto simp: bindR_eq_Inr Syn_Gmac.syn_get_mac_address_def nonnull_def Let_def)
qed

text \<open>
  C29. String sets fit: for each MAC, a buffer of as many cells of 32 bytes (\<open>ETH_GSTRING_LEN\<close>) as the count it
  reports is filled without an access outside it, and cell \<open>i\<close> starts with the \<open>i\<close>-th name of the table
  the count comes from.
\<close>

theorem hal_strings_fit:
  assumes "qcom_get_strset_count d ss = Inr n" "length data = n * 32"
    "projr (Syn_Xgmac.syn_get_strset_count (Some e) ss') = Inr n'" "length data' = n' * 32"
    "projr (Syn_Gmac.syn_get_strset_count (Some f) ss'') = Inr n''" "length data'' = n'' * 32"
  shows "(\<exists>s. qcom_get_strings 32 d ss data = Inr (Success, s) \<and> length s = length data
            \<and> (\<forall>i < n. take (length (the (qcom_string_table ss) ! i)) (drop (i * 32) s) = the (qcom_string_table ss) ! i))
       \<and> (\<exists>s. Syn_Xgmac.syn_get_strings 32 (Some e) ss' data' = Inr (Success, s) \<and> length s = length data'
            \<and> (\<forall>i < n'. take (length (the (xgmac_string_table ss') ! i)) (drop (i * 32) s) = the (xgmac_string_table ss') ! i))
       \<and> (\<exists>s. Syn_Gmac.syn_get_strings 32 (Some f) ss'' data'' = Inr (Success, s) \<and> length s = length data''
            \<and> (\<forall>i < n''. take (length (the (gmac_string_table ss'') ! i)) (drop (i * 32) s) = the (gmac_string_table ss'') ! i))"
proof (intro conjI)
  show "\<exists>s. qcom_get_strings 32 d ss data = Inr (Success, s) \<and> length s = length data
            \<and> (\<forall>i < n. take (length (the (qcom_string_table ss) ! i)) (drop (i * 32) s) = the (qcom_string_table ss) ! i)"
    using qcom_str.fill_ok [OF assms(1) _ assms(2)] by simp
  show "\<exists>s. Syn_Xgmac.syn_get_strings 32 (Some e) ss' data' = Inr (Success, s) \<and> length s = length data'
            \<and> (\<forall>i < n'. take (length (the (xgmac_string_table ss') ! i)) (drop (i * 32) s) = the (xgmac_string_table ss') ! i)"
    using xgmac_str.fill_ok [OF assms(3) _ assms(4)] by simp
  show "\<exists>s. Syn_Gmac.syn_get_strings 32 (Some f) ss'' data'' = Inr (Success, s) \<and> length s = length data''
            \<and> (\<forall>i < n''. take (length (the (gmac_string_table ss'') ! i)) (drop (i * 32) s) = the (gmac_string_table ss'') ! i)"
    using gmac_str.fill_ok [OF assms(5) _ assms(6)] by simp
qed

theorem hal_strings_fit_witness:
  "\<exists>s. qcom_get_strings 32 (kzalloc_nghd (\<lambda>_. 0)) ETH_SS_PRIV_FLAGS (replicate 96 CHR ''x'') = Inr (Success, s) \<and> length s = 96"
proof -
  have a: "qcom_get_strset_count (kzalloc_nghd (\<lambda>_. 0)) ETH_SS_PRIV_FLAGS = Inr 3"
    by (simp add: qcom_get_strset_count_def QCOM_PRIV_FLAGS_LEN_def qcom_strings_priv_flags_def)
  have b: "projr (Syn_Xgmac.syn_get_strset_count (Some (kzalloc_nghd (\<lambda>_. 0))) ETH_SS_PRIV_FLAGS) = Inr 1"
    by (simp add: Syn_Xgmac.syn_get_strset_count_def nonnull_def SYN_PRIV_FLAGS_LEN_def syn_strings_priv_flags_def)
  have c: "projr (Syn_Gmac.syn_get_strset_count (Some (kzalloc_nghd (\<lambda>_. 0))) ETH_SS_STATS) = Inr (length Syn_Gmac.syn_gstrings_stats)"
    by (simp add: Syn_Gmac.syn_get_strset_count_def nonnull_def Syn_Gmac.SYN_STATS_LEN_def)
  show ?thesis
    using hal_strings_fit [OF a _ b _ c, of "replicate 96 CHR ''x''" "replicate 32 CHR ''x''"
        "replicate (length Syn_Gmac.syn_gstrings_stats * 32) CHR ''x''"] by (simp, blast)
qed

section \<open>Start and stop\<close>

text \<open>
  C30. Starting and stopping the Qualcomm and the 10G MAC, register by register. On the Qualcomm MAC a start turns the
  transmitter, the receiver and full duplex on and a stop turns the transmitter and the receiver off; every other bit
  of every register is as before. On the 10G MAC a start succeeds and turns on the enable bit of the transmit and of the
  receive configuration, and the lowest bit of the packet filter with them; a stop succeeds and turns off the two enable
  bits, so that the packet filter stays as the start has left it; every other bit of every register is as before.
\<close>

theorem hal_start_stop:
  "(\<forall>r. hal_read_reg (snd (qcom_start speed d)) r =
     (if r = QCOM_MAC_ENABLE then hal_read_reg d r OR (QCOM_DUPLEX OR QCOM_TX_MAC_ENABLE OR QCOM_RX_MAC_ENABLE) else hal_read_reg d r))
   \<and> (\<forall>r. hal_read_reg (snd (qcom_stop d)) r =
     (if r = QCOM_MAC_ENABLE then hal_read_reg d r AND NOT (QCOM_TX_MAC_ENABLE OR QCOM_RX_MAC_ENABLE) else hal_read_reg d r))
   \<and> (\<exists>e1. Syn_Xgmac.syn_start speed (Some e) = Inr (0, e1) \<and> (\<forall>r. hal_read_reg e1 r =
        (if r = Syn_Xgmac.SYN_MAC_TX_CONFIG then hal_read_reg e r OR Syn_Xgmac.SYN_MAC_TX_ENABLE
         else if r = Syn_Xgmac.SYN_MAC_RX_CONFIG \<or> r = Syn_Xgmac.SYN_MAC_PACKET_FILTER then hal_read_reg e r OR Syn_Xgmac.SYN_MAC_RX_ENABLE
         else hal_read_reg e r)))
   \<and> (\<exists>e2. Syn_Xgmac.syn_stop (Some e) = Inr (0, e2) \<and> (\<forall>r. hal_read_reg e2 r =
        (if r = Syn_Xgmac.SYN_MAC_TX_CONFIG then hal_read_reg e r AND NOT Syn_Xgmac.SYN_MAC_TX_ENABLE
         else if r = Syn_Xgmac.SYN_MAC_RX_CONFIG then hal_read_reg e r AND NOT Syn_Xgmac.SYN_MAC_RX_ENABLE
         else hal_read_reg e r)))"
proof (intro conjI)
  show "\<forall>r. hal_read_reg (snd (qcom_start speed d)) r =
     (if r = QCOM_MAC_ENABLE then hal_read_reg d r OR (QCOM_DUPLEX OR QCOM_TX_MAC_ENABLE OR QCOM_RX_MAC_ENABLE) else hal_read_reg d r)"
    using qcom_start_enable [of speed d] qcom_enable_other(1) [of _ speed d] by simp
  show "\<forall>r. hal_read_reg (snd (qcom_stop d)) r =
     (if r = QCOM_MAC_ENABLE then hal_read_reg d r AND NOT (QCOM_TX_MAC_ENABLE OR QCOM_RX_MAC_ENABLE) else hal_read_reg d r)"
    using qcom_stop_enable [of d] qcom_enable_other(2) [of _ d] by simp
  obtain e1 where e1: "Syn_Xgmac.syn_start speed (Some e) = Inr (0, e1)"
    by (simp add: Syn_Xgmac.syn_start_def nonnull_def Syn_Xgmac.syn_set_mac_speed_def Let_def)
  show "\<exists>e1. Syn_Xgmac.syn_start speed (Some e) = Inr (0, e1) \<and> (\<forall>r. hal_read_reg e1 r =
        (if r = Syn_Xgmac.SYN_MAC_TX_CONFIG then hal_read_reg e r OR Syn_Xgmac.SYN_MAC_TX_ENABLE
         else if r = Syn_Xgmac.SYN_MAC_RX_CONFIG \<or> r = Syn_Xgmac.SYN_MAC_PACKET_FILTER then hal_read_reg e r OR Syn_Xgmac.SYN_MAC_RX_ENABLE
         else hal_read_reg e r))"
    using e1 by (simp add: xgmac_start_regs(2) [OF e1] or.commute)
  obtain e2 where e2: "Syn_Xgmac.syn_stop (Some e) = Inr (0, e2)"
    by (simp add: Syn_Xgmac.syn_stop_def nonnull_def Let_def)
  show "\<exists>e2. Syn_Xgmac.syn_stop (Some e) = Inr (0, e2) \<and> (\<forall>r. hal_read_reg e2 r =
        (if r = Syn_Xgmac.SYN_MAC_TX_CONFIG then hal_read_reg e r AND NOT Syn_Xgmac.SYN_MAC_TX_ENABLE
         else if r = Syn_Xgmac.SYN_MAC_RX_CONFIG then hal_read_reg e r AND NOT Syn_Xgmac.SYN_MAC_RX_ENABLE
         else hal_read_reg e r))"
    using e2 by (simp add: xgmac_stop_regs(2) [OF e2] and.commute)
qed

text \<open>On registers that read zero, a start enables the MAC and a stop after it disables it again.\<close>

theorem hal_start_stop_witness:
  "\<exists>e1. Syn_Xgmac.syn_start 0 (Some (kzalloc_nghd (\<lambda>_. 0))) = Inr (0, e1)
    \<and> hal_read_reg e1 Syn_Xgmac.SYN_MAC_TX_CONFIG = 1 \<and> hal_read_reg e1 Syn_Xgmac.SYN_MAC_RX_CONFIG = 1
    \<and> (\<exists>e2. Syn_Xgmac.syn_stop (Some e1) = Inr (0, e2)
        \<and> hal_read_reg e2 Syn_Xgmac.SYN_MAC_TX_CONFIG = 0 \<and> hal_read_reg e2 Syn_Xgmac.SYN_MAC_PACKET_FILTER = 1)"
proof -
  let ?z = "kzalloc_nghd (\<lambda>_. 0)"
  note start_stop = hal_start_stop [of 0 ?z, THEN conjunct2, THEN conjunct2]
  have z: "hal_read_reg ?z r = 0" for r by (simp add: kzalloc_nghd_def hal_read_reg_def)
  obtain e1 where e1: "Syn_Xgmac.syn_start 0 (Some ?z) = Inr (0, e1)"
      "hal_read_reg e1 0 = 1" "hal_read_reg e1 4 = 1" "hal_read_reg e1 8 = 1"
    using conjunct1 [OF start_stop, of ?z] z by auto
  obtain e2 where "Syn_Xgmac.syn_stop (Some e1) = Inr (0, e2)" "hal_read_reg e2 0 = 0" "hal_read_reg e2 8 = 1"
    using conjunct2 [OF start_stop, of e1] e1(2-4) by auto
  with e1 show ?thesis by auto
qed

section \<open>Register fields\<close>

lemma field_of_small:
  assumes "unat (v :: u32) < 2 ^ n"
  shows "\<not> bit v (m + n)"
  using assms by (metis bit_take_bit_iff le_add2 not_less take_bit_nat_eq_self unsigned_take_bit_eq word_unat_eq_iff)

text \<open>
  C31. Two setters of the Qualcomm MAC write outside the field they clear, because the mask and the shift of the field
  disagree. A preamble length of up to 4 bits: its own field (bits 12 to 15) reads zero afterwards, the value is
  added to the retry count (bits 8 to 11), and every other bit is as before. A gap control of up to 8 bits: its field
  (bits 8 to 15), which is also that of the high gap, reads zero afterwards, the value is added to what bits 20 to 27
  hold, and every other bit is as before. No other register changes.
\<close>

theorem qcom_fields_misplaced:
  assumes "unat v < 16" "unat g < 256"
  shows "(\<forall>r. hal_read_reg (qcom_set_prlen d v) r = (let old = hal_read_reg d r in
        if r = QCOM_MAC_CTRL1 then (old AND NOT QCOM_PRLEN_POS) OR push_bit QCOM_RETRY_LSB v else old))
    \<and> hal_read_reg (qcom_set_prlen d v) QCOM_MAC_CTRL1 AND QCOM_PRLEN_POS = 0
    \<and> drop_bit QCOM_RETRY_LSB (hal_read_reg (qcom_set_prlen d v) QCOM_MAC_CTRL1 AND QCOM_RETRY_POS)
        = drop_bit QCOM_RETRY_LSB (hal_read_reg d QCOM_MAC_CTRL1 AND QCOM_RETRY_POS) OR v
    \<and> (\<forall>r. hal_read_reg (qcom_set_mac_ipg_ctrl d g) r = (let old = hal_read_reg d r in
        if r = QCOM_MAC_DBG_CTRL then (old AND NOT QCOM_DBG_MAC_IPG_CTRL_POS) OR push_bit 20 g else old))
    \<and> hal_read_reg (qcom_set_mac_ipg_ctrl d g) QCOM_MAC_DBG_CTRL AND QCOM_DBG_MAC_IPG_CTRL_POS = 0
    \<and> drop_bit 20 (hal_read_reg (qcom_set_mac_ipg_ctrl d g) QCOM_MAC_DBG_CTRL) AND 0xff
        = drop_bit 20 (hal_read_reg d QCOM_MAC_DBG_CTRL) AND 0xff OR g"
proof -
  have v: "bit v n \<Longrightarrow> n < 4" and g: "bit g n \<Longrightarrow> n < 8" for n
    using field_of_small [of v 4 "n - 4"] field_of_small [of g 8 "n - 8"] assms by (auto intro: ccontr)
  have m: "(0xf000 :: u32) = push_bit 12 (mask 4)" "(0xf00 :: u32) = push_bit 8 (mask 4)" "(0xff00 :: u32) = push_bit 8 (mask 8)"
      "(0xff :: u32) = mask 8"
    by (simp_all add: mask_eq_exp_minus_1 push_bit_eq_mult)
  have 1: "(x AND NOT 0xf000 OR push_bit 8 v) AND 0xf000 = 0" for x
    unfolding m(1) by (intro bit_word_eqI) (auto simp: bit_simps dest: v)
  have 2: "drop_bit 8 ((x AND NOT 0xf000 OR push_bit 8 v) AND 0xf00) = drop_bit 8 (x AND 0xf00) OR v" for x
    unfolding m(1,2) by (intro bit_word_eqI) (auto simp: bit_simps dest: v order_less_le_trans [OF v])
  have 3: "(x AND NOT 0xff00 OR push_bit 20 g) AND 0xff00 = 0" for x
    unfolding m(3) by (intro bit_word_eqI) (auto simp: bit_simps)
  have 4: "drop_bit 20 (x AND NOT 0xff00 OR push_bit 20 g) AND 0xff = drop_bit 20 x AND 0xff OR g" for x
    unfolding m(3,4) by (intro bit_word_eqI) (auto simp: bit_simps dest: g order_less_le_trans [OF g])
  show ?thesis
    using 1 2 3 4 by (simp add: qcom_set_prlen_def qcom_set_mac_ipg_ctrl_def hal_simps Let_def)
qed

theorem qcom_fields_misplaced_witness:
  "hal_read_reg (qcom_set_prlen (kzalloc_nghd (\<lambda>_. 0)) 7) QCOM_MAC_CTRL1 AND QCOM_PRLEN_POS = 0
   \<and> hal_read_reg (qcom_set_prlen (kzalloc_nghd (\<lambda>_. 0)) 7) QCOM_MAC_CTRL1 = 0x700
   \<and> hal_read_reg (qcom_set_mac_ipg_ctrl (kzalloc_nghd (\<lambda>_. 0)) 0x60) QCOM_MAC_DBG_CTRL = 0x6000000"
proof -
  have z: "hal_read_reg (kzalloc_nghd (\<lambda>_. 0)) r = 0" for r by (simp add: kzalloc_nghd_def hal_read_reg_def)
  show ?thesis using qcom_fields_misplaced [of 7 "0x60" "kzalloc_nghd (\<lambda>_. 0)"] by (simp add: z Let_def push_bit_eq_mult)
qed

end
