(* ===== verification/Ring.thy ===== *)
theory Ring
  imports Prelude
begin

text \<open>
  Circular arrays. A ring of \<open>N\<close> cells with its oldest entry at \<open>s\<close> holds \<open>n\<close> entries in the
  slice that starts at \<open>s\<close>; the other \<open>N - n\<close> cells, from \<open>s + n\<close> on, are free. Appending
  moves the first free cell to the end of the busy slice, retiring moves the oldest entry to
  the end of the free one. The locale \<open>fifo_ring\<close> is what the data planes rely on: a
  bounded FIFO, and what repeated appending and retiring do.
\<close>

definition ring_slice :: "'a list \<Rightarrow> nat \<Rightarrow> nat \<Rightarrow> 'a list" where
  "ring_slice xs s n = map (\<lambda>k. xs ! ((s + k) mod length xs)) [0..<n]"

lemma ring_slice_length [simp]: "length (ring_slice xs s n) = n"
  by (simp add: ring_slice_def)

lemma ring_slice_nth [simp]: "k < n \<Longrightarrow> ring_slice xs s n ! k = xs ! ((s + k) mod length xs)"
  by (simp add: ring_slice_def)

lemma ring_slice_0 [simp]: "ring_slice xs s 0 = []"
  by (simp add: ring_slice_def)

lemma ring_slice_snoc:
  "ring_slice xs s (Suc n) = ring_slice xs s n @ [xs ! ((s + n) mod length xs)]"
  by (simp add: ring_slice_def)

lemma ring_slice_Cons:
  "ring_slice xs s (Suc n) = xs ! (s mod length xs) # ring_slice xs (Suc s mod length xs) n"
  by (rule nth_equalityI) (auto simp: nth_Cons' mod_simps less_Suc_eq_0_disj)

lemma ring_slice_mod: "ring_slice xs (s mod length xs) n = ring_slice xs s n"
  by (simp add: ring_slice_def mod_simps)

lemma ring_slice_append:
  "ring_slice xs s (m + n) = ring_slice xs s m @ ring_slice xs ((s + m) mod length xs) n"
proof (induction n)
  case 0
  show ?case by simp
next
  case (Suc n)
  then show ?case by (simp add: ring_slice_snoc mod_simps add.assoc)
qed

text \<open>Two positions less than a full turn apart are different cells.\<close>

lemma ring_pos_inj:
  fixes N :: nat
  assumes "i < N" "j < N" "(s + i) mod N = (s + j) mod N"
  shows "i = j"
proof (rule ccontr)
  assume "i \<noteq> j"
  moreover have False if "a < b" "b < N" "(s + a) mod N = (s + b) mod N" for a b
  proof -
    have "(s + b) mod N - (s + a) mod N = 0" using that by simp
    then have "N dvd (s + b) - (s + a)"
      using that(3) by (metis mod_eq_dvd_iff_nat add_le_cancel_left less_imp_le that(1))
    then have "N dvd b - a" by simp
    with that(1,2) show False using nat_dvd_not_less [of "b - a" N] by auto
  qed
  ultimately show False using assms by (metis linorder_neqE_nat)
qed

lemma ring_slice_update_other:
  assumes "n \<le> k" "k < length xs"
  shows "ring_slice (xs[(s + k) mod length xs := v]) s n = ring_slice xs s n"
proof (rule nth_equalityI)
  fix i assume "i < length (ring_slice (xs[(s + k) mod length xs := v]) s n)"
  then have "i < n" by simp
  moreover have "(s + k) mod length xs \<noteq> (s + i) mod length xs"
    using ring_pos_inj [of k "length xs" i s] assms \<open>i < n\<close> by auto
  ultimately show "ring_slice (xs[(s + k) mod length xs := v]) s n ! i = ring_slice xs s n ! i"
    by simp
qed simp

lemma ring_slice_update_at:
  assumes "k < n" "n \<le> length xs"
  shows "ring_slice (xs[(s + k) mod length xs := v]) s n = (ring_slice xs s n)[k := v]"
proof (rule nth_equalityI)
  fix i assume "i < length (ring_slice (xs[(s + k) mod length xs := v]) s n)"
  then have i: "i < n" by simp
  have "(s + k) mod length xs = (s + i) mod length xs \<longleftrightarrow> k = i"
    using ring_pos_inj [of k "length xs" i s] assms i by auto
  moreover have "(s + k) mod length xs < length xs" using assms by (intro mod_less_divisor) linarith
  ultimately show "ring_slice (xs[(s + k) mod length xs := v]) s n ! i = (ring_slice xs s n)[k := v] ! i"
    using i assms by (auto simp: nth_list_update)
qed simp

text \<open>Appending at the first free cell.\<close>

lemma ring_push_busy:
  assumes "n < length xs"
  shows "ring_slice (xs[(s + n) mod length xs := v]) s (Suc n) = ring_slice xs s n @ [v]"
proof -
  have "(s + n) mod length xs < length xs" using assms by (intro mod_less_divisor) linarith
  with assms show ?thesis by (simp add: ring_slice_snoc ring_slice_update_other)
qed

lemma ring_push_free:
  assumes "n < length xs"
  shows "ring_slice (xs[(s + n) mod length xs := v]) ((s + Suc n) mod length xs) (length xs - Suc n)
       = tl (ring_slice xs ((s + n) mod length xs) (length xs - n))"
proof -
  have "ring_slice (xs[(s + n) mod length xs := v]) s (length xs)
      = (ring_slice xs s (length xs))[n := v]"
    using assms ring_slice_update_at [of n "length xs" xs s v] by simp
  then have "drop (Suc n) (ring_slice (xs[(s + n) mod length xs := v]) s (length xs))
      = drop (Suc n) (ring_slice xs s (length xs))"
    by simp
  moreover have "drop m (ring_slice ys s (length ys)) = ring_slice ys ((s + m) mod length ys) (length ys - m)"
    if "m \<le> length ys" for m and ys :: "'a list"
    using ring_slice_append [of ys s m "length ys - m"] that by simp
  ultimately have "ring_slice (xs[(s + n) mod length xs := v]) ((s + Suc n) mod length xs) (length xs - Suc n)
      = drop (Suc n) (ring_slice xs s (length xs))"
    using assms by (metis length_list_update Suc_leI)
  also have "\<dots> = tl (drop n (ring_slice xs s (length xs)))"
    by (simp add: drop_Suc drop_tl)
  also have "drop n (ring_slice xs s (length xs)) = ring_slice xs ((s + n) mod length xs) (length xs - n)"
    using ring_slice_append [of xs s n "length xs - n"] assms by simp
  finally show ?thesis .
qed

text \<open>Retiring the oldest entry.\<close>

lemma ring_pop_busy:
  assumes "n < length xs" "s < length xs"
  shows "ring_slice (xs[s := v]) (Suc s mod length xs) n = tl (ring_slice xs s (Suc n))"
proof -
  have "ring_slice (xs[s := v]) s (Suc n) = (ring_slice xs s (Suc n))[0 := v]"
    using ring_slice_update_at [of 0 "Suc n" xs s v] assms by simp
  then have "tl (ring_slice (xs[s := v]) s (Suc n)) = tl (ring_slice xs s (Suc n))"
    by (cases "ring_slice xs s (Suc n)") simp_all
  then show ?thesis by (simp add: ring_slice_Cons)
qed

lemma ring_pop_free:
  assumes "n < length xs" "s < length xs"
  shows "ring_slice (xs[s := v]) ((Suc s + n) mod length xs) (length xs - n)
       = ring_slice xs ((s + Suc n) mod length xs) (length xs - Suc n) @ [v]"
proof -
  define f where "f = (s + Suc n) mod length xs"
  have split: "length xs - n = Suc (length xs - Suc n)" using assms by simp
  have last: "(f + (length xs - Suc n)) mod length xs = s"
  proof -
    have "(f + (length xs - Suc n)) mod length xs = (s + Suc n + (length xs - Suc n)) mod length xs"
      unfolding f_def by (rule mod_add_left_eq)
    also have "s + Suc n + (length xs - Suc n) = s + length xs" using assms by simp
    finally show ?thesis using assms by simp
  qed
  have "ring_slice (xs[(f + (length xs - Suc n)) mod length xs := v]) f (Suc (length xs - Suc n))
      = ring_slice xs f (length xs - Suc n) @ [v]"
    using assms by (intro ring_push_busy) simp
  then have "ring_slice (xs[s := v]) f (length xs - n) = ring_slice xs f (length xs - Suc n) @ [v]"
    unfolding last split .
  then show ?thesis by (simp add: f_def)
qed

section \<open>Bounded FIFOs\<close>

locale fifo_ring =
  fixes inv :: "'s \<Rightarrow> bool"
    and entries :: "'s \<Rightarrow> 'e list"
    and cap :: nat
    and push :: "'a \<Rightarrow> 's \<Rightarrow> 's result"
    and entry :: "'a \<Rightarrow> 's \<Rightarrow> 'e"
    and pop :: "'s \<Rightarrow> 's result"
  assumes entries_cap: "inv s \<Longrightarrow> length (entries s) \<le> cap"
    and push_ok: "inv s \<Longrightarrow> length (entries s) < cap \<Longrightarrow>
          \<exists>s'. push a s = Inr s' \<and> inv s' \<and> entries s' = entries s @ [entry a s]"
    and pop_ok: "inv s \<Longrightarrow> entries s \<noteq> [] \<Longrightarrow>
          \<exists>s'. pop s = Inr s' \<and> inv s' \<and> entries s' = tl (entries s)"
begin

fun push_all :: "'a list \<Rightarrow> 's \<Rightarrow> 's result" where
  "push_all [] s = Inr s"
| "push_all (a # as) s = bindR (push a s) (push_all as)"

fun pop_n :: "nat \<Rightarrow> 's \<Rightarrow> 's result" where
  "pop_n 0 s = Inr s"
| "pop_n (Suc n) s = bindR (pop s) (pop_n n)"

lemma pop_n_ok:
  "inv s \<Longrightarrow> n \<le> length (entries s) \<Longrightarrow>
     \<exists>s'. pop_n n s = Inr s' \<and> inv s' \<and> entries s' = drop n (entries s)"
proof (induction n arbitrary: s)
  case (Suc n)
  then obtain s1 where s1: "pop s = Inr s1" "inv s1" "entries s1 = tl (entries s)"
    using pop_ok [of s] by (cases "entries s") auto
  with Suc.IH [of s1] Suc.prems(2) show ?case by (auto simp: drop_Suc)
qed simp

lemma push_all_ok:
  "inv s \<Longrightarrow> length (entries s) + length as \<le> cap \<Longrightarrow>
     \<exists>s'. push_all as s = Inr s' \<and> inv s' \<and> take (length (entries s)) (entries s') = entries s
        \<and> length (entries s') = length (entries s) + length as"
proof (induction as arbitrary: s)
  case (Cons a as)
  then obtain s1 where s1: "push a s = Inr s1" "inv s1" "entries s1 = entries s @ [entry a s]"
    using push_ok [of s a] by auto
  with Cons.IH [of s1] Cons.prems(2) obtain s2 where
    "push_all as s1 = Inr s2" "inv s2" "take (length (entries s1)) (entries s2) = entries s1"
    "length (entries s2) = length (entries s1) + length as"
    by auto
  with s1 show ?case by (auto simp: take_Suc_conv_app_nth dest: arg_cong [where f = "take (length (entries s))"])
qed simp

end

section \<open>Walking a ring\<close>

text \<open>
  The reaping loops of the drivers: from an index up to another, one body per index,
  \<open>while (idx != stop) { body(idx); idx = next(idx); }\<close>. The index runs over 16-bit words, so after
  \<open>2 ^ 16\<close> steps it has repeated itself; a walk that has not met \<open>stop\<close> by then never does.
\<close>

fun walk :: "nat \<Rightarrow> (u16 \<Rightarrow> u16) \<Rightarrow> (u16 \<Rightarrow> 's \<Rightarrow> 's result) \<Rightarrow> u16 \<Rightarrow> u16 \<Rightarrow> 's \<Rightarrow> 's result" where
  "walk fuel nxt body stop idx s =
     (if idx = stop then Inr s
      else (case fuel of
              0 \<Rightarrow> Inl Diverges
            | Suc f \<Rightarrow> bindR (body idx s) (walk f nxt body stop (nxt idx))))"

declare walk.simps [simp del]

definition walk_u16 :: "(u16 \<Rightarrow> u16) \<Rightarrow> (u16 \<Rightarrow> 's \<Rightarrow> 's result) \<Rightarrow> u16 \<Rightarrow> u16 \<Rightarrow> 's \<Rightarrow> 's result" where
  "walk_u16 = walk 65536"

text \<open>One body per element of a list, in order.\<close>

fun for_list :: "('i \<Rightarrow> 's \<Rightarrow> 's result) \<Rightarrow> 'i list \<Rightarrow> 's \<Rightarrow> 's result" where
  "for_list body [] s = Inr s"
| "for_list body (i # is) s = bindR (body i s) (for_list body is)"

lemma for_list_append: "for_list body (xs @ ys) s = bindR (for_list body xs s) (for_list body ys)"
  by (induction xs arbitrary: s) (simp_all add: bindR_assoc bindR_def split: sum.split)

lemma for_list_inv:
  assumes "\<And>i s. i \<in> set is \<Longrightarrow> P s \<Longrightarrow> \<exists>s'. body i s = Inr s' \<and> P s'" "P s"
  shows "\<exists>s'. for_list body is s = Inr s' \<and> P s'"
  using assms
proof (induction "is" arbitrary: s)
  case (Cons i "is")
  obtain s1 where s1: "body i s = Inr s1" "P s1" using Cons.prems(1) [of i s] Cons.prems(2) by auto
  have "\<exists>s'. for_list body is s1 = Inr s' \<and> P s'"
    using s1(2) by (intro Cons.IH Cons.prems(1)) auto
  with s1(1) show ?case by simp
qed simp

lemma walk_visits:
  assumes "\<And>k. k < n \<Longrightarrow> (nxt ^^ k) idx \<noteq> stop" "(nxt ^^ n) idx = stop" "n \<le> fuel"
  shows "walk fuel nxt body stop idx s = for_list body (map (\<lambda>k. (nxt ^^ k) idx) [0..<n]) s"
  using assms
proof (induction n arbitrary: fuel idx s)
  case 0
  then show ?case by (simp add: walk.simps)
next
  case (Suc n)
  from Suc.prems(3) obtain f where f: "fuel = Suc f" "n \<le> f" by (cases fuel) auto
  have ne: "idx \<noteq> stop" using Suc.prems(1) [of 0] by simp
  have IH: "walk f nxt body stop (nxt idx) t = for_list body (map (\<lambda>k. (nxt ^^ k) (nxt idx)) [0..<n]) t" for t
  proof (rule Suc.IH)
    show "(nxt ^^ k) (nxt idx) \<noteq> stop" if "k < n" for k
      using Suc.prems(1) [of "Suc k"] that by (simp add: funpow_swap1)
    show "(nxt ^^ n) (nxt idx) = stop" using Suc.prems(2) by (simp add: funpow_swap1)
  qed (rule f(2))
  have l: "map (\<lambda>k. (nxt ^^ k) idx) [0..<Suc n] = idx # map (\<lambda>k. (nxt ^^ k) (nxt idx)) [0..<n]"
    by (simp add: map_upt_Suc funpow_swap1 del: upt_Suc)
  show ?case
    unfolding l by (subst walk.simps) (simp add: f(1) ne IH bindR_def split: sum.split)
qed

lemma walk_u16_misses:
  fixes nxt :: "u16 \<Rightarrow> u16"
  assumes "\<And>k. k < 65536 \<Longrightarrow> (nxt ^^ k) idx \<noteq> stop"
  shows "(nxt ^^ k) idx \<noteq> stop"
proof -
  define S where "S = (\<lambda>k. (nxt ^^ k) idx) ` {..<65536}"
  have "S \<subseteq> UNIV - {stop}" using assms by (auto simp: S_def)
  then have "card S \<le> card (UNIV - {stop})" by (rule card_mono [rotated]) simp
  also have "\<dots> = 65535" by (simp add: card_Diff_singleton card_word)
  finally have "\<not> inj_on (\<lambda>k. (nxt ^^ k) idx) {..<65536}"
    using card_image [of "\<lambda>k. (nxt ^^ k) idx" "{..<65536}"] by (auto simp: S_def)
  then obtain i j where ij: "i < j" "j < 65536" "(nxt ^^ i) idx = (nxt ^^ j) idx"
    by (auto simp: inj_on_def) (metis linorder_neqE_nat)
  have shift: "(nxt ^^ (i + m)) idx = (nxt ^^ (j + m)) idx" for m
  proof (induction m)
    case (Suc m)
    then have "nxt ((nxt ^^ (i + m)) idx) = nxt ((nxt ^^ (j + m)) idx)" by simp
    then show ?case by simp
  qed (simp add: ij(3))
  show ?thesis
  proof (induction k rule: less_induct)
    case (less k)
    show ?case
    proof (cases "k < 65536")
      case True
      then show ?thesis by (rule assms)
    next
      case False
      define m where "m = k - j"
      have "k = j + m" "i + m < k" using False ij(1,2) by (simp_all add: m_def)
      then show ?thesis using less.IH [of "i + m"] shift [of m] by simp
    qed
  qed
qed

lemma u16_less: "unat (x :: u16) < 65536"
  using unsigned_less [of x] by simp

text \<open>\<open>if (++idx == count) idx = 0\<close>.\<close>

definition ring_next :: "u16 \<Rightarrow> u16 \<Rightarrow> u16" where
  "ring_next count idx = (let idx = idx + 1 in if idx = count then 0 else idx)"

lemma ring_next_unat:
  assumes "unat idx < unat count"
  shows "unat (ring_next count idx) = Suc (unat idx) mod unat count"
proof -
  have "unat idx < 65535" using assms u16_less [of count] by simp
  then have i: "unat (idx + 1) = Suc (unat idx)"
    by (subst unat_add_lem [THEN iffD1]) auto
  show ?thesis
  proof (cases "idx + 1 = count")
    case True
    then show ?thesis using i by (simp add: ring_next_def)
  next
    case False
    then have "Suc (unat idx) \<noteq> unat count" using i by (metis word_unat_eq_iff)
    with assms have "Suc (unat idx) < unat count" by simp
    with False i show ?thesis by (simp add: ring_next_def)
  qed
qed

lemma ring_next_funpow:
  assumes "unat idx < unat count"
  shows "unat ((ring_next count ^^ k) idx) = (unat idx + k) mod unat count"
proof (induction k)
  case (Suc k)
  have "0 < unat count" using assms by simp
  then have "unat ((ring_next count ^^ k) idx) < unat count" using Suc by simp
  then show ?case using Suc by (simp add: ring_next_unat mod_simps)
qed (use assms in simp)

text \<open>The indices from \<open>idx\<close> up to, and without, \<open>stop\<close>.\<close>

definition ring_dist :: "u16 \<Rightarrow> u16 \<Rightarrow> u16 \<Rightarrow> nat" where
  "ring_dist count idx stop = (unat count + unat stop - unat idx) mod unat count"

definition ring_span :: "u16 \<Rightarrow> u16 \<Rightarrow> u16 \<Rightarrow> u16 list" where
  "ring_span count idx stop = map (\<lambda>k. (ring_next count ^^ k) idx) [0..<ring_dist count idx stop]"

lemma ring_dist_less: "0 < unat count \<Longrightarrow> ring_dist count idx stop < unat count"
  by (simp add: ring_dist_def)

lemma ring_dist_reaches:
  assumes "unat idx < unat count" "unat stop < unat count"
  shows "(unat idx + ring_dist count idx stop) mod unat count = unat stop"
proof -
  have "(unat idx + ring_dist count idx stop) mod unat count
      = (unat idx + (unat count + unat stop - unat idx)) mod unat count"
    unfolding ring_dist_def by (rule mod_add_right_eq)
  also have "unat idx + (unat count + unat stop - unat idx) = unat count + unat stop"
    using assms by simp
  finally show ?thesis using assms(2) by simp
qed

lemma ring_span_walk:
  assumes "unat idx < unat count" "unat stop < unat count"
  shows "walk_u16 (ring_next count) body stop idx s = for_list body (ring_span count idx stop) s"
  unfolding walk_u16_def ring_span_def
proof (rule walk_visits)
  let ?n = "ring_dist count idx stop"
  have n: "?n < unat count" using assms by (intro ring_dist_less) simp
  show "(ring_next count ^^ ?n) idx = stop"
    unfolding word_unat_eq_iff ring_next_funpow [OF assms(1)] by (rule ring_dist_reaches [OF assms])
  show "?n \<le> 65536" using n u16_less [of count] by simp
  show "(ring_next count ^^ k) idx \<noteq> stop" if "k < ?n" for k
  proof
    assume "(ring_next count ^^ k) idx = stop"
    then have "(unat idx + k) mod unat count = (unat idx + ?n) mod unat count"
      using ring_next_funpow [OF assms(1), of k] ring_dist_reaches [OF assms] by simp
    then have "k = ?n" by (rule ring_pos_inj [OF order_less_trans [OF that n] n])
    with that show False by simp
  qed
qed

lemma ring_span_set:
  assumes "unat idx < unat count" "i \<in> set (ring_span count idx stop)"
  shows "unat i < unat count"
proof -
  have "0 < unat count" using assms(1) by simp
  then show ?thesis using assms ring_next_funpow [OF assms(1)] by (auto simp: ring_span_def)
qed

lemma ring_span_unat:
  assumes "unat idx < unat count"
  shows "map unat (ring_span count idx stop)
       = map (\<lambda>k. (unat idx + k) mod unat count) [0..<ring_dist count idx stop]"
  by (simp add: ring_span_def ring_next_funpow [OF assms])

lemma ring_span_length [simp]: "length (ring_span count idx stop) = ring_dist count idx stop"
  by (simp add: ring_span_def)

lemma ring_span_distinct:
  assumes "unat idx < unat count"
  shows "distinct (ring_span count idx stop)"
proof -
  have "distinct (map unat (ring_span count idx stop))"
    unfolding ring_span_unat [OF assms] distinct_map
  proof (intro conjI inj_onI)
    fix i j
    assume "i \<in> set [0..<ring_dist count idx stop]" "j \<in> set [0..<ring_dist count idx stop]"
      and e: "(unat idx + i) mod unat count = (unat idx + j) mod unat count"
    then have "i < unat count" "j < unat count"
      using ring_dist_less [of count idx stop] assms by auto
    then show "i = j" using e by (rule ring_pos_inj)
  qed simp
  then show ?thesis by (rule distinct_map [THEN iffD1, THEN conjunct1])
qed

text \<open>Consuming the first index of a span, and producing one more.\<close>

lemma ring_dist_Suc:
  assumes "unat idx < unat count" "unat stop < unat count" "idx \<noteq> stop"
  shows "ring_dist count idx stop = Suc (ring_dist count (ring_next count idx) stop)"
proof -
  have ne: "unat idx \<noteq> unat stop" using assms(3) by (simp add: word_unat_eq_iff)
  have n: "unat (ring_next count idx) = Suc (unat idx) mod unat count" by (rule ring_next_unat [OF assms(1)])
  show ?thesis
  proof (cases "Suc (unat idx) = unat count")
    case True
    then show ?thesis using assms(2) ne by (simp add: ring_dist_def n mod_if) arith
  next
    case False
    then have "Suc (unat idx) < unat count" using assms(1) by simp
    then show ?thesis using assms(2) ne by (simp add: ring_dist_def n mod_if) arith
  qed
qed

lemma ring_span_Cons:
  assumes "unat idx < unat count" "unat stop < unat count" "idx \<noteq> stop"
  shows "ring_span count idx stop = idx # ring_span count (ring_next count idx) stop"
  unfolding ring_span_def ring_dist_Suc [OF assms]
  by (simp add: map_upt_Suc funpow_swap1 del: upt_Suc)

lemma ring_span_self [simp]: "ring_span count idx idx = []"
  by (simp add: ring_span_def ring_dist_def)

lemma ring_dist_snoc:
  assumes "unat idx < unat count" "unat stop < unat count" "ring_next count stop \<noteq> idx"
  shows "ring_dist count idx (ring_next count stop) = Suc (ring_dist count idx stop)"
proof -
  have n: "unat (ring_next count stop) = Suc (unat stop) mod unat count" by (rule ring_next_unat [OF assms(2)])
  have ne: "Suc (unat stop) mod unat count \<noteq> unat idx" using assms(3) n by (metis word_unat_eq_iff)
  show ?thesis
  proof (cases "Suc (unat stop) = unat count")
    case True
    then show ?thesis using assms(1) ne by (auto simp: ring_dist_def n mod_if)
  next
    case False
    then have "Suc (unat stop) < unat count" using assms(2) by simp
    then show ?thesis using assms(1) ne by (auto simp: ring_dist_def n mod_if)
  qed
qed

lemma ring_span_snoc:
  assumes "unat idx < unat count" "unat stop < unat count" "ring_next count stop \<noteq> idx"
  shows "ring_span count idx (ring_next count stop) = ring_span count idx stop @ [stop]"
proof -
  have "(ring_next count ^^ ring_dist count idx stop) idx = stop"
    unfolding word_unat_eq_iff ring_next_funpow [OF assms(1)] by (rule ring_dist_reaches [OF assms(1,2)])
  then show ?thesis unfolding ring_span_def ring_dist_snoc [OF assms] by simp
qed

lemma ring_span_stop: "unat idx < unat count \<Longrightarrow> unat stop < unat count \<Longrightarrow> stop \<notin> set (ring_span count idx stop)"
proof
  assume a: "unat idx < unat count" "unat stop < unat count" "stop \<in> set (ring_span count idx stop)"
  then obtain j where j: "j < ring_dist count idx stop" "stop = (ring_next count ^^ j) idx"
    by (auto simp: ring_span_def)
  have "(unat idx + j) mod unat count = (unat idx + ring_dist count idx stop) mod unat count"
    using ring_next_funpow [OF a(1), of j] ring_dist_reaches [OF a(1,2)] j(2) by simp
  moreover have d: "ring_dist count idx stop < unat count" using a(1) by (intro ring_dist_less) simp
  ultimately have "j = ring_dist count idx stop"
    by (intro ring_pos_inj [OF order_less_trans [OF j(1) d] d])
  with j(1) show False by simp
qed

text \<open>An index between the consumer and the producer: the rest of the span is what lies ahead of it.\<close>

definition between :: "u16 \<Rightarrow> u16 \<Rightarrow> u16 \<Rightarrow> u16 \<Rightarrow> bool" where
  "between count idx x stop \<longleftrightarrow> (\<exists>j \<le> ring_dist count idx stop. x = (ring_next count ^^ j) idx)"

lemma between_refl: "between count idx idx stop"
  unfolding between_def by (rule exI [of _ 0]) simp

lemma between_mem:
  assumes "between count idx x stop" "x \<noteq> stop" "unat idx < unat count" "unat stop < unat count"
  shows "x \<in> set (ring_span count idx stop)"
proof -
  obtain j where j: "j \<le> ring_dist count idx stop" "x = (ring_next count ^^ j) idx"
    using assms(1) by (auto simp: between_def)
  have "(ring_next count ^^ ring_dist count idx stop) idx = stop"
    unfolding word_unat_eq_iff ring_next_funpow [OF assms(3)] by (rule ring_dist_reaches [OF assms(3,4)])
  with j assms(2) have "j < ring_dist count idx stop" by (cases "j = ring_dist count idx stop") auto
  then show ?thesis using j(2) by (auto simp: ring_span_def)
qed

lemma between_next:
  assumes "between count idx x stop" "x \<noteq> stop" "unat idx < unat count" "unat stop < unat count"
  shows "between count idx (ring_next count x) stop"
proof -
  obtain j where j: "j \<le> ring_dist count idx stop" "x = (ring_next count ^^ j) idx"
    using assms(1) by (auto simp: between_def)
  have "(ring_next count ^^ ring_dist count idx stop) idx = stop"
    unfolding word_unat_eq_iff ring_next_funpow [OF assms(3)] by (rule ring_dist_reaches [OF assms(3,4)])
  with j assms(2) have "j < ring_dist count idx stop" by (cases "j = ring_dist count idx stop") auto
  then show ?thesis using j(2) unfolding between_def by (intro exI [of _ "Suc j"]) simp
qed

lemma between_snoc:
  assumes "between count idx x stop" "unat idx < unat count" "unat stop < unat count" "ring_next count stop \<noteq> idx"
  shows "between count idx x (ring_next count stop)"
  using assms(1) unfolding between_def ring_dist_snoc [OF assms(2-4)] by (metis le_SucI)

lemma between_less: "between count idx x stop \<Longrightarrow> unat idx < unat count \<Longrightarrow> unat x < unat count"
  by (auto simp: between_def ring_next_funpow)

lemma between_span:
  assumes "between count idx x stop" "unat idx < unat count" "unat stop < unat count"
  shows "set (ring_span count x stop) \<subseteq> set (ring_span count idx stop)"
proof -
  obtain j where j: "j \<le> ring_dist count idx stop" "x = (ring_next count ^^ j) idx"
    using assms(1) by (auto simp: between_def)
  then show ?thesis
    using assms(2)
  proof (induction j arbitrary: idx)
    case (Suc j)
    then have ne: "idx \<noteq> stop" by (auto simp: ring_dist_def)
    have c: "ring_span count idx stop = idx # ring_span count (ring_next count idx) stop"
      by (rule ring_span_Cons [OF Suc.prems(3) assms(3) ne])
    have "unat (ring_next count idx) < unat count"
      using ring_next_unat [OF Suc.prems(3)] Suc.prems(3) by simp
    then have "set (ring_span count x stop) \<subseteq> set (ring_span count (ring_next count idx) stop)"
      using Suc.prems(1,2) ring_dist_Suc [OF Suc.prems(3) assms(3) ne]
      by (intro Suc.IH) (simp_all add: funpow_swap1)
    then show ?case unfolding c by auto
  qed simp
qed

end
