(* ===== verification/Edma_Regs.thy ===== *)
theory Edma_Regs
  imports Hal_If
begin

text \<open>
  The register map of the EDMA engine (\<open>hal/edma/edma_regs.h\<close>): offsets, ring register blocks,
  masks and shifts, with the choices the build makes per SoC as functions of \<open>soc\<close>; the port
  limits of \<open>nss_ipq807x.h\<close> and \<open>nss_ipq60xx.h\<close>.
\<close>

text \<open>The SoCs the EDMA data plane is built for (\<open>NSS_DP_IPQ807X\<close>, \<open>NSS_DP_IPQ60XX\<close>).\<close>

datatype soc = IPQ807X | IPQ60XX

definition NSS_DP_HAL_MAX_PORTS :: "soc \<Rightarrow> nat" where
  "NSS_DP_HAL_MAX_PORTS s = (case s of IPQ807X \<Rightarrow> 6 | IPQ60XX \<Rightarrow> 5)"

abbreviation (input) NSS_DP_HAL_START_IFNUM :: nat where "NSS_DP_HAL_START_IFNUM \<equiv> 1"

section \<open>Offsets and fields\<close>

abbreviation (input) EDMA_REG_MAS_CTRL :: u32 where "EDMA_REG_MAS_CTRL \<equiv> 0x0"
abbreviation (input) EDMA_REG_PORT_CTRL :: u32 where "EDMA_REG_PORT_CTRL \<equiv> 0x4"
abbreviation (input) EDMA_REG_VLAN_CTRL :: u32 where "EDMA_REG_VLAN_CTRL \<equiv> 0x8"
abbreviation (input) EDMA_REG_RXDESC2FILL_MAP_0 :: u32 where "EDMA_REG_RXDESC2FILL_MAP_0 \<equiv> 0x18"
abbreviation (input) EDMA_REG_RXDESC2FILL_MAP_1 :: u32 where "EDMA_REG_RXDESC2FILL_MAP_1 \<equiv> 0x1c"
abbreviation (input) EDMA_REG_TXQ_CTRL :: u32 where "EDMA_REG_TXQ_CTRL \<equiv> 0x20"
abbreviation (input) EDMA_REG_TXQ_CTRL_2 :: u32 where "EDMA_REG_TXQ_CTRL_2 \<equiv> 0x24"
abbreviation (input) EDMA_REG_TXQ_FC_0 :: u32 where "EDMA_REG_TXQ_FC_0 \<equiv> 0x28"
abbreviation (input) EDMA_REG_TXQ_FC_1 :: u32 where "EDMA_REG_TXQ_FC_1 \<equiv> 0x30"
abbreviation (input) EDMA_REG_TXQ_FC_2 :: u32 where "EDMA_REG_TXQ_FC_2 \<equiv> 0x34"
abbreviation (input) EDMA_REG_TXQ_FC_3 :: u32 where "EDMA_REG_TXQ_FC_3 \<equiv> 0x38"
abbreviation (input) EDMA_REG_RXQ_CTRL :: u32 where "EDMA_REG_RXQ_CTRL \<equiv> 0x3c"
abbreviation (input) EDMA_REG_RX_TX_FULL_QID :: u32 where "EDMA_REG_RX_TX_FULL_QID \<equiv> 0x40"
abbreviation (input) EDMA_REG_RXQ_FC_THRE :: u32 where "EDMA_REG_RXQ_FC_THRE \<equiv> 0x44"
abbreviation (input) EDMA_REG_DMAR_CTRL :: u32 where "EDMA_REG_DMAR_CTRL \<equiv> 0x48"
abbreviation (input) EDMA_REG_AXIR_CTRL :: u32 where "EDMA_REG_AXIR_CTRL \<equiv> 0x4c"
abbreviation (input) EDMA_REG_AXIW_CTRL :: u32 where "EDMA_REG_AXIW_CTRL \<equiv> 0x50"
abbreviation (input) EDMA_REG_MIN_MSS :: u32 where "EDMA_REG_MIN_MSS \<equiv> 0x54"
abbreviation (input) EDMA_REG_LOOPBACK_CTRL :: u32 where "EDMA_REG_LOOPBACK_CTRL \<equiv> 0x58"
abbreviation (input) EDMA_REG_MISC_INT_STAT :: u32 where "EDMA_REG_MISC_INT_STAT \<equiv> 0x5c"
abbreviation (input) EDMA_REG_MISC_INT_MASK :: u32 where "EDMA_REG_MISC_INT_MASK \<equiv> 0x60"
abbreviation (input) EDMA_REG_DBG_CTRL :: u32 where "EDMA_REG_DBG_CTRL \<equiv> 0x64"
abbreviation (input) EDMA_REG_DBG_DATA :: u32 where "EDMA_REG_DBG_DATA \<equiv> 0x68"
abbreviation (input) EDMA_REG_TXDESC_BA :: "u32 \<Rightarrow> u32" where "EDMA_REG_TXDESC_BA n \<equiv> 0x1000 + 0x1000 * n"
abbreviation (input) EDMA_REG_TXDESC_PROD_IDX :: "u32 \<Rightarrow> u32" where "EDMA_REG_TXDESC_PROD_IDX n \<equiv> 0x1004 + 0x1000 * n"
abbreviation (input) EDMA_REG_TXDESC_CONS_IDX :: "u32 \<Rightarrow> u32" where "EDMA_REG_TXDESC_CONS_IDX n \<equiv> 0x1008 + 0x1000 * n"
abbreviation (input) EDMA_REG_TXDESC_RING_SIZE :: "u32 \<Rightarrow> u32" where "EDMA_REG_TXDESC_RING_SIZE n \<equiv> 0x100c + 0x1000 * n"
abbreviation (input) EDMA_REG_TXDESC_CTRL :: "u32 \<Rightarrow> u32" where "EDMA_REG_TXDESC_CTRL n \<equiv> 0x1010 + 0x1000 * n"
abbreviation (input) EDMA_REG_TXDESC2CMPL_MAP_0 :: u32 where "EDMA_REG_TXDESC2CMPL_MAP_0 \<equiv> 0xc"
abbreviation (input) EDMA_REG_TXDESC2CMPL_MAP_1 :: u32 where "EDMA_REG_TXDESC2CMPL_MAP_1 \<equiv> 0x10"
abbreviation (input) EDMA_REG_TXDESC2CMPL_MAP_2 :: u32 where "EDMA_REG_TXDESC2CMPL_MAP_2 \<equiv> 0x14"
definition EDMA_REG_TXCMPL_BASE :: "soc \<Rightarrow> u32" where
  "EDMA_REG_TXCMPL_BASE s = (case s of IPQ807X \<Rightarrow> 0x19000 | IPQ60XX \<Rightarrow> 0x79000)"
definition EDMA_REG_TX_BASE :: "soc \<Rightarrow> u32" where
  "EDMA_REG_TX_BASE s = (case s of IPQ807X \<Rightarrow> 0x21000 | IPQ60XX \<Rightarrow> 0x91000)"
abbreviation (input) EDMA_REG_TXCMPL_BA_OFFSET :: u32 where "EDMA_REG_TXCMPL_BA_OFFSET \<equiv> 0x00000"
abbreviation (input) EDMA_REG_TXCMPL_PROD_IDX_OFFSET :: u32 where "EDMA_REG_TXCMPL_PROD_IDX_OFFSET \<equiv> 0x00004"
abbreviation (input) EDMA_REG_TXCMPL_CONS_IDX_OFFSET :: u32 where "EDMA_REG_TXCMPL_CONS_IDX_OFFSET \<equiv> 0x00008"
abbreviation (input) EDMA_REG_TXCMPL_RING_SIZE_OFFSET :: u32 where "EDMA_REG_TXCMPL_RING_SIZE_OFFSET \<equiv> 0x0000c"
abbreviation (input) EDMA_REG_TXCMPL_UGT_THRE_OFFSET :: u32 where "EDMA_REG_TXCMPL_UGT_THRE_OFFSET \<equiv> 0x00010"
abbreviation (input) EDMA_REG_TXCMPL_CTRL_OFFSET :: u32 where "EDMA_REG_TXCMPL_CTRL_OFFSET \<equiv> 0x00014"
abbreviation (input) EDMA_REG_TXCMPL_BPC_OFFSET :: u32 where "EDMA_REG_TXCMPL_BPC_OFFSET \<equiv> 0x00018"
abbreviation (input) EDMA_REG_TX_INT_STAT_OFFSET :: u32 where "EDMA_REG_TX_INT_STAT_OFFSET \<equiv> 0x00000"
abbreviation (input) EDMA_REG_TX_INT_MASK_OFFSET :: u32 where "EDMA_REG_TX_INT_MASK_OFFSET \<equiv> 0x00004"
abbreviation (input) EDMA_REG_TX_MOD_TIMER_OFFSET :: u32 where "EDMA_REG_TX_MOD_TIMER_OFFSET \<equiv> 0x00008"
abbreviation (input) EDMA_REG_TX_INT_CTRL_OFFSET :: u32 where "EDMA_REG_TX_INT_CTRL_OFFSET \<equiv> 0x0000c"
abbreviation (input) EDMA_REG_TXCMPL_BA :: "soc \<Rightarrow> u32 \<Rightarrow> u32" where
  "EDMA_REG_TXCMPL_BA s n \<equiv> EDMA_REG_TXCMPL_BASE s + EDMA_REG_TXCMPL_BA_OFFSET + 0x1000 * n"
abbreviation (input) EDMA_REG_TXCMPL_PROD_IDX :: "soc \<Rightarrow> u32 \<Rightarrow> u32" where
  "EDMA_REG_TXCMPL_PROD_IDX s n \<equiv> EDMA_REG_TXCMPL_BASE s + EDMA_REG_TXCMPL_PROD_IDX_OFFSET + 0x1000 * n"
abbreviation (input) EDMA_REG_TXCMPL_CONS_IDX :: "soc \<Rightarrow> u32 \<Rightarrow> u32" where
  "EDMA_REG_TXCMPL_CONS_IDX s n \<equiv> EDMA_REG_TXCMPL_BASE s + EDMA_REG_TXCMPL_CONS_IDX_OFFSET + 0x1000 * n"
abbreviation (input) EDMA_REG_TXCMPL_RING_SIZE :: "soc \<Rightarrow> u32 \<Rightarrow> u32" where
  "EDMA_REG_TXCMPL_RING_SIZE s n \<equiv> EDMA_REG_TXCMPL_BASE s + EDMA_REG_TXCMPL_RING_SIZE_OFFSET + 0x1000 * n"
abbreviation (input) EDMA_REG_TXCMPL_UGT_THRE :: "soc \<Rightarrow> u32 \<Rightarrow> u32" where
  "EDMA_REG_TXCMPL_UGT_THRE s n \<equiv> EDMA_REG_TXCMPL_BASE s + EDMA_REG_TXCMPL_UGT_THRE_OFFSET + 0x1000 * n"
abbreviation (input) EDMA_REG_TXCMPL_CTRL :: "soc \<Rightarrow> u32 \<Rightarrow> u32" where
  "EDMA_REG_TXCMPL_CTRL s n \<equiv> EDMA_REG_TXCMPL_BASE s + EDMA_REG_TXCMPL_CTRL_OFFSET + 0x1000 * n"
abbreviation (input) EDMA_REG_TXCMPL_BPC :: "soc \<Rightarrow> u32 \<Rightarrow> u32" where
  "EDMA_REG_TXCMPL_BPC s n \<equiv> EDMA_REG_TXCMPL_BASE s + EDMA_REG_TXCMPL_BPC_OFFSET + 0x1000 * n"
abbreviation (input) EDMA_REG_TX_INT_STAT :: "soc \<Rightarrow> u32 \<Rightarrow> u32" where
  "EDMA_REG_TX_INT_STAT s n \<equiv> EDMA_REG_TX_BASE s + EDMA_REG_TX_INT_STAT_OFFSET + 0x1000 * n"
abbreviation (input) EDMA_REG_TX_INT_MASK :: "soc \<Rightarrow> u32 \<Rightarrow> u32" where
  "EDMA_REG_TX_INT_MASK s n \<equiv> EDMA_REG_TX_BASE s + EDMA_REG_TX_INT_MASK_OFFSET + 0x1000 * n"
abbreviation (input) EDMA_REG_TX_MOD_TIMER :: "soc \<Rightarrow> u32 \<Rightarrow> u32" where
  "EDMA_REG_TX_MOD_TIMER s n \<equiv> EDMA_REG_TX_BASE s + EDMA_REG_TX_MOD_TIMER_OFFSET + 0x1000 * n"
abbreviation (input) EDMA_REG_TX_INT_CTRL :: "soc \<Rightarrow> u32 \<Rightarrow> u32" where
  "EDMA_REG_TX_INT_CTRL s n \<equiv> EDMA_REG_TX_BASE s + EDMA_REG_TX_INT_CTRL_OFFSET + 0x1000 * n"
abbreviation (input) EDMA_REG_RXFILL_BA :: "u32 \<Rightarrow> u32" where "EDMA_REG_RXFILL_BA n \<equiv> 0x29000 + 0x1000 * n"
abbreviation (input) EDMA_REG_RXFILL_PROD_IDX :: "u32 \<Rightarrow> u32" where "EDMA_REG_RXFILL_PROD_IDX n \<equiv> 0x29004 + 0x1000 * n"
abbreviation (input) EDMA_REG_RXFILL_CONS_IDX :: "u32 \<Rightarrow> u32" where "EDMA_REG_RXFILL_CONS_IDX n \<equiv> 0x29008 + 0x1000 * n"
abbreviation (input) EDMA_REG_RXFILL_RING_SIZE :: "u32 \<Rightarrow> u32" where "EDMA_REG_RXFILL_RING_SIZE n \<equiv> 0x2900c + 0x1000 * n"
abbreviation (input) EDMA_REG_RXFILL_BUFFER1_SIZE :: "u32 \<Rightarrow> u32" where "EDMA_REG_RXFILL_BUFFER1_SIZE n \<equiv> 0x29010 + 0x1000 * n"
abbreviation (input) EDMA_REG_RXFILL_FC_THRE :: "u32 \<Rightarrow> u32" where "EDMA_REG_RXFILL_FC_THRE n \<equiv> 0x29014 + 0x1000 * n"
abbreviation (input) EDMA_REG_RXFILL_UGT_THRE :: "u32 \<Rightarrow> u32" where "EDMA_REG_RXFILL_UGT_THRE n \<equiv> 0x29018 + 0x1000 * n"
abbreviation (input) EDMA_REG_RXFILL_RING_EN :: "u32 \<Rightarrow> u32" where "EDMA_REG_RXFILL_RING_EN n \<equiv> 0x2901c + 0x1000 * n"
abbreviation (input) EDMA_REG_RXFILL_DISABLE :: "u32 \<Rightarrow> u32" where "EDMA_REG_RXFILL_DISABLE n \<equiv> 0x29020 + 0x1000 * n"
abbreviation (input) EDMA_REG_RXFILL_DISABLE_DONE :: "u32 \<Rightarrow> u32" where "EDMA_REG_RXFILL_DISABLE_DONE n \<equiv> 0x29024 + 0x1000 * n"
abbreviation (input) EDMA_REG_RXFILL_INT_STAT :: "u32 \<Rightarrow> u32" where "EDMA_REG_RXFILL_INT_STAT n \<equiv> 0x31000 + 0x1000 * n"
abbreviation (input) EDMA_REG_RXFILL_INT_MASK :: "u32 \<Rightarrow> u32" where "EDMA_REG_RXFILL_INT_MASK n \<equiv> 0x31004 + 0x1000 * n"
abbreviation (input) EDMA_REG_RXDESC_BA :: "u32 \<Rightarrow> u32" where "EDMA_REG_RXDESC_BA n \<equiv> 0x39000 + 0x1000 * n"
abbreviation (input) EDMA_REG_RXDESC_PROD_IDX :: "u32 \<Rightarrow> u32" where "EDMA_REG_RXDESC_PROD_IDX n \<equiv> 0x39004 + 0x1000 * n"
abbreviation (input) EDMA_REG_RXDESC_CONS_IDX :: "u32 \<Rightarrow> u32" where "EDMA_REG_RXDESC_CONS_IDX n \<equiv> 0x39008 + 0x1000 * n"
abbreviation (input) EDMA_REG_RXDESC_RING_SIZE :: "u32 \<Rightarrow> u32" where "EDMA_REG_RXDESC_RING_SIZE n \<equiv> 0x3900c + 0x1000 * n"
abbreviation (input) EDMA_REG_RXDESC_FC_THRE :: "u32 \<Rightarrow> u32" where "EDMA_REG_RXDESC_FC_THRE n \<equiv> 0x39010 + 0x1000 * n"
abbreviation (input) EDMA_REG_RXDESC_UGT_THRE :: "u32 \<Rightarrow> u32" where "EDMA_REG_RXDESC_UGT_THRE n \<equiv> 0x39014 + 0x1000 * n"
abbreviation (input) EDMA_REG_RXDESC_CTRL :: "u32 \<Rightarrow> u32" where "EDMA_REG_RXDESC_CTRL n \<equiv> 0x39018 + 0x1000 * n"
abbreviation (input) EDMA_REG_RXDESC_BPC :: "u32 \<Rightarrow> u32" where "EDMA_REG_RXDESC_BPC n \<equiv> 0x3901c + 0x1000 * n"
abbreviation (input) EDMA_REG_RXDESC_INT_STAT :: "u32 \<Rightarrow> u32" where "EDMA_REG_RXDESC_INT_STAT n \<equiv> 0x49000 + 0x1000 * n"
abbreviation (input) EDMA_REG_RXDESC_INT_MASK :: "u32 \<Rightarrow> u32" where "EDMA_REG_RXDESC_INT_MASK n \<equiv> 0x49004 + 0x1000 * n"
abbreviation (input) EDMA_REG_RX_MOD_TIMER :: "u32 \<Rightarrow> u32" where "EDMA_REG_RX_MOD_TIMER n \<equiv> 0x49008 + 0x1000 * n"
abbreviation (input) EDMA_REG_RX_INT_CTRL :: "u32 \<Rightarrow> u32" where "EDMA_REG_RX_INT_CTRL n \<equiv> 0x4900c + 0x1000 * n"
abbreviation (input) EDMA_QID2RID_TABLE_MEM :: "u32 \<Rightarrow> u32" where "EDMA_QID2RID_TABLE_MEM n \<equiv> 0x5a000 + 0x4 * n"
abbreviation (input) EDMA_REG_RXRING_PC :: "u32 \<Rightarrow> u32" where "EDMA_REG_RXRING_PC n \<equiv> 0x5A200 + 0x10 * n"
abbreviation (input) EDMA_REG_RXRING_BC_0 :: "u32 \<Rightarrow> u32" where "EDMA_REG_RXRING_BC_0 n \<equiv> 0x5A204 + 0x10 * n"
abbreviation (input) EDMA_REG_RXRING_BC_1 :: "u32 \<Rightarrow> u32" where "EDMA_REG_RXRING_BC_1 n \<equiv> 0x5A208 + 0x10 * n"
abbreviation (input) EDMA_REG_TXRING_PC :: "u32 \<Rightarrow> u32" where "EDMA_REG_TXRING_PC n \<equiv> 0x74000 + 0x10 * n"
abbreviation (input) EDMA_REG_TXRING_BC_0 :: "u32 \<Rightarrow> u32" where "EDMA_REG_TXRING_BC_0 n \<equiv> 0x74004 + 0x10 * n"
abbreviation (input) EDMA_REG_TXRING_BC_1 :: "u32 \<Rightarrow> u32" where "EDMA_REG_TXRING_BC_1 n \<equiv> 0x74008 + 0x10 * n"
abbreviation (input) EDMA_PORT_PAD_EN :: u32 where "EDMA_PORT_PAD_EN \<equiv> 0x1"
abbreviation (input) EDMA_PORT_EDMA_EN :: u32 where "EDMA_PORT_EDMA_EN \<equiv> 0x2"
abbreviation (input) EDMA_TXDESC_PF_THRE_MASK :: u32 where "EDMA_TXDESC_PF_THRE_MASK \<equiv> 0xf"
abbreviation (input) EDMA_TXDESC_PF_THRE_SHIFT :: nat where "EDMA_TXDESC_PF_THRE_SHIFT \<equiv> 0"
abbreviation (input) EDMA_TXCMPL_WB_THRE_MASK :: u32 where "EDMA_TXCMPL_WB_THRE_MASK \<equiv> 0xf"
abbreviation (input) EDMA_TXCMPL_WB_THRE_SHIFT :: nat where "EDMA_TXCMPL_WB_THRE_SHIFT \<equiv> 4"
abbreviation (input) EDMA_TXDESC_PKT_SRAM_THRE_MASK :: u32 where "EDMA_TXDESC_PKT_SRAM_THRE_MASK \<equiv> 0xff"
abbreviation (input) EDMA_TXDESC_PKT_SRAM_THRE_SHIFT :: nat where "EDMA_TXDESC_PKT_SRAM_THRE_SHIFT \<equiv> 8"
abbreviation (input) EDMA_TXCMPL_WB_TIMER_MASK :: u32 where "EDMA_TXCMPL_WB_TIMER_MASK \<equiv> 0xffff"
abbreviation (input) EDMA_TXCMPL_WB_TIMER_SHIFT :: nat where "EDMA_TXCMPL_WB_TIMER_SHIFT \<equiv> 16"
abbreviation (input) EDMA_RXFILL_PF_THRE_MASK :: u32 where "EDMA_RXFILL_PF_THRE_MASK \<equiv> 0xf"
abbreviation (input) EDMA_RXFILL_PF_THRE_SHIFT :: nat where "EDMA_RXFILL_PF_THRE_SHIFT \<equiv> 0"
abbreviation (input) EDMA_RXDESC_WB_THRE_MASK :: u32 where "EDMA_RXDESC_WB_THRE_MASK \<equiv> 0xf"
abbreviation (input) EDMA_RXDESC_WB_THRE_SHIFT :: nat where "EDMA_RXDESC_WB_THRE_SHIFT \<equiv> 4"
abbreviation (input) EDMA_RXDESC_WB_TIMER_MASK :: u32 where "EDMA_RXDESC_WB_TIMER_MASK \<equiv> 0xffff"
abbreviation (input) EDMA_RXDESC_WB_TIMER_SHIFT :: nat where "EDMA_RXDESC_WB_TIMER_SHIFT \<equiv> 16"
abbreviation (input) EDMA_RX_DESC_FULL_QID_MASK :: u32 where "EDMA_RX_DESC_FULL_QID_MASK \<equiv> 0xff"
abbreviation (input) EDMA_RX_DESC_FULL_QID_SHIFT :: nat where "EDMA_RX_DESC_FULL_QID_SHIFT \<equiv> 0"
abbreviation (input) EDMA_TX_CMPL_BUF_FULL_QID_MASK :: u32 where "EDMA_TX_CMPL_BUF_FULL_QID_MASK \<equiv> 0xff"
abbreviation (input) EDMA_TX_CMPL_BUF_FULL_QID_SHIFT :: nat where "EDMA_TX_CMPL_BUF_FULL_QID_SHIFT \<equiv> 8"
abbreviation (input) EDMA_TX_SRAM_FULL_QID_MASK :: u32 where "EDMA_TX_SRAM_FULL_QID_MASK \<equiv> 0x1f"
abbreviation (input) EDMA_TX_SRAM_FULL_QID_SHIFT :: nat where "EDMA_TX_SRAM_FULL_QID_SHIFT \<equiv> 16"
abbreviation (input) EDMA_RXFILL_FIFO_XOFF_THRE_MASK :: u32 where "EDMA_RXFILL_FIFO_XOFF_THRE_MASK \<equiv> 0x1f"
abbreviation (input) EDMA_RXFILL_FIFO_XOFF_THRE_SHIFT :: nat where "EDMA_RXFILL_FIFO_XOFF_THRE_SHIFT \<equiv> 0"
abbreviation (input) EDMA_DESC_FIFO_XOFF_THRE_MASK :: u32 where "EDMA_DESC_FIFO_XOFF_THRE_MASK \<equiv> 0x3f"
abbreviation (input) EDMA_DESC_FIFO_XOFF_THRE_SHIFT :: nat where "EDMA_DESC_FIFO_XOFF_THRE_SHIFT \<equiv> 16"
abbreviation (input) EDMA_DMAR_REQ_PRI_MASK :: u32 where "EDMA_DMAR_REQ_PRI_MASK \<equiv> 0x7"
abbreviation (input) EDMA_DMAR_REQ_PRI_SHIFT :: nat where "EDMA_DMAR_REQ_PRI_SHIFT \<equiv> 0"
abbreviation (input) EDMA_DMAR_BURST_LEN_MASK :: u32 where "EDMA_DMAR_BURST_LEN_MASK \<equiv> 0x1"
abbreviation (input) EDMA_DMAR_BURST_LEN_SHIFT :: nat where "EDMA_DMAR_BURST_LEN_SHIFT \<equiv> 3"
abbreviation (input) EDMA_DMAR_TXDATA_OUTSTANDING_NUM_MASK :: u32 where "EDMA_DMAR_TXDATA_OUTSTANDING_NUM_MASK \<equiv> 0x1f"
abbreviation (input) EDMA_DMAR_TXDATA_OUTSTANDING_NUM_SHIFT :: nat where "EDMA_DMAR_TXDATA_OUTSTANDING_NUM_SHIFT \<equiv> 4"
abbreviation (input) EDMA_DMAR_TXDESC_OUTSTANDING_NUM_MASK :: u32 where "EDMA_DMAR_TXDESC_OUTSTANDING_NUM_MASK \<equiv> 0x7"
abbreviation (input) EDMA_DMAR_TXDESC_OUTSTANDING_NUM_SHIFT :: nat where "EDMA_DMAR_TXDESC_OUTSTANDING_NUM_SHIFT \<equiv> 9"
abbreviation (input) EDMA_DMAR_RXFILL_OUTSTANDING_NUM_MASK :: u32 where "EDMA_DMAR_RXFILL_OUTSTANDING_NUM_MASK \<equiv> 0x7"
abbreviation (input) EDMA_DMAR_RXFILL_OUTSTANDING_NUM_SHIFT :: nat where "EDMA_DMAR_RXFILL_OUTSTANDING_NUM_SHIFT \<equiv> 12"
abbreviation (input) EDMA_DMAR_REQ_PRI_SET :: "u32 \<Rightarrow> u32" where "EDMA_DMAR_REQ_PRI_SET x \<equiv> push_bit EDMA_DMAR_REQ_PRI_SHIFT (x AND EDMA_DMAR_REQ_PRI_MASK)"
abbreviation (input) EDMA_DMAR_TXDATA_OUTSTANDING_NUM_SET :: "u32 \<Rightarrow> u32" where "EDMA_DMAR_TXDATA_OUTSTANDING_NUM_SET x \<equiv> push_bit EDMA_DMAR_TXDATA_OUTSTANDING_NUM_SHIFT (x AND EDMA_DMAR_TXDATA_OUTSTANDING_NUM_MASK)"
abbreviation (input) EDMA_DMAR_TXDESC_OUTSTANDING_NUM_SET :: "u32 \<Rightarrow> u32" where "EDMA_DMAR_TXDESC_OUTSTANDING_NUM_SET x \<equiv> push_bit EDMA_DMAR_TXDESC_OUTSTANDING_NUM_SHIFT (x AND EDMA_DMAR_TXDESC_OUTSTANDING_NUM_MASK)"
abbreviation (input) EDMA_DMAR_RXFILL_OUTSTANDING_NUM_SET :: "u32 \<Rightarrow> u32" where "EDMA_DMAR_RXFILL_OUTSTANDING_NUM_SET x \<equiv> push_bit EDMA_DMAR_RXFILL_OUTSTANDING_NUM_SHIFT (x AND EDMA_DMAR_RXFILL_OUTSTANDING_NUM_MASK)"
abbreviation (input) EDMA_DMAR_BURST_LEN_SET :: "u32 \<Rightarrow> u32" where "EDMA_DMAR_BURST_LEN_SET x \<equiv> push_bit EDMA_DMAR_BURST_LEN_SHIFT (x AND EDMA_DMAR_BURST_LEN_MASK)"
definition EDMA_BURST_LEN_ENABLE :: "soc \<Rightarrow> u32" where
  "EDMA_BURST_LEN_ENABLE s = (case s of IPQ60XX \<Rightarrow> 1 | IPQ807X \<Rightarrow> 0)"
abbreviation (input) EDMA_AXIW_MAX_WR_SIZE_EN :: u32 where "EDMA_AXIW_MAX_WR_SIZE_EN \<equiv> 0x400"
abbreviation (input) EDMA_DISABLE :: u32 where "EDMA_DISABLE \<equiv> 0"
abbreviation (input) EDMA_TXDESC_PROD_IDX_MASK :: u32 where "EDMA_TXDESC_PROD_IDX_MASK \<equiv> 0xffff"
abbreviation (input) EDMA_TXDESC_CONS_IDX_MASK :: u32 where "EDMA_TXDESC_CONS_IDX_MASK \<equiv> 0xffff"
abbreviation (input) EDMA_TXDESC_RING_SIZE_MASK :: u32 where "EDMA_TXDESC_RING_SIZE_MASK \<equiv> 0xffff"
abbreviation (input) EDMA_TXDESC_ARB_GRP_ID_MASK :: u32 where "EDMA_TXDESC_ARB_GRP_ID_MASK \<equiv> 0x3"
abbreviation (input) EDMA_TXDESC_ARB_GRP_ID_SHIFT :: nat where "EDMA_TXDESC_ARB_GRP_ID_SHIFT \<equiv> 4"
abbreviation (input) EDMA_TXDESC_FC_GRP_ID_MASK :: u32 where "EDMA_TXDESC_FC_GRP_ID_MASK \<equiv> 0x7"
abbreviation (input) EDMA_TXDESC_FC_GRP_ID_SHIFT :: nat where "EDMA_TXDESC_FC_GRP_ID_SHIFT \<equiv> 1"
abbreviation (input) EDMA_TXDESC_TX_EN :: u32 where "EDMA_TXDESC_TX_EN \<equiv> 0x1"
abbreviation (input) EDMA_TXCMPL_PROD_IDX_MASK :: u32 where "EDMA_TXCMPL_PROD_IDX_MASK \<equiv> 0xffff"
abbreviation (input) EDMA_TXCMPL_CONS_IDX_MASK :: u32 where "EDMA_TXCMPL_CONS_IDX_MASK \<equiv> 0xffff"
abbreviation (input) EDMA_TXCMPL_RING_SIZE_MASK :: u32 where "EDMA_TXCMPL_RING_SIZE_MASK \<equiv> 0xffff"
abbreviation (input) EDMA_TXCMPL_LOW_THRE_MASK :: u32 where "EDMA_TXCMPL_LOW_THRE_MASK \<equiv> 0xffff"
abbreviation (input) EDMA_TXCMPL_LOW_THRE_SHIFT :: nat where "EDMA_TXCMPL_LOW_THRE_SHIFT \<equiv> 0"
abbreviation (input) EDMA_TXCMPL_FC_THRE_MASK :: u32 where "EDMA_TXCMPL_FC_THRE_MASK \<equiv> 0x3f"
abbreviation (input) EDMA_TXCMPL_FC_THRE_SHIFT :: nat where "EDMA_TXCMPL_FC_THRE_SHIFT \<equiv> 16"
abbreviation (input) EDMA_TXCMPL_RET_MODE_BUFF_ADDR :: u32 where "EDMA_TXCMPL_RET_MODE_BUFF_ADDR \<equiv> 0x0"
abbreviation (input) EDMA_TXCMPL_RET_MODE_OPAQUE :: u32 where "EDMA_TXCMPL_RET_MODE_OPAQUE \<equiv> 0x1"
abbreviation (input) EDMA_TX_MOD_TIMER_INIT_MASK :: u32 where "EDMA_TX_MOD_TIMER_INIT_MASK \<equiv> 0xffff"
abbreviation (input) EDMA_TX_MOD_TIMER_INIT_SHIFT :: nat where "EDMA_TX_MOD_TIMER_INIT_SHIFT \<equiv> 0"
abbreviation (input) EDMA_TX_INT_MASK :: u32 where "EDMA_TX_INT_MASK \<equiv> 0x3"
abbreviation (input) EDMA_RXFILL_PROD_IDX_MASK :: u32 where "EDMA_RXFILL_PROD_IDX_MASK \<equiv> 0xffff"
abbreviation (input) EDMA_RXFILL_CONS_IDX_MASK :: u32 where "EDMA_RXFILL_CONS_IDX_MASK \<equiv> 0xffff"
abbreviation (input) EDMA_RXFILL_RING_SIZE_MASK :: u32 where "EDMA_RXFILL_RING_SIZE_MASK \<equiv> 0xffff"
abbreviation (input) EDMA_RXFILL_BUF_SIZE_MASK :: u32 where "EDMA_RXFILL_BUF_SIZE_MASK \<equiv> 0x3fff"
abbreviation (input) EDMA_RXFILL_BUF_SIZE_SHIFT :: nat where "EDMA_RXFILL_BUF_SIZE_SHIFT \<equiv> 16"
abbreviation (input) EDMA_RXFILL_FC_XON_THRE_MASK :: u32 where "EDMA_RXFILL_FC_XON_THRE_MASK \<equiv> 0x7ff"
abbreviation (input) EDMA_RXFILL_FC_XON_THRE_SHIFT :: nat where "EDMA_RXFILL_FC_XON_THRE_SHIFT \<equiv> 12"
abbreviation (input) EDMA_RXFILL_FC_XOFF_THRE_MASK :: u32 where "EDMA_RXFILL_FC_XOFF_THRE_MASK \<equiv> 0x7ff"
abbreviation (input) EDMA_RXFILL_FC_XOFF_THRE_SHIFT :: nat where "EDMA_RXFILL_FC_XOFF_THRE_SHIFT \<equiv> 0"
abbreviation (input) EDMA_RXFILL_LOW_THRE_MASK :: u32 where "EDMA_RXFILL_LOW_THRE_MASK \<equiv> 0xffff"
abbreviation (input) EDMA_RXFILL_LOW_THRE_SHIFT :: nat where "EDMA_RXFILL_LOW_THRE_SHIFT \<equiv> 0"
abbreviation (input) EDMA_RXFILL_RING_EN :: u32 where "EDMA_RXFILL_RING_EN \<equiv> 0x1"
abbreviation (input) EDMA_RXFILL_INT_MASK :: u32 where "EDMA_RXFILL_INT_MASK \<equiv> 0x1"
abbreviation (input) EDMA_RXDESC_PROD_IDX_MASK :: u32 where "EDMA_RXDESC_PROD_IDX_MASK \<equiv> 0xffff"
abbreviation (input) EDMA_RXDESC_CONS_IDX_MASK :: u32 where "EDMA_RXDESC_CONS_IDX_MASK \<equiv> 0xffff"
abbreviation (input) EDMA_RXDESC_RING_SIZE_MASK :: u32 where "EDMA_RXDESC_RING_SIZE_MASK \<equiv> 0xffff"
abbreviation (input) EDMA_RXDESC_PL_OFFSET_MASK :: u32 where "EDMA_RXDESC_PL_OFFSET_MASK \<equiv> 0x1ff"
abbreviation (input) EDMA_RXDESC_PL_OFFSET_SHIFT :: nat where "EDMA_RXDESC_PL_OFFSET_SHIFT \<equiv> 16"
abbreviation (input) EDMA_RXDESC_FC_XON_THRE_MASK :: u32 where "EDMA_RXDESC_FC_XON_THRE_MASK \<equiv> 0x7ff"
abbreviation (input) EDMA_RXDESC_FC_XON_THRE_SHIFT :: nat where "EDMA_RXDESC_FC_XON_THRE_SHIFT \<equiv> 12"
abbreviation (input) EDMA_RXDESC_FC_XOFF_THRE_MASK :: u32 where "EDMA_RXDESC_FC_XOFF_THRE_MASK \<equiv> 0x7ff"
abbreviation (input) EDMA_RXDESC_FC_XOFF_THRE_SHIFT :: nat where "EDMA_RXDESC_FC_XOFF_THRE_SHIFT \<equiv> 0"
abbreviation (input) EDMA_RXDESC_LOW_THRE_MASK :: u32 where "EDMA_RXDESC_LOW_THRE_MASK \<equiv> 0xffff"
abbreviation (input) EDMA_RXDESC_LOW_THRE_SHIFT :: nat where "EDMA_RXDESC_LOW_THRE_SHIFT \<equiv> 0"
abbreviation (input) EDMA_RXDESC_STAG_REMOVE_EN :: u32 where "EDMA_RXDESC_STAG_REMOVE_EN \<equiv> 0x8"
abbreviation (input) EDMA_RXDESC_CTAG_REMOVE_EN :: u32 where "EDMA_RXDESC_CTAG_REMOVE_EN \<equiv> 0x4"
abbreviation (input) EDMA_RXDESC_QDISC_EN :: u32 where "EDMA_RXDESC_QDISC_EN \<equiv> 0x2"
abbreviation (input) EDMA_RXDESC_RX_EN :: u32 where "EDMA_RXDESC_RX_EN \<equiv> 0x1"
abbreviation (input) EDMA_TX_INT_MASK_PKT_INT :: u32 where "EDMA_TX_INT_MASK_PKT_INT \<equiv> 0x1"
abbreviation (input) EDMA_TX_INT_MASK_UGT_INT :: u32 where "EDMA_TX_INT_MASK_UGT_INT \<equiv> 0x2"
abbreviation (input) EDMA_RXDESC_INT_STAT_PKT_INT :: u32 where "EDMA_RXDESC_INT_STAT_PKT_INT \<equiv> 0x1"
abbreviation (input) EDMA_RXDESC_INT_STAT_UGT_INT :: u32 where "EDMA_RXDESC_INT_STAT_UGT_INT \<equiv> 0x2"
abbreviation (input) EDMA_RXDESC_INT_MASK_PKT_INT :: u32 where "EDMA_RXDESC_INT_MASK_PKT_INT \<equiv> 0x1"
abbreviation (input) EDMA_RXDESC_INT_MASK_TIMER_INT_DIS :: u32 where "EDMA_RXDESC_INT_MASK_TIMER_INT_DIS \<equiv> 0x2"
abbreviation (input) EDMA_MASK_INT_DISABLE :: u32 where "EDMA_MASK_INT_DISABLE \<equiv> 0x0"
abbreviation (input) EDMA_MASK_INT_CLEAR :: u32 where "EDMA_MASK_INT_CLEAR \<equiv> 0x0"
abbreviation (input) EDMA_RX_MOD_TIMER_INIT_MASK :: u32 where "EDMA_RX_MOD_TIMER_INIT_MASK \<equiv> 0xffff"
abbreviation (input) EDMA_RX_MOD_TIMER_INIT_SHIFT :: nat where "EDMA_RX_MOD_TIMER_INIT_SHIFT \<equiv> 0"
abbreviation (input) EDMA_QID2RID_DEPTH :: u32 where "EDMA_QID2RID_DEPTH \<equiv> 0x40"
abbreviation (input) EDMA_QID2RID_QUEUES_PER_ENTRY :: u32 where "EDMA_QID2RID_QUEUES_PER_ENTRY \<equiv> 8"
abbreviation (input) EDMA_TXDESC_MORE_SHIFT :: nat where "EDMA_TXDESC_MORE_SHIFT \<equiv> 31"
abbreviation (input) EDMA_TXDESC_TSO_EN_SHIFT :: nat where "EDMA_TXDESC_TSO_EN_SHIFT \<equiv> 30"
abbreviation (input) EDMA_TXDESC_PREHEADER_SHIFT :: nat where "EDMA_TXDESC_PREHEADER_SHIFT \<equiv> 29"
abbreviation (input) EDMA_TXDESC_POOL_ID_SHIFT :: nat where "EDMA_TXDESC_POOL_ID_SHIFT \<equiv> 24"
abbreviation (input) EDMA_TXDESC_POOL_ID_MASK :: u32 where "EDMA_TXDESC_POOL_ID_MASK \<equiv> 0x1f"
abbreviation (input) EDMA_TXDESC_DATA_OFFSET_SHIFT :: nat where "EDMA_TXDESC_DATA_OFFSET_SHIFT \<equiv> 16"
abbreviation (input) EDMA_TXDESC_DATA_OFFSET_MASK :: u32 where "EDMA_TXDESC_DATA_OFFSET_MASK \<equiv> 0xff"
abbreviation (input) EDMA_TXDESC_DATA_LENGTH_SHIFT :: nat where "EDMA_TXDESC_DATA_LENGTH_SHIFT \<equiv> 0"
abbreviation (input) EDMA_TXDESC_DATA_LENGTH_MASK :: u32 where "EDMA_TXDESC_DATA_LENGTH_MASK \<equiv> 0xffff"
abbreviation (input) EDMA_PREHDR_DSTINFO_PORTID_IND :: u32 where "EDMA_PREHDR_DSTINFO_PORTID_IND \<equiv> 0x20"
abbreviation (input) EDMA_PREHDR_PORTNUM_BITS :: u32 where "EDMA_PREHDR_PORTNUM_BITS \<equiv> 0x0fff"
abbreviation (input) EDMA_RING_DMA_MASK :: u32 where "EDMA_RING_DMA_MASK \<equiv> 0xffffffff"
abbreviation (input) EDMA_RXDESC_RX_RXFILL_CNT_MASK :: u32 where "EDMA_RXDESC_RX_RXFILL_CNT_MASK \<equiv> 0x000f"
abbreviation (input) EDMA_RXDESC_RX_RXFILL_CNT_SHIFT :: nat where "EDMA_RXDESC_RX_RXFILL_CNT_SHIFT \<equiv> 16"
abbreviation (input) EDMA_RXDESC_PKT_SIZE_MASK :: u32 where "EDMA_RXDESC_PKT_SIZE_MASK \<equiv> 0x3fff"
abbreviation (input) EDMA_RXDESC_PKT_SIZE_SHIFT :: nat where "EDMA_RXDESC_PKT_SIZE_SHIFT \<equiv> 0"
abbreviation (input) EDMA_RXDESC_RXD_VALID_MASK :: u32 where "EDMA_RXDESC_RXD_VALID_MASK \<equiv> 0x1"
abbreviation (input) EDMA_RXDESC_RXD_VALID_SHIFT :: nat where "EDMA_RXDESC_RXD_VALID_SHIFT \<equiv> 31"
abbreviation (input) EDMA_RXDESC_PACKET_LEN_MASK :: u32 where "EDMA_RXDESC_PACKET_LEN_MASK \<equiv> 0x3fff"
abbreviation (input) EDMA_RXDESC_RING_INT_STATUS_MASK :: u32 where "EDMA_RXDESC_RING_INT_STATUS_MASK \<equiv> 0x3"
abbreviation (input) EDMA_RING_DISABLE :: u32 where "EDMA_RING_DISABLE \<equiv> 0"
abbreviation (input) EDMA_TXCMPL_RING_INT_STATUS_MASK :: u32 where "EDMA_TXCMPL_RING_INT_STATUS_MASK \<equiv> 0x3"
abbreviation (input) EDMA_TXCMPL_RETMODE_OPAQUE :: u32 where "EDMA_TXCMPL_RETMODE_OPAQUE \<equiv> 0x0"
abbreviation (input) EDMA_RXFILL_RING_INT_STATUS_MASK :: u32 where "EDMA_RXFILL_RING_INT_STATUS_MASK \<equiv> 0x1"
abbreviation (input) EDMA_RXFILL_FIFO_XOFF_THRE :: u32 where "EDMA_RXFILL_FIFO_XOFF_THRE \<equiv> 0x3"
abbreviation (input) EDMA_RXFILL_PF_THRE :: u32 where "EDMA_RXFILL_PF_THRE \<equiv> 0x3"
abbreviation (input) EDMA_RXDESC_WB_THRE :: u32 where "EDMA_RXDESC_WB_THRE \<equiv> 0x0"
abbreviation (input) EDMA_RXDESC_WB_TIMER :: u32 where "EDMA_RXDESC_WB_TIMER \<equiv> 0x2"
abbreviation (input) EDMA_RXDESC_XON_THRE :: u32 where "EDMA_RXDESC_XON_THRE \<equiv> 50"
abbreviation (input) EDMA_RXDESC_XOFF_THRE :: u32 where "EDMA_RXDESC_XOFF_THRE \<equiv> 30"
abbreviation (input) EDMA_RXDESC_LOW_THRE :: u32 where "EDMA_RXDESC_LOW_THRE \<equiv> 0"
abbreviation (input) EDMA_RX_MOD_TIMER_INIT :: u32 where "EDMA_RX_MOD_TIMER_INIT \<equiv> 1000"
abbreviation (input) EDMA_TXDESC_PF_THRE :: u32 where "EDMA_TXDESC_PF_THRE \<equiv> 0x3"
abbreviation (input) EDMA_TXCMPL_WB_THRE :: u32 where "EDMA_TXCMPL_WB_THRE \<equiv> 0x0"
abbreviation (input) EDMA_TXDESC_PKT_SRAM_THRE :: u32 where "EDMA_TXDESC_PKT_SRAM_THRE \<equiv> 0x20"
abbreviation (input) EDMA_TXCMPL_WB_TIMER :: u32 where "EDMA_TXCMPL_WB_TIMER \<equiv> 0x2"
abbreviation (input) EDMA_TX_MOD_TIMER :: u32 where "EDMA_TX_MOD_TIMER \<equiv> 150"
abbreviation (input) EDMA_MISC_AXI_RD_ERR_MASK_EN :: u32 where "EDMA_MISC_AXI_RD_ERR_MASK_EN \<equiv> 0x1"
abbreviation (input) EDMA_MISC_AXI_WR_ERR_MASK_EN :: u32 where "EDMA_MISC_AXI_WR_ERR_MASK_EN \<equiv> 0x2"
abbreviation (input) EDMA_MISC_RX_DESC_FIFO_FULL_MASK_EN :: u32 where "EDMA_MISC_RX_DESC_FIFO_FULL_MASK_EN \<equiv> 0x4"
abbreviation (input) EDMA_MISC_RX_ERR_BUF_SIZE_MASK_EN :: u32 where "EDMA_MISC_RX_ERR_BUF_SIZE_MASK_EN \<equiv> 0x8"
abbreviation (input) EDMA_MISC_TX_SRAM_FULL_MASK_EN :: u32 where "EDMA_MISC_TX_SRAM_FULL_MASK_EN \<equiv> 0x10"
abbreviation (input) EDMA_MISC_TX_CMPL_BUF_FULL_MASK_EN :: u32 where "EDMA_MISC_TX_CMPL_BUF_FULL_MASK_EN \<equiv> 0x20"
abbreviation (input) EDMA_MISC_PKT_LEN_LA_64K_MASK_EN :: u32 where "EDMA_MISC_PKT_LEN_LA_64K_MASK_EN \<equiv> 0x40"
abbreviation (input) EDMA_MISC_PKT_LEN_LE_40_MASK_EN :: u32 where "EDMA_MISC_PKT_LEN_LE_40_MASK_EN \<equiv> 0x80"
definition EDMA_MISC_DATA_LEN_ERR_MASK_EN :: "soc \<Rightarrow> u32" where
  "EDMA_MISC_DATA_LEN_ERR_MASK_EN s = (case s of IPQ807X \<Rightarrow> 0x100 | IPQ60XX \<Rightarrow> 0x40)"
abbreviation (input) EDMA_MISC_TX_TIMEOUT_MASK_EN :: u32 where "EDMA_MISC_TX_TIMEOUT_MASK_EN \<equiv> 0x80"

section \<open>Ring register blocks\<close>

text \<open>
  Ring registers lie in blocks of one page per ring. Within the rings a block has room for, the
  offset is computed without wrapping around, so two registers coincide only when
  block, position and ring do.
\<close>

lemma ring_reg_unat:
  assumes "unat (n :: u32) < 64" "unat (b :: u32) < 0x100000"
  shows "unat (b + 0x1000 * n) = unat b + 0x1000 * unat n"
proof -
  have m: "unat (0x1000 * n) = 0x1000 * unat n"
    using assms(1) by (subst unat_mult_lem [THEN iffD1]) simp_all
  then show ?thesis
    using assms by (subst unat_add_lem [THEN iffD1]) simp_all
qed

lemma ring_reg_eq:
  assumes "unat (n :: u32) < 64" "unat (m :: u32) < 64" "unat b < 0x100000" "unat c < 0x100000"
  shows "b + 0x1000 * n = c + 0x1000 * m \<longleftrightarrow> unat b + 0x1000 * unat n = unat c + 0x1000 * unat m"
  using ring_reg_unat [OF assms(1,3)] ring_reg_unat [OF assms(2,4)] by (simp add: word_unat_eq_iff)

text \<open>Registers at different positions of a page are different, whatever the rings.\<close>

lemma ring_reg_low: "(b + 0x1000 * n) AND 0xfff = (b AND 0xfff :: u32)"
proof -
  have m: "(0xfff :: u32) = mask 12" by (simp add: mask_eq_exp_minus_1)
  have "unat (take_bit 12 (b + 0x1000 * n)) = (unat b + 0x1000 * unat n) mod 2 ^ 32 mod 4096"
    by (simp add: unsigned_take_bit_eq take_bit_eq_mod unat_word_ariths mod_simps)
  also have "\<dots> = (unat b + 0x1000 * unat n) mod 4096"
    by (rule mod_mod_cancel) simp
  also have "\<dots> = unat b mod 4096"
    using mod_mult_self2 [of "unat b" 4096 "unat n"] by simp
  also have "\<dots> = unat (take_bit 12 b)"
    by (simp only: unsigned_take_bit_eq) (simp add: take_bit_eq_mod)
  finally have "take_bit 12 (b + 0x1000 * n) = take_bit 12 b" by (simp add: word_unat_eq_iff)
  then show ?thesis unfolding m by (simp add: take_bit_eq_mask)
qed

lemma ring_reg_neq: "b AND 0xfff \<noteq> (c AND 0xfff :: u32) \<Longrightarrow> b + 0x1000 * n \<noteq> c + 0x1000 * m"
  by (metis ring_reg_low)

lemma soc_bases:
  "EDMA_REG_TXCMPL_BASE s \<in> {0x19000, 0x79000}" "EDMA_REG_TX_BASE s \<in> {0x21000, 0x91000}"
  by (cases s; simp add: EDMA_REG_TXCMPL_BASE_def EDMA_REG_TX_BASE_def)+

end
