(* ===== verification/Edma_State.thy ===== *)
theory Edma_State
  imports Ring Edma_Regs
begin

text \<open>
  The data of the EDMA data plane (\<open>hal/edma/edma_data_plane.h\<close>): descriptors, preheaders, the
  four kinds of rings and the instance \<open>edma_hw\<close>, extended to the machine the driver runs on:
  the register window, the preheaders at the head of the buffers, the trace of kernel calls.
  A pointer to a ring is its index in the array of its kind; a descriptor array that is not
  allocated is empty, so that any access to it is a fault.
\<close>

section \<open>Descriptors and preheaders\<close>

abbreviation (input) EDMA_RX_PREHDR_SIZE :: nat where "EDMA_RX_PREHDR_SIZE \<equiv> 32"
abbreviation (input) EDMA_TX_PREHDR_SIZE :: nat where "EDMA_TX_PREHDR_SIZE \<equiv> 32"
abbreviation (input) EDMA_BUF_SIZE :: nat where "EDMA_BUF_SIZE \<equiv> 2000"
abbreviation (input) EDMA_RX_BUFF_SIZE :: nat where "EDMA_RX_BUFF_SIZE \<equiv> EDMA_BUF_SIZE + EDMA_RX_PREHDR_SIZE"
abbreviation (input) EDMA_RING_SIZE :: nat where "EDMA_RING_SIZE \<equiv> 128"
abbreviation (input) EDMA_NAPI_WORK :: nat where "EDMA_NAPI_WORK \<equiv> 100"
abbreviation (input) EDMA_START_GMACS :: nat where "EDMA_START_GMACS \<equiv> NSS_DP_HAL_START_IFNUM"
abbreviation (input) EDMA_MAX_GMACS :: "soc \<Rightarrow> nat" where "EDMA_MAX_GMACS s \<equiv> NSS_DP_HAL_MAX_PORTS s"
abbreviation (input) EDMA_MAX_RXDESC_RINGS :: nat where "EDMA_MAX_RXDESC_RINGS \<equiv> 16"
abbreviation (input) EDMA_MAX_RXFILL_RINGS :: nat where "EDMA_MAX_RXFILL_RINGS \<equiv> 8"
abbreviation (input) EDMA_MAX_TXDESC_RINGS :: nat where "EDMA_MAX_TXDESC_RINGS \<equiv> 24"
abbreviation (input) NSS_PTP_EVENT_SERVICE_CODE :: u32 where "NSS_PTP_EVENT_SERVICE_CODE \<equiv> 0x9"

definition EDMA_MAX_TXCMPL_RINGS :: "soc \<Rightarrow> nat" where
  "EDMA_MAX_TXCMPL_RINGS s = (case s of IPQ60XX \<Rightarrow> 24 | IPQ807X \<Rightarrow> 8)"

record edma_txdesc_desc =
  td_buffer_addr :: u32
  td_word1 :: u32

record edma_txcmpl_desc =
  tc_buffer_addr :: u32
  tc_status :: u32

record edma_rxdesc_desc =
  rd_buffer_addr :: u32
  rd_status :: u32

record edma_rxfill_desc =
  rf_buffer_addr :: u32
  rf_word1 :: u32

record edma_tx_preheader =
  tx_opaque :: u32
  tx_src_info :: u16
  tx_dst_info :: u16
  tx_pre2 :: u32
  tx_pre3 :: u32
  tx_pre4 :: u32
  tx_pre5 :: u32
  tx_pre6 :: u32
  tx_pre7 :: u32

record edma_rx_preheader =
  rx_opaque :: u32
  rx_src_info :: u16
  rx_dst_info :: u16
  rx_pre2 :: u32
  rx_pre3 :: u32
  rx_pre4 :: u32
  rx_pre5 :: u32
  rx_pre6 :: u32
  rx_pre7 :: u32

definition EDMA_RXPH_SRC_INFO_TYPE_GET :: "edma_rx_preheader \<Rightarrow> u16" where
  "EDMA_RXPH_SRC_INFO_TYPE_GET rxph = drop_bit 8 (rx_src_info rxph) AND 0xf0"

definition EDMA_RXPH_SERVICE_CODE_GET :: "edma_rx_preheader \<Rightarrow> u32" where
  "EDMA_RXPH_SERVICE_CODE_GET rxph = rx_pre4 rxph AND 0xff"

datatype edma_tx = EDMA_TX_OK | EDMA_TX_DESC | EDMA_TX_FAIL

section \<open>Rings\<close>

record edma_txdesc_ring =
  td_id :: u32
  td_desc :: "edma_txdesc_desc list"
  td_dma :: u64
  td_count :: u16

record edma_txcmpl_ring =
  tc_id :: u32
  tc_desc :: "edma_txcmpl_desc list"
  tc_dma :: u64
  tc_count :: u16

record edma_rxfill_ring =
  rf_id :: u32
  rf_desc :: "edma_rxfill_desc list"
  rf_dma :: u64
  rf_count :: u16

record edma_rxdesc_ring =
  rd_id :: u32
  rd_rxfill :: nat
  rd_desc :: "edma_rxdesc_desc list"
  rd_dma :: u64
  rd_count :: u16

section \<open>The EDMA instance\<close>

record edma_layout =
  txdesc_rings :: u32
  txdesc_ring_start :: u32
  txdesc_ring_end :: u32
  txcmpl_rings :: u32
  txcmpl_ring_start :: u32
  txcmpl_ring_end :: u32
  rxfill_rings :: u32
  rxfill_ring_start :: u32
  rxfill_ring_end :: u32
  rxdesc_rings :: u32
  rxdesc_ring_start :: u32
  rxdesc_ring_end :: u32

record edma_hw =
  layout :: edma_layout
  netdev_arr :: "nat option list"
  rx_payload_offset :: u16
  active :: int
  napi_added :: bool
  rx_skb_store :: "skb_ref option list"
  tx_skb_store :: "skb_ref option list"
  rxfill_ring :: "edma_rxfill_ring list"
  rxdesc_ring :: "edma_rxdesc_ring list"
  txdesc_ring :: "edma_txdesc_ring list"
  txcmpl_ring :: "edma_txcmpl_ring list"
  txcmpl_intr :: "u32 list"
  rxfill_intr :: "u32 list"
  rxdesc_intr :: "u32 list"
  misc_intr :: u32
  rxfill_intr_mask :: u32
  rxdesc_intr_mask :: u32
  txcmpl_intr_mask :: u32
  misc_intr_mask :: u32
  dp_override_cnt :: u32
  edma_initialized :: bool

datatype edma_ring_kind = TXDESC | TXCMPL | RXFILL | RXDESC

text \<open>
  Calls into the kernel, in order. Net devices are numbers; \<open>Ek_free_irq\<close> carries whether the
  device cookie is the one the interrupt was requested with, \<open>Ek_rxtstamp\<close> whether the PHY
  driver kept the buffer.
\<close>

datatype (plugins only: size) edma_kcall =
    Ek_alloc nat
  | Ek_kfree skb_ref
  | Ek_unmap_rx u32
  | Ek_unmap_tx skb_ref
  | Ek_receive skb_ref nat u32
  | Ek_rxtstamp skb_ref nat bool
  | Ek_txtstamp skb_ref nat
  | Ek_skb_push skb_ref
  | Ek_expand_head skb_ref
  | Ek_start_queue nat
  | Ek_stop_queue nat
  | Ek_tx_dropped nat
  | Ek_napi_complete
  | Ek_napi_schedule
  | Ek_napi_enable
  | Ek_napi_disable
  | Ek_napi_add nat
  | Ek_napi_del
  | Ek_dma_free_coherent u64
  | Ek_kfree_ring edma_ring_kind
  | Ek_request_irq u32
  | Ek_sync_irq u32
  | Ek_free_irq u32 bool
  | Ek_vsi_set u32 u32
  | Ek_reset_assert
  | Ek_reset_deassert
  | Ek_set_drvdata
  | Ek_iounmap
  | Ek_release_mem_region

text \<open>
  The machine: the instance with the register window, the receive preheaders by the bus
  address of their buffer (\<open>phys_to_virt\<close> takes it back), the transmit preheaders by buffer,
  the counts of receive buffers and of coherent or ring allocations asked for so far, and the
  headroom the net devices ask for.
\<close>

record edma_world = edma_hw +
  regs :: "u32 \<Rightarrow> u32"
  rxph_mem :: "u32 \<Rightarrow> edma_rx_preheader"
  txph_mem :: "skb_ref \<Rightarrow> edma_tx_preheader"
  ek_trace :: "edma_kcall list"
  ek_allocs :: nat
  ek_mem_allocs :: nat
  needed_headroom :: "nat \<Rightarrow> u32"

text \<open>What the transmit path reads of a socket buffer.\<close>

record edma_skb =
  es_ref :: skb_ref
  es_len :: u32
  es_headlen :: u32
  es_queue :: u32
  es_nonlinear :: bool
  es_cloned :: bool
  es_headroom :: u32
  es_hw_tstamp :: bool

text \<open>
  What the device tree holds for the EDMA node: the node, its platform device, its register
  resource, and the ring numbers (\<open>None\<close> when the property is missing).
\<close>

record edma_dt =
  dt_node :: bool
  dt_pdev :: bool
  dt_resource :: bool
  dt_txdesc_ring_start :: "u32 option"
  dt_txdesc_rings :: "u32 option"
  dt_txcmpl_ring_start :: "u32 option"
  dt_txcmpl_rings :: "u32 option"
  dt_rxfill_ring_start :: "u32 option"
  dt_rxfill_rings :: "u32 option"
  dt_rxdesc_ring_start :: "u32 option"
  dt_rxdesc_rings :: "u32 option"

text \<open>
  What the kernel answers. Receive buffers are numbered by allocation; a mapping that fails
  gives the bus address 0, which is what the code tests. \<open>ek_rx_hw i n\<close> is what the engine does
  to the machine before iteration \<open>n\<close> of a receive pass on ring \<open>i\<close>; \<open>ek_expand_head\<close> and
  \<open>ek_request_irq\<close> say which calls fail.
\<close>

record edma_kernel =
  ek_soc :: soc
  ek_dev_alloc_skb :: "nat \<Rightarrow> bool"
  ek_map_rx :: "nat \<Rightarrow> u32"
  ek_map_tx :: "skb_ref \<Rightarrow> u32"
  ek_netif_running :: "nat \<Rightarrow> bool"
  ek_rxtstamp :: "nat \<Rightarrow> skb_ref \<Rightarrow> bool option"
  ek_txtstamp :: "nat \<Rightarrow> bool"
  ek_queue_stopped :: "nat \<Rightarrow> bool"
  ek_carrier_ok :: "nat \<Rightarrow> bool"
  ek_napi_schedule_prep :: bool
  ek_macid :: "nat \<Rightarrow> u32"
  ek_dma_alloc_coherent :: "nat \<Rightarrow> u64 option"
  ek_kzalloc :: "nat \<Rightarrow> bool"
  ek_rx_hw :: "nat \<Rightarrow> nat \<Rightarrow> edma_world \<Rightarrow> edma_world"
  ek_reset_control :: bool
  ek_needed_tailroom :: "nat \<Rightarrow> u32"
  ek_expand_head :: "skb_ref \<Rightarrow> bool"
  ek_fal_vsi_set :: "u32 \<Rightarrow> u32 \<Rightarrow> int"
  ek_platform_irq :: "nat \<Rightarrow> u32"
  ek_request_irq :: "u32 \<Rightarrow> bool"
  ek_dt :: edma_dt
  ek_request_mem_region :: bool
  ek_ioremap :: bool

definition ekcalls :: "edma_kcall list \<Rightarrow> edma_world \<Rightarrow> edma_world" where
  "ekcalls cs w = w\<lparr>ek_trace := ek_trace w @ cs\<rparr>"

definition edma_reg_read :: "'a edma_world_scheme \<Rightarrow> u32 \<Rightarrow> u32" where
  "edma_reg_read w reg_off = regs w reg_off"

definition edma_reg_write :: "'a edma_world_scheme \<Rightarrow> u32 \<Rightarrow> u32 \<Rightarrow> 'a edma_world_scheme" where
  "edma_reg_write w reg_off val = w\<lparr>regs := (regs w)(reg_off := val)\<rparr>"

interpretation ereg: reg_file
  "edma_reg_read :: 'a edma_world_scheme \<Rightarrow> u32 \<Rightarrow> u32" edma_reg_write
  by unfold_locales (simp add: edma_reg_read_def edma_reg_write_def)

end
