(* ===== verification/Edma_Map.thy ===== *)
theory Edma_Map
  imports Edma_State
begin

text \<open>
  The register map of the engine (\<open>hal/edma/edma_regs.h\<close>) as a whole: every register that exists once per ring, over
  the macros of the header, and the proof that no two of them share a word.
\<close>

section \<open>The registers of a ring\<close>

datatype ring_register =
    Txdesc_ba | Txdesc_prod_idx | Txdesc_cons_idx | Txdesc_ring_size | Txdesc_ctrl
  | Txcmpl_ba | Txcmpl_prod_idx | Txcmpl_cons_idx | Txcmpl_ring_size | Txcmpl_ugt_thre | Txcmpl_ctrl | Txcmpl_bpc
  | Tx_int_stat | Tx_int_mask | Tx_mod_timer | Tx_int_ctrl
  | Rxfill_ba | Rxfill_prod_idx | Rxfill_cons_idx | Rxfill_ring_size | Rxfill_buffer1_size | Rxfill_fc_thre
  | Rxfill_ugt_thre | Rxfill_ring_en | Rxfill_disable | Rxfill_disable_done | Rxfill_int_stat | Rxfill_int_mask
  | Rxdesc_ba | Rxdesc_prod_idx | Rxdesc_cons_idx | Rxdesc_ring_size | Rxdesc_fc_thre | Rxdesc_ugt_thre | Rxdesc_ctrl
  | Rxdesc_bpc | Rxdesc_int_stat | Rxdesc_int_mask | Rx_mod_timer | Rx_int_ctrl

fun ring_reg :: "soc \<Rightarrow> ring_register \<Rightarrow> u32 \<Rightarrow> u32" where
  "ring_reg s Txdesc_ba n = EDMA_REG_TXDESC_BA n"
| "ring_reg s Txdesc_prod_idx n = EDMA_REG_TXDESC_PROD_IDX n"
| "ring_reg s Txdesc_cons_idx n = EDMA_REG_TXDESC_CONS_IDX n"
| "ring_reg s Txdesc_ring_size n = EDMA_REG_TXDESC_RING_SIZE n"
| "ring_reg s Txdesc_ctrl n = EDMA_REG_TXDESC_CTRL n"
| "ring_reg s Txcmpl_ba n = EDMA_REG_TXCMPL_BA s n"
| "ring_reg s Txcmpl_prod_idx n = EDMA_REG_TXCMPL_PROD_IDX s n"
| "ring_reg s Txcmpl_cons_idx n = EDMA_REG_TXCMPL_CONS_IDX s n"
| "ring_reg s Txcmpl_ring_size n = EDMA_REG_TXCMPL_RING_SIZE s n"
| "ring_reg s Txcmpl_ugt_thre n = EDMA_REG_TXCMPL_UGT_THRE s n"
| "ring_reg s Txcmpl_ctrl n = EDMA_REG_TXCMPL_CTRL s n"
| "ring_reg s Txcmpl_bpc n = EDMA_REG_TXCMPL_BPC s n"
| "ring_reg s Tx_int_stat n = EDMA_REG_TX_INT_STAT s n"
| "ring_reg s Tx_int_mask n = EDMA_REG_TX_INT_MASK s n"
| "ring_reg s Tx_mod_timer n = EDMA_REG_TX_MOD_TIMER s n"
| "ring_reg s Tx_int_ctrl n = EDMA_REG_TX_INT_CTRL s n"
| "ring_reg s Rxfill_ba n = EDMA_REG_RXFILL_BA n"
| "ring_reg s Rxfill_prod_idx n = EDMA_REG_RXFILL_PROD_IDX n"
| "ring_reg s Rxfill_cons_idx n = EDMA_REG_RXFILL_CONS_IDX n"
| "ring_reg s Rxfill_ring_size n = EDMA_REG_RXFILL_RING_SIZE n"
| "ring_reg s Rxfill_buffer1_size n = EDMA_REG_RXFILL_BUFFER1_SIZE n"
| "ring_reg s Rxfill_fc_thre n = EDMA_REG_RXFILL_FC_THRE n"
| "ring_reg s Rxfill_ugt_thre n = EDMA_REG_RXFILL_UGT_THRE n"
| "ring_reg s Rxfill_ring_en n = EDMA_REG_RXFILL_RING_EN n"
| "ring_reg s Rxfill_disable n = EDMA_REG_RXFILL_DISABLE n"
| "ring_reg s Rxfill_disable_done n = EDMA_REG_RXFILL_DISABLE_DONE n"
| "ring_reg s Rxfill_int_stat n = EDMA_REG_RXFILL_INT_STAT n"
| "ring_reg s Rxfill_int_mask n = EDMA_REG_RXFILL_INT_MASK n"
| "ring_reg s Rxdesc_ba n = EDMA_REG_RXDESC_BA n"
| "ring_reg s Rxdesc_prod_idx n = EDMA_REG_RXDESC_PROD_IDX n"
| "ring_reg s Rxdesc_cons_idx n = EDMA_REG_RXDESC_CONS_IDX n"
| "ring_reg s Rxdesc_ring_size n = EDMA_REG_RXDESC_RING_SIZE n"
| "ring_reg s Rxdesc_fc_thre n = EDMA_REG_RXDESC_FC_THRE n"
| "ring_reg s Rxdesc_ugt_thre n = EDMA_REG_RXDESC_UGT_THRE n"
| "ring_reg s Rxdesc_ctrl n = EDMA_REG_RXDESC_CTRL n"
| "ring_reg s Rxdesc_bpc n = EDMA_REG_RXDESC_BPC n"
| "ring_reg s Rxdesc_int_stat n = EDMA_REG_RXDESC_INT_STAT n"
| "ring_reg s Rxdesc_int_mask n = EDMA_REG_RXDESC_INT_MASK n"
| "ring_reg s Rx_mod_timer n = EDMA_REG_RX_MOD_TIMER n"
| "ring_reg s Rx_int_ctrl n = EDMA_REG_RX_INT_CTRL n"

text \<open>The registers that exist once.\<close>

definition global_regs :: "u32 list" where
  "global_regs = [EDMA_REG_MAS_CTRL, EDMA_REG_PORT_CTRL, EDMA_REG_VLAN_CTRL, EDMA_REG_TXDESC2CMPL_MAP_0,
     EDMA_REG_TXDESC2CMPL_MAP_1, EDMA_REG_TXDESC2CMPL_MAP_2, EDMA_REG_RXDESC2FILL_MAP_0, EDMA_REG_RXDESC2FILL_MAP_1,
     EDMA_REG_TXQ_CTRL, EDMA_REG_TXQ_CTRL_2, EDMA_REG_TXQ_FC_0, EDMA_REG_TXQ_FC_1, EDMA_REG_TXQ_FC_2, EDMA_REG_TXQ_FC_3,
     EDMA_REG_RXQ_CTRL, EDMA_REG_RX_TX_FULL_QID, EDMA_REG_RXQ_FC_THRE, EDMA_REG_DMAR_CTRL, EDMA_REG_AXIR_CTRL,
     EDMA_REG_AXIW_CTRL, EDMA_REG_MIN_MSS, EDMA_REG_LOOPBACK_CTRL, EDMA_REG_MISC_INT_STAT, EDMA_REG_MISC_INT_MASK,
     EDMA_REG_DBG_CTRL, EDMA_REG_DBG_DATA]"

section \<open>Banks\<close>

text \<open>A bank holds one page of 4 KB per ring; a register has its bank and its place in the page.\<close>

datatype bank = Txdesc | Txcmpl | Tx_int | Rxfill | Rxfill_int | Rxdesc | Rx_int

definition bank_base :: "soc \<Rightarrow> bank \<Rightarrow> u32" where
  "bank_base s b = (case b of Txdesc \<Rightarrow> 0x1000 | Txcmpl \<Rightarrow> EDMA_REG_TXCMPL_BASE s | Tx_int \<Rightarrow> EDMA_REG_TX_BASE s
     | Rxfill \<Rightarrow> 0x29000 | Rxfill_int \<Rightarrow> 0x31000 | Rxdesc \<Rightarrow> 0x39000 | Rx_int \<Rightarrow> 0x49000)"

definition bank_rings :: "soc \<Rightarrow> bank \<Rightarrow> nat" where
  "bank_rings s b = (case b of Txdesc \<Rightarrow> EDMA_MAX_TXDESC_RINGS | Txcmpl \<Rightarrow> EDMA_MAX_TXCMPL_RINGS s
     | Tx_int \<Rightarrow> EDMA_MAX_TXCMPL_RINGS s | Rxfill \<Rightarrow> EDMA_MAX_RXFILL_RINGS | Rxfill_int \<Rightarrow> EDMA_MAX_RXFILL_RINGS
     | Rxdesc \<Rightarrow> EDMA_MAX_RXDESC_RINGS | Rx_int \<Rightarrow> EDMA_MAX_RXDESC_RINGS)"

fun place :: "ring_register \<Rightarrow> bank \<times> u32" where
  "place Txdesc_ba = (Txdesc, 0)" | "place Txdesc_prod_idx = (Txdesc, 4)" | "place Txdesc_cons_idx = (Txdesc, 8)"
| "place Txdesc_ring_size = (Txdesc, 0xc)" | "place Txdesc_ctrl = (Txdesc, 0x10)"
| "place Txcmpl_ba = (Txcmpl, 0)" | "place Txcmpl_prod_idx = (Txcmpl, 4)" | "place Txcmpl_cons_idx = (Txcmpl, 8)"
| "place Txcmpl_ring_size = (Txcmpl, 0xc)" | "place Txcmpl_ugt_thre = (Txcmpl, 0x10)" | "place Txcmpl_ctrl = (Txcmpl, 0x14)"
| "place Txcmpl_bpc = (Txcmpl, 0x18)"
| "place Tx_int_stat = (Tx_int, 0)" | "place Tx_int_mask = (Tx_int, 4)" | "place Tx_mod_timer = (Tx_int, 8)" | "place Tx_int_ctrl = (Tx_int, 0xc)"
| "place Rxfill_ba = (Rxfill, 0)" | "place Rxfill_prod_idx = (Rxfill, 4)" | "place Rxfill_cons_idx = (Rxfill, 8)"
| "place Rxfill_ring_size = (Rxfill, 0xc)" | "place Rxfill_buffer1_size = (Rxfill, 0x10)" | "place Rxfill_fc_thre = (Rxfill, 0x14)"
| "place Rxfill_ugt_thre = (Rxfill, 0x18)" | "place Rxfill_ring_en = (Rxfill, 0x1c)" | "place Rxfill_disable = (Rxfill, 0x20)"
| "place Rxfill_disable_done = (Rxfill, 0x24)" | "place Rxfill_int_stat = (Rxfill_int, 0)" | "place Rxfill_int_mask = (Rxfill_int, 4)"
| "place Rxdesc_ba = (Rxdesc, 0)" | "place Rxdesc_prod_idx = (Rxdesc, 4)" | "place Rxdesc_cons_idx = (Rxdesc, 8)"
| "place Rxdesc_ring_size = (Rxdesc, 0xc)" | "place Rxdesc_fc_thre = (Rxdesc, 0x10)" | "place Rxdesc_ugt_thre = (Rxdesc, 0x14)"
| "place Rxdesc_ctrl = (Rxdesc, 0x18)" | "place Rxdesc_bpc = (Rxdesc, 0x1c)"
| "place Rxdesc_int_stat = (Rx_int, 0)" | "place Rxdesc_int_mask = (Rx_int, 4)" | "place Rx_mod_timer = (Rx_int, 8)" | "place Rx_int_ctrl = (Rx_int, 0xc)"

abbreviation ring_count_of :: "soc \<Rightarrow> ring_register \<Rightarrow> nat" where
  "ring_count_of s r \<equiv> bank_rings s (fst (place r))"

lemma place_inj: "place r = place r' \<longleftrightarrow> r = r'"
  by (cases r; simp; cases r'; simp)

lemma ring_reg_place: "ring_reg s r n = bank_base s (fst (place r)) + snd (place r) + 0x1000 * n"
  by (cases r) (simp_all add: bank_base_def)

lemma place_small: "unat (snd (place r)) < 0x40"
  by (cases r) simp_all

lemma bank_base_unat: "unat (bank_base s b) = (case b of Txdesc \<Rightarrow> 0x1000 | Txcmpl \<Rightarrow> (case s of IPQ807X \<Rightarrow> 0x19000 | IPQ60XX \<Rightarrow> 0x79000)
     | Tx_int \<Rightarrow> (case s of IPQ807X \<Rightarrow> 0x21000 | IPQ60XX \<Rightarrow> 0x91000)
     | Rxfill \<Rightarrow> 0x29000 | Rxfill_int \<Rightarrow> 0x31000 | Rxdesc \<Rightarrow> 0x39000 | Rx_int \<Rightarrow> 0x49000)"
  by (cases b; cases s) (simp_all add: bank_base_def EDMA_REG_TXCMPL_BASE_def EDMA_REG_TX_BASE_def)

lemma bank_base_bounds: "0x1000 \<le> unat (bank_base s b)" "unat (bank_base s b) < 0xA0000"
  by (cases b; cases s; simp add: bank_base_unat)+

lemma bank_rings_less: "unat n < bank_rings s b \<Longrightarrow> unat n < 64"
  by (cases b; cases s) (simp_all add: bank_rings_def EDMA_MAX_TXCMPL_RINGS_def)

lemma banks_apart:
  assumes "unat n < bank_rings s b" "unat m < bank_rings s c"
    "unat (bank_base s b) + 0x1000 * unat n = unat (bank_base s c) + 0x1000 * unat m"
  shows "b = c \<and> unat n = unat m"
  using assms by (cases s; cases b; cases c; simp add: bank_base_unat bank_rings_def EDMA_MAX_TXCMPL_RINGS_def)

lemma page_split:
  assumes "a + x = b + y" "0x1000 dvd (a :: nat)" "0x1000 dvd b" "x < 0x1000" "y < 0x1000"
  shows "a = b \<and> x = y"
proof -
  have "x = (a + x) mod 0x1000" "y = (b + y) mod 0x1000" using assms(2-5) by (auto elim!: dvdE)
  then show ?thesis using assms(1) by simp
qed

lemma ring_reg_unat_place:
  assumes "unat n < ring_count_of s r"
  shows "unat (ring_reg s r n) = unat (bank_base s (fst (place r))) + 0x1000 * unat n + unat (snd (place r))"
proof -
  let ?b = "bank_base s (fst (place r))"
  have b: "unat (?b + snd (place r)) = unat ?b + unat (snd (place r))"
    using bank_base_bounds(2) [of s "fst (place r)"] place_small [of r] by (subst unat_add_lem [THEN iffD1]) auto
  have "unat (?b + snd (place r) + 0x1000 * n) = unat (?b + snd (place r)) + 0x1000 * unat n"
    by (rule ring_reg_unat) (use bank_rings_less [OF assms] b bank_base_bounds(2) [of s "fst (place r)"] place_small [of r] in simp_all)
  then show ?thesis by (simp add: ring_reg_place b)
qed

section \<open>Properties\<close>

text \<open>
  C25. The register map of both SoCs has no overlap: for ring numbers within the limits of the SoC, the registers of
  rings (base addresses, producer and consumer indices, sizes, controls, thresholds, interrupt status, mask, timer and
  control) are pairwise different words, and none of them is one of the registers that exist once, which are pairwise
  different too.
\<close>

theorem edma_ring_registers_apart:
  assumes "unat n < ring_count_of s r" "unat m < ring_count_of s r'"
  shows "(ring_reg s r n = ring_reg s r' m \<longleftrightarrow> r = r' \<and> n = m) \<and> ring_reg s r n \<notin> set global_regs \<and> distinct global_regs"
proof (intro conjI iffI)
  assume "ring_reg s r n = ring_reg s r' m"
  then have eq: "unat (bank_base s (fst (place r))) + 0x1000 * unat n + unat (snd (place r))
      = unat (bank_base s (fst (place r'))) + 0x1000 * unat m + unat (snd (place r'))"
    using ring_reg_unat_place [OF assms(1)] ring_reg_unat_place [OF assms(2)] by simp
  have b: "0x1000 dvd unat (bank_base s b)" for b by (cases b; cases s) (simp_all add: bank_base_unat)
  have "unat (bank_base s (fst (place r))) + 0x1000 * unat n = unat (bank_base s (fst (place r'))) + 0x1000 * unat m
      \<and> unat (snd (place r)) = unat (snd (place r'))"
    by (rule page_split [OF eq]) (use b place_small [of r] place_small [of r'] in auto)
  then have "fst (place r) = fst (place r') \<and> unat n = unat m \<and> snd (place r) = snd (place r')"
    using banks_apart [OF assms] by (simp add: word_unat_eq_iff)
  then show "r = r'" "n = m" using place_inj [of r r'] by (auto simp: prod_eq_iff word_unat_eq_iff)
next
  have "0x1000 \<le> unat (ring_reg s r n)"
    using ring_reg_unat_place [OF assms(1)] bank_base_bounds(1) [of s "fst (place r)"] by simp
  then show "ring_reg s r n \<notin> set global_regs" by (auto simp: global_regs_def)
  show "distinct global_regs" by (simp add: global_regs_def)
qed auto

theorem edma_ring_registers_apart_witness:
  "ring_reg IPQ807X Txcmpl_ba 7 \<noteq> ring_reg IPQ807X Tx_int_stat 7 \<and> ring_reg IPQ60XX Rxdesc_int_mask 15 \<noteq> ring_reg IPQ60XX Rxfill_int_mask 7
    \<and> ring_reg IPQ807X Txdesc_ctrl 23 \<notin> set global_regs"
proof -
  have n: "unat (7 :: u32) < ring_count_of IPQ807X Txcmpl_ba" "unat (7 :: u32) < ring_count_of IPQ807X Tx_int_stat"
    "unat (15 :: u32) < ring_count_of IPQ60XX Rxdesc_int_mask" "unat (7 :: u32) < ring_count_of IPQ60XX Rxfill_int_mask"
    "unat (23 :: u32) < ring_count_of IPQ807X Txdesc_ctrl"
    by (simp_all add: bank_rings_def EDMA_MAX_TXCMPL_RINGS_def)
  show ?thesis
    using edma_ring_registers_apart [OF n(1,2)] edma_ring_registers_apart [OF n(3,4)] edma_ring_registers_apart [OF n(5,5)] by simp
qed

end
