(* ===== verification/Dp_Dev.thy ===== *)
theory Dp_Dev
  imports Syn_Gmac
begin

text \<open>
  The state the driver proper keeps (\<open>include/nss_dp_dev.h\<close>, \<open>exports/nss_dp_api_if.h\<close>,
  \<open>hal/include/nss_dp_hal.h\<close>): a store of net devices with their private part, the table of ports, the data
  plane contexts, and the two tables of functions a port points to, the data plane operations and the MAC
  operations. Pointers to net devices are numbers; an access to one that is not allocated, or no longer, is the
  fault \<open>Null_Pointer\<close>. \<open>'h\<close> is the context of the MAC driver, \<open>'s\<close> the state of the data plane, \<open>'k\<close> its socket
  buffers: the SoC decides on all three.
\<close>

section \<open>Devices\<close>

text \<open>
  A data plane context is one of the global array, or belongs to an overlay driver. Tables of data plane
  operations are named: the one of the SoC, and those of overlay drivers.
\<close>

datatype dpc_ref = Dpc_global nat | Dpc_overlay nat

datatype ops_ref = Soc_ops | Overlay_ops nat

datatype hal_ref = Qcom_hal_ops | Syn_hal_ops

datatype nss_dp_link_state = NSS_DP_LINK_UP | NSS_DP_LINK_DOWN

abbreviation (input) NSS_DP_PRIV_FLAG_INIT_DONE :: u64 where "NSS_DP_PRIV_FLAG_INIT_DONE \<equiv> 1"
abbreviation (input) NSS_DP_PRIV_FLAG_IRQ_REQUESTED :: u64 where "NSS_DP_PRIV_FLAG_IRQ_REQUESTED \<equiv> 2"

text \<open>
  What the driver reads and writes of a PHY. Link modes are sets of bit numbers; before Linux 4.5 they are the
  32-bit words of the last two fields instead.
\<close>

record phy_device =
  phy_link :: bool
  phy_advertising :: "nat set"
  phy_supported :: "nat set"
  phy_advertising32 :: u32
  phy_supported32 :: u32

record 'h nss_dp_dev =
  macid :: u32
  vsi :: u32
  dp_flags :: u64
  drv_flags :: u64
  phydev :: "phy_device option"
  miibus :: "nat option"
  phy_mii_type :: u32
  phy_mdio_addr :: u32
  link_poll :: bool
  forced_speed :: u32
  forced_duplex :: u32
  link_state :: nss_dp_link_state
  pause :: u32
  dp_netdev :: nat
  dpc :: "dpc_ref option"
  data_plane_ops :: "ops_ref option"
  gmac_hal_ctx :: "'h option"
  gmac_hal_ops :: "hal_ref option"
  stp_state :: u8
  brport_flags :: u64

text \<open>
  The part of \<open>struct net_device\<close> in use. \<open>nd_dp_ops\<close>: the net device operations are those of this driver;
  \<open>nd_queue\<close>: its queue is started; \<open>nd_registered\<close>: it is registered with the kernel.
\<close>

record net_device =
  nd_mtu :: u32
  nd_max_mtu :: u32
  nd_addr :: eth_addr
  nd_base_addr :: u64
  nd_irq :: u32
  nd_features :: u64
  nd_hw_features :: u64
  nd_vlan_features :: u64
  nd_wanted_features :: u64
  nd_carrier :: bool
  nd_queue :: bool
  nd_dp_ops :: bool
  nd_ethtool :: bool
  nd_registered :: bool

text \<open>
  The control packet profile and the calls the driver makes into the switch driver; every call is recorded with
  whether it succeeded.
\<close>

record fal_ctrlpkt_profile =
  pr_rdt_to_cpu :: bool
  pr_sg_bypass :: bool
  pr_in_stp_bypass :: bool
  pr_in_vlan_fltr_bypass :: bool
  pr_l2_filter_bypass :: bool
  pr_ethtype_profile_bitmap :: u32
  pr_port_map :: u32

datatype fal_stp_state = FAL_STP_DISABLED | FAL_STP_LISTENING | FAL_STP_BLOCKING | FAL_STP_LEARNING | FAL_STP_FORWARDING

datatype fal_call =
    Profile_add fal_ctrlpkt_profile
  | Profile_del fal_ctrlpkt_profile
  | Ethtype_profile_set u32 u32
  | Stp_port_state_set u32 fal_stp_state

text \<open>Calls into the kernel and the platform, in order.\<close>

datatype (plugins only: size) nk_call =
    Nk_phy_start nat
  | Nk_phy_start_aneg nat
  | Nk_phy_stop nat
  | Nk_phy_disconnect nat
  | Nk_config_aneg nat
  | Nk_gro_receive skb_ref nat
  | Nk_unregister_netdev nat
  | Nk_free_netdev nat
  | Nk_napi_add nat
  | Nk_napi_del nat
  | Nk_napi_enable nat
  | Nk_napi_disable nat
  | Nk_napi_complete nat
  | Nk_napi_schedule nat
  | Nk_request_irq u32 nat
  | Nk_sync_irq u32
  | Nk_free_irq u32 nat
  | Nk_kfree_skb skb_ref
  | Nk_clk_enable
  | Nk_plat plat_call
  | Nk_tcsr_write u32 u32
  | Nk_driver_unregister
  | Nk_fal fal_call bool
  | Nk_switchdev_notifier
  | Nk_switchdev_ops nat

record ('h, 's) dp_world =
  netdevs :: "nat \<Rightarrow> net_device option"
  privs :: "nat \<Rightarrow> 'h nss_dp_dev option"
  nd_allocs :: nat
  nss_dp :: "nat option list"
  gmac_ops :: "hal_ref option list"
  common_init_done :: bool
  slowproto_acl_bm :: u8
  dp_ctx :: "nat option list"
  switch_init_done :: bool
  nk_trace :: "nk_call list"
  dp :: 's

definition nkcalls :: "nk_call list \<Rightarrow> ('h, 's) dp_world \<Rightarrow> ('h, 's) dp_world" where
  "nkcalls cs w = w\<lparr>nk_trace := nk_trace w @ cs\<rparr>"

text \<open>Accesses through a pointer to a net device or to its private part, and updates in place.\<close>

definition with_dev :: "('h, 's) dp_world \<Rightarrow> nat \<Rightarrow> (net_device \<Rightarrow> 'r result) \<Rightarrow> 'r result" where
  "with_dev w n f = (case netdevs w n of None \<Rightarrow> Inl Null_Pointer | Some d \<Rightarrow> f d)"

definition with_priv :: "('h, 's) dp_world \<Rightarrow> nat \<Rightarrow> ('h nss_dp_dev \<Rightarrow> 'r result) \<Rightarrow> 'r result" where
  "with_priv w n f = (case privs w n of None \<Rightarrow> Inl Null_Pointer | Some p \<Rightarrow> f p)"

definition upd_dev :: "nat \<Rightarrow> (net_device \<Rightarrow> net_device) \<Rightarrow> ('h, 's) dp_world \<Rightarrow> ('h, 's) dp_world" where
  "upd_dev n f w = w\<lparr>netdevs := (netdevs w)(n := map_option f (netdevs w n))\<rparr>"

definition upd_priv :: "nat \<Rightarrow> ('h nss_dp_dev \<Rightarrow> 'h nss_dp_dev) \<Rightarrow> ('h, 's) dp_world \<Rightarrow> ('h, 's) dp_world" where
  "upd_priv n f w = w\<lparr>privs := (privs w)(n := map_option f (privs w n))\<rparr>"

section \<open>Tables of functions\<close>

text \<open>\<open>struct nss_dp_data_plane_ops\<close>: an entry that is not set is a NULL pointer.\<close>

record ('h, 's, 'k) data_plane_ops =
  op_init :: "(dpc_ref option \<Rightarrow> ('h, 's) dp_world \<Rightarrow> (status \<times> ('h, 's) dp_world) result) option"
  op_open :: "(dpc_ref option \<Rightarrow> u32 \<Rightarrow> u32 \<Rightarrow> u32 \<Rightarrow> ('h, 's) dp_world \<Rightarrow> (status \<times> ('h, 's) dp_world) result) option"
  op_close :: "(dpc_ref option \<Rightarrow> ('h, 's) dp_world \<Rightarrow> (status \<times> ('h, 's) dp_world) result) option"
  op_link_state :: "(dpc_ref option \<Rightarrow> u32 \<Rightarrow> ('h, 's) dp_world \<Rightarrow> (status \<times> ('h, 's) dp_world) result) option"
  op_mac_addr :: "(dpc_ref option \<Rightarrow> eth_addr \<Rightarrow> ('h, 's) dp_world \<Rightarrow> (status \<times> ('h, 's) dp_world) result) option"
  op_change_mtu :: "(dpc_ref option \<Rightarrow> u32 \<Rightarrow> ('h, 's) dp_world \<Rightarrow> (status \<times> ('h, 's) dp_world) result) option"
  op_xmit :: "(dpc_ref option \<Rightarrow> 'k \<Rightarrow> ('h, 's) dp_world \<Rightarrow> (netdev_tx_t \<times> ('h, 's) dp_world) result) option"
  op_set_features :: "(dpc_ref option \<Rightarrow> ('h, 's) dp_world \<Rightarrow> ('h, 's) dp_world result) option"
  op_pause_on_off :: "(dpc_ref option \<Rightarrow> u32 \<Rightarrow> ('h, 's) dp_world \<Rightarrow> (status \<times> ('h, 's) dp_world) result) option"
  op_vsi_assign :: "(dpc_ref option \<Rightarrow> u32 \<Rightarrow> ('h, 's) dp_world \<Rightarrow> (status \<times> ('h, 's) dp_world) result) option"
  op_vsi_unassign :: "(dpc_ref option \<Rightarrow> u32 \<Rightarrow> ('h, 's) dp_world \<Rightarrow> (status \<times> ('h, 's) dp_world) result) option"
  op_rx_flow_steer :: "(dpc_ref option \<Rightarrow> 'k \<Rightarrow> u32 \<Rightarrow> bool \<Rightarrow> ('h, 's) dp_world \<Rightarrow> (status \<times> ('h, 's) dp_world) result) option"
  op_get_stats :: "(dpc_ref option \<Rightarrow> ('h, 's) dp_world \<Rightarrow> nss_dp_gmac_stats \<Rightarrow> nss_dp_gmac_stats result) option"
  op_deinit :: "(dpc_ref option \<Rightarrow> ('h, 's) dp_world \<Rightarrow> (status \<times> ('h, 's) dp_world) result) option"

text \<open>
  The entries of \<open>struct nss_gmac_hal_ops\<close> that the driver calls. \<open>init\<close> may set status bits of the port and
  call the clock framework; statistics may come from the data plane of the port.
\<close>

record 'h nss_gmac_hal_ops =
  ho_init :: "gmac_hal_platform_data \<Rightarrow> u64 \<Rightarrow> nk_call list \<Rightarrow> 'h option \<times> u64 \<times> nk_call list"
  ho_exit :: "('h option \<Rightarrow> ('h option \<times> plat_call list) result) option"
  ho_setmacaddr :: "'h option \<Rightarrow> eth_addr \<Rightarrow> 'h option result"
  ho_getndostats :: "stats_src \<Rightarrow> 'h option \<Rightarrow> rtnl_link_stats64 \<Rightarrow> (int \<times> 'h option \<times> rtnl_link_stats64) result"
  ho_getssetcount :: "'h option \<Rightarrow> eth_ss \<Rightarrow> (errno + nat) result"
  ho_getstrings :: "'h option \<Rightarrow> eth_ss \<Rightarrow> string \<Rightarrow> (status \<times> string) result"
  ho_getethtoolstats :: "stats_src \<Rightarrow> 'h option \<Rightarrow> u64 list \<Rightarrow> (int \<times> 'h option \<times> u64 list) result"

text \<open>\<open>struct sockaddr\<close>: its family and its first six data bytes.\<close>

record sockaddr =
  sa_family :: u16
  sa_data :: eth_addr

text \<open>
  The device tree node of a port: each property that was found. \<open>pt_mac\<close> is the address it gives (none for
  NULL or an error pointer), \<open>pt_random\<close> the one drawn otherwise. Then what the probe of the port meets: the
  MDIO nodes, the bus, the PHY and the registration.
\<close>

record port_dt =
  pt_id :: "u32 option"
  pt_mactype :: "u32 option"
  pt_resource :: "(u64 \<times> u32) option"
  pt_phy_mode :: u32
  pt_link_poll :: bool
  pt_mdio_addr :: "u32 option"
  pt_forced_speed :: "u32 option"
  pt_forced_duplex :: "u32 option"
  pt_mac :: "eth_addr option"
  pt_random :: eth_addr
  pt_mdio_bus :: "nat option option"
  pt_mdio_node :: bool
  pt_mdio_plat :: bool
  pt_mdio_data :: "nat option option"
  pt_phy_connect :: "phy_device option"
  pt_vsi_get :: "u32 option"
  pt_register :: bool

text \<open>
  What surrounds the driver: the tables, by name; the configuration of the SoC; and the
  answers of the kernel.
\<close>

record ('h, 's, 'k) dp_env =
  de_ops :: "ops_ref \<Rightarrow> ('h, 's, 'k) data_plane_ops"
  de_hal :: "hal_ref \<Rightarrow> 'h nss_gmac_hal_ops"
  de_ppe :: bool
  de_max_ports :: nat
  de_start_ifnum :: nat
  de_mii_ioctl :: "nat \<Rightarrow> int \<Rightarrow> status"
  de_prepare_mac :: "nat \<Rightarrow> sockaddr \<Rightarrow> status"
  de_alloc_etherdev :: "nat \<Rightarrow> bool"
  de_valid_addr :: "eth_addr \<Rightarrow> bool"
  de_soc_ops :: "ops_ref option"

text \<open>A call through an entry of a table; the table itself may be NULL.\<close>

definition call_op ::
  "('h, 's, 'k) dp_env \<Rightarrow> 'h nss_dp_dev \<Rightarrow> (('h, 's, 'k) data_plane_ops \<Rightarrow> 'f option) \<Rightarrow> ('f \<Rightarrow> 'r result) \<Rightarrow> 'r result" where
  "call_op e p entry f =
     (case data_plane_ops p of
        None \<Rightarrow> Inl Null_Pointer
      | Some r \<Rightarrow> (case entry (de_ops e r) of None \<Rightarrow> Inl Null_Pointer | Some g \<Rightarrow> f g))"

definition call_hal ::
  "('h, 's, 'k) dp_env \<Rightarrow> 'h nss_dp_dev \<Rightarrow> ('h nss_gmac_hal_ops \<Rightarrow> 'r result) \<Rightarrow> 'r result" where
  "call_hal e p f = (case gmac_hal_ops p of None \<Rightarrow> Inl Null_Pointer | Some r \<Rightarrow> f (de_hal e r))"

text \<open>\<open>dpc->dev\<close>; \<open>overlay_dev\<close> gives the net device of an overlay's context.\<close>

definition dpc_dev :: "(nat \<Rightarrow> nat option) \<Rightarrow> dpc_ref option \<Rightarrow> ('h, 's) dp_world \<Rightarrow> nat option result" where
  "dpc_dev overlay_dev c w =
     (case c of
        None \<Rightarrow> Inl Null_Pointer
      | Some (Dpc_global i) \<Rightarrow> aget (dp_ctx w) i
      | Some (Dpc_overlay i) \<Rightarrow> Inr (overlay_dev i))"

text \<open>Where a MAC that keeps no counters of its own gets them: the data plane of the port.\<close>

definition stats_of :: "('h, 's, 'k) dp_env \<Rightarrow> 'h nss_dp_dev \<Rightarrow> ('h, 's) dp_world \<Rightarrow> stats_src" where
  "stats_of e p w =
     map_option (\<lambda>r. map_option (\<lambda>g. g (dpc p) w) (op_get_stats (de_ops e r))) (data_plane_ops p)"

definition nss_dp_hal_get_gmac_ops :: "u32 \<Rightarrow> ('h, 's) dp_world \<Rightarrow> hal_ref option result" where
  "nss_dp_hal_get_gmac_ops gmac_type w = aget (gmac_ops w) (unat gmac_type)"

definition nss_dp_hal_set_gmac_ops ::
  "hal_ref option \<Rightarrow> u32 \<Rightarrow> ('h, 's) dp_world \<Rightarrow> ('h, 's) dp_world result" where
  "nss_dp_hal_set_gmac_ops hal_ops gmac_type w =
     bindR (aset (gmac_ops w) (unat gmac_type) hal_ops) (\<lambda>t. Inr (w\<lparr>gmac_ops := t\<rparr>))"

section \<open>Stepping through the store\<close>

lemma with_simps [run_simps]:
  "netdevs w n = Some d \<Longrightarrow> with_dev w n f = f d" "netdevs w n = None \<Longrightarrow> with_dev w n f = Inl Null_Pointer"
  "privs w n = Some p \<Longrightarrow> with_priv w n g = g p" "privs w n = None \<Longrightarrow> with_priv w n g = Inl Null_Pointer"
  by (simp_all add: with_dev_def with_priv_def)

lemma call_op_simps [run_simps]:
  "data_plane_ops p = Some r \<Longrightarrow> entry (de_ops e r) = Some g \<Longrightarrow> call_op e p entry f = f g"
  "data_plane_ops p = None \<Longrightarrow> call_op e p entry f = Inl Null_Pointer"
  "data_plane_ops p = Some r \<Longrightarrow> entry (de_ops e r) = None \<Longrightarrow> call_op e p entry f = Inl Null_Pointer"
  by (simp_all add: call_op_def)

lemma call_hal_simps [run_simps]:
  "gmac_hal_ops p = Some r \<Longrightarrow> call_hal e p f = f (de_hal e r)"
  by (simp add: call_hal_def)

lemma upd_store [simp]:
  "netdevs (upd_dev n f w) = (netdevs w)(n := map_option f (netdevs w n))"
  "privs (upd_priv n g w) = (privs w)(n := map_option g (privs w n))"
  "privs (upd_dev n f w) = privs w" "netdevs (upd_priv n g w) = netdevs w"
  "netdevs (nkcalls cs w) = netdevs w" "privs (nkcalls cs w) = privs w"
  by (simp_all add: upd_dev_def upd_priv_def nkcalls_def)

lemma upd_rest [simp]:
  "dp (upd_dev n f w) = dp w" "dp (upd_priv n g w) = dp w" "dp (nkcalls cs w) = dp w"
  "nss_dp (upd_dev n f w) = nss_dp w" "nss_dp (upd_priv n g w) = nss_dp w" "nss_dp (nkcalls cs w) = nss_dp w"
  "dp_ctx (upd_dev n f w) = dp_ctx w" "dp_ctx (upd_priv n g w) = dp_ctx w" "dp_ctx (nkcalls cs w) = dp_ctx w"
  "gmac_ops (upd_dev n f w) = gmac_ops w" "gmac_ops (upd_priv n g w) = gmac_ops w" "gmac_ops (nkcalls cs w) = gmac_ops w"
  "slowproto_acl_bm (upd_dev n f w) = slowproto_acl_bm w" "slowproto_acl_bm (upd_priv n g w) = slowproto_acl_bm w"
  "slowproto_acl_bm (nkcalls cs w) = slowproto_acl_bm w"
  "nk_trace (upd_dev n f w) = nk_trace w" "nk_trace (upd_priv n g w) = nk_trace w"
  "nk_trace (nkcalls cs w) = nk_trace w @ cs"
  "nd_allocs (upd_dev n f w) = nd_allocs w" "nd_allocs (upd_priv n g w) = nd_allocs w" "nd_allocs (nkcalls cs w) = nd_allocs w"
  by (simp_all add: upd_dev_def upd_priv_def nkcalls_def)

end
