(* ===== verification/Dp_Switchdev.thy ===== *)
theory Dp_Switchdev
  imports Dp_Dev
begin

text \<open>
  The switchdev operations (\<open>nss_dp_switchdev.c\<close>): the bridge flags and the spanning tree state of a port, and
  the filter that lets slow protocol frames (LACP) through while spanning tree has disabled a port. The switch
  driver is not part of the repository: \<open>f\<close> says whether a call to it succeeds, given all calls so far. The
  operations of kernels before 4.5 carry the suffix \<open>_old\<close>.
\<close>

section \<open>The slow protocol filter\<close>

abbreviation (input) NSS_DP_SW_ETHTYPE_PID :: u32 where "NSS_DP_SW_ETHTYPE_PID \<equiv> 0"
abbreviation (input) ETH_P_NONE :: u32 where "ETH_P_NONE \<equiv> 0"
abbreviation (input) ETH_P_SLOW :: u32 where "ETH_P_SLOW \<equiv> 0x8809"

type_synonym fal_answers = "nk_call list \<Rightarrow> fal_call \<Rightarrow> bool"

definition fal :: "fal_answers \<Rightarrow> fal_call \<Rightarrow> ('h, 's) dp_world \<Rightarrow> bool \<times> ('h, 's) dp_world" where
  "fal f c w = (f (nk_trace w) c, nkcalls [Nk_fal c (f (nk_trace w) c)] w)"

definition port_bit :: "u32 \<Rightarrow> u32" where
  "port_bit m = push_bit (unat m) 1"

definition slow_proto_profile :: "u32 \<Rightarrow> fal_ctrlpkt_profile" where
  "slow_proto_profile m = \<lparr>pr_rdt_to_cpu = True, pr_sg_bypass = False, pr_in_stp_bypass = True,
     pr_in_vlan_fltr_bypass = False, pr_l2_filter_bypass = False, pr_ethtype_profile_bitmap = 0x1,
     pr_port_map = port_bit m\<rparr>"

text \<open>The bitmap is 8 bits wide: what the assignment keeps of the \<open>int\<close> computed.\<close>

definition nss_dp_set_slow_proto_filter ::
  "fal_answers \<Rightarrow> 'h nss_dp_dev \<Rightarrow> bool \<Rightarrow> ('h, 's) dp_world \<Rightarrow> ('h, 's) dp_world" where
  "nss_dp_set_slow_proto_filter f dp_priv filter_enable w =
     (let profile = slow_proto_profile (macid dp_priv)
      in if filter_enable
         then
          (case fal f (Profile_add profile) w of (ok, w) \<Rightarrow>
             if \<not> ok then w
             else
              (let (ok, w) =
                     (if slowproto_acl_bm w = 0
                      then fal f (Ethtype_profile_set NSS_DP_SW_ETHTYPE_PID ETH_P_SLOW) w
                      else (True, w))
               in if \<not> ok then snd (fal f (Profile_del profile) w)
                  else w\<lparr>slowproto_acl_bm := ucast (ucast (slowproto_acl_bm w) OR port_bit (macid dp_priv))\<rparr>))
         else
          (case fal f (Profile_del profile) w of (ok, w) \<Rightarrow>
             if \<not> ok then w
             else
              (let w = w\<lparr>slowproto_acl_bm := ucast (ucast (slowproto_acl_bm w) AND NOT (port_bit (macid dp_priv)))\<rparr>
               in if slowproto_acl_bm w = 0
                  then snd (fal f (Ethtype_profile_set NSS_DP_SW_ETHTYPE_PID ETH_P_NONE) w)
                  else w)))"

section \<open>Attributes\<close>

abbreviation (input) BR_STATE_DISABLED :: u8 where "BR_STATE_DISABLED \<equiv> 0"
abbreviation (input) BR_STATE_LISTENING :: u8 where "BR_STATE_LISTENING \<equiv> 1"
abbreviation (input) BR_STATE_LEARNING :: u8 where "BR_STATE_LEARNING \<equiv> 2"
abbreviation (input) BR_STATE_FORWARDING :: u8 where "BR_STATE_FORWARDING \<equiv> 3"
abbreviation (input) BR_STATE_BLOCKING :: u8 where "BR_STATE_BLOCKING \<equiv> 4"

definition stp_state_of :: "u8 \<Rightarrow> fal_stp_state option" where
  "stp_state_of state =
     (if state = BR_STATE_DISABLED then Some FAL_STP_DISABLED
      else if state = BR_STATE_LISTENING then Some FAL_STP_LISTENING
      else if state = BR_STATE_BLOCKING then Some FAL_STP_BLOCKING
      else if state = BR_STATE_LEARNING then Some FAL_STP_LEARNING
      else if state = BR_STATE_FORWARDING then Some FAL_STP_FORWARDING
      else None)"

definition nss_dp_stp_state_set ::
  "fal_answers \<Rightarrow> 'h nss_dp_dev \<Rightarrow> u8 \<Rightarrow> ('h, 's) dp_world \<Rightarrow> status \<times> ('h, 's) dp_world" where
  "nss_dp_stp_state_set f dp_priv state w =
     (case stp_state_of state of
        None \<Rightarrow> (Errno EOPNOTSUPP, w)
      | Some stp \<Rightarrow>
         (let w = (if state = BR_STATE_DISABLED then nss_dp_set_slow_proto_filter f dp_priv True w
                   else if state = BR_STATE_FORWARDING then nss_dp_set_slow_proto_filter f dp_priv False w
                   else w);
              (ok, w) = fal f (Stp_port_state_set (macid dp_priv) stp) w
          in if ok then (Success, w)
             else
              (let w = (if state = BR_STATE_DISABLED then nss_dp_set_slow_proto_filter f dp_priv False w
                        else if state = BR_STATE_FORWARDING then nss_dp_set_slow_proto_filter f dp_priv True w
                        else w)
               in (Errno EINVAL, w))))"

text \<open>The attributes of a port: the identity of its switch, its bridge flags, its spanning tree state, others.\<close>

datatype switchdev_attr =
    Attr_parent_id "u8 list"
  | Attr_bridge_flags u64
  | Attr_stp_state u8
  | Attr_other

definition nss_dp_attr_get_old ::
  "nat \<Rightarrow> switchdev_attr \<Rightarrow> ('h, 's) dp_world \<Rightarrow> (status \<times> switchdev_attr) result" where
  "nss_dp_attr_get_old dev attr w = with_priv w dev (\<lambda>dp_priv.
     case attr of
       Attr_parent_id _ \<Rightarrow> Inr (Success, Attr_parent_id [0])
     | Attr_bridge_flags _ \<Rightarrow> Inr (Success, Attr_bridge_flags (brport_flags dp_priv))
     | _ \<Rightarrow> Inr (Errno EOPNOTSUPP, attr))"

definition nss_dp_attr_set_old ::
  "fal_answers \<Rightarrow> nat \<Rightarrow> switchdev_attr \<Rightarrow> bool \<Rightarrow> ('h, 's) dp_world \<Rightarrow> (status \<times> ('h, 's) dp_world) result" where
  "nss_dp_attr_set_old f dev attr prepare w = with_priv w dev (\<lambda>dp_priv.
     if prepare then Inr (Success, w)
     else
      (case attr of
         Attr_bridge_flags b \<Rightarrow> Inr (Success, upd_priv dev (\<lambda>p. p\<lparr>brport_flags := b\<rparr>) w)
       | Attr_stp_state s \<Rightarrow> Inr (nss_dp_stp_state_set f dp_priv s w)
       | _ \<Rightarrow> Inr (Errno EOPNOTSUPP, w)))"

definition nss_dp_port_attr_set ::
  "fal_answers \<Rightarrow> nat \<Rightarrow> switchdev_attr \<Rightarrow> bool \<Rightarrow> ('h, 's) dp_world \<Rightarrow> (status \<times> ('h, 's) dp_world) result" where
  "nss_dp_port_attr_set f dev attr prepare w = with_priv w dev (\<lambda>dp_priv.
     if prepare then Inr (Success, w)
     else
      (case attr of
         Attr_bridge_flags b \<Rightarrow> Inr (Success, upd_priv dev (\<lambda>p. p\<lparr>brport_flags := b\<rparr>) w)
       | Attr_stp_state s \<Rightarrow> Inr (nss_dp_stp_state_set f dp_priv s w)
       | _ \<Rightarrow> Inr (Errno EOPNOTSUPP, w)))"

text \<open>Older kernels: the device is given the table of the two functions above, with no forwarding mark.\<close>

definition nss_dp_switchdev_setup_old :: "nat \<Rightarrow> ('h, 's) dp_world \<Rightarrow> ('h, 's) dp_world result" where
  "nss_dp_switchdev_setup_old dev w = with_dev w dev (\<lambda>_. Inr (nkcalls [Nk_switchdev_ops dev] w))"

text \<open>The notification of an attribute: the attribute, the phase, and whether some driver has handled it.\<close>

record port_attr_info =
  pi_attr :: switchdev_attr
  pi_prepare :: bool
  pi_handled :: bool

definition nss_dp_switchdev_port_attr_set_event ::
  "fal_answers \<Rightarrow> nat \<Rightarrow> port_attr_info \<Rightarrow> ('h, 's) dp_world \<Rightarrow> (status \<times> port_attr_info \<times> ('h, 's) dp_world) result" where
  "nss_dp_switchdev_port_attr_set_event f netdev info w =
     bindR (nss_dp_port_attr_set f netdev (pi_attr info) (pi_prepare info) w) (\<lambda>(err, w).
     Inr (err, info\<lparr>pi_handled := True\<rparr>, w))"

definition nss_dp_is_phy_dev :: "net_device \<Rightarrow> bool" where
  "nss_dp_is_phy_dev dev = nd_dp_ops dev"

text \<open>The notifier answers \<open>NOTIFY_DONE\<close> whatever happened; \<open>attr_set\<close>: the event is \<open>SWITCHDEV_PORT_ATTR_SET\<close>.\<close>

definition nss_dp_switchdev_event ::
  "fal_answers \<Rightarrow> bool \<Rightarrow> nat \<Rightarrow> port_attr_info \<Rightarrow> ('h, 's) dp_world \<Rightarrow> (port_attr_info \<times> ('h, 's) dp_world) result" where
  "nss_dp_switchdev_event f attr_set dev info w = with_dev w dev (\<lambda>d.
     if \<not> nss_dp_is_phy_dev d then Inr (info, w)
     else if attr_set
     then bindR (nss_dp_switchdev_port_attr_set_event f dev info w) (\<lambda>(_, info, w). Inr (info, w))
     else Inr (info, w))"

text \<open>The notifier is registered once; a failure is only reported.\<close>

definition nss_dp_switchdev_setup :: "nat \<Rightarrow> ('h, 's) dp_world \<Rightarrow> ('h, 's) dp_world" where
  "nss_dp_switchdev_setup dev w =
     (if switch_init_done w then w
      else (nkcalls [Nk_switchdev_notifier] w)\<lparr>switch_init_done := True\<rparr>)"

section \<open>Invariants of the filter\<close>

text \<open>
  What the switch has been told, read off the calls that succeeded: the ethertype of the profile, and whether the
  profile of a port is installed.
\<close>

fun ethtype_told :: "nk_call list \<Rightarrow> u32 \<Rightarrow> u32" where
  "ethtype_told [] t = t"
| "ethtype_told (c # cs) t = ethtype_told cs (case c of Nk_fal (Ethtype_profile_set _ v) True \<Rightarrow> v | _ \<Rightarrow> t)"

fun profile_told :: "fal_ctrlpkt_profile \<Rightarrow> nk_call list \<Rightarrow> bool \<Rightarrow> bool" where
  "profile_told pr [] b = b"
| "profile_told pr (c # cs) b = profile_told pr cs
     (case c of Nk_fal (Profile_add q) True \<Rightarrow> (if q = pr then True else b)
      | Nk_fal (Profile_del q) True \<Rightarrow> (if q = pr then False else b) | _ \<Rightarrow> b)"

definition ethtype_on :: "nk_call list \<Rightarrow> bool" where
  "ethtype_on tr \<longleftrightarrow> ethtype_told tr ETH_P_NONE = ETH_P_SLOW"

definition profile_on :: "nk_call list \<Rightarrow> u32 \<Rightarrow> bool" where
  "profile_on tr m \<longleftrightarrow> profile_told (slow_proto_profile m) tr False"

definition slow_proto_ok :: "('h, 's) dp_world \<Rightarrow> bool" where
  "slow_proto_ok w \<longleftrightarrow> (slowproto_acl_bm w \<noteq> 0 \<longrightarrow> ethtype_on (nk_trace w))
     \<and> (\<forall>m. unat m < 8 \<and> bit (slowproto_acl_bm w) (unat m) \<longrightarrow> profile_on (nk_trace w) m)"

lemma ethtype_told_append: "ethtype_told (xs @ ys) t = ethtype_told ys (ethtype_told xs t)"
  by (induction xs arbitrary: t) simp_all

lemma profile_told_append: "profile_told pr (xs @ ys) b = profile_told pr ys (profile_told pr xs b)"
  by (induction xs arbitrary: b) simp_all

lemma fal_frame [simp]:
  "slowproto_acl_bm (snd (fal f c w)) = slowproto_acl_bm w" "privs (snd (fal f c w)) = privs w"
  "fst (fal f c w) = f (nk_trace w) c"
  by (simp_all add: fal_def)

lemma ethtype_on_fal [simp]:
  "ethtype_on (nk_trace (snd (fal f (Profile_add p) w))) = ethtype_on (nk_trace w)"
  "ethtype_on (nk_trace (snd (fal f (Profile_del p) w))) = ethtype_on (nk_trace w)"
  "ethtype_on (nk_trace (snd (fal f (Stp_port_state_set i s) w))) = ethtype_on (nk_trace w)"
  "ethtype_on (nk_trace (snd (fal f (Ethtype_profile_set i v) w)))
     = (if f (nk_trace w) (Ethtype_profile_set i v) then v = ETH_P_SLOW else ethtype_on (nk_trace w))"
  by (auto simp: fal_def ethtype_on_def ethtype_told_append)

lemma profile_on_fal [simp]:
  "profile_on (nk_trace (snd (fal f (Stp_port_state_set i s) w))) m = profile_on (nk_trace w) m"
  "profile_on (nk_trace (snd (fal f (Ethtype_profile_set i v) w))) m = profile_on (nk_trace w) m"
  "profile_on (nk_trace (snd (fal f (Profile_add p) w))) m
     = (f (nk_trace w) (Profile_add p) \<and> p = slow_proto_profile m \<or> profile_on (nk_trace w) m)"
  "profile_on (nk_trace (snd (fal f (Profile_del p) w))) m
     = (profile_on (nk_trace w) m \<and> \<not> (f (nk_trace w) (Profile_del p) \<and> p = slow_proto_profile m))"
  by (auto simp: fal_def profile_on_def profile_told_append split: bool.splits)

text \<open>Ports below 32 have bits of their own.\<close>

lemma bit_port_bit: "unat m < 32 \<Longrightarrow> bit (port_bit m) n \<longleftrightarrow> n = unat m"
  by (auto simp: port_bit_def bit_simps)

lemma slow_proto_profile_inj:
  assumes "unat m < 32" "slow_proto_profile m' = slow_proto_profile m"
  shows "m' = m"
proof -
  have eq: "port_bit m' = port_bit m" using assms(2) by (simp add: slow_proto_profile_def)
  then have "bit (port_bit m') (unat m)" using assms(1) by (simp add: bit_port_bit)
  then have "unat m = unat m'" by (auto simp: port_bit_def bit_simps)
  then show ?thesis by (simp add: word_unat_eq_iff)
qed

lemma bitmap_bits:
  fixes b :: u8
  assumes "unat m < 32" "unat n < 8"
  shows "bit (ucast (ucast b OR port_bit m) :: u8) (unat n) \<longleftrightarrow> bit b (unat n) \<or> n = m"
    and "bit (ucast (ucast b AND NOT (port_bit m)) :: u8) (unat n) \<longleftrightarrow> bit b (unat n) \<and> n \<noteq> m"
    and "bit (ucast (port_bit m) :: u8) (unat n) \<longleftrightarrow> n = m"
  using assms word_unat_eq_iff [of n m] by (auto simp: bit_simps bit_port_bit)

lemma slow_proto_okI:
  assumes "slowproto_acl_bm w \<noteq> 0 \<Longrightarrow> ethtype_on (nk_trace w)"
    "\<And>m. unat m < 8 \<Longrightarrow> bit (slowproto_acl_bm w) (unat m) \<Longrightarrow> profile_on (nk_trace w) m"
  shows "slow_proto_ok w"
  using assms by (auto simp: slow_proto_ok_def)

lemma slow_proto_okD:
  assumes "slow_proto_ok w"
  shows "slowproto_acl_bm w \<noteq> 0 \<Longrightarrow> ethtype_on (nk_trace w)"
    "unat m < 8 \<Longrightarrow> bit (slowproto_acl_bm w) (unat m) \<Longrightarrow> profile_on (nk_trace w) m"
  using assms by (auto simp: slow_proto_ok_def)

lemma slow_proto_enable_ok:
  assumes "slow_proto_ok w" "unat (macid p) < 8"
  shows "slow_proto_ok (nss_dp_set_slow_proto_filter f p True w)"
proof (rule slow_proto_okI)
  show "ethtype_on (nk_trace (nss_dp_set_slow_proto_filter f p True w))"
    if "slowproto_acl_bm (nss_dp_set_slow_proto_filter f p True w) \<noteq> 0"
    using that slow_proto_okD(1) [OF assms(1)]
    by (cases "slowproto_acl_bm w = 0")
       (auto simp: nss_dp_set_slow_proto_filter_def prod.case_eq_if Let_def split: if_splits)
  show "profile_on (nk_trace (nss_dp_set_slow_proto_filter f p True w)) m"
    if "unat m < 8" "bit (slowproto_acl_bm (nss_dp_set_slow_proto_filter f p True w)) (unat m)" for m
    using that slow_proto_okD(2) [OF assms(1), of m] assms(2) slow_proto_profile_inj [of m "macid p"]
    by (cases "slowproto_acl_bm w = 0")
       (auto simp: nss_dp_set_slow_proto_filter_def prod.case_eq_if Let_def bitmap_bits split: if_splits)
qed

lemma slow_proto_disable_ok:
  assumes "slow_proto_ok w" "unat (macid p) < 8"
  shows "slow_proto_ok (nss_dp_set_slow_proto_filter f p False w)"
proof (rule slow_proto_okI)
  show "ethtype_on (nk_trace (nss_dp_set_slow_proto_filter f p False w))"
    if "slowproto_acl_bm (nss_dp_set_slow_proto_filter f p False w) \<noteq> 0"
    using that slow_proto_okD(1) [OF assms(1)]
    by (cases "slowproto_acl_bm w = 0")
       (auto simp: nss_dp_set_slow_proto_filter_def prod.case_eq_if Let_def split: if_splits)
  show "profile_on (nk_trace (nss_dp_set_slow_proto_filter f p False w)) m"
    if "unat m < 8" "bit (slowproto_acl_bm (nss_dp_set_slow_proto_filter f p False w)) (unat m)" for m
    using that slow_proto_okD(2) [OF assms(1), of m] assms(2) slow_proto_profile_inj [of m "macid p"]
    by (cases "slowproto_acl_bm w = 0")
       (auto simp: nss_dp_set_slow_proto_filter_def prod.case_eq_if Let_def bitmap_bits split: if_splits)
qed

lemma slow_proto_filter_ok:
  assumes "slow_proto_ok w" "unat (macid p) < 8"
  shows "slow_proto_ok (nss_dp_set_slow_proto_filter f p en w)"
  using slow_proto_enable_ok [OF assms] slow_proto_disable_ok [OF assms] by (cases en) simp_all

lemma slow_proto_stp_call_ok:
  assumes "slow_proto_ok w"
  shows "slow_proto_ok (snd (fal f (Stp_port_state_set i s) w))"
  using assms by (simp add: slow_proto_ok_def)

lemma nss_dp_stp_state_set_ok:
  assumes "slow_proto_ok w" "unat (macid p) < 8"
  shows "slow_proto_ok (snd (nss_dp_stp_state_set f p s w))"
  using assms
  by (simp add: nss_dp_stp_state_set_def prod.case_eq_if Let_def slow_proto_filter_ok slow_proto_stp_call_ok
           split: option.splits)

section \<open>Properties\<close>

lemma slow_proto_ok_priv [simp]: "slow_proto_ok (upd_priv n g w) = slow_proto_ok w"
  by (simp add: slow_proto_ok_def)

text \<open>
  C11. The record of the slow protocol filter is sound whatever the switch answers: after every notification of the
  bridge on a port, a port in the bitmap has its profile in the switch, and while some port is in it the switch traps
  the slow protocol ethertype. The notifier returns on every attribute and both phases.
\<close>

theorem slow_proto_invariant:
  assumes "slow_proto_ok w" "netdevs w n = Some d" "privs w n = Some p" "unat (macid p) < 8"
  shows "\<exists>info' w'. nss_dp_switchdev_event f attr_set n info w = Inr (info', w') \<and> slow_proto_ok w'
    \<and> (pi_handled info' = (pi_handled info \<or> nss_dp_is_phy_dev d \<and> attr_set))"
  using assms nss_dp_stp_state_set_ok [OF assms(1,4)]
  by (cases "pi_attr info")
     (auto simp: nss_dp_switchdev_event_def nss_dp_switchdev_port_attr_set_event_def nss_dp_port_attr_set_def run_simps split_beta)

definition demo_bridge_port :: "unit nss_dp_dev" where
  "demo_bridge_port = \<lparr>macid = 3, vsi = 0, dp_flags = 0, drv_flags = 0, phydev = None, miibus = None, phy_mii_type = 0,
     phy_mdio_addr = 0, link_poll = False, forced_speed = 0, forced_duplex = 0, link_state = NSS_DP_LINK_DOWN,
     pause = 0, dp_netdev = 0, dpc = None, data_plane_ops = None, gmac_hal_ctx = None, gmac_hal_ops = None,
     stp_state = 0, brport_flags = 0\<rparr>"

definition demo_bridge_dev :: net_device where
  "demo_bridge_dev = \<lparr>nd_mtu = 1500, nd_max_mtu = 65535, nd_addr = Eth 0 0 0 0 0 0, nd_base_addr = 0, nd_irq = 0,
     nd_features = 0, nd_hw_features = 0, nd_vlan_features = 0, nd_wanted_features = 0, nd_carrier = True,
     nd_queue = False, nd_dp_ops = True, nd_ethtool = False, nd_registered = True\<rparr>"

definition demo_bridge :: "(unit, unit) dp_world" where
  "demo_bridge = \<lparr>netdevs = [0 \<mapsto> demo_bridge_dev], privs = [0 \<mapsto> demo_bridge_port], nd_allocs = 1,
     nss_dp = [None, None, Some 0], gmac_ops = [None, None, None], common_init_done = True, slowproto_acl_bm = 0,
     dp_ctx = [None, None, Some 0], switch_init_done = True, nk_trace = [], dp = ()\<rparr>"

text \<open>A port that is disabled: the switch takes the profile and the ethertype, and the bit of the port is set.\<close>

theorem slow_proto_invariant_witness:
  "\<exists>info w. nss_dp_switchdev_event (\<lambda>_ _. True) True 0 \<lparr>pi_attr = Attr_stp_state BR_STATE_DISABLED, pi_prepare = False, pi_handled = False\<rparr>
     demo_bridge = Inr (info, w) \<and> slow_proto_ok w \<and> pi_handled info \<and> slowproto_acl_bm w = 8"
proof -
  let ?i = "\<lparr>pi_attr = Attr_stp_state BR_STATE_DISABLED, pi_prepare = False, pi_handled = False\<rparr>"
  have ok: "slow_proto_ok demo_bridge" "netdevs demo_bridge 0 = Some demo_bridge_dev"
      "privs demo_bridge 0 = Some demo_bridge_port" "unat (macid demo_bridge_port) < 8"
    by (simp_all add: slow_proto_ok_def demo_bridge_def demo_bridge_port_def)
  have phy: "nss_dp_is_phy_dev demo_bridge_dev" by (simp add: nss_dp_is_phy_dev_def demo_bridge_dev_def)
  obtain info w where r: "nss_dp_switchdev_event (\<lambda>_ _. True) True 0 ?i demo_bridge = Inr (info, w)" "slow_proto_ok w" "pi_handled info"
    using slow_proto_invariant [OF ok, of "\<lambda>_ _. True" True ?i] phy by auto
  moreover have "map_sum id (\<lambda>(_, w). slowproto_acl_bm w) (nss_dp_switchdev_event (\<lambda>_ _. True) True 0 ?i demo_bridge) = Inr 8"
    by code_simp
  ultimately show ?thesis by auto
qed

end
