(* ===== verification/Dp_Ethtools.thy ===== *)
theory Dp_Ethtools
  imports Dp_Dev
begin

text \<open>
  The ethtool operations (\<open>nss_dp_ethtools.c\<close>): statistics and strings of the MAC, flow control, and the
  translation of energy efficient Ethernet link modes between the switch driver and ethtool. The mode constants of
  the switch driver and of the kernel are parameters, collected in \<open>eee_modes\<close>. The operations of kernels before
  4.5 carry the suffix \<open>_old\<close>.
\<close>

section \<open>Statistics and strings\<close>

definition nss_dp_get_ethtool_stats ::
  "('h, 's, 'k) dp_env \<Rightarrow> nat \<Rightarrow> u64 list \<Rightarrow> ('h, 's) dp_world \<Rightarrow> (u64 list \<times> ('h, 's) dp_world) result" where
  "nss_dp_get_ethtool_stats e netdev data w = with_priv w netdev (\<lambda>dp_priv.
     call_hal e dp_priv (\<lambda>h.
     bindR (ho_getethtoolstats h (stats_of e dp_priv w) (gmac_hal_ctx dp_priv) data) (\<lambda>(_, ctx, data).
     Inr (data, upd_priv netdev (\<lambda>p. p\<lparr>gmac_hal_ctx := ctx\<rparr>) w))))"

definition nss_dp_get_strset_count ::
  "('h, 's, 'k) dp_env \<Rightarrow> nat \<Rightarrow> eth_ss \<Rightarrow> ('h, 's) dp_world \<Rightarrow> (errno + nat) result" where
  "nss_dp_get_strset_count e netdev sset w = with_priv w netdev (\<lambda>dp_priv.
     call_hal e dp_priv (\<lambda>h. ho_getssetcount h (gmac_hal_ctx dp_priv) sset))"

definition nss_dp_get_strings ::
  "('h, 's, 'k) dp_env \<Rightarrow> nat \<Rightarrow> eth_ss \<Rightarrow> string \<Rightarrow> ('h, 's) dp_world \<Rightarrow> string result" where
  "nss_dp_get_strings e netdev stringset data w = with_priv w netdev (\<lambda>dp_priv.
     call_hal e dp_priv (\<lambda>h.
     bindR (ho_getstrings h (gmac_hal_ctx dp_priv) stringset data) (\<lambda>(_, data). Inr data)))"

text \<open>\<open>gset\<close> and \<open>sset\<close>: the answers of \<open>phy_ethtool_gset\<close> and \<open>phy_ethtool_sset\<close>.\<close>

definition nss_dp_get_settings :: "status \<Rightarrow> nat \<Rightarrow> ('h, 's) dp_world \<Rightarrow> status result" where
  "nss_dp_get_settings gset netdev w = with_priv w netdev (\<lambda>dp_priv.
     if phydev dp_priv \<noteq> None then Inr gset else Inr (Errno EIO))"

definition nss_dp_set_settings :: "status \<Rightarrow> nat \<Rightarrow> ('h, 's) dp_world \<Rightarrow> status result" where
  "nss_dp_set_settings sset netdev w = with_priv w netdev (\<lambda>dp_priv.
     if phydev dp_priv = None then Inr (Errno EIO) else Inr sset)"

section \<open>Flow control\<close>

abbreviation (input) FLOW_CTRL_TX :: u32 where "FLOW_CTRL_TX \<equiv> 1"
abbreviation (input) FLOW_CTRL_RX :: u32 where "FLOW_CTRL_RX \<equiv> 2"
abbreviation (input) AUTONEG_ENABLE :: u32 where "AUTONEG_ENABLE \<equiv> 1"
abbreviation (input) ETHTOOL_LINK_MODE_Pause_BIT :: nat where "ETHTOOL_LINK_MODE_Pause_BIT \<equiv> 13"
abbreviation (input) ETHTOOL_LINK_MODE_Asym_Pause_BIT :: nat where "ETHTOOL_LINK_MODE_Asym_Pause_BIT \<equiv> 14"
abbreviation (input) ADVERTISED_Pause :: u32 where "ADVERTISED_Pause \<equiv> 0x2000"
abbreviation (input) ADVERTISED_Asym_Pause :: u32 where "ADVERTISED_Asym_Pause \<equiv> 0x4000"

record ethtool_pauseparam =
  rx_pause :: u32
  tx_pause :: u32
  pp_autoneg :: u32

definition nss_dp_get_pauseparam ::
  "nat \<Rightarrow> ethtool_pauseparam \<Rightarrow> ('h, 's) dp_world \<Rightarrow> ethtool_pauseparam result" where
  "nss_dp_get_pauseparam netdev pp w = with_priv w netdev (\<lambda>dp_priv.
     Inr (pp\<lparr>rx_pause := (if pause dp_priv AND FLOW_CTRL_RX \<noteq> 0 then 1 else 0),
             tx_pause := (if pause dp_priv AND FLOW_CTRL_TX \<noteq> 0 then 1 else 0),
             pp_autoneg := AUTONEG_ENABLE\<rparr>))"

definition flow_ctrl_of :: "ethtool_pauseparam \<Rightarrow> u32" where
  "flow_ctrl_of pp =
     (let v = 0; v = (if rx_pause pp \<noteq> 0 then v OR FLOW_CTRL_RX else v)
      in if tx_pause pp \<noteq> 0 then v OR FLOW_CTRL_TX else v)"

definition nss_dp_set_pauseparam_old ::
  "nat \<Rightarrow> ethtool_pauseparam \<Rightarrow> ('h, 's) dp_world \<Rightarrow> (status \<times> ('h, 's) dp_world) result" where
  "nss_dp_set_pauseparam_old netdev pp w = with_priv w netdev (\<lambda>dp_priv.
     let w = upd_priv netdev (\<lambda>p. p\<lparr>pause := flow_ctrl_of pp\<rparr>) w
     in case phydev dp_priv of
          None \<Rightarrow> Inr (Success, w)
        | Some y \<Rightarrow>
           (let a = phy_advertising32 y AND NOT (ADVERTISED_Pause OR ADVERTISED_Asym_Pause);
                a = (if rx_pause pp \<noteq> 0 then a OR (ADVERTISED_Pause OR ADVERTISED_Asym_Pause) else a);
                a = (if tx_pause pp \<noteq> 0 then a OR ADVERTISED_Asym_Pause else a);
                w = upd_priv netdev (\<lambda>p. p\<lparr>phydev := Some (y\<lparr>phy_advertising32 := a\<rparr>)\<rparr>) w
            in Inr (Success, nkcalls [Nk_config_aneg netdev] w)))"

definition nss_dp_set_pauseparam ::
  "nat \<Rightarrow> ethtool_pauseparam \<Rightarrow> ('h, 's) dp_world \<Rightarrow> (status \<times> ('h, 's) dp_world) result" where
  "nss_dp_set_pauseparam netdev pp w = with_priv w netdev (\<lambda>dp_priv.
     let w = upd_priv netdev (\<lambda>p. p\<lparr>pause := flow_ctrl_of pp\<rparr>) w
     in case phydev dp_priv of
          None \<Rightarrow> Inr (Success, w)
        | Some y \<Rightarrow>
           (let a = phy_advertising y;
                a = a - {ETHTOOL_LINK_MODE_Pause_BIT};
                a = a - {ETHTOOL_LINK_MODE_Asym_Pause_BIT};
                a = (if rx_pause pp \<noteq> 0
                     then insert ETHTOOL_LINK_MODE_Asym_Pause_BIT (insert ETHTOOL_LINK_MODE_Pause_BIT a) else a);
                a = (if tx_pause pp \<noteq> 0 then insert ETHTOOL_LINK_MODE_Asym_Pause_BIT a else a);
                w = upd_priv netdev (\<lambda>p. p\<lparr>phydev := Some (y\<lparr>phy_advertising := a\<rparr>)\<rparr>) w
            in Inr (Success, nkcalls [Nk_config_aneg netdev] w)))"

section \<open>Energy efficient Ethernet\<close>

record eee_modes =
  FAL_PHY_EEE_10BASE_T :: u32
  FAL_PHY_EEE_100BASE_T :: u32
  FAL_PHY_EEE_1000BASE_T :: u32
  FAL_PHY_EEE_2500BASE_T :: u32
  FAL_PHY_EEE_5000BASE_T :: u32
  FAL_PHY_EEE_10000BASE_T :: u32
  SUPPORTED_10baseT_Full :: u32
  SUPPORTED_100baseT_Full :: u32
  SUPPORTED_1000baseT_Full :: u32
  SUPPORTED_2500baseX_Full :: u32
  SUPPORTED_10000baseT_Full :: u32
  ADVERTISED_10baseT_Full :: u32
  ADVERTISED_100baseT_Full :: u32
  ADVERTISED_1000baseT_Full :: u32
  ADVERTISED_2500baseX_Full :: u32
  ADVERTISED_10000baseT_Full :: u32

text \<open>\<open>ffs\<close>: the number of the lowest bit set, counted from 1, and 0 for 0.\<close>

definition ffs :: "u32 \<Rightarrow> nat" where
  "ffs x = (case filter (bit x) [0..<32] of [] \<Rightarrow> 0 | i # _ \<Rightarrow> i + 1)"

definition low_bit :: "u32 \<Rightarrow> u32" where
  "low_bit x = push_bit (ffs x - 1) 1"

lemma ffs_bit:
  assumes "x \<noteq> 0"
  shows "bit x (ffs x - 1)" "ffs x - 1 < 32"
proof -
  obtain n where n: "bit x n" using assms by (metis bit_word_eqI bit_0_eq bot_apply bot_bool_def)
  then have "n < 32" using bit_imp_le_length by fastforce
  then have "filter (bit x) [0..<32] \<noteq> []" using n by (auto simp: filter_empty_conv)
  then obtain i rest where i: "filter (bit x) [0..<32] = i # rest" by (meson neq_Nil_conv)
  have "bit x i \<and> i < 32" using arg_cong [OF i, of set] by (auto simp: set_eq_iff)
  with i show "bit x (ffs x - 1)" "ffs x - 1 < 32" by (simp_all add: ffs_def)
qed

lemma bit_low_bit: "x \<noteq> 0 \<Longrightarrow> bit (low_bit x) n \<longleftrightarrow> n = ffs x - 1"
  using ffs_bit(2) [of x] by (auto simp: low_bit_def bit_simps)

lemma clear_low_bit_less [termination_simp]:
  assumes "x \<noteq> 0"
  shows "unat (x AND NOT (low_bit x)) < unat x"
proof -
  have "\<not> bit (x AND NOT (low_bit x)) (ffs x - 1)" using assms by (simp add: bit_simps bit_low_bit)
  then have "x AND NOT (low_bit x) \<noteq> x" using ffs_bit(1) [OF assms] by metis
  moreover have "x AND NOT (low_bit x) \<le> x" by (rule word_and_le2)
  ultimately show ?thesis by (simp add: word_less_nat_alt [symmetric])
qed

text \<open>One turn of the translation: the \<open>switch\<close> on the lowest bit.\<close>

definition fal_to_ethtool_mode :: "eee_modes \<Rightarrow> u32 \<Rightarrow> u32 \<Rightarrow> u32" where
  "fal_to_ethtool_mode m b xlate_to =
     (if b = FAL_PHY_EEE_10BASE_T m then xlate_to OR SUPPORTED_10baseT_Full m
      else if b = FAL_PHY_EEE_100BASE_T m then xlate_to OR SUPPORTED_100baseT_Full m
      else if b = FAL_PHY_EEE_1000BASE_T m then xlate_to OR SUPPORTED_1000baseT_Full m
      else if b = FAL_PHY_EEE_2500BASE_T m then xlate_to OR SUPPORTED_2500baseX_Full m
      else if b = FAL_PHY_EEE_5000BASE_T m then xlate_to
      else if b = FAL_PHY_EEE_10000BASE_T m then xlate_to OR SUPPORTED_10000baseT_Full m
      else xlate_to)"

function nss_dp_fal_to_ethtool_linkmode_xlate :: "eee_modes \<Rightarrow> u32 \<Rightarrow> u32 \<Rightarrow> u32 \<times> u32" where
  "nss_dp_fal_to_ethtool_linkmode_xlate m xlate_to xlate_from =
     (if xlate_from = 0 then (xlate_to, 0)
      else
        nss_dp_fal_to_ethtool_linkmode_xlate m (fal_to_ethtool_mode m (low_bit xlate_from) xlate_to)
          (xlate_from AND NOT (low_bit xlate_from)))"
  by auto
termination
  by (relation "measure (\<lambda>(m, _, x). unat x)") (auto simp: clear_low_bit_less)

declare nss_dp_fal_to_ethtool_linkmode_xlate.simps [simp del]

record ethtool_eee =
  supported :: u32
  advertised :: u32
  lp_advertised :: u32
  eee_enabled :: u32
  eee_active :: u32
  tx_lpi_enabled :: u32
  tx_lpi_timer :: u32

record fal_port_eee_cfg =
  fe_enable :: u32
  fe_capability :: u32
  fe_advertisement :: u32
  fe_link_partner_advertisement :: u32
  fe_eee_status :: u32
  fe_lpi_tx_enable :: u32
  fe_lpi_sleep_timer :: u32

definition zero_eee_cfg :: fal_port_eee_cfg where
  "zero_eee_cfg = \<lparr>fe_enable = 0, fe_capability = 0, fe_advertisement = 0, fe_link_partner_advertisement = 0,
     fe_eee_status = 0, fe_lpi_tx_enable = 0, fe_lpi_sleep_timer = 0\<rparr>"

text \<open>\<open>get\<close> is \<open>fal_port_interface_eee_cfg_get\<close> on a port: its configuration, or a failure.\<close>

definition nss_dp_get_eee ::
  "eee_modes \<Rightarrow> (u32 \<Rightarrow> fal_port_eee_cfg option) \<Rightarrow> nat \<Rightarrow> ethtool_eee \<Rightarrow> ('h, 's) dp_world \<Rightarrow> (status \<times> ethtool_eee) result" where
  "nss_dp_get_eee m get netdev eee w = with_priv w netdev (\<lambda>dp_priv.
     case get (macid dp_priv) of
       None \<Rightarrow> Inr (Errno EIO, eee)
     | Some cfg \<Rightarrow>
         Inr (Success, eee\<lparr>
           supported := fst (nss_dp_fal_to_ethtool_linkmode_xlate m (supported eee) (fe_capability cfg)),
           advertised := fst (nss_dp_fal_to_ethtool_linkmode_xlate m (advertised eee) (fe_advertisement cfg)),
           lp_advertised := fst (nss_dp_fal_to_ethtool_linkmode_xlate m (lp_advertised eee) (fe_link_partner_advertisement cfg)),
           eee_enabled := fe_enable cfg, eee_active := fe_eee_status cfg,
           tx_lpi_enabled := fe_lpi_tx_enable cfg, tx_lpi_timer := fe_lpi_sleep_timer cfg\<rparr>))"

text \<open>One turn of the loop over the advertised modes: the mode for the switch, when the port is capable of it.\<close>

definition ethtool_to_fal_mode :: "eee_modes \<Rightarrow> u32 \<Rightarrow> u32 \<Rightarrow> u32 option" where
  "ethtool_to_fal_mode m cap b =
     (let f = (if b = ADVERTISED_10baseT_Full m then Some (FAL_PHY_EEE_10BASE_T m)
               else if b = ADVERTISED_100baseT_Full m then Some (FAL_PHY_EEE_100BASE_T m)
               else if b = ADVERTISED_1000baseT_Full m then Some (FAL_PHY_EEE_1000BASE_T m)
               else if b = ADVERTISED_2500baseX_Full m then Some (FAL_PHY_EEE_2500BASE_T m)
               else if b = ADVERTISED_10000baseT_Full m then Some (FAL_PHY_EEE_10000BASE_T m)
               else None)
      in case f of None \<Rightarrow> None | Some v \<Rightarrow> if cap AND v \<noteq> 0 then Some v else None)"

text \<open>The advertised modes that are left when the loop ends, and the modes collected, or \<open>None\<close> for \<open>-EIO\<close>.\<close>

function eee_advertise_loop :: "eee_modes \<Rightarrow> u32 \<Rightarrow> u32 \<Rightarrow> u32 \<Rightarrow> u32 \<times> u32 option" where
  "eee_advertise_loop m cap adv acc =
     (if adv = 0 then (0, Some acc)
      else
       (case ethtool_to_fal_mode m cap (low_bit adv) of
          None \<Rightarrow> (adv, None)
        | Some v \<Rightarrow> eee_advertise_loop m cap (adv AND NOT (low_bit adv)) (acc OR v)))"
  by auto
termination
  by (relation "measure (\<lambda>(m, _, x, _). unat x)") (auto simp: clear_low_bit_less)

declare eee_advertise_loop.simps [simp del]

text \<open>
  \<open>put\<close> is \<open>fal_port_interface_eee_cfg_set\<close>: whether it succeeds. The result comes with what is left in the
  caller's structure and the configuration handed to the switch, if any.
\<close>

definition nss_dp_set_eee ::
  "eee_modes \<Rightarrow> (u32 \<Rightarrow> fal_port_eee_cfg option) \<Rightarrow> (u32 \<Rightarrow> fal_port_eee_cfg \<Rightarrow> bool) \<Rightarrow> nat \<Rightarrow> ethtool_eee
     \<Rightarrow> ('h, 's) dp_world \<Rightarrow> (status \<times> ethtool_eee \<times> fal_port_eee_cfg option) result" where
  "nss_dp_set_eee m get put netdev eee w = with_priv w netdev (\<lambda>dp_priv.
     case get (macid dp_priv) of
       None \<Rightarrow> Inr (Errno EIO, eee, None)
     | Some cur \<Rightarrow>
         (case eee_advertise_loop m (fe_capability cur) (advertised eee) 0 of
            (left, None) \<Rightarrow> Inr (Errno EIO, eee\<lparr>advertised := left\<rparr>, None)
          | (left, Some adv) \<Rightarrow>
             (let cfg = zero_eee_cfg\<lparr>fe_enable := eee_enabled eee, fe_advertisement := adv,
                          fe_lpi_tx_enable := tx_lpi_enabled eee, fe_lpi_sleep_timer := tx_lpi_timer eee\<rparr>
              in if put (macid dp_priv) cfg then Inr (Success, eee\<lparr>advertised := left\<rparr>, Some cfg)
                 else Inr (Errno EIO, eee\<lparr>advertised := left\<rparr>, Some cfg))))"

definition nss_dp_set_ethtool_ops :: "nat \<Rightarrow> ('h, 's) dp_world \<Rightarrow> ('h, 's) dp_world" where
  "nss_dp_set_ethtool_ops netdev w = upd_dev netdev (\<lambda>d. d\<lparr>nd_ethtool := True\<rparr>) w"

section \<open>What the translations compute\<close>

text \<open>
  What the headers of the switch driver and of the kernel document: every mode constant is a single bit, those of
  one family are different, and the kernel numbers advertised and supported modes alike.
\<close>

definition single_bit :: "u32 \<Rightarrow> bool" where
  "single_bit x \<longleftrightarrow> x \<in> set (map (\<lambda>i. push_bit i 1) [0..<32])"

definition fal_modes :: "eee_modes \<Rightarrow> u32 list" where
  "fal_modes m = [FAL_PHY_EEE_10BASE_T m, FAL_PHY_EEE_100BASE_T m, FAL_PHY_EEE_1000BASE_T m,
     FAL_PHY_EEE_2500BASE_T m, FAL_PHY_EEE_10000BASE_T m]"

definition eth_modes :: "eee_modes \<Rightarrow> u32 list" where
  "eth_modes m = [SUPPORTED_10baseT_Full m, SUPPORTED_100baseT_Full m, SUPPORTED_1000baseT_Full m,
     SUPPORTED_2500baseX_Full m, SUPPORTED_10000baseT_Full m]"

definition eee_ok :: "eee_modes \<Rightarrow> bool" where
  "eee_ok m \<longleftrightarrow> list_all single_bit (FAL_PHY_EEE_5000BASE_T m # fal_modes m @ eth_modes m)
     \<and> distinct (FAL_PHY_EEE_5000BASE_T m # fal_modes m) \<and> distinct (eth_modes m)
     \<and> eth_modes m = [ADVERTISED_10baseT_Full m, ADVERTISED_100baseT_Full m, ADVERTISED_1000baseT_Full m,
          ADVERTISED_2500baseX_Full m, ADVERTISED_10000baseT_Full m]"

text \<open>The set of modes a word names, and the word of a set of modes of another family.\<close>

fun modes_or :: "(u32 \<times> u32) list \<Rightarrow> u32 \<Rightarrow> u32" where
  "modes_or [] x = 0"
| "modes_or ((a, b) # ps) x = (if x AND a \<noteq> 0 then b else 0) OR modes_or ps x"

lemma single_bitE:
  assumes "single_bit x"
  obtains i where "i < 32" "x = 2 ^ i"
  using assms by (auto simp: single_bit_def)

lemma and_single: "(x AND 2 ^ i \<noteq> 0) = bit (x :: u32) i"
  using and_exp_eq_0_iff_not_bit [of x i] by blast

lemma low_bit_exp: "low_bit x = 2 ^ (ffs x - 1)"
  by (simp add: low_bit_def)

lemma exp_eq: "i < 32 \<Longrightarrow> j < 32 \<Longrightarrow> (2 :: u32) ^ i = 2 ^ j \<longleftrightarrow> i = j"
  by (auto simp: bit_eq_iff bit_simps)

text \<open>Taking the lowest bit off a word takes exactly one mode off the set it names.\<close>

lemma and_step:
  assumes "x \<noteq> 0" "single_bit a"
  shows "(x AND a \<noteq> 0) \<longleftrightarrow> low_bit x = a \<or> (x AND NOT (low_bit x)) AND a \<noteq> 0"
proof -
  obtain i where i: "i < 32" "a = 2 ^ i" using assms(2) by (rule single_bitE)
  have "bit x i \<longleftrightarrow> i = ffs x - 1 \<or> bit (x AND NOT (low_bit x)) i"
    using ffs_bit [OF assms(1)] i(1) by (auto simp: bit_simps bit_low_bit [OF assms(1)])
  moreover have "low_bit x = a \<longleftrightarrow> i = ffs x - 1"
    using ffs_bit(2) [OF assms(1)] i by (auto simp: low_bit_exp exp_eq)
  ultimately show ?thesis unfolding i(2) and_single by simp
qed

text \<open>The translation of the switch's modes is the word of the modes it names; the argument is used up.\<close>

definition fal_to_eth :: "eee_modes \<Rightarrow> u32 \<Rightarrow> u32" where
  "fal_to_eth m = modes_or (zip (fal_modes m) (eth_modes m))"

definition eth_to_fal :: "eee_modes \<Rightarrow> u32 \<Rightarrow> u32" where
  "eth_to_fal m = modes_or (zip (eth_modes m) (fal_modes m))"

lemma modes_or_step:
  assumes "x \<noteq> 0" "list_all single_bit (map fst ps)" "distinct (map fst ps)"
  shows "modes_or ps x = (case map_of ps (low_bit x) of None \<Rightarrow> 0 | Some b \<Rightarrow> b) OR modes_or ps (x AND NOT (low_bit x))"
  using assms(2,3)
proof (induction ps)
  case (Cons p ps)
  obtain a b where p: "p = (a, b)" by (cases p)
  have a: "(x AND a \<noteq> 0) \<longleftrightarrow> low_bit x = a \<or> (x AND NOT (low_bit x)) AND a \<noteq> 0"
    using Cons.prems by (intro and_step assms(1)) (simp add: p)
  have none: "map_of ps a = None" using Cons.prems by (simp add: p map_of_eq_None_iff)
  have ih: "modes_or ps x = (case map_of ps (low_bit x) of None \<Rightarrow> 0 | Some b \<Rightarrow> b) OR modes_or ps (x AND NOT (low_bit x))"
    using Cons.IH Cons.prems by simp
  show ?case
  proof (cases "low_bit x = a")
    case True
    then show ?thesis using a none ih
      by (cases "(x AND NOT (low_bit x)) AND a = 0") (simp_all add: p or.assoc [symmetric])
  next
    case False
    then show ?thesis using a ih
      by (cases "(x AND NOT (low_bit x)) AND a = 0") (simp_all add: p or.left_commute)
  qed
qed simp

lemma fal_to_ethtool_mode_eq:
  assumes "eee_ok m"
  shows "fal_to_ethtool_mode m b y = y OR (case map_of (zip (fal_modes m) (eth_modes m)) b of None \<Rightarrow> 0 | Some s \<Rightarrow> s)"
  using assms by (auto simp: fal_to_ethtool_mode_def eee_ok_def fal_modes_def eth_modes_def)

lemma ethtool_to_fal_mode_eq:
  assumes "eee_ok m"
  shows "ethtool_to_fal_mode m cap b =
    (case map_of (zip (eth_modes m) (fal_modes m)) b of None \<Rightarrow> None | Some v \<Rightarrow> if cap AND v \<noteq> 0 then Some v else None)"
  using assms by (auto simp: ethtool_to_fal_mode_def eee_ok_def fal_modes_def eth_modes_def Let_def)

lemma eee_zip:
  assumes "eee_ok m"
  shows "list_all single_bit (map fst (zip (fal_modes m) (eth_modes m)))" "distinct (map fst (zip (fal_modes m) (eth_modes m)))"
    "list_all single_bit (map fst (zip (eth_modes m) (fal_modes m)))" "distinct (map fst (zip (eth_modes m) (fal_modes m)))"
  using assms by (auto simp: eee_ok_def fal_modes_def eth_modes_def)

lemma xlate_eq:
  assumes "eee_ok m"
  shows "nss_dp_fal_to_ethtool_linkmode_xlate m y x = (y OR fal_to_eth m x, 0)"
  using assms
proof (induction m y x rule: nss_dp_fal_to_ethtool_linkmode_xlate.induct)
  case (1 m y x)
  show ?case
  proof (cases "x = 0")
    case True
    then show ?thesis
      by (simp add: nss_dp_fal_to_ethtool_linkmode_xlate.simps fal_to_eth_def fal_modes_def eth_modes_def)
  next
    case False
    then show ?thesis
      using 1 modes_or_step [OF False eee_zip(1,2) [OF 1(2)]]
      by (simp add: nss_dp_fal_to_ethtool_linkmode_xlate.simps [of m y x] fal_to_ethtool_mode_eq fal_to_eth_def or.assoc)
  qed
qed

text \<open>The loop over the advertised modes collects their words when the port is capable of all of them.\<close>

definition eee_capable :: "eee_modes \<Rightarrow> u32 \<Rightarrow> u32 \<Rightarrow> bool" where
  "eee_capable m cap adv \<longleftrightarrow> (\<forall>i < 32. bit adv i \<longrightarrow>
     (case map_of (zip (eth_modes m) (fal_modes m)) (2 ^ i) of None \<Rightarrow> False | Some v \<Rightarrow> cap AND v \<noteq> 0))"

lemma eee_capable_step:
  assumes "x \<noteq> 0"
  shows "eee_capable m cap x \<longleftrightarrow>
    (case map_of (zip (eth_modes m) (fal_modes m)) (low_bit x) of None \<Rightarrow> False | Some v \<Rightarrow> cap AND v \<noteq> 0)
    \<and> eee_capable m cap (x AND NOT (low_bit x))"
proof -
  have "bit x i \<longleftrightarrow> i = ffs x - 1 \<or> bit (x AND NOT (low_bit x)) i" if "i < 32" for i
    using ffs_bit(1) [OF assms] that by (auto simp: bit_simps bit_low_bit [OF assms])
  then show ?thesis using ffs_bit(2) [OF assms] unfolding eee_capable_def low_bit_exp by blast
qed

lemma advertise_loop_eq:
  assumes "eee_ok m"
  shows "snd (eee_advertise_loop m cap adv acc) = (if eee_capable m cap adv then Some (acc OR eth_to_fal m adv) else None)"
  using assms
proof (induction m cap adv acc rule: eee_advertise_loop.induct)
  case (1 m cap adv acc)
  show ?case
  proof (cases "adv = 0")
    case True
    then show ?thesis
      by (simp add: eee_advertise_loop.simps eth_to_fal_def fal_modes_def eth_modes_def eee_capable_def)
  next
    case False
    then show ?thesis
      using 1 modes_or_step [OF False eee_zip(3,4) [OF 1(2)]] eee_capable_step [OF False, of m cap]
      by (simp add: eee_advertise_loop.simps [of m cap adv acc] ethtool_to_fal_mode_eq eth_to_fal_def or.assoc split: option.splits)
  qed
qed

text \<open>The two directions undo each other on words that name modes only.\<close>

lemma bit_modes_or: "bit (modes_or ps x) n \<longleftrightarrow> (\<exists>(a, b) \<in> set ps. x AND a \<noteq> 0 \<and> bit b n)"
  by (induction ps x rule: modes_or.induct) (auto simp: bit_simps)

lemma modes_or_single:
  assumes "length S = length F" "list_all single_bit F" "distinct F" "j < length F"
  shows "(modes_or (zip S F) x AND F ! j \<noteq> 0) \<longleftrightarrow> x AND S ! j \<noteq> 0"
proof -
  obtain f where f: "f < 32" "F ! j = 2 ^ f"
    using assms(2,4) by (auto simp: list_all_length elim: single_bitE)
  have one: "bit (F ! i) f \<longleftrightarrow> i = j" if i: "i < length F" for i
  proof -
    obtain g where g: "g < 32" "F ! i = 2 ^ g" using assms(2) i by (auto simp: list_all_length elim: single_bitE)
    have "F ! i = F ! j \<longleftrightarrow> i = j" using assms(3,4) i by (simp add: nth_eq_iff_index_eq)
    then show ?thesis using f g exp_eq [OF g(1) f(1)] by (auto simp: bit_simps)
  qed
  have "bit (modes_or (zip S F) x) f \<longleftrightarrow> (\<exists>i < length F. x AND S ! i \<noteq> 0 \<and> bit (F ! i) f)"
    using assms(1) by (auto simp: bit_modes_or set_zip)
  also have "\<dots> \<longleftrightarrow> x AND S ! j \<noteq> 0" using one assms(4) by auto
  finally show ?thesis by (simp add: f(2) and_exp_eq_0_iff_not_bit)
qed

lemma modes_or_inverse:
  assumes "length S = length F" "list_all single_bit F" "distinct F" "list_all single_bit S"
    "\<And>n. bit x n \<Longrightarrow> 2 ^ n \<in> set S"
  shows "modes_or (zip F S) (modes_or (zip S F) x) = x"
proof (rule bit_word_eqI)
  fix n :: nat
  have "bit (modes_or (zip F S) (modes_or (zip S F) x)) n
      \<longleftrightarrow> (\<exists>j < length F. modes_or (zip S F) x AND F ! j \<noteq> 0 \<and> bit (S ! j) n)"
    using assms(1) by (auto simp: bit_modes_or set_zip)
  also have "\<dots> \<longleftrightarrow> (\<exists>j < length F. x AND S ! j \<noteq> 0 \<and> bit (S ! j) n)"
    using modes_or_single [OF assms(1-3)] by blast
  also have "\<dots> \<longleftrightarrow> bit x n"
  proof
    assume "\<exists>j < length F. x AND S ! j \<noteq> 0 \<and> bit (S ! j) n"
    then obtain j where j: "j < length S" "x AND S ! j \<noteq> 0" "bit (S ! j) n" using assms(1) by auto
    then obtain i where "i < 32" "S ! j = 2 ^ i" using assms(4) by (auto simp: list_all_length elim: single_bitE)
    with j show "bit x n" by (auto simp: and_exp_eq_0_iff_not_bit bit_simps)
  next
    assume b: "bit x n"
    then have "2 ^ n \<in> set S" by (rule assms(5))
    then obtain j where "j < length S" "S ! j = 2 ^ n" by (auto simp: in_set_conv_nth)
    moreover have "n < 32" using b bit_imp_le_length by fastforce
    ultimately show "\<exists>j < length F. x AND S ! j \<noteq> 0 \<and> bit (S ! j) n"
      using b assms(1) by (auto simp: and_exp_eq_0_iff_not_bit bit_simps intro!: exI [of _ j])
  qed
  finally show "bit (modes_or (zip F S) (modes_or (zip S F) x)) n \<longleftrightarrow> bit x n" .
qed

lemma fal_eth_inverse:
  assumes "eee_ok m" "eee_capable m cap adv"
  shows "fal_to_eth m (eth_to_fal m adv) = adv"
proof -
  have "2 ^ n \<in> set (eth_modes m)" if b: "bit adv n" for n
  proof -
    have n: "n < 32" using b bit_imp_le_length by fastforce
    then obtain v where "map_of (zip (eth_modes m) (fal_modes m)) (2 ^ n) = Some v"
      using assms(2) b by (fastforce simp: eee_capable_def split: option.splits)
    then show ?thesis by (metis map_of_SomeD set_zip_leftD)
  qed
  then show ?thesis
    unfolding fal_to_eth_def eth_to_fal_def using assms(1)
    by (intro modes_or_inverse) (auto simp: eee_ok_def fal_modes_def eth_modes_def)
qed

section \<open>Properties\<close>

text \<open>
  C12. Energy efficient Ethernet settings survive the way to the switch and back: setting succeeds only if the port
  is capable of every mode advertised, and what the switch is then told reads back as exactly the modes, the enable
  flags and the timer that were asked for.
\<close>

theorem eee_roundtrip:
  assumes "eee_ok m" "nss_dp_set_eee m get put n eee w = Inr (Success, eee', Some cfg)" "advertised z = 0"
  shows "(\<exists>r. nss_dp_get_eee m (\<lambda>_. Some cfg) n z w = Inr (Success, r) \<and> advertised r = advertised eee
      \<and> eee_enabled r = eee_enabled eee \<and> tx_lpi_enabled r = tx_lpi_enabled eee \<and> tx_lpi_timer r = tx_lpi_timer eee)
    \<and> (\<exists>p cur. privs w n = Some p \<and> get (macid p) = Some cur \<and> eee_capable m (fe_capability cur) (advertised eee))"
proof -
  obtain p where p: "privs w n = Some p" using assms(2) by (auto simp: nss_dp_set_eee_def with_priv_def split: option.splits)
  obtain cur where cur: "get (macid p) = Some cur"
    using assms(2) p by (auto simp: nss_dp_set_eee_def run_simps split: option.splits)
  obtain rest adv where l: "eee_advertise_loop m (fe_capability cur) (advertised eee) 0 = (rest, Some adv)"
    and cfg: "cfg = zero_eee_cfg\<lparr>fe_enable := eee_enabled eee, fe_advertisement := adv,
                       fe_lpi_tx_enable := tx_lpi_enabled eee, fe_lpi_sleep_timer := tx_lpi_timer eee\<rparr>"
    using assms(2) p cur by (auto simp: nss_dp_set_eee_def run_simps Let_def split: option.splits prod.splits if_splits)
  have c: "eee_capable m (fe_capability cur) (advertised eee)" "adv = eth_to_fal m (advertised eee)"
    using advertise_loop_eq [OF assms(1), of "fe_capability cur" "advertised eee" 0] l by (auto split: if_splits)
  then have "fal_to_eth m adv = advertised eee" using fal_eth_inverse [OF assms(1)] by simp
  then show ?thesis
    using p cur c(1) assms(3) by (simp add: nss_dp_get_eee_def run_simps cfg xlate_eq [OF assms(1)])
qed

definition demo_modes :: eee_modes where
  "demo_modes = \<lparr>FAL_PHY_EEE_10BASE_T = 1, FAL_PHY_EEE_100BASE_T = 2, FAL_PHY_EEE_1000BASE_T = 4,
     FAL_PHY_EEE_2500BASE_T = 8, FAL_PHY_EEE_5000BASE_T = 16, FAL_PHY_EEE_10000BASE_T = 32,
     SUPPORTED_10baseT_Full = 2, SUPPORTED_100baseT_Full = 8, SUPPORTED_1000baseT_Full = 32,
     SUPPORTED_2500baseX_Full = 0x8000, SUPPORTED_10000baseT_Full = 0x1000,
     ADVERTISED_10baseT_Full = 2, ADVERTISED_100baseT_Full = 8, ADVERTISED_1000baseT_Full = 32,
     ADVERTISED_2500baseX_Full = 0x8000, ADVERTISED_10000baseT_Full = 0x1000\<rparr>"

definition demo_port :: "unit nss_dp_dev" where
  "demo_port = \<lparr>macid = 1, vsi = 0, dp_flags = 0, drv_flags = 0,
     phydev = Some \<lparr>phy_link = True, phy_advertising = {5}, phy_supported = {}, phy_advertising32 = 32, phy_supported32 = 0\<rparr>,
     miibus = None, phy_mii_type = 0,
     phy_mdio_addr = 0, link_poll = False, forced_speed = 0, forced_duplex = 0, link_state = NSS_DP_LINK_DOWN,
     pause = 0, dp_netdev = 0, dpc = None, data_plane_ops = None, gmac_hal_ctx = None, gmac_hal_ops = None,
     stp_state = 0, brport_flags = 0\<rparr>"

definition demo_world :: "(unit, unit) dp_world" where
  "demo_world = \<lparr>netdevs = (\<lambda>_. None), privs = (\<lambda>n. if n = 0 then Some demo_port else None), nd_allocs = 1,
     nss_dp = [Some 0], gmac_ops = [None, None, None], common_init_done = True, slowproto_acl_bm = 0,
     dp_ctx = [Some 0], switch_init_done = True, nk_trace = [], dp = ()\<rparr>"

definition demo_eee :: ethtool_eee where
  "demo_eee = \<lparr>supported = 0, advertised = 0x28, lp_advertised = 0, eee_enabled = 1, eee_active = 0,
     tx_lpi_enabled = 1, tx_lpi_timer = 30\<rparr>"

lemma single_bit_exp: "i < 32 \<Longrightarrow> single_bit (2 ^ i)"
  by (auto simp: single_bit_def)

lemma demo_modes_ok: "eee_ok demo_modes"
  using single_bit_exp [of 0] single_bit_exp [of 1] single_bit_exp [of 2] single_bit_exp [of 3] single_bit_exp [of 4]
    single_bit_exp [of 5] single_bit_exp [of 12] single_bit_exp [of 15]
  by (simp add: eee_ok_def fal_modes_def eth_modes_def demo_modes_def)

lemma demo_set_eee:
  "nss_dp_set_eee demo_modes (\<lambda>_. Some (zero_eee_cfg\<lparr>fe_capability := 0x3f\<rparr>)) (\<lambda>_ _. True) 0 demo_eee demo_world
   = Inr (Success, demo_eee\<lparr>advertised := 0\<rparr>,
       Some (zero_eee_cfg\<lparr>fe_enable := 1, fe_advertisement := 6, fe_lpi_tx_enable := 1, fe_lpi_sleep_timer := 30\<rparr>))"
  by code_simp

theorem eee_roundtrip_witness:
  "\<exists>r. nss_dp_get_eee demo_modes
      (\<lambda>_. Some (zero_eee_cfg\<lparr>fe_enable := 1, fe_advertisement := 6, fe_lpi_tx_enable := 1, fe_lpi_sleep_timer := 30\<rparr>))
      0 (demo_eee\<lparr>advertised := 0\<rparr>) demo_world = Inr (Success, r) \<and> advertised r = 0x28"
  using eee_roundtrip [OF demo_modes_ok demo_set_eee, of "demo_eee\<lparr>advertised := 0\<rparr>"] by (auto simp: demo_eee_def)

lemma bit_exp_u32: "i < 32 \<Longrightarrow> bit (2 ^ i :: u32) j \<longleftrightarrow> j = i"
  by (auto simp: bit_simps)

lemma pause_word_bits:
  "bit ((a :: u32) AND - 24577) i \<longleftrightarrow> bit a i \<and> i \<noteq> 13 \<and> i \<noteq> 14"
  "bit (a OR 24576) i \<longleftrightarrow> bit a i \<or> i = 13 \<or> i = 14" "bit (a OR 16384) i \<longleftrightarrow> bit a i \<or> i = 14"
proof -
  have m: "(24576 :: u32) = 8192 OR 16384" "(- 24577 :: u32) = NOT (8192 OR 16384)" by simp_all
  have e: "bit (8192 :: u32) i \<longleftrightarrow> i = 13" "bit (16384 :: u32) i \<longleftrightarrow> i = 14"
    using bit_exp_u32 [of 13 i] bit_exp_u32 [of 14 i] by simp_all
  have i: "bit a i \<Longrightarrow> i < 32" using bit_imp_le_length by fastforce
  show "bit (a AND - 24577) i \<longleftrightarrow> bit a i \<and> i \<noteq> 13 \<and> i \<noteq> 14"
    unfolding m(2) bit_and_iff bit_not_iff bit_or_iff e using i by auto
  show "bit (a OR 24576) i \<longleftrightarrow> bit a i \<or> i = 13 \<or> i = 14" unfolding m(1) bit_or_iff e by auto
  show "bit (a OR 16384) i \<longleftrightarrow> bit a i \<or> i = 14" unfolding bit_or_iff e by auto
qed

text \<open>
  C32. Flow control, for both kernel interfaces: starting from the same link modes, the operation for old kernels (on
  a 32-bit word) and the one for new kernels (on a bitmap) advertise the same modes, store the same settings and
  restart negotiation alike; and the settings read back as they were set.
\<close>

theorem pauseparam_versions_agree:
  assumes "privs w n = Some p"
    "\<And>y. phydev p = Some y \<Longrightarrow> phy_advertising y \<inter> {..<32} = {i. bit (phy_advertising32 y) i}"
  shows "\<exists>w1 w2 p1 p2. nss_dp_set_pauseparam n pp w = Inr (Success, w1)
      \<and> nss_dp_set_pauseparam_old n pp w = Inr (Success, w2)
      \<and> privs w1 n = Some p1 \<and> privs w2 n = Some p2 \<and> pause p1 = pause p2 \<and> nk_trace w1 = nk_trace w2
      \<and> (\<forall>i < 32. (\<exists>y1. phydev p1 = Some y1 \<and> i \<in> phy_advertising y1)
             = (\<exists>y2. phydev p2 = Some y2 \<and> bit (phy_advertising32 y2) i))
      \<and> nss_dp_get_pauseparam n pp w1 = Inr (pp\<lparr>rx_pause := (if rx_pause pp \<noteq> 0 then 1 else 0),
            tx_pause := (if tx_pause pp \<noteq> 0 then 1 else 0), pp_autoneg := AUTONEG_ENABLE\<rparr>)"
proof (cases "phydev p")
  case None
  then show ?thesis
    using assms(1) by (simp add: nss_dp_set_pauseparam_def nss_dp_set_pauseparam_old_def run_simps
        nss_dp_get_pauseparam_def flow_ctrl_of_def)
next
  case (Some y)
  have y: "i \<in> phy_advertising y \<longleftrightarrow> bit (phy_advertising32 y) i" if "i < 32" for i
    using assms(2) [OF Some] that by (auto simp: set_eq_iff)
  show ?thesis
    using assms(1) Some y by (simp add: nss_dp_set_pauseparam_def nss_dp_set_pauseparam_old_def run_simps Let_def
        nss_dp_get_pauseparam_def flow_ctrl_of_def pause_word_bits) blast
qed

theorem pauseparam_versions_agree_witness:
  "\<exists>w1 w2. nss_dp_set_pauseparam 0 \<lparr>rx_pause = 1, tx_pause = 0, pp_autoneg = 1\<rparr> demo_world = Inr (Success, w1)
     \<and> nss_dp_set_pauseparam_old 0 \<lparr>rx_pause = 1, tx_pause = 0, pp_autoneg = 1\<rparr> demo_world = Inr (Success, w2)
     \<and> nk_trace w1 = nk_trace w2"
proof -
  have w: "privs demo_world 0 = Some demo_port" by (simp add: demo_world_def)
  have b: "bit (32 :: u32) i \<longleftrightarrow> i = 5" for i using bit_exp_u32 [of 5 i] by simp
  have y: "phy_advertising y \<inter> {..<32} = {i. bit (phy_advertising32 y) i}" if "phydev demo_port = Some y" for y
  proof -
    have f: "phy_advertising y = {5}" "phy_advertising32 y = 32" using that by (auto simp: demo_port_def)
    show ?thesis unfolding f b by simp
  qed
  obtain w1 w2 where "nss_dp_set_pauseparam 0 \<lparr>rx_pause = 1, tx_pause = 0, pp_autoneg = 1\<rparr> demo_world = Inr (Success, w1)"
    "nss_dp_set_pauseparam_old 0 \<lparr>rx_pause = 1, tx_pause = 0, pp_autoneg = 1\<rparr> demo_world = Inr (Success, w2)"
    "nk_trace w1 = nk_trace w2"
    using pauseparam_versions_agree [OF w, of "\<lparr>rx_pause = 1, tx_pause = 0, pp_autoneg = 1\<rparr>"] y by metis
  then show ?thesis by blast
qed

end
