(* ===== verification/Dp_Main.thy ===== *)
theory Dp_Main
  imports Dp_Switchdev Dp_Ethtools
begin

text \<open>
  The net device driver (\<open>nss_dp_main.c\<close>): the net device operations, the link change callback, the probe and
  removal of ports, and the module entry points. Every call goes through the tables of the port, so that one model
  serves all SoCs and overlay drivers; the SoC's own functions are arguments where the code calls them by name.
\<close>

section \<open>Net device operations\<close>

text \<open>\<open>if (call) return code;\<close> followed by the rest.\<close>

definition must ::
  "(status \<times> 'w) result \<Rightarrow> status \<Rightarrow> ('w \<Rightarrow> (status \<times> 'w) result) \<Rightarrow> (status \<times> 'w) result" where
  "must m code rest = bindR m (\<lambda>(ret, w). if failed ret then Inr (code, w) else rest w)"

definition nss_dp_do_ioctl ::
  "('h, 's, 'k) dp_env \<Rightarrow> nat option \<Rightarrow> bool \<Rightarrow> int \<Rightarrow> ('h, 's) dp_world \<Rightarrow> status result" where
  "nss_dp_do_ioctl e netdev ifr cmd w =
     (case netdev of
        None \<Rightarrow> Inr (Errno EINVAL)
      | Some n \<Rightarrow>
          if \<not> ifr then Inr (Errno EINVAL)
          else with_priv w n (\<lambda>dp_priv.
            if phydev dp_priv \<noteq> None then Inr (de_mii_ioctl e n cmd) else Inr (Errno EINVAL)))"

definition nss_dp_change_mtu ::
  "('h, 's, 'k) dp_env \<Rightarrow> nat option \<Rightarrow> u32 \<Rightarrow> ('h, 's) dp_world \<Rightarrow> (status \<times> ('h, 's) dp_world) result" where
  "nss_dp_change_mtu e netdev newmtu w =
     (case netdev of
        None \<Rightarrow> Inr (Errno EINVAL, w)
      | Some n \<Rightarrow>
          must (with_priv w n (\<lambda>p. call_op e p op_change_mtu (\<lambda>g. g (dpc p) newmtu w))) (Errno EINVAL) (\<lambda>w.
          Inr (Success, upd_dev n (\<lambda>d. d\<lparr>nd_mtu := newmtu\<rparr>) w)))"

text \<open>
  The data plane is handed the pointer to the \<open>sockaddr\<close> where it expects six address bytes: it reads the family
  (in the byte order of these little-endian machines) and the first four bytes of the address.
\<close>

fun sockaddr_bytes :: "sockaddr \<Rightarrow> eth_addr" where
  "sockaddr_bytes sa = (case sa_data sa of Eth d0 d1 d2 d3 d4 d5 \<Rightarrow>
     Eth (ucast (sa_family sa)) (ucast (drop_bit 8 (sa_family sa))) d0 d1 d2 d3)"

definition nss_dp_set_mac_address ::
  "('h, 's, 'k) dp_env \<Rightarrow> nat option \<Rightarrow> sockaddr \<Rightarrow> ('h, 's) dp_world \<Rightarrow> (status \<times> ('h, 's) dp_world) result" where
  "nss_dp_set_mac_address e netdev addr w =
     (case netdev of
        None \<Rightarrow> Inr (Errno EINVAL, w)
      | Some n \<Rightarrow>
          if failed (de_prepare_mac e n addr) then Inr (de_prepare_mac e n addr, w)
          else
            must (with_priv w n (\<lambda>p. call_op e p op_mac_addr (\<lambda>g. g (dpc p) (sockaddr_bytes addr) w))) (Errno EAGAIN) (\<lambda>w.
            let w = upd_dev n (\<lambda>d. d\<lparr>nd_addr := sa_data addr\<rparr>) w
            in with_priv w n (\<lambda>p. call_hal e p (\<lambda>h.
                 bindR (ho_setmacaddr h (gmac_hal_ctx p) (sa_data addr)) (\<lambda>ctx.
                 Inr (Success, upd_priv n (\<lambda>p. p\<lparr>gmac_hal_ctx := ctx\<rparr>) w))))))"

text \<open>The version for older kernels returns the pointer it was given; the statistics behind it are the result here.\<close>

definition nss_dp_get_stats64_old ::
  "('h, 's, 'k) dp_env \<Rightarrow> nat option \<Rightarrow> rtnl_link_stats64 \<Rightarrow> ('h, 's) dp_world \<Rightarrow> (rtnl_link_stats64 \<times> ('h, 's) dp_world) result" where
  "nss_dp_get_stats64_old e netdev stats w =
     (case netdev of
        None \<Rightarrow> Inr (stats, w)
      | Some n \<Rightarrow> with_priv w n (\<lambda>p. call_hal e p (\<lambda>h.
          bindR (ho_getndostats h (stats_of e p w) (gmac_hal_ctx p) stats) (\<lambda>(_, ctx, stats).
          Inr (stats, upd_priv n (\<lambda>p. p\<lparr>gmac_hal_ctx := ctx\<rparr>) w)))))"

definition nss_dp_get_stats64 ::
  "('h, 's, 'k) dp_env \<Rightarrow> nat option \<Rightarrow> rtnl_link_stats64 \<Rightarrow> ('h, 's) dp_world \<Rightarrow> (rtnl_link_stats64 \<times> ('h, 's) dp_world) result" where
  "nss_dp_get_stats64 e netdev stats w =
     (case netdev of
        None \<Rightarrow> Inr (stats, w)
      | Some n \<Rightarrow> with_priv w n (\<lambda>p. call_hal e p (\<lambda>h.
          bindR (ho_getndostats h (stats_of e p w) (gmac_hal_ctx p) stats) (\<lambda>(_, ctx, stats).
          Inr (stats, upd_priv n (\<lambda>p. p\<lparr>gmac_hal_ctx := ctx\<rparr>) w)))))"

definition nss_dp_xmit ::
  "('h, 's, 'k) dp_env \<Rightarrow> 'k option \<Rightarrow> nat option \<Rightarrow> ('h, 's) dp_world \<Rightarrow> (netdev_tx_t \<times> ('h, 's) dp_world) result" where
  "nss_dp_xmit e skb netdev w =
     (case (skb, netdev) of
        (Some s, Some n) \<Rightarrow> with_priv w n (\<lambda>p. call_op e p op_xmit (\<lambda>g. g (dpc p) s w))
      | _ \<Rightarrow> Inr (NETDEV_TX_OK, w))"

text \<open>\<open>netdev_priv\<close> gives NULL for no net device here, which is what the two functions test.\<close>

definition nss_dp_close ::
  "('h, 's, 'k) dp_env \<Rightarrow> nat \<Rightarrow> ('h, 's) dp_world \<Rightarrow> (status \<times> ('h, 's) dp_world) result" where
  "nss_dp_close e n w =
     (case privs w n of
        None \<Rightarrow> Inr (Errno EINVAL, w)
      | Some _ \<Rightarrow>
         (let w = upd_dev n (\<lambda>d. d\<lparr>nd_queue := False, nd_carrier := False\<rparr>) w
          in must (with_priv w n (\<lambda>p. call_op e p op_link_state (\<lambda>g. g (dpc p) 0 w))) (Errno EAGAIN) (\<lambda>w.
             with_priv w n (\<lambda>p.
             let w = (if phydev p \<noteq> None then nkcalls [Nk_phy_stop n] w else w);
                 w = upd_priv n (\<lambda>p. p\<lparr>link_state := NSS_DP_LINK_DOWN\<rparr>) w
             in must (if de_ppe e
                      then with_priv w n (\<lambda>p. call_op e p op_vsi_unassign (\<lambda>g. g (dpc p) (vsi p) w))
                      else Inr (Success, w)) (Errno EAGAIN) (\<lambda>w.
                must (with_priv w n (\<lambda>p. call_op e p op_close (\<lambda>g. g (dpc p) w))) (Errno EAGAIN) (\<lambda>w.
                Inr (Success, upd_priv n (\<lambda>p. p\<lparr>dp_flags := unset_bit NSS_DP_UP (dp_flags p)\<rparr>) w)))))))"

text \<open>The steps of \<open>nss_dp_open\<close>: the initialisation done once, and what follows it.\<close>

definition dp_init_once ::
  "('h, 's, 'k) dp_env \<Rightarrow> nat \<Rightarrow> ('h, 's) dp_world \<Rightarrow> (status \<times> ('h, 's) dp_world) result" where
  "dp_init_once e n w = with_priv w n (\<lambda>p.
     if drv_flags p AND NSS_DP_PRIV_FLAG_INIT_DONE \<noteq> 0 then Inr (Success, w)
     else
       must (call_op e p op_init (\<lambda>g. g (dpc p) w)) (Errno ENOMEM) (\<lambda>w.
       Inr (Success, upd_priv n (\<lambda>p. p\<lparr>drv_flags := drv_flags p OR NSS_DP_PRIV_FLAG_INIT_DONE\<rparr>) w)))"

definition dp_bring_up ::
  "('h, 's, 'k) dp_env \<Rightarrow> nat \<Rightarrow> ('h, 's) dp_world \<Rightarrow> (status \<times> ('h, 's) dp_world) result" where
  "dp_bring_up e n w =
     bindR (with_priv w n (\<lambda>p. call_op e p op_set_features (\<lambda>g. g (dpc p) w))) (\<lambda>w.
     let w = upd_priv n (\<lambda>p. p\<lparr>dp_flags := set_bit NSS_DP_UP (dp_flags p)\<rparr>) w
     in must (if de_ppe e
              then with_priv w n (\<lambda>p. call_op e p op_vsi_assign (\<lambda>g. g (dpc p) (vsi p) w))
              else Inr (Success, w)) (Errno EAGAIN) (\<lambda>w.
        must (with_priv w n (\<lambda>p. with_dev w n (\<lambda>d. call_op e p op_mac_addr (\<lambda>g. g (dpc p) (nd_addr d) w)))) (Errno EAGAIN) (\<lambda>w.
        must (with_priv w n (\<lambda>p. with_dev w n (\<lambda>d. call_op e p op_change_mtu (\<lambda>g. g (dpc p) (nd_mtu d) w)))) (Errno EAGAIN) (\<lambda>w.
        must (with_priv w n (\<lambda>p. call_op e p op_open (\<lambda>g. g (dpc p) 0 0 0 w))) (Errno EAGAIN) (\<lambda>w.
        Inr (Success, w))))))"

definition dp_link_up ::
  "('h, 's, 'k) dp_env \<Rightarrow> nat \<Rightarrow> ('h, 's) dp_world \<Rightarrow> (status \<times> ('h, 's) dp_world) result" where
  "dp_link_up e n w =
     (let w = upd_dev n (\<lambda>d. d\<lparr>nd_queue := True\<rparr>) w
      in with_priv w n (\<lambda>p.
         if \<not> link_poll p
         then
           must (call_op e p op_link_state (\<lambda>g. g (dpc p) 1 w)) (Errno EAGAIN) (\<lambda>w.
           let w = upd_priv n (\<lambda>p. p\<lparr>link_state := NSS_DP_LINK_UP\<rparr>) w
           in Inr (Success, upd_dev n (\<lambda>d. d\<lparr>nd_carrier := True\<rparr>) w))
         else
          (let w = upd_priv n (\<lambda>p. p\<lparr>link_state := NSS_DP_LINK_DOWN\<rparr>) w
           in Inr (Success, nkcalls [Nk_phy_start n, Nk_phy_start_aneg n] w))))"

definition nss_dp_open ::
  "('h, 's, 'k) dp_env \<Rightarrow> nat \<Rightarrow> ('h, 's) dp_world \<Rightarrow> (status \<times> ('h, 's) dp_world) result" where
  "nss_dp_open e n w =
     (case privs w n of
        None \<Rightarrow> Inr (Errno EINVAL, w)
      | Some _ \<Rightarrow>
         (let w = upd_dev n (\<lambda>d. d\<lparr>nd_carrier := False\<rparr>) w
          in bindR (dp_init_once e n w) (\<lambda>(ret, w).
             if failed ret then Inr (ret, w)
             else bindR (dp_bring_up e n w) (\<lambda>(ret, w).
               if failed ret then Inr (ret, w) else dp_link_up e n w))))"

text \<open>
  Flow steering. The flow tables belong to the kernel: for each receive queue of the device the CPUs of its flows
  with their mask, if it has a table, and the same for the sockets.
\<close>

record rps_tables =
  rps_queues :: "(u16 list \<times> u32) option list"
  rps_sock :: "(u32 list \<times> u32) option"
  rps_cpu_mask :: u32

definition nss_dp_rx_flow_steer ::
  "('h, 's, 'k) dp_env \<Rightarrow> rps_tables \<Rightarrow> nat option \<Rightarrow> 'k \<Rightarrow> u16 option \<Rightarrow> u32 \<Rightarrow> ('h, 's) dp_world
     \<Rightarrow> (status \<times> ('h, 's) dp_world) result" where
  "nss_dp_rx_flow_steer e t netdev skb queue hash w =
     (case netdev of
        None \<Rightarrow> Inr (Errno EINVAL, w)
      | Some n \<Rightarrow>
        (case privs w n of
           None \<Rightarrow> Inr (Errno EINVAL, w)
         | Some p \<Rightarrow>
            bindR (aget (rps_queues t) (case queue of None \<Rightarrow> 0 | Some i \<Rightarrow> unat i)) (\<lambda>flow_table.
            case flow_table of
              None \<Rightarrow> Inr (Errno EINVAL, w)
            | Some (flows, m) \<Rightarrow>
               bindR (aget flows (unat (hash AND m))) (\<lambda>cpu.
               case rps_sock t of
                 None \<Rightarrow> Inr (Errno EINVAL, w)
               | Some (ents, sm) \<Rightarrow>
                  bindR (aget ents (unat (hash AND sm))) (\<lambda>ent.
                  let rxcpu = ucast cpu; rfscpu = ent AND rps_cpu_mask t
                  in if rxcpu = rfscpu then Inr (Success, w)
                     else
                      (case data_plane_ops p of
                         None \<Rightarrow> Inl Null_Pointer
                       | Some r \<Rightarrow>
                          (case op_rx_flow_steer (de_ops e r) of
                             None \<Rightarrow> Inr (Errno EINVAL, w)
                           | Some g \<Rightarrow>
                              must (g (dpc p) skb rxcpu False w) (Errno EAGAIN) (\<lambda>w.
                              must (g (dpc p) skb rfscpu True w) (Errno EAGAIN) (\<lambda>w. Inr (Success, w)))))))))) "

definition nss_dp_select_queue :: "int \<Rightarrow> u16" where
  "nss_dp_select_queue cpu = word_of_int cpu"

text \<open>The link change callback of the PHY library.\<close>

definition nss_dp_adjust_link ::
  "('h, 's, 'k) dp_env \<Rightarrow> nat \<Rightarrow> ('h, 's) dp_world \<Rightarrow> ('h, 's) dp_world result" where
  "nss_dp_adjust_link e n w = with_priv w n (\<lambda>p.
     if \<not> bit (dp_flags p) NSS_DP_UP then Inr w
     else
      (case phydev p of
         None \<Rightarrow> Inl Null_Pointer
       | Some y \<Rightarrow>
          if phy_link y \<and> link_state p = NSS_DP_LINK_UP then Inr w
          else if \<not> phy_link y \<and> link_state p = NSS_DP_LINK_DOWN then Inr w
          else if link_state p = NSS_DP_LINK_DOWN
          then
            bindR (call_op e p op_link_state (\<lambda>g. g (dpc p) 1 w)) (\<lambda>(ret, w).
            if failed ret then Inr w
            else Inr (upd_dev n (\<lambda>d. d\<lparr>nd_carrier := True\<rparr>) (upd_priv n (\<lambda>p. p\<lparr>link_state := NSS_DP_LINK_UP\<rparr>) w)))
          else
            bindR (call_op e p op_link_state (\<lambda>g. g (dpc p) 0 w)) (\<lambda>(ret, w).
            if failed ret then Inr w
            else Inr (upd_dev n (\<lambda>d. d\<lparr>nd_carrier := False\<rparr>) (upd_priv n (\<lambda>p. p\<lparr>link_state := NSS_DP_LINK_DOWN\<rparr>) w)))))"

section \<open>Probe and removal\<close>

text \<open>
  The device tree of a port. A property that is missing leaves its variable alone. The platform data is filled in
  along with the private part.
\<close>

definition nss_dp_of_get_pdata ::
  "('h, 's, 'k) dp_env \<Rightarrow> port_dt \<Rightarrow> nat \<Rightarrow> gmac_hal_platform_data \<Rightarrow> ('h, 's) dp_world
     \<Rightarrow> status \<times> gmac_hal_platform_data \<times> ('h, 's) dp_world" where
  "nss_dp_of_get_pdata e t n hal_pdata w =
     (case pt_id t of
        None \<Rightarrow> (Errno EFAULT, hal_pdata, w)
      | Some m \<Rightarrow>
         (let w = upd_priv n (\<lambda>p. p\<lparr>macid := m\<rparr>) w
          in if unat m > de_max_ports e \<or> m = 0 then (Errno EFAULT, hal_pdata, w)
             else
              (case pt_mactype t of
                 None \<Rightarrow> (Errno EFAULT, hal_pdata, w)
               | Some ty \<Rightarrow>
                  (let hal_pdata = hal_pdata\<lparr>pd_mactype := ty\<rparr>
                   in case pt_resource t of
                        None \<Rightarrow> (Errno EFAULT, hal_pdata, w)
                      | Some (start, len) \<Rightarrow>
                         (let w = upd_dev n (\<lambda>d. d\<lparr>nd_base_addr := start\<rparr>) w;
                              hal_pdata = hal_pdata\<lparr>pd_reg_len := len, pd_netdev := n, pd_macid := m\<rparr>;
                              w = upd_priv n (\<lambda>p. p\<lparr>phy_mii_type := pt_phy_mode t, link_poll := pt_link_poll t,
                                    phy_mdio_addr := (case pt_mdio_addr t of None \<Rightarrow> phy_mdio_addr p | Some a \<Rightarrow> a)\<rparr>) w
                          in if pt_mdio_addr t = None \<and> pt_link_poll t then (Errno EFAULT, hal_pdata, w)
                             else
                              (let w = upd_priv n (\<lambda>p. p\<lparr>
                                     forced_speed := (case pt_forced_speed t of None \<Rightarrow> forced_speed p | Some v \<Rightarrow> v),
                                     forced_duplex := (case pt_forced_duplex t of None \<Rightarrow> forced_duplex p | Some v \<Rightarrow> v)\<rparr>) w;
                                   a = (case pt_mac t of
                                          Some a \<Rightarrow> (if de_valid_addr e a then a else pt_random t)
                                        | None \<Rightarrow> pt_random t)
                               in (Success, hal_pdata, upd_dev n (\<lambda>d. d\<lparr>nd_addr := a\<rparr>) w)))))))"

definition nss_dp_mdio_attach :: "port_dt \<Rightarrow> nat option" where
  "nss_dp_mdio_attach t =
     (case pt_mdio_bus t of
        Some bus \<Rightarrow> bus
      | None \<Rightarrow>
          if \<not> pt_mdio_node t then None
          else if \<not> pt_mdio_plat t then None
          else (case pt_mdio_data t of None \<Rightarrow> None | Some bus \<Rightarrow> bus))"

text \<open>A fresh net device (\<open>alloc_etherdev_mqs\<close>) and its cleared private part.\<close>

definition fresh_netdev :: net_device where
  "fresh_netdev = \<lparr>nd_mtu = 1500, nd_max_mtu = 65535, nd_addr = Eth 0 0 0 0 0 0, nd_base_addr = 0, nd_irq = 0,
     nd_features = 0, nd_hw_features = 0, nd_vlan_features = 0, nd_wanted_features = 0, nd_carrier = True,
     nd_queue = False, nd_dp_ops = True, nd_ethtool = False, nd_registered = False\<rparr>"

definition zero_dp_dev :: "nat \<Rightarrow> 'h nss_dp_dev" where
  "zero_dp_dev n = \<lparr>macid = 0, vsi = 0, dp_flags = 0, drv_flags = 0, phydev = None, miibus = None, phy_mii_type = 0,
     phy_mdio_addr = 0, link_poll = False, forced_speed = 0, forced_duplex = 0, link_state = NSS_DP_LINK_UP,
     pause = 0, dp_netdev = n, dpc = None, data_plane_ops = None, gmac_hal_ctx = None, gmac_hal_ops = None,
     stp_state = 0, brport_flags = 0\<rparr>"

definition free_netdev :: "nat \<Rightarrow> ('h, 's) dp_world \<Rightarrow> ('h, 's) dp_world" where
  "free_netdev n w = (nkcalls [Nk_free_netdev n] w)\<lparr>netdevs := (netdevs w)(n := None), privs := (privs w)(n := None)\<rparr>"

definition probe_fail :: "nat \<Rightarrow> ('h, 's) dp_world \<Rightarrow> (status \<times> ('h, 's) dp_world) result" where
  "probe_fail n w = Inr (Errno EFAULT, free_netdev n w)"

text \<open>\<open>hal_ops->exit(ctx)\<close>, on the private part of a net device.\<close>

definition hal_exit :: "('h, 's, 'k) dp_env \<Rightarrow> nat \<Rightarrow> ('h, 's) dp_world \<Rightarrow> ('h, 's) dp_world result" where
  "hal_exit e n w = with_priv w n (\<lambda>p. call_hal e p (\<lambda>h.
     case ho_exit h of
       None \<Rightarrow> Inl Null_Pointer
     | Some f \<Rightarrow>
         bindR (f (gmac_hal_ctx p)) (\<lambda>(ctx, cs).
         Inr (nkcalls (map Nk_plat cs) (upd_priv n (\<lambda>p. p\<lparr>gmac_hal_ctx := ctx\<rparr>) w)))))"

text \<open>The PHY of a port whose link is polled: the bus, the connection, and pause frames advertised
  and supported, in the representation of older kernels (one word) and of newer ones (a set of modes); the bits are
  the same in both.\<close>

definition probe_phy ::
  "port_dt \<Rightarrow> nat \<Rightarrow> ('h, 's) dp_world \<Rightarrow> (status \<times> ('h, 's) dp_world) result" where
  "probe_phy t n w = with_priv w n (\<lambda>p.
     if \<not> link_poll p then Inr (Success, w)
     else
      (let w = upd_priv n (\<lambda>p. p\<lparr>miibus := nss_dp_mdio_attach t\<rparr>) w
       in if nss_dp_mdio_attach t = None then Inr (Failure, w)
          else
           (case pt_phy_connect t of
              None \<Rightarrow> Inr (Failure, w)
            | Some y \<Rightarrow>
               (let y = y\<lparr>phy_advertising := insert ETHTOOL_LINK_MODE_Asym_Pause_BIT
                              (insert ETHTOOL_LINK_MODE_Pause_BIT (phy_advertising y)),
                           phy_advertising32 := phy_advertising32 y OR (ADVERTISED_Pause OR ADVERTISED_Asym_Pause)\<rparr>;
                    y = y\<lparr>phy_supported := insert ETHTOOL_LINK_MODE_Asym_Pause_BIT
                              (insert ETHTOOL_LINK_MODE_Pause_BIT (phy_supported y)),
                           phy_supported32 := phy_supported32 y OR (ADVERTISED_Pause OR ADVERTISED_Asym_Pause)\<rparr>
                in Inr (Success, upd_priv n (\<lambda>p. p\<lparr>phydev := Some y\<rparr>) w)))))"

text \<open>The MAC of a port: its table by type, and its context.\<close>

definition probe_hal ::
  "('h, 's, 'k) dp_env \<Rightarrow> nat \<Rightarrow> gmac_hal_platform_data \<Rightarrow> ('h, 's) dp_world \<Rightarrow> (status \<times> ('h, 's) dp_world) result" where
  "probe_hal e n pd w =
     bindR (nss_dp_hal_get_gmac_ops (pd_mactype pd) w) (\<lambda>ops.
     let w = upd_priv n (\<lambda>p. p\<lparr>gmac_hal_ops := ops\<rparr>) w
     in case ops of
          None \<Rightarrow> Inr (Failure, w)
        | Some r \<Rightarrow> with_priv w n (\<lambda>p.
           (case ho_init (de_hal e r) pd (dp_flags p) (nk_trace w) of
              (ctx, fl, tr) \<Rightarrow>
               (let w = (upd_priv n (\<lambda>p. p\<lparr>gmac_hal_ctx := ctx, dp_flags := fl\<rparr>) w)\<lparr>nk_trace := tr\<rparr>
                in if ctx = None then Inr (Failure, w) else Inr (Success, w)))))"

definition probe_vsi ::
  "('h, 's, 'k) dp_env \<Rightarrow> port_dt \<Rightarrow> nat \<Rightarrow> ('h, 's) dp_world \<Rightarrow> (status \<times> ('h, 's) dp_world) result" where
  "probe_vsi e t n w =
     (if \<not> de_ppe e then Inr (Success, w)
      else
       (case pt_vsi_get t of
          None \<Rightarrow> Inr (Failure, w)
        | Some v \<Rightarrow> Inr (Success, upd_priv n (\<lambda>p. p\<lparr>vsi := v\<rparr>) w)))"

definition nss_dp_probe ::
  "('h, 's, 'k) dp_env \<Rightarrow> port_dt \<Rightarrow> gmac_hal_platform_data \<Rightarrow> ('h, 's) dp_world \<Rightarrow> (status \<times> ('h, 's) dp_world) result" where
  "nss_dp_probe e t pd w =
     (let n = nd_allocs w
      in if \<not> de_alloc_etherdev e n then Inr (Errno ENOMEM, w)
         else
          (let w = w\<lparr>nd_allocs := n + 1, netdevs := (netdevs w)(n \<mapsto> fresh_netdev), privs := (privs w)(n \<mapsto> zero_dp_dev n)\<rparr>;
               w = nss_dp_set_ethtool_ops n w;
               w = nss_dp_switchdev_setup n w
           in case nss_dp_of_get_pdata e t n pd w of
                (ret, pd, w) \<Rightarrow>
                  if failed ret then probe_fail n w
                  else
                   (let w = upd_priv n (\<lambda>p. p\<lparr>data_plane_ops := de_soc_ops e\<rparr>) w
                    in if de_soc_ops e = None then probe_fail n w
                       else
                        (let i = unat (pd_macid pd) - 1
                         in bindR (aset (dp_ctx w) i (Some n)) (\<lambda>ctxs.
                            let w = upd_priv n (\<lambda>p. p\<lparr>dpc := Some (Dpc_global i)\<rparr>) (w\<lparr>dp_ctx := ctxs\<rparr>)
                            in bindR (probe_hal e n pd w) (\<lambda>(ret, w).
                               if failed ret then probe_fail n w
                               else bindR (probe_phy t n w) (\<lambda>(ret, w).
                               if failed ret then probe_fail n w
                               else bindR (probe_vsi e t n w) (\<lambda>(ret, w).
                               if failed ret then probe_fail n w
                               else if \<not> pt_register t then bindR (hal_exit e n w) (probe_fail n)
                               else
                                (let w = upd_dev n (\<lambda>d. d\<lparr>nd_registered := True\<rparr>) w
                                 in bindR (aset (nss_dp w) i (Some n)) (\<lambda>ports.
                                    Inr (Success, w\<lparr>nss_dp := ports, slowproto_acl_bm := 0\<rparr>)))))))))))"

definition remove_one ::
  "('h, 's, 'k) dp_env \<Rightarrow> nat \<Rightarrow> ('h, 's) dp_world \<Rightarrow> ('h, 's) dp_world result" where
  "remove_one e i w =
     bindR (aget (nss_dp w) i) (\<lambda>port.
     case port of
       None \<Rightarrow> Inr w
     | Some n \<Rightarrow>
         with_priv w n (\<lambda>p.
         let w = (if phydev p \<noteq> None then nkcalls [Nk_phy_disconnect n] w else w);
             w = nkcalls [Nk_unregister_netdev n] (upd_dev n (\<lambda>d. d\<lparr>nd_registered := False\<rparr>) w)
         in bindR (hal_exit e n w) (\<lambda>w.
            let w = free_netdev n w
            in bindR (aset (nss_dp w) i None) (\<lambda>ports. Inr (w\<lparr>nss_dp := ports\<rparr>)))))"

definition nss_dp_remove ::
  "('h, 's, 'k) dp_env \<Rightarrow> ('h, 's) dp_world \<Rightarrow> (status \<times> ('h, 's) dp_world) result" where
  "nss_dp_remove e w = bindR (for_upto 0 (de_max_ports e) (remove_one e) w) (\<lambda>w. Inr (Success, w))"

section \<open>Module\<close>

text \<open>
  \<open>compatible\<close>: the machine is one of the four SoCs; \<open>hal_init\<close> and \<open>hal_cleanup\<close> are those of the SoC;
  \<open>register\<close> is the answer of \<open>platform_driver_register\<close>.
\<close>

definition nss_dp_init ::
  "bool \<Rightarrow> (('h, 's) dp_world \<Rightarrow> (bool \<times> ('h, 's) dp_world) result) \<Rightarrow> status \<Rightarrow> ('h, 's) dp_world
     \<Rightarrow> (status \<times> ('h, 's) dp_world) result" where
  "nss_dp_init compatible hal_init register w =
     (if \<not> compatible then Inr (Success, w)
      else
        bindR (hal_init (w\<lparr>common_init_done := False\<rparr>)) (\<lambda>(ok, w).
        if \<not> ok then Inr (Errno EFAULT, w)
        else Inr (register, w\<lparr>common_init_done := True\<rparr>)))"

definition nss_dp_exit ::
  "(('h, 's) dp_world \<Rightarrow> ('h, 's) dp_world result) \<Rightarrow> ('h, 's) dp_world \<Rightarrow> ('h, 's) dp_world result" where
  "nss_dp_exit hal_cleanup w =
     bindR (if common_init_done w
            then bindR (hal_cleanup w) (\<lambda>w. Inr (w\<lparr>common_init_done := False\<rparr>))
            else Inr w) (\<lambda>w.
     Inr (nkcalls [Nk_driver_unregister] w))"

end
