(* ===== verification/Dp_Attach.thy ===== *)
theory Dp_Attach
  imports Dp_Main
begin

text \<open>
  The interface for overlay drivers (\<open>nss_dp_attach.c\<close>): delivering frames, replacing the data plane of a port,
  starting it, and giving the port back. The \<open>ndo_open\<close> and \<open>ndo_stop\<close> of a port are \<open>nss_dp_open\<close> and
  \<open>nss_dp_close\<close>.
\<close>

definition nss_dp_reset_netdev_features :: "nat \<Rightarrow> ('h, 's) dp_world \<Rightarrow> ('h, 's) dp_world" where
  "nss_dp_reset_netdev_features n w = upd_dev n (\<lambda>d. d\<lparr>nd_features := 0, nd_hw_features := 0, nd_vlan_features := 0,
     nd_wanted_features := 0\<rparr>) w"

definition nss_dp_receive :: "nat \<Rightarrow> skb_ref \<Rightarrow> ('h, 's) dp_world \<Rightarrow> ('h, 's) dp_world result" where
  "nss_dp_receive n skb w = with_dev w n (\<lambda>_. Inr (nkcalls [Nk_gro_receive skb n] w))"

definition nss_dp_is_in_open_state :: "nat \<Rightarrow> ('h, 's) dp_world \<Rightarrow> bool result" where
  "nss_dp_is_in_open_state n w = with_priv w n (\<lambda>p. Inr (bit (dp_flags p) NSS_DP_UP))"

definition ops_complete :: "('h, 's, 'k) data_plane_ops \<Rightarrow> bool" where
  "ops_complete t \<longleftrightarrow> op_open t \<noteq> None \<and> op_close t \<noteq> None \<and> op_link_state t \<noteq> None \<and> op_mac_addr t \<noteq> None
     \<and> op_change_mtu t \<noteq> None \<and> op_xmit t \<noteq> None \<and> op_set_features t \<noteq> None \<and> op_pause_on_off t \<noteq> None
     \<and> op_deinit t \<noteq> None"

text \<open>A port that is up is closed, and its features reset; the result of the close is not looked at.\<close>

definition force_stop :: "('h, 's, 'k) dp_env \<Rightarrow> nat \<Rightarrow> ('h, 's) dp_world \<Rightarrow> ('h, 's) dp_world result" where
  "force_stop e n w = with_priv w n (\<lambda>p.
     if bit (dp_flags p) NSS_DP_UP
     then bindR (nss_dp_close e n w) (\<lambda>(_, w). Inr (nss_dp_reset_netdev_features n w))
     else Inr w)"

text \<open>The old data plane is torn down with the context of the new one, as the code has it.\<close>

definition nss_dp_override_data_plane ::
  "('h, 's, 'k) dp_env \<Rightarrow> nat \<Rightarrow> ops_ref \<Rightarrow> dpc_ref option \<Rightarrow> ('h, 's) dp_world \<Rightarrow> (status \<times> ('h, 's) dp_world) result" where
  "nss_dp_override_data_plane e n dp_ops c w =
     (if \<not> ops_complete (de_ops e dp_ops) then Inr (Failure, w)
      else
        bindR (force_stop e n w) (\<lambda>w.
        must (with_priv w n (\<lambda>p.
                if drv_flags p AND NSS_DP_PRIV_FLAG_INIT_DONE \<noteq> 0
                then
                  must (call_op e p op_deinit (\<lambda>g. g c w)) (Errno ENOMEM) (\<lambda>w.
                  Inr (Success, upd_priv n (\<lambda>p. p\<lparr>drv_flags := drv_flags p AND NOT NSS_DP_PRIV_FLAG_INIT_DONE\<rparr>) w))
                else Inr (Success, w))) (Errno ENOMEM) (\<lambda>w.
        Inr (Success, upd_priv n (\<lambda>p. p\<lparr>dpc := c, data_plane_ops := Some dp_ops\<rparr>) w))))"

definition nss_dp_start_data_plane ::
  "('h, 's, 'k) dp_env \<Rightarrow> nat \<Rightarrow> dpc_ref option \<Rightarrow> ('h, 's) dp_world \<Rightarrow> ('h, 's) dp_world result" where
  "nss_dp_start_data_plane e n c w = with_priv w n (\<lambda>p.
     if bit (dp_flags p) NSS_DP_UP then Inr w
     else if dpc p \<noteq> c then Inr w
     else bindR (nss_dp_open e (dp_netdev p) w) (\<lambda>(_, w). Inr w))"

text \<open>The context is a pointer computed from the port number: it is not looked at here.\<close>

definition nss_dp_restore_data_plane ::
  "('h, 's, 'k) dp_env \<Rightarrow> nat \<Rightarrow> ('h, 's) dp_world \<Rightarrow> ('h, 's) dp_world result" where
  "nss_dp_restore_data_plane e n w =
     bindR (force_stop e n w) (\<lambda>w.
     Inr (upd_priv n (\<lambda>p. p\<lparr>data_plane_ops := de_soc_ops e,
       dpc := Some (Dpc_global (unat (macid p) - de_start_ifnum e))\<rparr>) w))"

definition nss_dp_get_netdev_by_nss_if_num ::
  "('h, 's, 'k) dp_env \<Rightarrow> int \<Rightarrow> ('h, 's) dp_world \<Rightarrow> nat option result" where
  "nss_dp_get_netdev_by_nss_if_num e if_num w =
     (if if_num > int (de_max_ports e) \<or> if_num < int (de_start_ifnum e) then Inr None
      else
        bindR (aget (nss_dp w) (nat (if_num - int (de_start_ifnum e)))) (\<lambda>port.
        case port of
          None \<Rightarrow> Inr None
        | Some n \<Rightarrow> with_priv w n (\<lambda>p. Inr (Some (dp_netdev p)))))"

end
