(* ===== verification/Syn_Ring.thy ===== *)
theory Syn_Ring
  imports Ring Syn_Gmac
begin

text \<open>
  The descriptor rings of the GMAC data plane: the DMA descriptor of \<open>syn_dma_desc.h\<close>, the ring
  state \<open>syn_dp_info\<close> of \<open>syn_data_plane.h\<close>, and the ring operations of \<open>syn_dp_tx_rx.c\<close> and
  \<open>syn_dp_cfg.c\<close>. A pointer to a descriptor is its offset in the ring array; every array access
  is checked, every \<open>BUG_ON\<close> is kept. Calls into the kernel are recorded in a trace, in order;
  what the kernel answers (whether an allocation or a mapping succeeds, the bus address) is
  the argument \<open>syn_kernel\<close>, indexed by the number of the allocation.
\<close>

section \<open>DMA descriptors\<close>

abbreviation (input) desc_own_by_dma :: u32 where "desc_own_by_dma \<equiv> 0x80000000"
abbreviation (input) desc_rx_frame_length_mask :: u32 where "desc_rx_frame_length_mask \<equiv> 0x3fff0000"
abbreviation (input) desc_rx_frame_length_shift :: nat where "desc_rx_frame_length_shift \<equiv> 16"
abbreviation (input) desc_rx_error :: u32 where "desc_rx_error \<equiv> 0x00008000"
abbreviation (input) desc_rx_length_error :: u32 where "desc_rx_length_error \<equiv> 0x00001000"
abbreviation (input) desc_rx_overflow :: u32 where "desc_rx_overflow \<equiv> 0x00000800"
abbreviation (input) desc_rx_first :: u32 where "desc_rx_first \<equiv> 0x00000200"
abbreviation (input) desc_rx_last :: u32 where "desc_rx_last \<equiv> 0x00000100"
abbreviation (input) desc_rx_collision :: u32 where "desc_rx_collision \<equiv> 0x00000040"
abbreviation (input) desc_rx_dribbling :: u32 where "desc_rx_dribbling \<equiv> 0x00000004"
abbreviation (input) desc_rx_crc :: u32 where "desc_rx_crc \<equiv> 0x00000002"
abbreviation (input) desc_tx_error :: u32 where "desc_tx_error \<equiv> 0x00008000"
abbreviation (input) desc_tx_int_enable :: u32 where "desc_tx_int_enable \<equiv> 0x40000000"
abbreviation (input) desc_tx_last :: u32 where "desc_tx_last \<equiv> 0x20000000"
abbreviation (input) desc_tx_first :: u32 where "desc_tx_first \<equiv> 0x10000000"
abbreviation (input) desc_tx_cis_mask :: u32 where "desc_tx_cis_mask \<equiv> 0x00c00000"
abbreviation (input) desc_tx_cis_tcp_pseudo_cs :: u32 where "desc_tx_cis_tcp_pseudo_cs \<equiv> 0x00c00000"
abbreviation (input) desc_tx_desc_end_of_ring :: u32 where "desc_tx_desc_end_of_ring \<equiv> 0x00200000"
abbreviation (input) desc_tx_ipv4_chk_error :: u32 where "desc_tx_ipv4_chk_error \<equiv> 0x00010000"
abbreviation (input) desc_tx_timeout :: u32 where "desc_tx_timeout \<equiv> 0x00004000"
abbreviation (input) desc_tx_frame_flushed :: u32 where "desc_tx_frame_flushed \<equiv> 0x00002000"
abbreviation (input) desc_tx_pay_chk_error :: u32 where "desc_tx_pay_chk_error \<equiv> 0x00001000"
abbreviation (input) desc_tx_lost_carrier :: u32 where "desc_tx_lost_carrier \<equiv> 0x00000800"
abbreviation (input) desc_tx_no_carrier :: u32 where "desc_tx_no_carrier \<equiv> 0x00000400"
abbreviation (input) desc_tx_late_collision :: u32 where "desc_tx_late_collision \<equiv> 0x00000200"
abbreviation (input) desc_tx_exc_collisions :: u32 where "desc_tx_exc_collisions \<equiv> 0x00000100"
abbreviation (input) desc_tx_coll_mask :: u32 where "desc_tx_coll_mask \<equiv> 0x00000078"
abbreviation (input) desc_tx_coll_shift :: nat where "desc_tx_coll_shift \<equiv> 3"
abbreviation (input) desc_tx_exc_deferral :: u32 where "desc_tx_exc_deferral \<equiv> 0x00000004"
abbreviation (input) desc_tx_underflow :: u32 where "desc_tx_underflow \<equiv> 0x00000002"
abbreviation (input) desc_rx_desc_end_of_ring :: u32 where "desc_rx_desc_end_of_ring \<equiv> 0x00008000"
abbreviation (input) desc_size2_mask :: u32 where "desc_size2_mask \<equiv> 0x1fff0000"
abbreviation (input) desc_size2_shift :: nat where "desc_size2_shift \<equiv> 16"
abbreviation (input) desc_size1_mask :: u32 where "desc_size1_mask \<equiv> 0x00001fff"
abbreviation (input) desc_size1_shift :: nat where "desc_size1_shift \<equiv> 0"

record dma_desc =
  ds_status :: u32
  ds_length :: u32
  ds_buffer1 :: u32
  ds_data1 :: u32
  ds_extstatus :: u32
  ds_reserved1 :: u32
  ds_timestamplow :: u32
  ds_timestamphigh :: u32

definition zero_desc :: dma_desc where
  "zero_desc = \<lparr>ds_status = 0, ds_length = 0, ds_buffer1 = 0, ds_data1 = 0, ds_extstatus = 0,
     ds_reserved1 = 0, ds_timestamplow = 0, ds_timestamphigh = 0\<rparr>"

definition syn_dp_gmac_tx_checksum_offload_tcp_pseudo :: "dma_desc \<Rightarrow> dma_desc" where
  "syn_dp_gmac_tx_checksum_offload_tcp_pseudo desc =
     desc\<lparr>ds_status := (ds_status desc AND NOT desc_tx_cis_mask) OR desc_tx_cis_tcp_pseudo_cs\<rparr>"

definition syn_dp_gmac_tx_desc_init_ring :: "nat \<Rightarrow> dma_desc list" where
  "syn_dp_gmac_tx_desc_init_ring no_of_desc =
     (replicate no_of_desc zero_desc)
       [no_of_desc - 1 := zero_desc\<lparr>ds_status := desc_tx_desc_end_of_ring\<rparr>]"

definition syn_dp_gmac_rx_desc_init_ring :: "nat \<Rightarrow> dma_desc list" where
  "syn_dp_gmac_rx_desc_init_ring no_of_desc =
     (replicate no_of_desc zero_desc)
       [no_of_desc - 1 := zero_desc\<lparr>ds_length := desc_rx_desc_end_of_ring\<rparr>]"

definition syn_dp_gmac_is_rx_desc_valid :: "u32 \<Rightarrow> bool" where
  "syn_dp_gmac_is_rx_desc_valid status \<longleftrightarrow>
     status AND (desc_rx_error OR desc_rx_first OR desc_rx_last) = desc_rx_first OR desc_rx_last"

definition syn_dp_gmac_get_rx_desc_frame_length :: "u32 \<Rightarrow> u32" where
  "syn_dp_gmac_get_rx_desc_frame_length status =
     drop_bit desc_rx_frame_length_shift (status AND desc_rx_frame_length_mask)"

definition syn_dp_gmac_is_desc_owned_by_dma :: "dma_desc \<Rightarrow> bool" where
  "syn_dp_gmac_is_desc_owned_by_dma desc \<longleftrightarrow> ds_status desc AND desc_own_by_dma = desc_own_by_dma"

definition syn_dp_gmac_is_desc_empty :: "dma_desc \<Rightarrow> bool" where
  "syn_dp_gmac_is_desc_empty desc \<longleftrightarrow> ds_length desc AND desc_size1_mask = 0"

definition syn_dp_gmac_get_tx_collision_count :: "u32 \<Rightarrow> u32" where
  "syn_dp_gmac_get_tx_collision_count status = drop_bit desc_tx_coll_shift (status AND desc_tx_coll_mask)"

section \<open>Ring state\<close>

abbreviation (input) SYN_DP_TX_DESC_SIZE :: nat where "SYN_DP_TX_DESC_SIZE \<equiv> 128"
abbreviation (input) SYN_DP_RX_DESC_SIZE :: nat where "SYN_DP_RX_DESC_SIZE \<equiv> 128"
abbreviation (input) SYN_DP_MINI_JUMBO_FRAME_MTU :: u32 where "SYN_DP_MINI_JUMBO_FRAME_MTU \<equiv> 1978"
abbreviation (input) SYN_DP_MAX_DESC_BUFF :: u32 where "SYN_DP_MAX_DESC_BUFF \<equiv> 0x1fff"

text \<open>What the transmit path reads of a buffer: its length, \<open>ip_summed == CHECKSUM_PARTIAL\<close>, its fragments.\<close>

record sk_buff =
  skb_ref :: skb_ref
  skb_len :: u32
  skb_partial :: bool
  skb_nr_frags :: nat

record syn_dp_info =
  dp_stats :: nss_dp_gmac_stats
  rx_skb_list :: "skb_ref option list"
  rx_desc_dma :: u64
  rx_desc :: "dma_desc list"
  busy_rx_desc :: u32
  rx_desc_count :: u32
  rx_busy :: u32
  rx_next :: u32
  rx_busy_desc :: nat
  rx_next_desc :: nat
  tx_skb_list :: "skb_ref option list"
  tx_desc_dma :: u64
  tx_desc :: "dma_desc list"
  busy_tx_desc :: u32
  tx_desc_count :: u32
  tx_busy :: u32
  tx_next :: u32
  tx_busy_desc :: nat
  tx_next_desc :: nat
  napi_added :: bool

datatype syn_kcall =
    Alloc_skb nat
  | Dma_unmap_single u32 u32 dma_dir
  | Napi_gro_receive skb_ref int
  | Dev_kfree_skb skb_ref
  | Dma_free_coherent u64

text \<open>The ring state of a port with the trace of kernel calls and the number of allocations asked for.\<close>

record syn_state = syn_dp_info +
  sk_trace :: "syn_kcall list"
  sk_allocs :: nat

record syn_kernel =
  k_netdev_alloc_skb :: "nat \<Rightarrow> bool"
  k_dma_map_rx :: "nat \<Rightarrow> u64 option"
  k_dma_map_tx :: "skb_ref \<Rightarrow> u64 option"
  k_dma_alloc_rx :: "u64 option"
  k_dma_alloc_tx :: "u64 option"
  k_ETH_FCS_LEN :: int

definition kcalls :: "syn_kcall list \<Rightarrow> syn_state \<Rightarrow> syn_state" where
  "kcalls cs st = st\<lparr>sk_trace := sk_trace st @ cs\<rparr>"

text \<open>\<open>stats.f += v\<close>, and \<open>(status & bit) ? 1 : 0\<close>.\<close>

definition stat_add ::
  "nss_dp_hal_gmac_stats_field \<Rightarrow> u64 \<Rightarrow> nss_dp_gmac_stats \<Rightarrow> nss_dp_gmac_stats" where
  "stat_add f v s = s(f := s f + v)"

definition stat_flag :: "u32 \<Rightarrow> u32 \<Rightarrow> u64" where
  "stat_flag status b = (if status AND b \<noteq> 0 then 1 else 0)"

section \<open>Receive\<close>

definition syn_dp_reset_rx_qptr :: "'a syn_dp_info_scheme \<Rightarrow> 'a syn_dp_info_scheme result" where
  "syn_dp_reset_rx_qptr dev_info =
     (let rxnext = rx_busy dev_info; rxdesc = rx_busy_desc dev_info
      in bindR (BUG_ON (rxdesc \<noteq> unat rxnext)) (\<lambda>_.
         let dev_info = dev_info\<lparr>rx_busy := (rxnext + 1) AND (rx_desc_count dev_info - 1)\<rparr>;
             dev_info = dev_info\<lparr>rx_busy_desc := unat (rx_busy dev_info)\<rparr>
         in bindR (aset (rx_skb_list dev_info) (unat rxnext) None) (\<lambda>skbs.
            bindR (aget (rx_desc dev_info) rxdesc) (\<lambda>d.
            bindR (aset (rx_desc dev_info) rxdesc
                     (d\<lparr>ds_status := 0, ds_length := ds_length d AND desc_rx_desc_end_of_ring,
                        ds_buffer1 := 0, ds_data1 := 0, ds_reserved1 := 0\<rparr>)) (\<lambda>descs.
            Inr (dev_info\<lparr>rx_skb_list := skbs, rx_desc := descs,
                   busy_rx_desc := busy_rx_desc dev_info - 1\<rparr>))))))"

text \<open>The length word and the second buffer address for a buffer of \<open>Length1\<close> bytes.\<close>

definition desc_length_for :: "u32 \<Rightarrow> u32 \<Rightarrow> u32" where
  "desc_length_for Length1 len =
     (if Length1 > SYN_DP_MAX_DESC_BUFF
      then (let len = len OR (push_bit desc_size1_shift SYN_DP_MAX_DESC_BUFF AND desc_size1_mask)
            in len OR (push_bit desc_size2_shift (Length1 - SYN_DP_MAX_DESC_BUFF) AND desc_size2_mask))
      else len OR (push_bit desc_size1_shift Length1 AND desc_size1_mask))"

definition desc_data1_for :: "u32 \<Rightarrow> u32 \<Rightarrow> u32" where
  "desc_data1_for Buffer1 Length1 =
     (if Length1 > SYN_DP_MAX_DESC_BUFF then Buffer1 + SYN_DP_MAX_DESC_BUFF else 0)"

definition rx_desc_fill :: "u32 \<Rightarrow> u32 \<Rightarrow> dma_desc \<Rightarrow> dma_desc" where
  "rx_desc_fill Buffer1 Length1 d =
     d\<lparr>ds_length := desc_length_for Length1 (ds_length d),
       ds_buffer1 := Buffer1,
       ds_data1 := desc_data1_for Buffer1 Length1,
       ds_extstatus := 0, ds_timestamplow := 0, ds_timestamphigh := 0,
       ds_status := desc_own_by_dma\<rparr>"

definition syn_dp_set_rx_qptr ::
  "'a syn_dp_info_scheme \<Rightarrow> u32 \<Rightarrow> u32 \<Rightarrow> skb_ref \<Rightarrow> (u32 \<times> 'a syn_dp_info_scheme) result" where
  "syn_dp_set_rx_qptr dev_info Buffer1 Length1 skb =
     (let rxnext = rx_next dev_info; rxdesc = rx_next_desc dev_info; rx_skb_index = rxnext
      in bindR (BUG_ON (busy_rx_desc dev_info \<ge> rx_desc_count dev_info)) (\<lambda>_.
         bindR (BUG_ON (rxdesc \<noteq> unat rxnext)) (\<lambda>_.
         bindR (aget (rx_desc dev_info) rxdesc) (\<lambda>d.
         bindR (BUG_ON (\<not> syn_dp_gmac_is_desc_empty d)) (\<lambda>_.
         bindR (BUG_ON (syn_dp_gmac_is_desc_owned_by_dma d)) (\<lambda>_.
         bindR (aset (rx_skb_list dev_info) (unat rx_skb_index) (Some skb)) (\<lambda>skbs.
         bindR (aset (rx_desc dev_info) rxdesc (rx_desc_fill Buffer1 Length1 d)) (\<lambda>descs.
         let dev_info = dev_info\<lparr>rx_skb_list := skbs, rx_desc := descs\<rparr>;
             dev_info = dev_info\<lparr>rx_next := (rxnext + 1) AND (rx_desc_count dev_info - 1)\<rparr>;
             dev_info = dev_info\<lparr>rx_next_desc := unat (rx_next dev_info)\<rparr>;
             dev_info = dev_info\<lparr>busy_rx_desc := busy_rx_desc dev_info + 1\<rparr>
         in Inr (rxnext, dev_info)))))))))"

text \<open>\<open>n\<close> is the number of iterations the loop has left.\<close>

fun syn_dp_rx_refill_loop :: "syn_kernel \<Rightarrow> nat \<Rightarrow> syn_state \<Rightarrow> syn_state result" where
  "syn_dp_rx_refill_loop k 0 st = Inr st"
| "syn_dp_rx_refill_loop k (Suc n) st =
     (let a = sk_allocs st; st = st\<lparr>sk_allocs := Suc a\<rparr>
      in if \<not> k_netdev_alloc_skb k a then Inr st
         else
          (let st = kcalls [Alloc_skb a] st
           in case k_dma_map_rx k a of
                None \<Rightarrow> Inr (kcalls [Dev_kfree_skb (Alloc a)] st)
              | Some dma_addr \<Rightarrow>
                  bindR (syn_dp_set_rx_qptr st (ucast dma_addr) SYN_DP_MINI_JUMBO_FRAME_MTU (Alloc a))
                    (\<lambda>(i, st). syn_dp_rx_refill_loop k n st)))"

definition syn_dp_rx_refill :: "syn_kernel \<Rightarrow> syn_state \<Rightarrow> syn_state result" where
  "syn_dp_rx_refill k st =
     (let empty_count = int SYN_DP_RX_DESC_SIZE - uint (busy_rx_desc st)
      in syn_dp_rx_refill_loop k (nat empty_count) st)"

text \<open>The body of the receive loop, on a descriptor the DMA has given back.\<close>

definition rx_frame_length :: "syn_kernel \<Rightarrow> u32 \<Rightarrow> int" where
  "rx_frame_length k status = uint (syn_dp_gmac_get_rx_desc_frame_length status) - k_ETH_FCS_LEN k"

definition rx_frame_stats :: "syn_kernel \<Rightarrow> u32 \<Rightarrow> nss_dp_gmac_stats \<Rightarrow> nss_dp_gmac_stats" where
  "rx_frame_stats k status s =
     (if syn_dp_gmac_is_rx_desc_valid status
      then (let s = stat_add GS_rx_packets 1 s
            in stat_add GS_rx_bytes (word_of_int (rx_frame_length k status)) s)
      else
       (let s = stat_add GS_rx_errors 1 s
        in if status AND (desc_rx_crc OR desc_rx_collision OR desc_rx_overflow
                            OR desc_rx_dribbling OR desc_rx_length_error) \<noteq> 0
           then (let s = stat_add GS_mmc_rx_crc_errors (stat_flag status desc_rx_crc) s;
                     s = stat_add GS_rx_late_collision_errors (stat_flag status desc_rx_collision) s;
                     s = stat_add GS_mmc_rx_overflow_errors (stat_flag status desc_rx_overflow) s;
                     s = stat_add GS_rx_dribble_bit_errors (stat_flag status desc_rx_dribbling) s
                 in stat_add GS_rx_length_errors (stat_flag status desc_rx_length_error) s)
           else s))"

definition syn_dp_rx_one :: "syn_kernel \<Rightarrow> dma_desc \<Rightarrow> syn_state \<Rightarrow> syn_state result" where
  "syn_dp_rx_one k desc st =
     (let status = ds_status desc; rx_skb_index = rx_busy st
      in bindR (aget (rx_skb_list st) (unat rx_skb_index)) (\<lambda>rx_skb.
         let st = kcalls [Dma_unmap_single (ds_buffer1 desc) SYN_DP_MINI_JUMBO_FRAME_MTU DMA_FROM_DEVICE] st;
             st = st\<lparr>dp_stats := rx_frame_stats k status (dp_stats st)\<rparr>
         in bindR (if syn_dp_gmac_is_rx_desc_valid status
                   then (case rx_skb of
                           None \<Rightarrow> Inl Null_Pointer
                         | Some skb \<Rightarrow> Inr (kcalls [Napi_gro_receive skb (rx_frame_length k status)] st))
                   else (case rx_skb of
                           None \<Rightarrow> Inr st
                         | Some skb \<Rightarrow> Inr (kcalls [Dev_kfree_skb skb] st)))
            syn_dp_reset_rx_qptr))"

function syn_dp_rx_loop :: "syn_kernel \<Rightarrow> int \<Rightarrow> syn_state \<Rightarrow> (int \<times> syn_state) result" where
  "syn_dp_rx_loop k busy st =
     bindR (aget (rx_desc st) (rx_busy_desc st)) (\<lambda>desc.
       if syn_dp_gmac_is_desc_owned_by_dma desc then Inr (busy, st)
       else bindR (syn_dp_rx_one k desc st) (\<lambda>st.
              if busy - 1 > 0 then syn_dp_rx_loop k (busy - 1) st else Inr (busy - 1, st)))"
  by pat_completeness auto
termination
  by (relation "measure (\<lambda>(k, busy, st). nat busy)") auto

declare syn_dp_rx_loop.simps [simp del]

definition syn_dp_rx :: "syn_kernel \<Rightarrow> int \<Rightarrow> syn_state \<Rightarrow> (int \<times> syn_state) result" where
  "syn_dp_rx k budget st =
     (if busy_rx_desc st = 0 then Inr (0, st)
      else
       (let busy = sint (busy_rx_desc st);
            busy = (if busy > budget then budget else busy)
        in bindR (syn_dp_rx_loop k busy st) (\<lambda>(busy, st). Inr (budget - busy, st))))"

section \<open>Transmit\<close>

definition syn_dp_reset_tx_qptr :: "'a syn_dp_info_scheme \<Rightarrow> 'a syn_dp_info_scheme result" where
  "syn_dp_reset_tx_qptr dev_info =
     (let txover = tx_busy dev_info; txdesc = tx_busy_desc dev_info
      in bindR (BUG_ON (txdesc \<noteq> unat txover)) (\<lambda>_.
         let dev_info = dev_info\<lparr>tx_busy := (txover + 1) AND (tx_desc_count dev_info - 1)\<rparr>;
             dev_info = dev_info\<lparr>tx_busy_desc := unat (tx_busy dev_info)\<rparr>
         in bindR (aset (tx_skb_list dev_info) (unat txover) None) (\<lambda>skbs.
            bindR (aget (tx_desc dev_info) txdesc) (\<lambda>d.
            bindR (aset (tx_desc dev_info) txdesc
                     (d\<lparr>ds_status := ds_status d AND desc_tx_desc_end_of_ring, ds_length := 0,
                        ds_buffer1 := 0, ds_data1 := 0, ds_reserved1 := 0\<rparr>)) (\<lambda>descs.
            Inr (dev_info\<lparr>tx_skb_list := skbs, tx_desc := descs,
                   busy_tx_desc := busy_tx_desc dev_info - 1\<rparr>))))))"

definition tx_desc_fill :: "u32 \<Rightarrow> u32 \<Rightarrow> bool \<Rightarrow> u32 \<Rightarrow> u32 \<Rightarrow> dma_desc \<Rightarrow> dma_desc" where
  "tx_desc_fill Buffer1 Length1 offload_needed tx_cntl set_dma d =
     (let d = d\<lparr>ds_length := desc_length_for Length1 (ds_length d)\<rparr>;
          d = d\<lparr>ds_status := ds_status d OR tx_cntl\<rparr>;
          d = d\<lparr>ds_buffer1 := Buffer1\<rparr>;
          d = d\<lparr>ds_data1 := desc_data1_for Buffer1 Length1\<rparr>;
          d = (if offload_needed then syn_dp_gmac_tx_checksum_offload_tcp_pseudo d else d)
      in d\<lparr>ds_status := ds_status d OR set_dma\<rparr>)"

definition syn_dp_set_tx_qptr ::
  "'a syn_dp_info_scheme \<Rightarrow> u32 \<Rightarrow> u32 \<Rightarrow> skb_ref \<Rightarrow> bool \<Rightarrow> u32 \<Rightarrow> u32 \<Rightarrow> 'a syn_dp_info_scheme result" where
  "syn_dp_set_tx_qptr dev_info Buffer1 Length1 skb offload_needed tx_cntl set_dma =
     (let txnext = tx_next dev_info; txdesc = tx_next_desc dev_info; tx_skb_index = txnext
      in bindR (BUG_ON (busy_tx_desc dev_info > tx_desc_count dev_info)) (\<lambda>_.
         bindR (BUG_ON (txdesc \<noteq> unat txnext)) (\<lambda>_.
         bindR (aget (tx_desc dev_info) txdesc) (\<lambda>d.
         bindR (BUG_ON (\<not> syn_dp_gmac_is_desc_empty d)) (\<lambda>_.
         bindR (BUG_ON (syn_dp_gmac_is_desc_owned_by_dma d)) (\<lambda>_.
         bindR (aset (tx_skb_list dev_info) (unat tx_skb_index) (Some skb)) (\<lambda>skbs.
         bindR (aset (tx_desc dev_info) txdesc
                  (tx_desc_fill Buffer1 Length1 offload_needed tx_cntl set_dma d)) (\<lambda>descs.
         let dev_info = dev_info\<lparr>tx_skb_list := skbs, tx_desc := descs\<rparr>;
             dev_info = dev_info\<lparr>tx_next := (txnext + 1) AND (tx_desc_count dev_info - 1)\<rparr>
         in Inr (dev_info\<lparr>tx_next_desc := unat (tx_next dev_info)\<rparr>)))))))))"

definition syn_dp_tx_desc_queue ::
  "'a syn_dp_info_scheme \<Rightarrow> sk_buff \<Rightarrow> u64 \<Rightarrow> 'a syn_dp_info_scheme result" where
  "syn_dp_tx_desc_queue dev_info skb dma_addr =
     bindR (syn_dp_set_tx_qptr dev_info (ucast dma_addr) (skb_len skb) (skb_ref skb) (skb_partial skb)
              (desc_tx_last OR desc_tx_first OR desc_tx_int_enable) desc_own_by_dma) (\<lambda>dev_info.
     Inr (dev_info\<lparr>busy_tx_desc := busy_tx_desc dev_info + 1\<rparr>))"

definition tx_done_stats :: "u32 \<Rightarrow> u32 \<Rightarrow> nss_dp_gmac_stats \<Rightarrow> nss_dp_gmac_stats" where
  "tx_done_stats status len s =
     (if status AND desc_tx_error \<noteq> 0
      then (let s = stat_add GS_tx_errors 1 s;
                s = stat_add GS_tx_jabber_timeout_errors (stat_flag status desc_tx_timeout) s;
                s = stat_add GS_tx_frame_flushed_errors (stat_flag status desc_tx_frame_flushed) s;
                s = stat_add GS_tx_loss_of_carrier_errors (stat_flag status desc_tx_lost_carrier) s;
                s = stat_add GS_tx_no_carrier_errors (stat_flag status desc_tx_no_carrier) s;
                s = stat_add GS_tx_late_collision_errors (stat_flag status desc_tx_late_collision) s;
                s = stat_add GS_tx_excessive_collision_errors (stat_flag status desc_tx_exc_collisions) s;
                s = stat_add GS_tx_excessive_deferral_errors (stat_flag status desc_tx_exc_deferral) s;
                s = stat_add GS_tx_underflow_errors (stat_flag status desc_tx_underflow) s;
                s = stat_add GS_tx_ip_header_errors (stat_flag status desc_tx_ipv4_chk_error) s
            in stat_add GS_tx_ip_payload_errors (stat_flag status desc_tx_pay_chk_error) s)
      else (let s = stat_add GS_tx_packets 1 s;
                s = stat_add GS_tx_collisions (ucast (syn_dp_gmac_get_tx_collision_count status)) s
            in stat_add GS_tx_bytes (ucast len) s))"

text \<open>The body of the completion loop, on a descriptor the DMA has given back.\<close>

definition syn_dp_tx_complete_one :: "dma_desc \<Rightarrow> syn_state \<Rightarrow> syn_state result" where
  "syn_dp_tx_complete_one desc st =
     (let len = drop_bit desc_size1_shift (ds_length desc AND desc_size1_mask);
          st = kcalls [Dma_unmap_single (ds_buffer1 desc) len DMA_TO_DEVICE] st;
          status = ds_status desc
      in bindR (if status AND desc_tx_last \<noteq> 0
                then
                 (let tx_skb_index = tx_busy st
                  in bindR (aget (tx_skb_list st) (unat tx_skb_index)) (\<lambda>skb.
                     bindR (BUG_ON (skb = None)) (\<lambda>_.
                     let st = kcalls [Dev_kfree_skb (the skb)] st
                     in Inr (st\<lparr>dp_stats := tx_done_stats status len (dp_stats st)\<rparr>))))
                else Inr st)
         syn_dp_reset_tx_qptr)"

function syn_dp_tx_complete_loop :: "int \<Rightarrow> syn_state \<Rightarrow> syn_state result" where
  "syn_dp_tx_complete_loop busy st =
     bindR (aget (tx_desc st) (tx_busy_desc st)) (\<lambda>desc.
       if syn_dp_gmac_is_desc_owned_by_dma desc then Inr st
       else bindR (syn_dp_tx_complete_one desc st) (\<lambda>st.
              if busy - 1 > 0 then syn_dp_tx_complete_loop (busy - 1) st else Inr st))"
  by pat_completeness auto
termination
  by (relation "measure (\<lambda>(busy, st). nat busy)") auto

declare syn_dp_tx_complete_loop.simps [simp del]

definition syn_dp_process_tx_complete :: "syn_state \<Rightarrow> syn_state result" where
  "syn_dp_process_tx_complete st =
     (let busy = sint (busy_tx_desc st)
      in if busy = 0 then Inr st else syn_dp_tx_complete_loop busy st)"

text \<open>The availability test comes before, and outside, the critical section of the queueing.\<close>

definition syn_dp_tx_avail :: "'a syn_dp_info_scheme \<Rightarrow> bool" where
  "syn_dp_tx_avail dev_info \<longleftrightarrow> \<not> (of_nat SYN_DP_TX_DESC_SIZE - busy_tx_desc dev_info < 1)"

definition syn_dp_tx ::
  "syn_kernel \<Rightarrow> 'n nss_gmac_hal_dev_scheme \<Rightarrow> sk_buff \<Rightarrow> syn_state
     \<Rightarrow> (int \<times> 'n nss_gmac_hal_dev_scheme \<times> syn_state) result" where
  "syn_dp_tx k nghd skb st =
     (if \<not> syn_dp_tx_avail st then Inr (-1, nghd, st)
      else
       (case k_dma_map_tx k (skb_ref skb) of
          None \<Rightarrow> Inr (-1, nghd, st)
        | Some dma_addr \<Rightarrow>
            bindR (syn_dp_tx_desc_queue st skb dma_addr) (\<lambda>st.
            Inr (0, syn_resume_dma_tx nghd, st))))"

section \<open>Set-up and clean-up\<close>

datatype desc_mode = RINGMODE | CHAINMODE

definition syn_dp_setup_rx_desc_queue ::
  "syn_kernel \<Rightarrow> u32 \<Rightarrow> desc_mode \<Rightarrow> syn_state \<Rightarrow> (status \<times> syn_state) result" where
  "syn_dp_setup_rx_desc_queue k no_of_desc mode dev_info =
     (let dev_info = dev_info\<lparr>rx_desc_count := 0\<rparr>
      in bindR (BUG_ON (mode \<noteq> RINGMODE)) (\<lambda>_.
         bindR (BUG_ON (no_of_desc AND (no_of_desc - 1) \<noteq> 0)) (\<lambda>_.
         case k_dma_alloc_rx k of
           None \<Rightarrow> Inr (Errno ENOMEM, dev_info)
         | Some dma_addr \<Rightarrow>
             Inr (Success, dev_info\<lparr>rx_desc_count := no_of_desc,
               rx_desc := syn_dp_gmac_rx_desc_init_ring (unat no_of_desc),
               rx_desc_dma := dma_addr, rx_next := 0, rx_busy := 0,
               rx_next_desc := 0, rx_busy_desc := 0, busy_rx_desc := 0\<rparr>))))"

definition syn_dp_setup_tx_desc_queue ::
  "syn_kernel \<Rightarrow> u32 \<Rightarrow> desc_mode \<Rightarrow> syn_state \<Rightarrow> (status \<times> syn_state) result" where
  "syn_dp_setup_tx_desc_queue k no_of_desc mode dev_info =
     (let dev_info = dev_info\<lparr>tx_desc_count := 0\<rparr>
      in bindR (BUG_ON (mode \<noteq> RINGMODE)) (\<lambda>_.
         bindR (BUG_ON (no_of_desc AND (no_of_desc - 1) \<noteq> 0)) (\<lambda>_.
         case k_dma_alloc_tx k of
           None \<Rightarrow> Inr (Errno ENOMEM, dev_info)
         | Some dma_addr \<Rightarrow>
             Inr (Success, dev_info\<lparr>tx_desc_count := no_of_desc,
               tx_desc := syn_dp_gmac_tx_desc_init_ring (unat no_of_desc),
               tx_desc_dma := dma_addr, tx_next := 0, tx_busy := 0,
               tx_next_desc := 0, tx_busy_desc := 0, busy_tx_desc := 0\<rparr>))))"

definition syn_dp_setup_rings ::
  "syn_kernel \<Rightarrow> 'n nss_gmac_hal_dev_scheme \<Rightarrow> syn_state
     \<Rightarrow> (status \<times> 'n nss_gmac_hal_dev_scheme \<times> syn_state) result" where
  "syn_dp_setup_rings k nghd st =
     bindR (syn_dp_setup_rx_desc_queue k (of_nat SYN_DP_RX_DESC_SIZE) RINGMODE st) (\<lambda>(err, st).
     if failed err then Inr (Failure, nghd, st)
     else
       bindR (syn_dp_setup_tx_desc_queue k (of_nat SYN_DP_TX_DESC_SIZE) RINGMODE st) (\<lambda>(err, st).
       if failed err then Inr (Failure, nghd, st)
       else
         bindR (syn_dp_rx_refill k st) (\<lambda>st.
         let nghd = syn_init_tx_desc_base nghd (ucast (tx_desc_dma st));
             nghd = syn_init_rx_desc_base nghd (ucast (rx_desc_dma st))
         in Inr (Success, nghd, st))))"

text \<open>The two clean-up loops; \<open>n\<close> iterations are left.\<close>

fun syn_dp_cleanup_rx_loop :: "nat \<Rightarrow> u32 \<Rightarrow> syn_state \<Rightarrow> syn_state result" where
  "syn_dp_cleanup_rx_loop 0 rx_skb_index st = Inr st"
| "syn_dp_cleanup_rx_loop (Suc n) rx_skb_index st =
     (let rx_skb_index = rx_skb_index AND (rx_desc_count st - 1)
      in bindR (aget (rx_desc st) (rx_busy_desc st)) (\<lambda>rxdesc.
         let st = kcalls [Dma_unmap_single (ds_buffer1 rxdesc) SYN_DP_MINI_JUMBO_FRAME_MTU DMA_FROM_DEVICE] st
         in bindR (aget (rx_skb_list st) (unat rx_skb_index)) (\<lambda>skb.
            case skb of
              None \<Rightarrow> syn_dp_cleanup_rx_loop n rx_skb_index st
            | Some s \<Rightarrow>
                bindR (aset (rx_skb_list st) (unat rx_skb_index) None) (\<lambda>skbs.
                syn_dp_cleanup_rx_loop n rx_skb_index
                  ((kcalls [Dev_kfree_skb s] st)\<lparr>rx_skb_list := skbs\<rparr>)))))"

fun syn_dp_cleanup_tx_loop :: "nat \<Rightarrow> u32 \<Rightarrow> syn_state \<Rightarrow> syn_state result" where
  "syn_dp_cleanup_tx_loop 0 tx_skb_index st = Inr st"
| "syn_dp_cleanup_tx_loop (Suc n) tx_skb_index st =
     (let tx_skb_index = tx_skb_index AND (tx_desc_count st - 1)
      in bindR (aget (tx_desc st) (tx_busy_desc st)) (\<lambda>txdesc.
         let st = kcalls [Dma_unmap_single (ds_buffer1 txdesc) SYN_DP_MINI_JUMBO_FRAME_MTU DMA_FROM_DEVICE] st
         in bindR (aget (tx_skb_list st) (unat tx_skb_index)) (\<lambda>skb.
            case skb of
              None \<Rightarrow> syn_dp_cleanup_tx_loop n tx_skb_index st
            | Some s \<Rightarrow>
                bindR (aset (tx_skb_list st) (unat tx_skb_index) None) (\<lambda>skbs.
                syn_dp_cleanup_tx_loop n tx_skb_index
                  ((kcalls [Dev_kfree_skb s] st)\<lparr>tx_skb_list := skbs\<rparr>)))))"

definition syn_dp_cleanup_rings :: "syn_state \<Rightarrow> syn_state result" where
  "syn_dp_cleanup_rings st =
     bindR (syn_dp_cleanup_rx_loop (unat (busy_rx_desc st)) (rx_busy st) st) (\<lambda>st.
     let st = kcalls [Dma_free_coherent (rx_desc_dma st)] st
     in bindR (syn_dp_cleanup_tx_loop (unat (busy_tx_desc st)) (tx_busy st) st) (\<lambda>st.
        Inr (kcalls [Dma_free_coherent (tx_desc_dma st)] st)))"

section \<open>The ring invariant\<close>

text \<open>
  One half of the state (receive or transmit) is well formed when its indices and pointers
  agree with a ring of 128 cells holding \<open>nb\<close> entries from \<open>bi\<close> on, the cells of the
  entries hold a buffer and a busy descriptor, and the other descriptors are empty and not
  owned by the DMA.
\<close>

definition free_desc :: "dma_desc \<Rightarrow> bool" where
  "free_desc d \<longleftrightarrow> syn_dp_gmac_is_desc_empty d \<and> \<not> syn_dp_gmac_is_desc_owned_by_dma d"

definition ring_wf ::
  "(dma_desc \<Rightarrow> bool) \<Rightarrow> skb_ref option list \<Rightarrow> dma_desc list \<Rightarrow> u32 \<Rightarrow> u32 \<Rightarrow> u32 \<Rightarrow> nat \<Rightarrow> nat \<Rightarrow> u32 \<Rightarrow> bool" where
  "ring_wf busy_ok skbs descs count bi nx bd nd nb \<longleftrightarrow>
     length skbs = 128 \<and> length descs = 128 \<and> count = 128 \<and> unat bi < 128 \<and> unat nb \<le> 128
   \<and> unat nx = (unat bi + unat nb) mod 128 \<and> bd = unat bi \<and> nd = unat nx
   \<and> list_all (\<lambda>x. x \<noteq> None) (ring_slice skbs (unat bi) (unat nb))
   \<and> list_all busy_ok (ring_slice descs (unat bi) (unat nb))
   \<and> list_all free_desc (ring_slice descs (unat nx) (128 - unat nb))"

lemma ring_succ: "unat (x :: u32) < 128 \<Longrightarrow> unat ((x + 1) AND (128 - 1)) = Suc (unat x) mod 128"
proof -
  assume x: "unat x < 128"
  have "(128 - 1 :: u32) = mask 7" by (simp add: mask_eq_exp_minus_1)
  then have "(x + 1) AND (128 - 1) = take_bit 7 (x + 1)" by (simp add: take_bit_eq_mask)
  then have "unat ((x + 1) AND (128 - 1)) = unat (x + 1) mod 128"
    by (simp only: unsigned_take_bit_eq) (simp add: take_bit_eq_mod)
  moreover have "unat (x + 1) = Suc (unat x)"
    using x by (subst unat_add_lem [THEN iffD1]) auto
  ultimately show ?thesis by simp
qed

lemma list_all_tl: "list_all Q ys \<Longrightarrow> list_all Q (tl ys)"
  by (cases ys) simp_all

lemma unat_dec: "0 < unat (x :: u32) \<Longrightarrow> unat (x - 1) = unat x - 1"
  by (simp add: unat_minus_one unat_gt_0)

lemma unat_inc: "unat (x :: u32) < 128 \<Longrightarrow> unat (x + 1) = Suc (unat x)"
  by (subst unat_add_lem [THEN iffD1]) auto

lemma ring_wf_facts:
  assumes "ring_wf P skbs descs c bi nx bd nd nb"
  shows "length skbs = 128" "length descs = 128" "c = 128" "unat bi < 128" "unat nx < 128"
    "unat nb \<le> 128" "bd = unat bi" "nd = unat nx"
  using assms by (auto simp: ring_wf_def)

lemma ring_wf_next: "ring_wf P skbs descs c bi nx bd nd nb \<Longrightarrow> unat nx = (unat bi + unat nb) mod 128"
  unfolding ring_wf_def by blast

lemma ring_wf_slices:
  assumes "ring_wf P skbs descs c bi nx bd nd nb"
  shows "list_all (\<lambda>x. x \<noteq> None) (ring_slice skbs (unat bi) (unat nb))"
    and "list_all P (ring_slice descs (unat bi) (unat nb))"
    and "list_all free_desc (ring_slice descs (unat nx) (128 - unat nb))"
  using assms unfolding ring_wf_def by blast+

lemma ring_wf_push:
  assumes wf: "ring_wf P skbs descs c bi nx bd nd nb" and nb: "unat nb < 128" and d: "P d"
  shows "ring_wf P (skbs[unat nx := Some x]) (descs[unat nx := d]) c bi
           ((nx + 1) AND (c - 1)) bd (unat ((nx + 1) AND (c - 1))) (nb + 1)"
proof -
  note f = ring_wf_facts [OF wf] and nx = ring_wf_next [OF wf] and w = ring_wf_slices [OF wf]
  have nb': "unat (nb + 1) = Suc (unat nb)" using nb by (rule unat_inc)
  have nx': "unat ((nx + 1) AND (c - 1)) = (unat bi + Suc (unat nb)) mod 128"
    using ring_succ [of nx] nx f(3) by (simp add: mod_simps)
  have e1: "ring_slice (skbs[unat nx := Some x]) (unat bi) (unat (nb + 1))
      = ring_slice skbs (unat bi) (unat nb) @ [Some x]"
    using ring_push_busy [of "unat nb" skbs "unat bi" "Some x"] nb f(1) nx nb' by simp
  have e2: "ring_slice (descs[unat nx := d]) (unat bi) (unat (nb + 1))
      = ring_slice descs (unat bi) (unat nb) @ [d]"
    using ring_push_busy [of "unat nb" descs "unat bi" d] nb f(2) nx nb' by simp
  have e3: "ring_slice (descs[unat nx := d]) (unat ((nx + 1) AND (c - 1))) (128 - unat (nb + 1))
      = tl (ring_slice descs (unat nx) (128 - unat nb))"
    using ring_push_free [of "unat nb" descs "unat bi" d] nb f(2) nx nb' nx' by simp
  have n3: "unat ((nx + 1) AND (c - 1)) = (unat bi + unat (nb + 1)) mod 128"
    using nx' nb' by simp
  show ?thesis
    unfolding ring_wf_def e1 e2 e3
    by (intro conjI n3 list_all_tl w) (use f nb nb' w(1,2) d in simp_all)
qed

lemma ring_wf_pop:
  assumes wf: "ring_wf P skbs descs c bi nx bd nd nb" and nb: "0 < unat nb" and d: "free_desc d"
  shows "ring_wf P (skbs[unat bi := x]) (descs[unat bi := d]) c
           ((bi + 1) AND (c - 1)) nx (unat ((bi + 1) AND (c - 1))) nd (nb - 1)"
proof -
  note f = ring_wf_facts [OF wf] and nx = ring_wf_next [OF wf] and w = ring_wf_slices [OF wf]
  have bi': "unat ((bi + 1) AND (c - 1)) = Suc (unat bi) mod 128"
    using ring_succ f(3,4) by simp
  have nb': "unat (nb - 1) = unat nb - 1" using nb by (rule unat_dec)
  obtain m where m: "unat nb = Suc m" using nb by (cases "unat nb") auto
  have e1: "ring_slice (skbs[unat bi := x]) (unat ((bi + 1) AND (c - 1))) (unat (nb - 1))
      = tl (ring_slice skbs (unat bi) (unat nb))"
    using ring_pop_busy [of m skbs "unat bi" x] f(1,4,6) bi' nb' m by simp
  have e2: "ring_slice (descs[unat bi := d]) (unat ((bi + 1) AND (c - 1))) (unat (nb - 1))
      = tl (ring_slice descs (unat bi) (unat nb))"
    using ring_pop_busy [of m descs "unat bi" d] f(2,4,6) bi' nb' m by simp
  have e3: "ring_slice (descs[unat bi := d]) (unat nx) (128 - unat (nb - 1))
      = ring_slice descs (unat nx) (128 - unat nb) @ [d]"
    using ring_pop_free [of m descs "unat bi" d] f(2,4,6) nx nb' m by (simp add: add.commute)
  have n3: "unat nx = (unat ((bi + 1) AND (c - 1)) + unat (nb - 1)) mod 128"
    using nx bi' nb' m by (simp add: mod_simps)
  show ?thesis
    unfolding ring_wf_def e1 e2 e3
    by (intro conjI n3 list_all_tl w) (use f bi' nb' w(3) d in simp_all)
qed

lemma ring_wf_next_free:
  assumes wf: "ring_wf P skbs descs c bi nx bd nd nb" and nb: "unat nb < 128"
  shows "free_desc (descs ! unat nx)"
proof -
  have "ring_slice descs (unat nx) (128 - unat nb) ! 0 = descs ! unat nx"
    using ring_wf_facts [OF wf] nb by simp
  moreover have "list_all free_desc (ring_slice descs (unat nx) (128 - unat nb))"
    using wf unfolding ring_wf_def by blast
  ultimately show ?thesis using nb by (metis list_all_length ring_slice_length zero_less_diff)
qed

lemma ring_wf_busy:
  assumes wf: "ring_wf P skbs descs c bi nx bd nd nb" and k: "k < unat nb"
  shows "skbs ! ((unat bi + k) mod 128) \<noteq> None" "P (descs ! ((unat bi + k) mod 128))"
proof -
  have "list_all (\<lambda>x. x \<noteq> None) (ring_slice skbs (unat bi) (unat nb))"
    "list_all P (ring_slice descs (unat bi) (unat nb))"
    using wf by (simp_all add: ring_wf_def)
  then show "skbs ! ((unat bi + k) mod 128) \<noteq> None" "P (descs ! ((unat bi + k) mod 128))"
    using k ring_wf_facts [OF wf] by (auto simp: list_all_length)
qed

text \<open>The entries of a half, oldest first.\<close>

definition ring_entries ::
  "skb_ref option list \<Rightarrow> dma_desc list \<Rightarrow> u32 \<Rightarrow> u32 \<Rightarrow> (skb_ref \<times> dma_desc) list" where
  "ring_entries skbs descs bi nb =
     zip (map the (ring_slice skbs (unat bi) (unat nb))) (ring_slice descs (unat bi) (unat nb))"

lemma ring_entries_length [simp]: "length (ring_entries skbs descs bi nb) = unat nb"
  by (simp add: ring_entries_def)

lemma ring_entries_push:
  assumes wf: "ring_wf P skbs descs c bi nx bd nd nb" and nb: "unat nb < 128"
  shows "ring_entries (skbs[unat nx := Some x]) (descs[unat nx := d]) bi (nb + 1)
       = ring_entries skbs descs bi nb @ [(x, d)]"
proof -
  have nx: "unat nx = (unat bi + unat nb) mod 128" using wf by (simp add: ring_wf_def)
  show ?thesis
    using ring_push_busy [of "unat nb" skbs "unat bi" "Some x"] nx nb
      ring_push_busy [of "unat nb" descs "unat bi" d] ring_wf_facts [OF wf]
    by (simp add: ring_entries_def unat_inc)
qed

lemma ring_entries_pop:
  assumes wf: "ring_wf P skbs descs c bi nx bd nd nb" and nb: "0 < unat nb"
  shows "ring_entries (skbs[unat bi := x]) (descs[unat bi := d]) ((bi + 1) AND (c - 1)) (nb - 1)
       = tl (ring_entries skbs descs bi nb)"
proof -
  obtain m where m: "unat nb = Suc m" using nb by (cases "unat nb") auto
  have f: "length skbs = 128" "length descs = 128" "unat bi < 128" "m < 128"
    "unat ((bi + 1) AND (c - 1)) = Suc (unat bi) mod 128" "unat (nb - 1) = m"
    using ring_wf_facts [OF wf] ring_succ [of bi] unat_dec [OF nb] m by auto
  then show ?thesis
    using ring_pop_busy [of m skbs "unat bi" x] ring_pop_busy [of m descs "unat bi" d] m
    by (simp add: ring_entries_def ring_slice_Cons)
qed

lemma ring_entries_hd:
  assumes wf: "ring_wf P skbs descs c bi nx bd nd nb" and nb: "0 < unat nb"
  shows "skbs ! unat bi = Some (fst (hd (ring_entries skbs descs bi nb)))"
    and "descs ! unat bi = snd (hd (ring_entries skbs descs bi nb))"
    and "P (descs ! unat bi)"
proof -
  obtain m where m: "unat nb = Suc m" using nb by (cases "unat nb") auto
  have "skbs ! unat bi \<noteq> None" "P (descs ! unat bi)"
    using ring_wf_busy [OF wf nb] ring_wf_facts [OF wf] by simp_all
  then show "skbs ! unat bi = Some (fst (hd (ring_entries skbs descs bi nb)))"
    "descs ! unat bi = snd (hd (ring_entries skbs descs bi nb))" "P (descs ! unat bi)"
    using m ring_wf_facts [OF wf] by (auto simp: ring_entries_def ring_slice_Cons)
qed

section \<open>The two halves as bounded FIFOs\<close>

definition rx_inv :: "'a syn_dp_info_scheme \<Rightarrow> bool" where
  "rx_inv st \<longleftrightarrow> ring_wf (\<lambda>_. True) (rx_skb_list st) (rx_desc st) (rx_desc_count st) (rx_busy st)
     (rx_next st) (rx_busy_desc st) (rx_next_desc st) (busy_rx_desc st)"

text \<open>A queued transmit descriptor carries a whole frame: its last-segment bit is set.\<close>

definition tx_inv :: "'a syn_dp_info_scheme \<Rightarrow> bool" where
  "tx_inv st \<longleftrightarrow> ring_wf (\<lambda>d. ds_status d AND desc_tx_last \<noteq> 0) (tx_skb_list st) (tx_desc st)
     (tx_desc_count st) (tx_busy st) (tx_next st) (tx_busy_desc st) (tx_next_desc st) (busy_tx_desc st)"

definition rx_entries :: "'a syn_dp_info_scheme \<Rightarrow> (skb_ref \<times> dma_desc) list" where
  "rx_entries st = ring_entries (rx_skb_list st) (rx_desc st) (rx_busy st) (busy_rx_desc st)"

definition tx_entries :: "'a syn_dp_info_scheme \<Rightarrow> (skb_ref \<times> dma_desc) list" where
  "tx_entries st = ring_entries (tx_skb_list st) (tx_desc st) (tx_busy st) (busy_tx_desc st)"

lemma entries_length [simp]:
  "length (rx_entries st) = unat (busy_rx_desc st)" "length (tx_entries st) = unat (busy_tx_desc st)"
  by (simp_all add: rx_entries_def tx_entries_def)

text \<open>What the operations of one half leave alone: the other half.\<close>

definition rx_half where
  "rx_half st = (rx_skb_list st, rx_desc st, rx_desc_count st, rx_busy st, rx_next st,
     rx_busy_desc st, rx_next_desc st, busy_rx_desc st, rx_desc_dma st)"

definition tx_half where
  "tx_half st = (tx_skb_list st, tx_desc st, tx_desc_count st, tx_busy st, tx_next st,
     tx_busy_desc st, tx_next_desc st, busy_tx_desc st, tx_desc_dma st)"

lemma rx_half_eq:
  "rx_half st = rx_half st' \<Longrightarrow> rx_inv st = rx_inv st'"
  "rx_half st = rx_half st' \<Longrightarrow> rx_entries st = rx_entries st'"
  by (simp_all add: rx_half_def rx_inv_def rx_entries_def)

lemma tx_half_eq:
  "tx_half st = tx_half st' \<Longrightarrow> tx_inv st = tx_inv st'"
  "tx_half st = tx_half st' \<Longrightarrow> tx_entries st = tx_entries st'"
  by (simp_all add: tx_half_def tx_inv_def tx_entries_def)

lemma set_rx_qptr_ok:
  assumes inv: "rx_inv st" and room: "unat (busy_rx_desc st) < 128"
  shows "\<exists>st'. syn_dp_set_rx_qptr st b l skb = Inr (rx_next st, st') \<and> rx_inv st'
    \<and> rx_entries st' = rx_entries st @ [(skb, rx_desc_fill b l (rx_desc st ! rx_next_desc st))]
    \<and> tx_half st' = tx_half st \<and> dp_stats st' = dp_stats st
    \<and> syn_dp_info.more st' = syn_dp_info.more st \<and> rx_desc_dma st' = rx_desc_dma st"
proof -
  note wf = inv [unfolded rx_inv_def]
  note f = ring_wf_facts [OF wf]
  have "free_desc (rx_desc st ! unat (rx_next st))" by (rule ring_wf_next_free [OF wf room])
  then have free: "syn_dp_gmac_is_desc_empty (rx_desc st ! unat (rx_next st))"
    "\<not> syn_dp_gmac_is_desc_owned_by_dma (rx_desc st ! unat (rx_next st))"
    by (simp_all add: free_desc_def)
  have busy: "\<not> rx_desc_count st \<le> busy_rx_desc st"
    using f(3) room by (simp add: word_le_nat_alt)
  define d where "d = rx_desc_fill b l (rx_desc st ! rx_next_desc st)"
  define st' where "st' = st\<lparr>rx_skb_list := (rx_skb_list st)[unat (rx_next st) := Some skb],
    rx_desc := (rx_desc st)[unat (rx_next st) := d],
    rx_next := (rx_next st + 1) AND (rx_desc_count st - 1),
    rx_next_desc := unat ((rx_next st + 1) AND (rx_desc_count st - 1)),
    busy_rx_desc := busy_rx_desc st + 1\<rparr>"
  have eq: "syn_dp_set_rx_qptr st b l skb = Inr (rx_next st, st')"
    using free busy f
    by (simp add: syn_dp_set_rx_qptr_def BUG_ON_not aget_in aset_in st'_def d_def Let_def)
  have wf': "rx_inv st'"
    using ring_wf_push [OF wf room, where x = skb and d = d] by (simp add: st'_def rx_inv_def)
  have ent: "rx_entries st' = rx_entries st @ [(skb, d)]"
    using ring_entries_push [OF wf room, of skb d] by (simp add: st'_def rx_entries_def)
  show ?thesis
    using eq wf' ent by (auto simp: st'_def d_def tx_half_def)
qed

lemma reset_rx_qptr_ok:
  assumes inv: "rx_inv st" and busy: "0 < unat (busy_rx_desc st)"
  shows "\<exists>st'. syn_dp_reset_rx_qptr st = Inr st' \<and> rx_inv st' \<and> rx_entries st' = tl (rx_entries st)
    \<and> tx_half st' = tx_half st \<and> dp_stats st' = dp_stats st
    \<and> syn_dp_info.more st' = syn_dp_info.more st \<and> rx_desc_dma st' = rx_desc_dma st"
proof -
  note wf = inv [unfolded rx_inv_def]
  note f = ring_wf_facts [OF wf]
  define d0 where "d0 = rx_desc st ! unat (rx_busy st)"
  define d where "d = d0\<lparr>ds_status := 0, ds_length := ds_length d0 AND desc_rx_desc_end_of_ring,
     ds_buffer1 := 0, ds_data1 := 0, ds_reserved1 := 0\<rparr>"
  have free: "free_desc d"
    by (simp add: free_desc_def d_def syn_dp_gmac_is_desc_empty_def and.assoc
                  syn_dp_gmac_is_desc_owned_by_dma_def)
  define st' where "st' = st\<lparr>rx_busy := (rx_busy st + 1) AND (rx_desc_count st - 1),
    rx_busy_desc := unat ((rx_busy st + 1) AND (rx_desc_count st - 1)),
    rx_skb_list := (rx_skb_list st)[unat (rx_busy st) := None],
    rx_desc := (rx_desc st)[unat (rx_busy st) := d], busy_rx_desc := busy_rx_desc st - 1\<rparr>"
  have eq: "syn_dp_reset_rx_qptr st = Inr st'"
    using f by (simp add: syn_dp_reset_rx_qptr_def aget_in aset_in st'_def d_def d0_def Let_def)
  have "rx_inv st'"
    using ring_wf_pop [OF wf busy free, of None] by (simp add: st'_def rx_inv_def)
  moreover have "rx_entries st' = tl (rx_entries st)"
    using ring_entries_pop [OF wf busy, of None d] by (simp add: st'_def rx_entries_def)
  ultimately show ?thesis using eq by (auto simp: st'_def tx_half_def)
qed

lemma tx_fill_last:
  assumes "desc_tx_last AND cntl = desc_tx_last"
  shows "ds_status (tx_desc_fill b l off cntl own d) AND desc_tx_last \<noteq> 0"
proof -
  have c: "bit cntl 29"
    using arg_cong [OF assms, of "\<lambda>w. bit w 29"] by (simp add: bit_simps)
  have "bit (ds_status (tx_desc_fill b l off cntl own d) AND desc_tx_last) 29"
    using c by (simp add: tx_desc_fill_def syn_dp_gmac_tx_checksum_offload_tcp_pseudo_def bit_simps Let_def)
  then show ?thesis by (metis bit_0_eq bot_apply bot_bool_def)
qed

lemma tx_desc_queue_ok:
  assumes inv: "tx_inv st" and room: "unat (busy_tx_desc st) < 128"
  shows "\<exists>st'. syn_dp_tx_desc_queue st skb a = Inr st' \<and> tx_inv st'
    \<and> tx_entries st' = tx_entries st @ [(skb_ref skb,
         tx_desc_fill (ucast a) (skb_len skb) (skb_partial skb)
           (desc_tx_last OR desc_tx_first OR desc_tx_int_enable) desc_own_by_dma
           (tx_desc st ! tx_next_desc st))]
    \<and> rx_half st' = rx_half st \<and> dp_stats st' = dp_stats st
    \<and> syn_dp_info.more st' = syn_dp_info.more st \<and> tx_desc_dma st' = tx_desc_dma st"
proof -
  note wf = inv [unfolded tx_inv_def]
  note f = ring_wf_facts [OF wf]
  have "free_desc (tx_desc st ! unat (tx_next st))" by (rule ring_wf_next_free [OF wf room])
  then have free: "syn_dp_gmac_is_desc_empty (tx_desc st ! unat (tx_next st))"
    "\<not> syn_dp_gmac_is_desc_owned_by_dma (tx_desc st ! unat (tx_next st))"
    by (simp_all add: free_desc_def)
  have busy: "\<not> tx_desc_count st < busy_tx_desc st"
    using f(3) room by (simp add: word_less_nat_alt)
  define cntl :: u32 where "cntl = desc_tx_last OR desc_tx_first OR desc_tx_int_enable"
  define d where "d = tx_desc_fill (ucast a) (skb_len skb) (skb_partial skb) cntl desc_own_by_dma
    (tx_desc st ! tx_next_desc st)"
  have last: "ds_status d AND desc_tx_last \<noteq> 0"
    unfolding d_def by (rule tx_fill_last) (simp add: cntl_def)
  define st' where "st' = st\<lparr>tx_skb_list := (tx_skb_list st)[unat (tx_next st) := Some (skb_ref skb)],
    tx_desc := (tx_desc st)[unat (tx_next st) := d],
    tx_next := (tx_next st + 1) AND (tx_desc_count st - 1),
    tx_next_desc := unat ((tx_next st + 1) AND (tx_desc_count st - 1)),
    busy_tx_desc := busy_tx_desc st + 1\<rparr>"
  have eq: "syn_dp_tx_desc_queue st skb a = Inr st'"
    using free busy f
    by (simp add: syn_dp_tx_desc_queue_def syn_dp_set_tx_qptr_def BUG_ON_not aget_in aset_in
          st'_def d_def cntl_def Let_def)
  have wf': "tx_inv st'"
    using ring_wf_push [OF wf room last] by (simp add: st'_def tx_inv_def)
  have ent: "tx_entries st' = tx_entries st @ [(skb_ref skb, d)]"
    using ring_entries_push [OF wf room, of "skb_ref skb" d] by (simp add: st'_def tx_entries_def)
  show ?thesis
    using eq wf' ent by (auto simp: st'_def d_def cntl_def rx_half_def)
qed

lemma reset_tx_qptr_ok:
  assumes inv: "tx_inv st" and busy: "0 < unat (busy_tx_desc st)"
  shows "\<exists>st'. syn_dp_reset_tx_qptr st = Inr st' \<and> tx_inv st' \<and> tx_entries st' = tl (tx_entries st)
    \<and> rx_half st' = rx_half st \<and> dp_stats st' = dp_stats st
    \<and> syn_dp_info.more st' = syn_dp_info.more st \<and> tx_desc_dma st' = tx_desc_dma st"
proof -
  note wf = inv [unfolded tx_inv_def]
  note f = ring_wf_facts [OF wf]
  define d0 where "d0 = tx_desc st ! unat (tx_busy st)"
  define d where "d = d0\<lparr>ds_status := ds_status d0 AND desc_tx_desc_end_of_ring, ds_length := 0,
     ds_buffer1 := 0, ds_data1 := 0, ds_reserved1 := 0\<rparr>"
  have free: "free_desc d"
    by (simp add: free_desc_def d_def syn_dp_gmac_is_desc_empty_def and.assoc
                  syn_dp_gmac_is_desc_owned_by_dma_def)
  define st' where "st' = st\<lparr>tx_busy := (tx_busy st + 1) AND (tx_desc_count st - 1),
    tx_busy_desc := unat ((tx_busy st + 1) AND (tx_desc_count st - 1)),
    tx_skb_list := (tx_skb_list st)[unat (tx_busy st) := None],
    tx_desc := (tx_desc st)[unat (tx_busy st) := d], busy_tx_desc := busy_tx_desc st - 1\<rparr>"
  have eq: "syn_dp_reset_tx_qptr st = Inr st'"
    using f by (simp add: syn_dp_reset_tx_qptr_def aget_in aset_in st'_def d_def d0_def Let_def)
  have "tx_inv st'"
    using ring_wf_pop [OF wf busy free, of None] by (simp add: st'_def tx_inv_def)
  moreover have "tx_entries st' = tl (tx_entries st)"
    using ring_entries_pop [OF wf busy, of None d] by (simp add: st'_def tx_entries_def)
  ultimately show ?thesis using eq by (auto simp: st'_def rx_half_def)
qed

interpretation rxq: fifo_ring rx_inv rx_entries 128
  "\<lambda>(b, l, skb) st. bindR (syn_dp_set_rx_qptr st b l skb) (\<lambda>(i, st). Inr st)"
  "\<lambda>(b, l, skb) st. (skb, rx_desc_fill b l (rx_desc st ! rx_next_desc st))"
  syn_dp_reset_rx_qptr
proof (unfold_locales, goal_cases)
  case (1 s)
  then show ?case using ring_wf_facts(6) by (auto simp: rx_inv_def)
next
  case (2 s a)
  then show ?case
    using set_rx_qptr_ok [of s "fst a" "fst (snd a)" "snd (snd a)"] by (auto split: prod.splits)
next
  case (3 s)
  then have "0 < unat (busy_rx_desc s)" using entries_length(1) [of s] by (metis length_greater_0_conv)
  with 3 show ?case using reset_rx_qptr_ok [of s] by blast
qed

interpretation txq: fifo_ring tx_inv tx_entries 128
  "\<lambda>(skb, a) st. syn_dp_tx_desc_queue st skb a"
  "\<lambda>(skb, a) st. (skb_ref skb,
     tx_desc_fill (ucast a) (skb_len skb) (skb_partial skb)
       (desc_tx_last OR desc_tx_first OR desc_tx_int_enable) desc_own_by_dma
       (tx_desc st ! tx_next_desc st))"
  syn_dp_reset_tx_qptr
proof (unfold_locales, goal_cases)
  case (1 s)
  then show ?case using ring_wf_facts(6) by (auto simp: tx_inv_def)
next
  case (2 s a)
  then show ?case using tx_desc_queue_ok [of s "fst a" "snd a"] by (auto split: prod.splits)
next
  case (3 s)
  then have "0 < unat (busy_tx_desc s)" using entries_length(2) [of s] by (metis length_greater_0_conv)
  with 3 show ?case using reset_tx_qptr_ok [of s] by blast
qed

section \<open>What the receive and completion loops do\<close>

text \<open>
  The kernel calls and the statistics of one received entry and of one completed one. A pass
  over the ring handles its leading entries that the DMA has given back, oldest first.
\<close>

definition rx_calls :: "syn_kernel \<Rightarrow> skb_ref \<times> dma_desc \<Rightarrow> syn_kcall list" where
  "rx_calls k e =
     [Dma_unmap_single (ds_buffer1 (snd e)) SYN_DP_MINI_JUMBO_FRAME_MTU DMA_FROM_DEVICE,
      if syn_dp_gmac_is_rx_desc_valid (ds_status (snd e))
      then Napi_gro_receive (fst e) (rx_frame_length k (ds_status (snd e)))
      else Dev_kfree_skb (fst e)]"

definition tx_calls :: "skb_ref \<times> dma_desc \<Rightarrow> syn_kcall list" where
  "tx_calls e =
     [Dma_unmap_single (ds_buffer1 (snd e)) (ds_length (snd e) AND desc_size1_mask) DMA_TO_DEVICE,
      Dev_kfree_skb (fst e)]"

definition ready :: "nat \<Rightarrow> (skb_ref \<times> dma_desc) list \<Rightarrow> (skb_ref \<times> dma_desc) list" where
  "ready n es = takeWhile (\<lambda>e. \<not> syn_dp_gmac_is_desc_owned_by_dma (snd e)) (take n es)"

lemma ready_Suc:
  "ready (Suc n) (e # es) =
     (if syn_dp_gmac_is_desc_owned_by_dma (snd e) then [] else e # ready n es)"
  by (simp add: ready_def)

lemma ready_length: "length (ready n es) \<le> n" "length (ready n es) \<le> length es"
  using length_takeWhile_le [of "\<lambda>e. \<not> syn_dp_gmac_is_desc_owned_by_dma (snd e)" "take n es"]
  by (simp_all add: ready_def)

lemma more_eq:
  assumes "syn_dp_info.more (a :: syn_state) = syn_dp_info.more b"
  shows "sk_trace a = sk_trace b" "sk_allocs a = sk_allocs b"
  using assms by (cases a; cases b; simp)+

lemma rx_one_ok:
  assumes inv: "rx_inv st" and e: "rx_entries st = e # es"
  shows "\<exists>st'. syn_dp_rx_one k (snd e) st = Inr st' \<and> rx_inv st' \<and> rx_entries st' = es
    \<and> tx_half st' = tx_half st \<and> dp_stats st' = rx_frame_stats k (ds_status (snd e)) (dp_stats st)
    \<and> sk_trace st' = sk_trace st @ rx_calls k e \<and> sk_allocs st' = sk_allocs st
    \<and> rx_desc_dma st' = rx_desc_dma st"
proof -
  note wf = inv [unfolded rx_inv_def]
  have busy: "0 < unat (busy_rx_desc st)" using e entries_length(1) [of st] by (metis length_greater_0_conv list.discI)
  have skb: "rx_skb_list st ! unat (rx_busy st) = Some (fst e)"
    using ring_entries_hd(1) [OF wf busy] e by (simp add: rx_entries_def)
  define st1 where "st1 = st\<lparr>dp_stats := rx_frame_stats k (ds_status (snd e)) (dp_stats st),
    sk_trace := sk_trace st @ rx_calls k e\<rparr>"
  have "syn_dp_rx_one k (snd e) st = syn_dp_reset_rx_qptr st1"
    using ring_wf_facts [OF wf] skb
    by (simp add: syn_dp_rx_one_def aget_in st1_def kcalls_def rx_calls_def Let_def)
  moreover have half: "rx_half st1 = rx_half st" by (simp add: st1_def kcalls_def rx_half_def)
  then have "rx_inv st1" "rx_entries st1 = e # es"
    using inv e rx_half_eq [OF half] by simp_all
  moreover have "busy_rx_desc st1 = busy_rx_desc st" by (simp add: st1_def kcalls_def)
  ultimately obtain st' where "syn_dp_rx_one k (snd e) st = Inr st'" "rx_inv st'" "rx_entries st' = es"
    "tx_half st' = tx_half st1" "dp_stats st' = dp_stats st1"
    "syn_dp_info.more st' = syn_dp_info.more st1" "rx_desc_dma st' = rx_desc_dma st1"
    using reset_rx_qptr_ok [of st1] busy by auto
  with more_eq [of st' st1] show ?thesis by (simp add: st1_def tx_half_def)
qed

lemma rx_loop_step:
  assumes inv: "rx_inv st" and e: "rx_entries st = e # es"
  shows "syn_dp_rx_loop k (int (Suc n)) st =
    (if syn_dp_gmac_is_desc_owned_by_dma (snd e) then Inr (int (Suc n), st)
     else bindR (syn_dp_rx_one k (snd e) st) (\<lambda>st. if n = 0 then Inr (0, st) else syn_dp_rx_loop k (int n) st))"
proof -
  note wf = inv [unfolded rx_inv_def]
  have "0 < unat (busy_rx_desc st)" using e entries_length(1) [of st] by (metis length_greater_0_conv list.discI)
  then have "aget (rx_desc st) (rx_busy_desc st) = Inr (snd e)"
    using ring_entries_hd(2) [OF wf] ring_wf_facts [OF wf] e by (simp add: rx_entries_def aget_in)
  then show ?thesis by (subst syn_dp_rx_loop.simps) (cases n, simp_all)
qed

lemma rx_loop_ok:
  assumes "rx_inv st" "0 < n" "n \<le> length (rx_entries st)"
  shows "\<exists>st'. syn_dp_rx_loop k (int n) st = Inr (int n - int (length (ready n (rx_entries st))), st')
    \<and> rx_inv st' \<and> rx_entries st' = drop (length (ready n (rx_entries st))) (rx_entries st)
    \<and> tx_half st' = tx_half st
    \<and> dp_stats st' = fold (\<lambda>e. rx_frame_stats k (ds_status (snd e))) (ready n (rx_entries st)) (dp_stats st)
    \<and> sk_trace st' = sk_trace st @ concat (map (rx_calls k) (ready n (rx_entries st)))
    \<and> sk_allocs st' = sk_allocs st \<and> rx_desc_dma st' = rx_desc_dma st"
  using assms
proof (induction n arbitrary: st)
  case (Suc n)
  obtain e es where e: "rx_entries st = e # es" using Suc.prems(3) by (cases "rx_entries st") auto
  note step = rx_loop_step [OF Suc.prems(1) e, unfolded of_nat_Suc]
  show ?case
  proof (cases "syn_dp_gmac_is_desc_owned_by_dma (snd e)")
    case True
    then show ?thesis
      using Suc.prems(1) e by (simp add: step ready_Suc)
  next
    case False
    obtain st1 where st1: "syn_dp_rx_one k (snd e) st = Inr st1" "rx_inv st1" "rx_entries st1 = es"
      "tx_half st1 = tx_half st" "dp_stats st1 = rx_frame_stats k (ds_status (snd e)) (dp_stats st)"
      "sk_trace st1 = sk_trace st @ rx_calls k e" "sk_allocs st1 = sk_allocs st"
      "rx_desc_dma st1 = rx_desc_dma st"
      using rx_one_ok [OF Suc.prems(1) e] by blast
    show ?thesis
    proof (cases "n = 0")
      case True
      with st1 False e show ?thesis
        by (simp add: step [of _ 0, simplified] ready_Suc ready_def)
    next
      case nz: False
      with Suc.IH [OF st1(2)] Suc.prems(3) e st1(3) obtain st2 where
        st2: "syn_dp_rx_loop k (int n) st1 = Inr (int n - int (length (ready n es)), st2)" "rx_inv st2"
          "rx_entries st2 = drop (length (ready n es)) es" "tx_half st2 = tx_half st1"
          "dp_stats st2 = fold (\<lambda>e. rx_frame_stats k (ds_status (snd e))) (ready n es) (dp_stats st1)"
          "sk_trace st2 = sk_trace st1 @ concat (map (rx_calls k) (ready n es))"
          "sk_allocs st2 = sk_allocs st1" "rx_desc_dma st2 = rx_desc_dma st1"
        by auto
      with st1 nz False e show ?thesis by (simp add: step ready_Suc)
    qed
  qed
qed simp

lemma busy_sint:
  assumes "unat (x :: u32) \<le> 128"
  shows "sint x = int (unat x)"
proof -
  have "int (unat x) \<le> 128" using assms by linarith
  then have "uint x < 2 ^ 31" unfolding uint_nat [of x] by (rule le_less_trans) simp
  moreover have "- (2 ^ 31) \<le> uint x" by (rule order_trans [OF _ uint_ge_0]) simp
  ultimately have "signed_take_bit 31 (uint x) = uint x" by (intro signed_take_bit_int_eq_self)
  then show ?thesis by (simp add: sint_uint)
qed

text \<open>
  A receive pass hands each returned frame to the stack, or frees it when the DMA marked it
  bad, and takes it off the ring; the value returned counts the budget the pass has not
  planned for as work.
\<close>

lemma syn_dp_rx_ok:
  fixes st :: syn_state and budget :: nat
  defines "n \<equiv> min (length (rx_entries st)) budget"
  defines "done \<equiv> ready n (rx_entries st)"
  assumes inv: "rx_inv st" and "0 < budget"
  shows "\<exists>st' w. syn_dp_rx k (int budget) st = Inr (w, st')
    \<and> w = (if rx_entries st = [] then 0 else int budget - int n + int (length done))
    \<and> rx_inv st' \<and> rx_entries st' = drop (length done) (rx_entries st) \<and> tx_half st' = tx_half st
    \<and> dp_stats st' = fold (\<lambda>e. rx_frame_stats k (ds_status (snd e))) done (dp_stats st)
    \<and> sk_trace st' = sk_trace st @ concat (map (rx_calls k) done)
    \<and> sk_allocs st' = sk_allocs st \<and> rx_desc_dma st' = rx_desc_dma st"
proof (cases "busy_rx_desc st = 0")
  case True
  then have "rx_entries st = []" by (metis entries_length(1) length_0_conv unsigned_0)
  then show ?thesis using inv True by (simp add: syn_dp_rx_def done_def ready_def)
next
  case False
  have le: "unat (busy_rx_desc st) \<le> 128" using ring_wf_facts(6) inv by (auto simp: rx_inv_def)
  have ne: "rx_entries st \<noteq> []" "0 < n"
    using False assms(4) by (auto simp: n_def unat_gt_0 simp flip: length_greater_0_conv)
  have b: "(if sint (busy_rx_desc st) > int budget then int budget else sint (busy_rx_desc st)) = int n"
  proof -
    have "(if int a > int c then int c else int a) = int (min a c)" for a c :: nat by auto
    then show ?thesis unfolding busy_sint [OF le] n_def entries_length .
  qed
  obtain st' where "syn_dp_rx_loop k (int n) st = Inr (int n - int (length done), st')"
    "rx_inv st'" "rx_entries st' = drop (length done) (rx_entries st)" "tx_half st' = tx_half st"
    "dp_stats st' = fold (\<lambda>e. rx_frame_stats k (ds_status (snd e))) done (dp_stats st)"
    "sk_trace st' = sk_trace st @ concat (map (rx_calls k) done)"
    "sk_allocs st' = sk_allocs st" "rx_desc_dma st' = rx_desc_dma st"
    using rx_loop_ok [OF inv ne(2), of k] by (auto simp: done_def n_def)
  with False ne(1) show ?thesis by (simp add: syn_dp_rx_def b Let_def)
qed

lemma tx_complete_one_ok:
  assumes inv: "tx_inv st" and e: "tx_entries st = e # es"
  shows "\<exists>st'. syn_dp_tx_complete_one (snd e) st = Inr st' \<and> tx_inv st' \<and> tx_entries st' = es
    \<and> rx_half st' = rx_half st
    \<and> dp_stats st' = tx_done_stats (ds_status (snd e)) (ds_length (snd e) AND desc_size1_mask) (dp_stats st)
    \<and> sk_trace st' = sk_trace st @ tx_calls e \<and> sk_allocs st' = sk_allocs st
    \<and> tx_desc_dma st' = tx_desc_dma st"
proof -
  note wf = inv [unfolded tx_inv_def]
  have busy: "0 < unat (busy_tx_desc st)" using e entries_length(2) [of st] by (metis length_greater_0_conv list.discI)
  have skb: "tx_skb_list st ! unat (tx_busy st) = Some (fst e)"
    and last: "ds_status (snd e) AND desc_tx_last \<noteq> 0"
    using ring_entries_hd [OF wf busy] e by (simp_all add: tx_entries_def)
  define st1 where "st1 = st\<lparr>sk_trace := sk_trace st @ tx_calls e,
    dp_stats := tx_done_stats (ds_status (snd e)) (ds_length (snd e) AND desc_size1_mask) (dp_stats st)\<rparr>"
  have "syn_dp_tx_complete_one (snd e) st = syn_dp_reset_tx_qptr st1"
    using ring_wf_facts [OF wf] skb last
    by (simp add: syn_dp_tx_complete_one_def aget_in st1_def kcalls_def tx_calls_def Let_def)
  moreover have half: "tx_half st1 = tx_half st" by (simp add: st1_def tx_half_def)
  then have "tx_inv st1" "tx_entries st1 = e # es"
    using inv e tx_half_eq [OF half] by simp_all
  moreover have "busy_tx_desc st1 = busy_tx_desc st" by (simp add: st1_def)
  ultimately obtain st' where "syn_dp_tx_complete_one (snd e) st = Inr st'" "tx_inv st'" "tx_entries st' = es"
    "rx_half st' = rx_half st1" "dp_stats st' = dp_stats st1"
    "syn_dp_info.more st' = syn_dp_info.more st1" "tx_desc_dma st' = tx_desc_dma st1"
    using reset_tx_qptr_ok [of st1] busy by auto
  with more_eq [of st' st1] show ?thesis by (simp add: st1_def rx_half_def)
qed

definition tx_done_entry :: "skb_ref \<times> dma_desc \<Rightarrow> nss_dp_gmac_stats \<Rightarrow> nss_dp_gmac_stats" where
  "tx_done_entry e = tx_done_stats (ds_status (snd e)) (ds_length (snd e) AND desc_size1_mask)"

lemma tx_loop_step:
  assumes inv: "tx_inv st" and e: "tx_entries st = e # es"
  shows "syn_dp_tx_complete_loop (int (Suc n)) st =
    (if syn_dp_gmac_is_desc_owned_by_dma (snd e) then Inr st
     else bindR (syn_dp_tx_complete_one (snd e) st) (\<lambda>st. if n = 0 then Inr st else syn_dp_tx_complete_loop (int n) st))"
proof -
  note wf = inv [unfolded tx_inv_def]
  have "0 < unat (busy_tx_desc st)" using e entries_length(2) [of st] by (metis length_greater_0_conv list.discI)
  then have "aget (tx_desc st) (tx_busy_desc st) = Inr (snd e)"
    using ring_entries_hd(2) [OF wf] ring_wf_facts [OF wf] e by (simp add: tx_entries_def aget_in)
  then show ?thesis by (subst syn_dp_tx_complete_loop.simps) (cases n, simp_all)
qed

lemma tx_complete_loop_ok:
  assumes "tx_inv st" "0 < n" "n \<le> length (tx_entries st)"
  shows "\<exists>st'. syn_dp_tx_complete_loop (int n) st = Inr st'
    \<and> tx_inv st' \<and> tx_entries st' = drop (length (ready n (tx_entries st))) (tx_entries st)
    \<and> rx_half st' = rx_half st
    \<and> dp_stats st' = fold tx_done_entry (ready n (tx_entries st)) (dp_stats st)
    \<and> sk_trace st' = sk_trace st @ concat (map tx_calls (ready n (tx_entries st)))
    \<and> sk_allocs st' = sk_allocs st \<and> tx_desc_dma st' = tx_desc_dma st"
  using assms
proof (induction n arbitrary: st)
  case (Suc n)
  obtain e es where e: "tx_entries st = e # es" using Suc.prems(3) by (cases "tx_entries st") auto
  note step = tx_loop_step [OF Suc.prems(1) e, unfolded of_nat_Suc]
  show ?case
  proof (cases "syn_dp_gmac_is_desc_owned_by_dma (snd e)")
    case True
    then show ?thesis
      using Suc.prems(1) e by (simp add: step ready_Suc)
  next
    case False
    obtain st1 where st1: "syn_dp_tx_complete_one (snd e) st = Inr st1" "tx_inv st1" "tx_entries st1 = es"
      "rx_half st1 = rx_half st" "dp_stats st1 = tx_done_entry e (dp_stats st)"
      "sk_trace st1 = sk_trace st @ tx_calls e" "sk_allocs st1 = sk_allocs st"
      "tx_desc_dma st1 = tx_desc_dma st"
      using tx_complete_one_ok [OF Suc.prems(1) e] unfolding tx_done_entry_def by blast
    show ?thesis
    proof (cases "n = 0")
      case True
      with st1 False e show ?thesis
        by (simp add: step [of 0, simplified] ready_Suc ready_def)
    next
      case nz: False
      with Suc.IH [OF st1(2)] Suc.prems(3) e st1(3) obtain st2 where
        st2: "syn_dp_tx_complete_loop (int n) st1 = Inr st2" "tx_inv st2"
          "tx_entries st2 = drop (length (ready n es)) es" "rx_half st2 = rx_half st1"
          "dp_stats st2 = fold tx_done_entry (ready n es) (dp_stats st1)"
          "sk_trace st2 = sk_trace st1 @ concat (map tx_calls (ready n es))"
          "sk_allocs st2 = sk_allocs st1" "tx_desc_dma st2 = tx_desc_dma st1"
        by auto
      with st1 nz False e show ?thesis by (simp add: step ready_Suc)
    qed
  qed
qed simp

lemma syn_dp_process_tx_complete_ok:
  fixes st :: syn_state
  defines "done \<equiv> ready (length (tx_entries st)) (tx_entries st)"
  assumes inv: "tx_inv st"
  shows "\<exists>st'. syn_dp_process_tx_complete st = Inr st'
    \<and> tx_inv st' \<and> tx_entries st' = drop (length done) (tx_entries st) \<and> rx_half st' = rx_half st
    \<and> dp_stats st' = fold tx_done_entry done (dp_stats st)
    \<and> sk_trace st' = sk_trace st @ concat (map tx_calls done)
    \<and> sk_allocs st' = sk_allocs st \<and> tx_desc_dma st' = tx_desc_dma st"
proof -
  have le: "unat (busy_tx_desc st) \<le> 128" using ring_wf_facts(6) inv by (auto simp: tx_inv_def)
  note b = busy_sint [OF le]
  show ?thesis
  proof (cases "tx_entries st = []")
    case True
    then have "unat (busy_tx_desc st) = 0" by (metis entries_length(2) list.size(3))
    then show ?thesis using inv True b by (simp add: syn_dp_process_tx_complete_def done_def ready_def)
  next
    case False
    then have pos: "0 < unat (busy_tx_desc st)" by (metis entries_length(2) length_greater_0_conv)
    then have "syn_dp_process_tx_complete st = syn_dp_tx_complete_loop (int (unat (busy_tx_desc st))) st"
      unfolding syn_dp_process_tx_complete_def Let_def b by (simp only: of_nat_eq_0_iff) simp
    with pos show ?thesis
      using tx_complete_loop_ok [OF inv, of "unat (busy_tx_desc st)"] by (simp add: done_def)
  qed
qed

text \<open>
  A refill appends freshly allocated buffers, in order; when it stops early, the allocation
  after them failed, or that buffer could not be mapped and was freed.
\<close>

definition refill_tail :: "syn_kernel \<Rightarrow> nat \<Rightarrow> bool \<Rightarrow> syn_kcall list" where
  "refill_tail k a stopped =
     (if stopped \<and> k_netdev_alloc_skb k a then [Alloc_skb a, Dev_kfree_skb (Alloc a)] else [])"

text \<open>What a refill with \<open>n\<close> descriptors to fill does: it appends \<open>new\<close>, and stops early at the first failure.\<close>

definition refilled :: "syn_kernel \<Rightarrow> nat \<Rightarrow> syn_state \<Rightarrow> syn_state \<Rightarrow> (skb_ref \<times> dma_desc) list \<Rightarrow> bool" where
  "refilled k n st st' new \<longleftrightarrow> rx_inv st' \<and> rx_entries st' = rx_entries st @ new \<and> length new \<le> n
    \<and> map fst new = map Alloc [sk_allocs st..<sk_allocs st + length new]
    \<and> tx_half st' = tx_half st \<and> dp_stats st' = dp_stats st \<and> rx_desc_dma st' = rx_desc_dma st
    \<and> sk_trace st' = sk_trace st @ map Alloc_skb [sk_allocs st..<sk_allocs st + length new]
         @ refill_tail k (sk_allocs st + length new) (length new < n)
    \<and> sk_allocs st' = sk_allocs st + length new + (if length new < n then 1 else 0)"

lemma refill_stops:
  assumes "rx_inv st" "\<not> k_netdev_alloc_skb k (sk_allocs st) \<or> k_dma_map_rx k (sk_allocs st) = None"
  shows "\<exists>st'. syn_dp_rx_refill_loop k (Suc n) st = Inr st' \<and> refilled k (Suc n) st st' []"
proof -
  let ?a = "sk_allocs st"
  define st' where "st' = st\<lparr>sk_trace := sk_trace st @ refill_tail k ?a True, sk_allocs := Suc ?a\<rparr>"
  have "syn_dp_rx_refill_loop k (Suc n) st = Inr st'"
    using assms(2) by (auto simp: st'_def kcalls_def refill_tail_def Let_def)
  moreover have half: "rx_half st' = rx_half st" by (simp add: st'_def rx_half_def)
  ultimately show ?thesis
    using assms(1) rx_half_eq [OF half] by (intro exI [of _ st']) (simp add: refilled_def st'_def tx_half_def)
qed

text \<open>One buffer: the descriptor it is put in becomes the last entry.\<close>

definition one_filled :: "syn_state \<Rightarrow> syn_state \<Rightarrow> skb_ref \<times> dma_desc \<Rightarrow> bool" where
  "one_filled st st2 e \<longleftrightarrow> rx_inv st2 \<and> rx_entries st2 = rx_entries st @ [e] \<and> fst e = Alloc (sk_allocs st)
     \<and> tx_half st2 = tx_half st \<and> dp_stats st2 = dp_stats st \<and> rx_desc_dma st2 = rx_desc_dma st
     \<and> sk_allocs st2 = Suc (sk_allocs st) \<and> sk_trace st2 = sk_trace st @ [Alloc_skb (sk_allocs st)]"

lemma refill_one:
  assumes "rx_inv st" "unat (busy_rx_desc st) < 128" "k_netdev_alloc_skb k (sk_allocs st)" "k_dma_map_rx k (sk_allocs st) = Some a"
  shows "\<exists>st2 e. syn_dp_rx_refill_loop k (Suc n) st = syn_dp_rx_refill_loop k n st2 \<and> one_filled st st2 e"
proof -
  let ?a = "sk_allocs st"
  define st1 where "st1 = st\<lparr>sk_allocs := Suc ?a, sk_trace := sk_trace st @ [Alloc_skb ?a]\<rparr>"
  have half: "rx_half st1 = rx_half st" by (simp add: st1_def rx_half_def)
  have "rx_inv st1" "unat (busy_rx_desc st1) < 128" using rx_half_eq(1) [OF half] assms by (simp_all add: st1_def)
  then obtain st2 where st2: "syn_dp_set_rx_qptr st1 (ucast a) SYN_DP_MINI_JUMBO_FRAME_MTU (Alloc ?a) = Inr (rx_next st1, st2)" "rx_inv st2"
      "rx_entries st2 = rx_entries st1 @ [(Alloc ?a, rx_desc_fill (ucast a) SYN_DP_MINI_JUMBO_FRAME_MTU (rx_desc st1 ! rx_next_desc st1))]"
      "tx_half st2 = tx_half st1" "dp_stats st2 = dp_stats st1" "syn_dp_info.more st2 = syn_dp_info.more st1" "rx_desc_dma st2 = rx_desc_dma st1"
    using set_rx_qptr_ok by blast
  have "syn_dp_rx_refill_loop k (Suc n) st = syn_dp_rx_refill_loop k n st2"
    using assms(3,4) st2(1) by (simp add: kcalls_def st1_def Let_def)
  moreover have "sk_allocs st2 = Suc ?a" "sk_trace st2 = sk_trace st @ [Alloc_skb ?a]" using more_eq [OF st2(6)] by (simp_all add: st1_def)
  moreover have "tx_half st1 = tx_half st" "dp_stats st1 = dp_stats st" "rx_desc_dma st1 = rx_desc_dma st" by (simp_all add: st1_def tx_half_def)
  ultimately show ?thesis using st2 rx_half_eq(2) [OF half] unfolding one_filled_def by auto
qed

lemma refilled_Cons:
  assumes "one_filled st st2 e" "refilled k n st2 st' new"
  shows "refilled k (Suc n) st st' (e # new)"
proof -
  have up: "[sk_allocs st..<sk_allocs st + length (e # new)] = sk_allocs st # [Suc (sk_allocs st)..<Suc (sk_allocs st) + length new]"
    by (simp add: upt_conv_Cons del: upt_Suc)
  have len: "sk_allocs st + length (e # new) = Suc (sk_allocs st) + length new" by simp
  show ?thesis
    using assms unfolding refilled_def one_filled_def up unfolding len by (simp del: upt_Suc)
qed

lemma refill_loop_ok:
  assumes "rx_inv st" "unat (busy_rx_desc st) + n \<le> 128"
  shows "\<exists>st' new. syn_dp_rx_refill_loop k n st = Inr st' \<and> refilled k n st st' new"
  using assms
proof (induction n arbitrary: st)
  case 0
  then show ?case by (intro exI [of _ st] exI [of _ "[]"]) (simp add: refilled_def refill_tail_def)
next
  case (Suc n)
  show ?case
  proof (cases "\<not> k_netdev_alloc_skb k (sk_allocs st) \<or> k_dma_map_rx k (sk_allocs st) = None")
    case True
    from refill_stops [OF Suc.prems(1) this] show ?thesis by blast
  next
    case False
    then obtain a where a: "k_netdev_alloc_skb k (sk_allocs st)" "k_dma_map_rx k (sk_allocs st) = Some a" by auto
    have "unat (busy_rx_desc st) < 128" using Suc.prems(2) by simp
    from refill_one [OF Suc.prems(1) this a, of n]
    obtain st2 e where st2: "syn_dp_rx_refill_loop k (Suc n) st = syn_dp_rx_refill_loop k n st2" "one_filled st st2 e" by blast
    have "rx_entries st2 = rx_entries st @ [e]" using st2(2) by (simp add: one_filled_def)
    from arg_cong [OF this, of length] have "unat (busy_rx_desc st2) = Suc (unat (busy_rx_desc st))" by simp
    then obtain st' new where "syn_dp_rx_refill_loop k n st2 = Inr st'" "refilled k n st2 st' new"
      using Suc.IH [of st2] st2(2) Suc.prems(2) by (auto simp: one_filled_def)
    then show ?thesis unfolding st2(1) using refilled_Cons [OF st2(2)] by blast
  qed
qed

lemma syn_dp_rx_refill_ok:
  fixes st :: syn_state
  defines "n \<equiv> 128 - length (rx_entries st)"
  assumes inv: "rx_inv st"
  shows "\<exists>st' new. syn_dp_rx_refill k st = Inr st' \<and> rx_inv st'
    \<and> rx_entries st' = rx_entries st @ new \<and> length new \<le> n
    \<and> map fst new = map Alloc [sk_allocs st..<sk_allocs st + length new]
    \<and> tx_half st' = tx_half st \<and> dp_stats st' = dp_stats st \<and> rx_desc_dma st' = rx_desc_dma st
    \<and> sk_trace st' = sk_trace st @ map Alloc_skb [sk_allocs st..<sk_allocs st + length new]
         @ refill_tail k (sk_allocs st + length new) (length new < n)
    \<and> sk_allocs st' = sk_allocs st + length new + (if length new < n then 1 else 0)"
proof -
  have le: "unat (busy_rx_desc st) \<le> 128" using ring_wf_facts(6) inv by (auto simp: rx_inv_def)
  have "nat (128 - uint (busy_rx_desc st)) = n" unfolding uint_nat n_def entries_length by linarith
  then have "syn_dp_rx_refill k st = syn_dp_rx_refill_loop k n st"
    by (simp add: syn_dp_rx_refill_def)
  then show ?thesis using refill_loop_ok [OF inv, of n k] le by (simp add: n_def refilled_def)
qed

end
