(* ===== verification/Syn_Dp.thy ===== *)
theory Syn_Dp
  imports Dp_Dev Syn_Ring
begin

text \<open>
  The data plane operations of the GMAC (\<open>hal/syn_gmac_dp/syn_data_plane.c\<close>): the NAPI poll, the interrupt
  handler and \<open>nss_dp_gmac_ops\<close>, over the store of net devices. The state of this data plane is the array
  \<open>dp_info\<close>, one entry per port.
\<close>

type_synonym gmac_world = "(syn_hal_dev, syn_state list) dp_world"

text \<open>The platform: the interrupt of a port, the requests that fail, the feature bits, the overlays' contexts.\<close>

record syn_plat =
  sp_irq :: "nat \<Rightarrow> u32"
  sp_request_irq_fails :: "u32 \<Rightarrow> bool"
  sp_csum_features :: u64
  sp_overlay_dev :: "nat \<Rightarrow> nat option"

section \<open>Access to a port\<close>

text \<open>The net device behind a context: the code reads through it at once.\<close>

definition with_netdev :: "syn_plat \<Rightarrow> dpc_ref option \<Rightarrow> gmac_world \<Rightarrow> (nat \<Rightarrow> 'r result) \<Rightarrow> 'r result" where
  "with_netdev q c w f =
     bindR (dpc_dev (sp_overlay_dev q) c w) (\<lambda>dev. case dev of None \<Rightarrow> Inl Null_Pointer | Some n \<Rightarrow> f n)"

definition info_index :: "syn_hal_dev nss_dp_dev \<Rightarrow> nat" where
  "info_index gmac_dev = unat (macid gmac_dev - 1)"

definition with_info :: "gmac_world \<Rightarrow> nat \<Rightarrow> (syn_state \<Rightarrow> ('r \<times> syn_state) result) \<Rightarrow> ('r \<times> gmac_world) result" where
  "with_info w i f =
     bindR (aget (dp w) i) (\<lambda>st. bindR (f st) (\<lambda>(r, st). Inr (r, w\<lparr>dp := (dp w)[i := st]\<rparr>)))"

definition upd_ctx :: "nat \<Rightarrow> (syn_hal_dev \<Rightarrow> syn_hal_dev) \<Rightarrow> gmac_world \<Rightarrow> gmac_world result" where
  "upd_ctx n f w = with_priv w n (\<lambda>p.
     case gmac_hal_ctx p of
       None \<Rightarrow> Inl Null_Pointer
     | Some nghd \<Rightarrow> Inr (upd_priv n (\<lambda>p. p\<lparr>gmac_hal_ctx := Some (f nghd)\<rparr>) w))"

section \<open>Polling and interrupts\<close>

text \<open>The missed frames are added to the statistics of the first port, whichever port is polled.\<close>

definition poll_stats :: "syn_hal_dev \<Rightarrow> syn_state \<Rightarrow> syn_state" where
  "poll_stats nghd st =
     (let st = st\<lparr>dp_stats := stat_add GS_rx_missed (ucast (syn_get_rx_missed nghd)) (dp_stats st)\<rparr>
      in st\<lparr>dp_stats := stat_add GS_rx_missed (ucast (syn_get_fifo_overflows nghd)) (dp_stats st)\<rparr>)"

definition syn_dp_napi_poll :: "syn_kernel \<Rightarrow> nat \<Rightarrow> int \<Rightarrow> gmac_world \<Rightarrow> (int \<times> gmac_world) result" where
  "syn_dp_napi_poll k n budget w = with_priv w n (\<lambda>gmac_dev.
     case gmac_hal_ctx gmac_dev of
       None \<Rightarrow> Inl Null_Pointer
     | Some nghd \<Rightarrow>
         bindR (with_info w 0 (\<lambda>st. Inr ((), poll_stats nghd st))) (\<lambda>(_, w).
         bindR (with_info w (info_index gmac_dev) (\<lambda>st.
                  bindR (syn_dp_process_tx_complete st) (\<lambda>st.
                  bindR (syn_dp_rx k budget st) (\<lambda>(work_done, st).
                  bindR (syn_dp_rx_refill k st) (\<lambda>st. Inr (work_done, st)))))) (\<lambda>(work_done, w).
         if work_done < budget
         then bindR (upd_ctx n syn_enable_dma_interrupt (nkcalls [Nk_napi_complete n] w)) (\<lambda>w. Inr (work_done, w))
         else Inr (work_done, w))))"

definition syn_dp_handle_irq :: "nat \<Rightarrow> gmac_world \<Rightarrow> (irqreturn_t \<times> gmac_world) result" where
  "syn_dp_handle_irq n w =
     bindR (upd_ctx n (\<lambda>nghd. syn_disable_dma_interrupt (syn_clear_dma_status nghd)) w) (\<lambda>w.
     Inr (IRQ_HANDLED, nkcalls [Nk_napi_schedule n] w))"

section \<open>The operations table\<close>

text \<open>
  The net device is read before it is tested for NULL. When the interrupt cannot be requested, NAPI stays added
  although \<open>napi_added\<close> says otherwise.
\<close>

definition syn_dp_if_init :: "syn_kernel \<Rightarrow> syn_plat \<Rightarrow> dpc_ref option \<Rightarrow> gmac_world \<Rightarrow> (status \<times> gmac_world) result" where
  "syn_dp_if_init k q c w = with_netdev q c w (\<lambda>n. with_priv w n (\<lambda>gmac_dev.
     let i = info_index gmac_dev
     in bindR (aget (dp w) i) (\<lambda>dev_info.
        let (err, w) =
          (if napi_added dev_info then (Success, w)
           else
            (let irq = sp_irq q n;
                 w = upd_dev n (\<lambda>d. d\<lparr>nd_irq := irq\<rparr>) (nkcalls [Nk_napi_add n] w)
             in if sp_request_irq_fails q irq then (Failure, w)
                else
                 (let w = upd_priv n (\<lambda>p. p\<lparr>drv_flags := drv_flags p OR NSS_DP_PRIV_FLAG_IRQ_REQUESTED\<rparr>)
                        (nkcalls [Nk_request_irq irq n] w)
                  in (Success, w\<lparr>dp := (dp w)[i := dev_info\<lparr>napi_added := True\<rparr>]\<rparr>))))
        in if failed err then Inr (Failure, w)
           else
            (case gmac_hal_ctx gmac_dev of
               None \<Rightarrow> Inl Null_Pointer
             | Some nghd \<Rightarrow>
                bindR (with_info w i (\<lambda>st.
                         bindR (syn_dp_setup_rings k nghd st) (\<lambda>(ret, nghd, st). Inr ((ret, nghd), st)))) (\<lambda>((ret, nghd), w).
                let w = upd_priv n (\<lambda>p. p\<lparr>gmac_hal_ctx := Some nghd\<rparr>) w
                in if failed ret then Inr (Failure, w) else Inr (Success, w))))))"

definition syn_dp_if_open ::
  "syn_plat \<Rightarrow> dpc_ref option \<Rightarrow> u32 \<Rightarrow> u32 \<Rightarrow> u32 \<Rightarrow> gmac_world \<Rightarrow> (status \<times> gmac_world) result" where
  "syn_dp_if_open q c tx_desc_ring rx_desc_ring mode w = with_netdev q c w (\<lambda>n.
     bindR (upd_ctx n (\<lambda>nghd. syn_enable_dma_tx (syn_enable_dma_rx nghd)) w) (\<lambda>w.
     bindR (upd_ctx n syn_enable_dma_interrupt (nkcalls [Nk_napi_enable n] w)) (\<lambda>w.
     Inr (Success, w))))"

definition syn_dp_if_close :: "syn_plat \<Rightarrow> dpc_ref option \<Rightarrow> gmac_world \<Rightarrow> (status \<times> gmac_world) result" where
  "syn_dp_if_close q c w = with_netdev q c w (\<lambda>n.
     bindR (upd_ctx n (\<lambda>nghd. syn_disable_dma_interrupt (syn_disable_dma_tx (syn_disable_dma_rx nghd))) w) (\<lambda>w.
     Inr (Success, nkcalls [Nk_napi_disable n] w)))"

definition syn_dp_if_link_state ::
  "syn_plat \<Rightarrow> dpc_ref option \<Rightarrow> u32 \<Rightarrow> gmac_world \<Rightarrow> (status \<times> gmac_world) result" where
  "syn_dp_if_link_state q c ls w = bindR (dpc_dev (sp_overlay_dev q) c w) (\<lambda>_. Inr (Success, w))"

definition syn_dp_if_mac_addr :: "dpc_ref option \<Rightarrow> eth_addr \<Rightarrow> gmac_world \<Rightarrow> (status \<times> gmac_world) result" where
  "syn_dp_if_mac_addr c addr w = Inr (Success, w)"

definition syn_dp_if_change_mtu :: "dpc_ref option \<Rightarrow> u32 \<Rightarrow> gmac_world \<Rightarrow> (status \<times> gmac_world) result" where
  "syn_dp_if_change_mtu c mtu w = Inr (Success, w)"

definition syn_dp_if_set_features :: "syn_plat \<Rightarrow> dpc_ref option \<Rightarrow> gmac_world \<Rightarrow> gmac_world result" where
  "syn_dp_if_set_features q c w = with_netdev q c w (\<lambda>n. with_dev w n (\<lambda>_.
     let f = sp_csum_features q
     in Inr (upd_dev n (\<lambda>d. d\<lparr>nd_features := nd_features d OR f, nd_hw_features := nd_hw_features d OR f,
          nd_vlan_features := nd_vlan_features d OR f, nd_wanted_features := nd_wanted_features d OR f\<rparr>) w)))"

definition syn_dp_if_drop :: "sk_buff \<Rightarrow> syn_state \<Rightarrow> syn_state" where
  "syn_dp_if_drop skb st =
     (kcalls [Dev_kfree_skb (skb_ref skb)] st)\<lparr>dp_stats := stat_add GS_tx_dropped 1 (dp_stats st)\<rparr>"

definition syn_dp_if_xmit ::
  "syn_kernel \<Rightarrow> syn_plat \<Rightarrow> dpc_ref option \<Rightarrow> sk_buff \<Rightarrow> gmac_world \<Rightarrow> (netdev_tx_t \<times> gmac_world) result" where
  "syn_dp_if_xmit k q c skb w = with_netdev q c w (\<lambda>n. with_priv w n (\<lambda>gmac_dev.
     let i = info_index gmac_dev
     in if skb_nr_frags skb = 0
        then
         (case gmac_hal_ctx gmac_dev of
            None \<Rightarrow> Inl Null_Pointer
          | Some nghd \<Rightarrow>
             bindR (with_info w i (\<lambda>st.
                      bindR (syn_dp_tx k nghd skb st) (\<lambda>(ret, nghd, st). Inr ((ret, nghd), st)))) (\<lambda>((ret, nghd), w).
             let w = upd_priv n (\<lambda>p. p\<lparr>gmac_hal_ctx := Some nghd\<rparr>) w
             in if ret \<noteq> 0
                then bindR (with_info w i (\<lambda>st. Inr ((), syn_dp_if_drop skb st))) (\<lambda>(_, w). Inr (NETDEV_TX_BUSY, w))
                else Inr (NETDEV_TX_OK, w)))
        else bindR (with_info w i (\<lambda>st. Inr ((), syn_dp_if_drop skb st))) (\<lambda>(_, w). Inr (NETDEV_TX_BUSY, w))))"

definition syn_dp_if_pause_on_off :: "dpc_ref option \<Rightarrow> u32 \<Rightarrow> gmac_world \<Rightarrow> (status \<times> gmac_world) result" where
  "syn_dp_if_pause_on_off c pause_on w = Inr (Success, w)"

definition syn_dp_if_get_stats ::
  "syn_plat \<Rightarrow> dpc_ref option \<Rightarrow> gmac_world \<Rightarrow> nss_dp_gmac_stats \<Rightarrow> nss_dp_gmac_stats result" where
  "syn_dp_if_get_stats q c w stats = with_netdev q c w (\<lambda>n. with_priv w n (\<lambda>gmac_dev.
     bindR (aget (dp w) (info_index gmac_dev)) (\<lambda>dev_info. Inr (dp_stats dev_info))))"

definition syn_dp_if_deinit :: "syn_plat \<Rightarrow> dpc_ref option \<Rightarrow> gmac_world \<Rightarrow> (status \<times> gmac_world) result" where
  "syn_dp_if_deinit q c w = with_netdev q c w (\<lambda>n. with_priv w n (\<lambda>gmac_dev. with_dev w n (\<lambda>netdev.
     let i = info_index gmac_dev
     in bindR (aget (dp w) i) (\<lambda>dev_info.
        let w =
          (if napi_added dev_info
           then
            (let w = (if drv_flags gmac_dev AND NSS_DP_PRIV_FLAG_IRQ_REQUESTED \<noteq> 0
                      then upd_priv n (\<lambda>p. p\<lparr>drv_flags := drv_flags p AND NOT NSS_DP_PRIV_FLAG_IRQ_REQUESTED\<rparr>)
                             (nkcalls [Nk_sync_irq (nd_irq netdev), Nk_free_irq (nd_irq netdev) n] w)
                      else w)
             in (nkcalls [Nk_napi_del n] w)\<lparr>dp := (dp w)[i := dev_info\<lparr>napi_added := False\<rparr>]\<rparr>)
           else w)
        in bindR (with_info w i (\<lambda>st. bindR (syn_dp_cleanup_rings st) (\<lambda>st. Inr ((), st)))) (\<lambda>(_, w).
           Inr (Success, w))))))"

definition nss_dp_gmac_ops :: "syn_kernel \<Rightarrow> syn_plat \<Rightarrow> (syn_hal_dev, syn_state list, sk_buff) data_plane_ops" where
  "nss_dp_gmac_ops k q = \<lparr>op_init = Some (syn_dp_if_init k q), op_open = Some (syn_dp_if_open q),
     op_close = Some (syn_dp_if_close q), op_link_state = Some (syn_dp_if_link_state q),
     op_mac_addr = Some syn_dp_if_mac_addr, op_change_mtu = Some syn_dp_if_change_mtu,
     op_xmit = Some (syn_dp_if_xmit k q), op_set_features = Some (syn_dp_if_set_features q),
     op_pause_on_off = Some syn_dp_if_pause_on_off, op_vsi_assign = None, op_vsi_unassign = None,
     op_rx_flow_steer = None, op_get_stats = Some (syn_dp_if_get_stats q), op_deinit = Some (syn_dp_if_deinit q)\<rparr>"

end
