(* ===== verification/Edma_Tx_Rx.thy ===== *)
theory Edma_Tx_Rx
  imports Edma_State
begin

text \<open>
  The data path of the EDMA engine (\<open>hal/edma/edma_tx_rx.c\<close>): refilling the RxFill rings,
  reaping the RxDesc and TxCmpl rings, transmitting on a TxDesc ring, the NAPI poll and the
  interrupt handlers. A function that is handed a pointer to a ring takes its index.
\<close>

section \<open>Refilling\<close>

definition rxfill_desc_set :: "nat \<Rightarrow> nat \<Rightarrow> edma_rxfill_desc \<Rightarrow> edma_world \<Rightarrow> edma_world result" where
  "rxfill_desc_set r i d w =
     bindR (aget (rxfill_ring w) r) (\<lambda>ring.
     bindR (aset (rf_desc ring) i d) (\<lambda>ds.
     Inr (w\<lparr>rxfill_ring := (rxfill_ring w)[r := ring\<lparr>rf_desc := ds\<rparr>]\<rparr>)))"

text \<open>
  The body of the refill loop at the slot \<open>next\<close>; the flag says whether the loop goes on. The
  preheader at the head of the new buffer is kept under the bus address the buffer is mapped at.
\<close>

definition edma_alloc_rx_one :: "edma_kernel \<Rightarrow> nat \<Rightarrow> u16 \<Rightarrow> edma_world \<Rightarrow> (bool \<times> edma_world) result" where
  "edma_alloc_rx_one k r next w =
     (let a = ek_allocs w; w = w\<lparr>ek_allocs := Suc a\<rparr>
      in if \<not> ek_dev_alloc_skb k a then Inr (False, w)
         else
          (let w = ekcalls [Ek_alloc a] w; store_index = unat next
           in bindR (aget (rx_skb_store w) store_index) (\<lambda>old.
              if old \<noteq> None then Inr (False, ekcalls [Ek_kfree (Alloc a)] w)
              else
               (let w = w\<lparr>rx_skb_store := (rx_skb_store w)[store_index := Some (Alloc a)]\<rparr>;
                    addr = ek_map_rx k a
                in bindR (rxfill_desc_set r (unat next)
                            \<lparr>rf_buffer_addr = addr,
                             rf_word1 = of_nat EDMA_RX_BUFF_SIZE AND EDMA_RXFILL_BUF_SIZE_MASK\<rparr> w) (\<lambda>w.
                   if addr = 0
                   then Inr (False, (ekcalls [Ek_kfree (Alloc a)] w)
                                      \<lparr>rx_skb_store := (rx_skb_store w)[store_index := None]\<rparr>)
                   else Inr (True, w\<lparr>rxph_mem := (rxph_mem w)
                               (addr := (rxph_mem w addr)\<lparr>rx_opaque := of_nat store_index\<rparr>)\<rparr>))))))"

text \<open>The slots of the store that are free: each turn of the loop takes one.\<close>

definition rx_free_slots :: "edma_world \<Rightarrow> nat" where
  "rx_free_slots w = length (filter (\<lambda>s. s = None) (rx_skb_store w))"

lemma rxfill_desc_set_store: "rxfill_desc_set r i d w = Inr w' \<Longrightarrow> rx_skb_store w' = rx_skb_store w"
  by (auto simp: rxfill_desc_set_def result_elims)

lemma filter_None_update:
  "i < length xs \<Longrightarrow> xs ! i = None \<Longrightarrow>
     Suc (length (filter (\<lambda>s. s = None) (xs[i := Some x]))) = length (filter (\<lambda>s. s = None) xs)"
proof (induction xs arbitrary: i)
  case (Cons y ys)
  then show ?case by (cases i) auto
qed simp

lemma edma_alloc_rx_one_store:
  assumes "edma_alloc_rx_one k r next w = Inr (True, w')"
  shows "unat next < length (rx_skb_store w)" "rx_skb_store w ! unat next = None"
    "rx_skb_store w' = (rx_skb_store w)[unat next := Some (Alloc (ek_allocs w))]"
  using assms
  by (auto simp: edma_alloc_rx_one_def Let_def result_elims ekcalls_def
           dest!: rxfill_desc_set_store split: if_splits)

lemma edma_alloc_rx_one_takes:
  assumes "edma_alloc_rx_one k r next w = Inr (True, w')"
  shows "rx_free_slots w' < rx_free_slots w"
  using edma_alloc_rx_one_store [OF assms] filter_None_update [of "unat next" "rx_skb_store w"]
  by (simp add: rx_free_slots_def less_eq_Suc_le)

function edma_alloc_rx_loop ::
  "edma_kernel \<Rightarrow> nat \<Rightarrow> u16 \<Rightarrow> u16 \<Rightarrow> u16 \<Rightarrow> u16 \<Rightarrow> edma_world \<Rightarrow> (u16 \<times> u16 \<times> edma_world) result" where
  "edma_alloc_rx_loop k r count cons next num_alloc w =
     (let counter = ring_next count next
      in if counter = cons then Inr (next, num_alloc, w)
         else (case edma_alloc_rx_one k r next w of
                 Inl e \<Rightarrow> Inl e
               | Inr (go, w') \<Rightarrow>
                   if go then edma_alloc_rx_loop k r count cons counter (num_alloc + 1) w'
                   else Inr (next, num_alloc, w')))"
  by pat_completeness auto
termination
  by (relation "measure (\<lambda>(k, r, count, cons, next, num_alloc, w). rx_free_slots w)")
     (auto dest: edma_alloc_rx_one_takes)

declare edma_alloc_rx_loop.simps [simp del]

definition edma_alloc_rx_buffer :: "edma_kernel \<Rightarrow> nat \<Rightarrow> edma_world \<Rightarrow> (u16 \<times> edma_world) result" where
  "edma_alloc_rx_buffer k r w =
     bindR (aget (rxfill_ring w) r) (\<lambda>ring.
     let reg_data = edma_reg_read w (EDMA_REG_RXFILL_PROD_IDX (rf_id ring));
         next = ucast (reg_data AND EDMA_RXFILL_PROD_IDX_MASK AND (ucast (rf_count ring) - 1)) :: u16;
         reg_data = edma_reg_read w (EDMA_REG_RXFILL_CONS_IDX (rf_id ring));
         cons = ucast (reg_data AND EDMA_RXFILL_CONS_IDX_MASK) :: u16
     in bindR (edma_alloc_rx_loop k r (rf_count ring) cons next 0 w) (\<lambda>(next, num_alloc, w).
        Inr (num_alloc,
             if num_alloc \<noteq> 0
             then edma_reg_write w (EDMA_REG_RXFILL_PROD_IDX (rf_id ring))
                    (ucast next AND EDMA_RXFILL_PROD_IDX_MASK)
             else w)))"

section \<open>Transmit completion\<close>

text \<open>The body of the reaping loop: the completion names the slot of the store that held the buffer.\<close>

definition edma_clean_tx_one :: "nat \<Rightarrow> u16 \<Rightarrow> edma_world \<Rightarrow> edma_world result" where
  "edma_clean_tx_one r cons_idx w =
     bindR (aget (txcmpl_ring w) r) (\<lambda>ring.
     bindR (aget (tc_desc ring) (unat cons_idx)) (\<lambda>txcmpl.
     let store_index = unat (tc_buffer_addr txcmpl)
     in bindR (aget (tx_skb_store w) store_index) (\<lambda>skb.
        let w = w\<lparr>tx_skb_store := (tx_skb_store w)[store_index := None]\<rparr>
        in case skb of
             None \<Rightarrow> Inr w
           | Some s \<Rightarrow> Inr (ekcalls [Ek_unmap_tx s, Ek_kfree s] w))))"

definition edma_clean_tx :: "edma_kernel \<Rightarrow> nat \<Rightarrow> edma_world \<Rightarrow> (u32 \<times> edma_world) result" where
  "edma_clean_tx k r w =
     bindR (aget (txcmpl_ring w) r) (\<lambda>ring.
     let soc = ek_soc k;
         data = edma_reg_read w (EDMA_REG_TXCMPL_PROD_IDX soc (tc_id ring));
         prod_idx = ucast (data AND EDMA_TXCMPL_PROD_IDX_MASK) :: u16;
         data = edma_reg_read w (EDMA_REG_TXCMPL_CONS_IDX soc (tc_id ring));
         cons_idx = ucast (data AND EDMA_TXCMPL_CONS_IDX_MASK) :: u16
     in bindR (walk_u16 (ring_next (tc_count ring))
                 (\<lambda>cons_idx (txcmpl_consumed, w).
                    bindR (edma_clean_tx_one r cons_idx w) (\<lambda>w. Inr (txcmpl_consumed + 1, w)))
                 prod_idx cons_idx (0, w)) (\<lambda>(txcmpl_consumed, w).
        if txcmpl_consumed = 0 then Inr (0, w)
        else Inr (txcmpl_consumed,
                  edma_reg_write w (EDMA_REG_TXCMPL_CONS_IDX soc (tc_id ring)) (ucast prod_idx))))"

section \<open>Receive\<close>

text \<open>\<open>ek_rxtstamp\<close> is \<open>None\<close> when the PHY has no driver with a time stamping hook, else the hook's answer.\<close>

definition nss_phy_tstamp_rx_buf :: "edma_kernel \<Rightarrow> skb_ref \<Rightarrow> nat \<Rightarrow> u32 \<Rightarrow> edma_world \<Rightarrow> edma_world" where
  "nss_phy_tstamp_rx_buf k skb ndev len w =
     (case ek_rxtstamp k ndev skb of
        None \<Rightarrow> ekcalls [Ek_receive skb ndev len] w
      | Some taken \<Rightarrow>
          (let w = ekcalls [Ek_rxtstamp skb ndev taken] w
           in if taken then w else ekcalls [Ek_receive skb ndev len] w))"

definition nss_phy_tstamp_tx_buf :: "edma_kernel \<Rightarrow> nat \<Rightarrow> skb_ref \<Rightarrow> edma_world \<Rightarrow> edma_world" where
  "nss_phy_tstamp_tx_buf k ndev skb w =
     (if ek_txtstamp k ndev then ekcalls [Ek_txtstamp skb ndev] w else w)"

text \<open>What is done with the buffer of a receive descriptor, once it has been taken off the store.\<close>

definition edma_rx_deliver ::
  "edma_kernel \<Rightarrow> edma_rx_preheader \<Rightarrow> edma_rxdesc_desc \<Rightarrow> skb_ref \<Rightarrow> edma_world \<Rightarrow> edma_world result" where
  "edma_rx_deliver k rxph d skb w =
     (if EDMA_RXPH_SRC_INFO_TYPE_GET rxph \<noteq> ucast EDMA_PREHDR_DSTINFO_PORTID_IND
      then Inr (ekcalls [Ek_kfree skb] w)
      else
       (let src_port_num = unat (rx_src_info rxph AND ucast EDMA_PREHDR_PORTNUM_BITS);
            pkt_length = rd_status d AND EDMA_RXDESC_PACKET_LEN_MASK
        in if src_port_num < NSS_DP_HAL_START_IFNUM \<or> src_port_num > NSS_DP_HAL_MAX_PORTS (ek_soc k)
           then Inr (ekcalls [Ek_kfree skb] w)
           else
             bindR (aget (netdev_arr w) (src_port_num - 1)) (\<lambda>nd.
             case nd of
               None \<Rightarrow> Inr (ekcalls [Ek_kfree skb] w)
             | Some ndev \<Rightarrow>
                 if \<not> ek_netif_running k ndev then Inr (ekcalls [Ek_kfree skb] w)
                 else if EDMA_RXPH_SERVICE_CODE_GET rxph = NSS_PTP_EVENT_SERVICE_CODE
                 then Inr (nss_phy_tstamp_rx_buf k skb ndev pkt_length w)
                 else Inr (ekcalls [Ek_receive skb ndev pkt_length] w))))"

definition edma_clean_rx_one :: "edma_kernel \<Rightarrow> nat \<Rightarrow> u16 \<Rightarrow> edma_world \<Rightarrow> edma_world result" where
  "edma_clean_rx_one k r cons_idx w =
     bindR (aget (rxdesc_ring w) r) (\<lambda>ring.
     bindR (aget (rd_desc ring) (unat cons_idx)) (\<lambda>d.
     let rxph = rxph_mem w (rd_buffer_addr d);
         w = ekcalls [Ek_unmap_rx (rd_buffer_addr d)] w;
         store_index = unat (rx_opaque rxph)
     in bindR (aget (rx_skb_store w) store_index) (\<lambda>skb.
        let w = w\<lparr>rx_skb_store := (rx_skb_store w)[store_index := None]\<rparr>
        in case skb of
             None \<Rightarrow> Inr w
           | Some s \<Rightarrow> edma_rx_deliver k rxph d s w)))"

lemma unat_succ_less: "(a :: u32) < b \<Longrightarrow> unat b - unat (a + 1) < unat b - unat a"
proof -
  assume "a < b"
  then have l: "unat a < unat b" by (simp add: word_less_nat_alt)
  have "unat b < 4294967296" using unsigned_less [of b] by simp
  with l have "unat (a + 1) = Suc (unat a)"
    by (subst unat_add_lem [THEN iffD1]) auto
  with l show ?thesis by simp
qed

function edma_clean_rx_loop ::
  "edma_kernel \<Rightarrow> nat \<Rightarrow> u32 \<Rightarrow> u16 \<Rightarrow> int \<Rightarrow> u16 \<Rightarrow> u32 \<Rightarrow> edma_world
     \<Rightarrow> (u16 \<times> u32 \<times> edma_world) result" where
  "edma_clean_rx_loop k r rid count work_to_do cons_idx work_done w =
     (let w = ek_rx_hw k r (unat work_done) w;
          prod_idx = ucast (edma_reg_read w (EDMA_REG_RXDESC_PROD_IDX rid) AND EDMA_RXDESC_PROD_IDX_MASK) :: u16
      in if cons_idx = prod_idx then Inr (cons_idx, work_done, w)
         else if work_done \<ge> word_of_int work_to_do then Inr (cons_idx, work_done, w)
         else bindR (edma_clean_rx_one k r cons_idx w)
                (edma_clean_rx_loop k r rid count work_to_do (ring_next count cons_idx) (work_done + 1)))"
  by pat_completeness auto
termination
  by (relation "measure (\<lambda>(k, r, rid, count, work_to_do, cons_idx, work_done, w).
        unat (word_of_int work_to_do :: u32) - unat work_done)")
     (auto simp: not_le unat_succ_less)

declare edma_clean_rx_loop.simps [simp del]

definition edma_clean_rx :: "edma_kernel \<Rightarrow> int \<Rightarrow> nat \<Rightarrow> edma_world \<Rightarrow> (u32 \<times> edma_world) result" where
  "edma_clean_rx k work_to_do r w =
     bindR (aget (rxdesc_ring w) r) (\<lambda>ring.
     let cons_idx = ucast (edma_reg_read w (EDMA_REG_RXDESC_CONS_IDX (rd_id ring))
                             AND EDMA_RXDESC_CONS_IDX_MASK) :: u16
     in bindR (edma_clean_rx_loop k r (rd_id ring) (rd_count ring) work_to_do cons_idx 0 w)
          (\<lambda>(cons_idx, work_done, w).
        bindR (edma_alloc_rx_buffer k (rd_rxfill ring) w) (\<lambda>(n, w).
        Inr (work_done,
             edma_reg_write w (EDMA_REG_RXDESC_CONS_IDX (rd_id ring)) (ucast cons_idx)))))"

section \<open>Polling and interrupts\<close>

text \<open>The net devices whose queue was stopped are woken when their carrier is up.\<close>

definition edma_wake_one :: "edma_kernel \<Rightarrow> nat \<Rightarrow> edma_world \<Rightarrow> edma_world result" where
  "edma_wake_one k i w =
     bindR (aget (netdev_arr w) i) (\<lambda>nd.
     case nd of
       None \<Rightarrow> Inr w
     | Some ndev \<Rightarrow>
         Inr (if ek_queue_stopped k ndev \<and> ek_carrier_ok k ndev then ekcalls [Ek_start_queue ndev] w else w))"

definition edma_set_rxdesc_mask :: "u32 \<Rightarrow> nat \<Rightarrow> edma_world \<Rightarrow> edma_world result" where
  "edma_set_rxdesc_mask m i w =
     bindR (aget (rxdesc_ring w) i) (\<lambda>ring. Inr (edma_reg_write w (EDMA_REG_RXDESC_INT_MASK (rd_id ring)) m))"

definition edma_set_txcmpl_mask :: "soc \<Rightarrow> u32 \<Rightarrow> nat \<Rightarrow> edma_world \<Rightarrow> edma_world result" where
  "edma_set_txcmpl_mask soc m i w =
     bindR (aget (txcmpl_ring w) i) (\<lambda>ring. Inr (edma_reg_write w (EDMA_REG_TX_INT_MASK soc (tc_id ring)) m))"

definition edma_set_rxfill_mask :: "u32 \<Rightarrow> nat \<Rightarrow> edma_world \<Rightarrow> edma_world result" where
  "edma_set_rxfill_mask m i w =
     bindR (aget (rxfill_ring w) i) (\<lambda>ring. Inr (edma_reg_write w (EDMA_REG_RXFILL_INT_MASK (rf_id ring)) m))"

text \<open>One turn of a work-accumulating loop: \<open>work_done += f(ring i)\<close>.\<close>

definition add_work ::
  "(nat \<Rightarrow> edma_world \<Rightarrow> ('n::len word \<times> edma_world) result) \<Rightarrow> nat \<Rightarrow> u32 \<times> edma_world
     \<Rightarrow> (u32 \<times> edma_world) result" where
  "add_work f i = (\<lambda>(work_done, w). bindR (f i w) (\<lambda>(n, w). Inr (work_done + ucast n, w)))"

definition edma_napi :: "edma_kernel \<Rightarrow> int \<Rightarrow> edma_world \<Rightarrow> (int \<times> edma_world) result" where
  "edma_napi k budget w =
     (let nrx = unat (rxdesc_rings (layout w)); ntx = unat (txcmpl_rings (layout w));
          nfill = unat (rxfill_rings (layout w))
      in bindR (for_upto 0 nrx (add_work (edma_clean_rx k budget)) (0, w)) (\<lambda>s.
         bindR (for_upto 0 ntx (add_work (edma_clean_tx k)) s) (\<lambda>s.
         bindR (for_upto 0 nfill (add_work (edma_alloc_rx_buffer k)) s) (\<lambda>(work_done, w).
         bindR (for_upto 0 (EDMA_MAX_GMACS (ek_soc k)) (edma_wake_one k) w) (\<lambda>w.
         if sint work_done < budget
         then
          (let w = ekcalls [Ek_napi_complete] w
           in bindR (for_upto 0 nrx (edma_set_rxdesc_mask (rxdesc_intr_mask w)) w) (\<lambda>w.
              bindR (for_upto 0 ntx (edma_set_txcmpl_mask (ek_soc k) (txcmpl_intr_mask w)) w) (\<lambda>w.
              bindR (for_upto 0 nfill (edma_set_rxfill_mask (rxfill_intr_mask w)) w) (\<lambda>w.
              Inr (sint work_done, w)))))
         else Inr (sint work_done, w))))))"

definition edma_handle_misc_irq :: "edma_world \<Rightarrow> irqreturn_t \<times> edma_world" where
  "edma_handle_misc_irq w =
     (let reg_data = edma_reg_read w EDMA_REG_MISC_INT_STAT;
          misc_intr_status = reg_data AND misc_intr_mask w
      in if misc_intr_status = 0 then (IRQ_NONE, w)
         else (IRQ_HANDLED, edma_reg_write w EDMA_REG_MISC_INT_MASK EDMA_MASK_INT_DISABLE))"

text \<open>One turn of an interrupt loop: collect the status bits of a ring and mask its interrupt.\<close>

definition rxdesc_irq_one :: "nat \<Rightarrow> u32 \<times> edma_world \<Rightarrow> (u32 \<times> edma_world) result" where
  "rxdesc_irq_one i = (\<lambda>(status, w).
     bindR (aget (rxdesc_ring w) i) (\<lambda>ring.
     let reg_data = edma_reg_read w (EDMA_REG_RXDESC_INT_STAT (rd_id ring));
         status = status OR (reg_data AND EDMA_RXDESC_RING_INT_STATUS_MASK)
     in Inr (status, edma_reg_write w (EDMA_REG_RXDESC_INT_MASK (rd_id ring)) EDMA_MASK_INT_DISABLE)))"

definition txcmpl_irq_one :: "soc \<Rightarrow> nat \<Rightarrow> u32 \<times> edma_world \<Rightarrow> (u32 \<times> edma_world) result" where
  "txcmpl_irq_one soc i = (\<lambda>(status, w).
     bindR (aget (txcmpl_ring w) i) (\<lambda>ring.
     let reg_data = edma_reg_read w (EDMA_REG_TX_INT_STAT soc (tc_id ring));
         status = status OR (reg_data AND EDMA_TXCMPL_RING_INT_STATUS_MASK)
     in Inr (status, edma_reg_write w (EDMA_REG_TX_INT_MASK soc (tc_id ring)) EDMA_MASK_INT_DISABLE)))"

definition rxfill_irq_one :: "nat \<Rightarrow> u32 \<times> edma_world \<Rightarrow> (u32 \<times> edma_world) result" where
  "rxfill_irq_one i = (\<lambda>(status, w).
     bindR (aget (rxfill_ring w) i) (\<lambda>ring.
     let reg_data = edma_reg_read w (EDMA_REG_RXFILL_INT_STAT (rf_id ring));
         status = status OR (reg_data AND EDMA_RXFILL_RING_INT_STATUS_MASK)
     in Inr (status, edma_reg_write w (EDMA_REG_RXFILL_INT_MASK (rf_id ring)) EDMA_MASK_INT_DISABLE)))"

text \<open>\<open>drvdata\<close> says whether the platform device carries the driver data.\<close>

definition edma_handle_irq :: "edma_kernel \<Rightarrow> bool \<Rightarrow> edma_world \<Rightarrow> (irqreturn_t \<times> edma_world) result" where
  "edma_handle_irq k drvdata w =
     (if \<not> drvdata then Inr (IRQ_HANDLED, w)
      else
       (let nrx = unat (rxdesc_rings (layout w)); ntx = unat (txcmpl_rings (layout w));
            nfill = unat (rxfill_rings (layout w))
        in bindR (for_upto 0 nrx rxdesc_irq_one (0, w)) (\<lambda>(rxdesc_intr_status, w).
           bindR (for_upto 0 ntx (txcmpl_irq_one (ek_soc k)) (0, w)) (\<lambda>(txcmpl_intr_status, w).
           bindR (for_upto 0 nfill rxfill_irq_one (0, w)) (\<lambda>(rxfill_intr_status, w).
           if rxdesc_intr_status = 0 \<and> txcmpl_intr_status = 0 \<and> rxfill_intr_status = 0
           then Inr (IRQ_NONE, w)
           else
             bindR (for_upto 0 nrx (edma_set_rxdesc_mask EDMA_MASK_INT_DISABLE) w) (\<lambda>w.
             Inr (IRQ_HANDLED, if ek_napi_schedule_prep k then ekcalls [Ek_napi_schedule] w else w)))))))"

section \<open>Transmit\<close>

definition txdesc_set :: "nat \<Rightarrow> nat \<Rightarrow> edma_txdesc_desc \<Rightarrow> edma_world \<Rightarrow> edma_world result" where
  "txdesc_set r i d w =
     bindR (aget (txdesc_ring w) r) (\<lambda>ring.
     bindR (aset (td_desc ring) i d) (\<lambda>ds.
     Inr (w\<lparr>txdesc_ring := (txdesc_ring w)[r := ring\<lparr>td_desc := ds\<rparr>]\<rparr>)))"

definition zero_txph :: edma_tx_preheader where
  "zero_txph = \<lparr>tx_opaque = 0, tx_src_info = 0, tx_dst_info = 0, tx_pre2 = 0, tx_pre3 = 0,
     tx_pre4 = 0, tx_pre5 = 0, tx_pre6 = 0, tx_pre7 = 0\<rparr>"

definition edma_tx_dst_info :: "u32 \<Rightarrow> u16" where
  "edma_tx_dst_info macid = ucast (push_bit 8 EDMA_PREHDR_DSTINFO_PORTID_IND OR (macid AND 0x0fff))"

definition edma_tx_word1 :: "u16 \<Rightarrow> u32" where
  "edma_tx_word1 buf_len =
     push_bit EDMA_TXDESC_PREHEADER_SHIFT 1
       OR push_bit EDMA_TXDESC_DATA_OFFSET_SHIFT (of_nat EDMA_TX_PREHDR_SIZE AND EDMA_TXDESC_DATA_OFFSET_MASK)
       OR push_bit EDMA_TXDESC_DATA_LENGTH_SHIFT (ucast buf_len AND EDMA_TXDESC_DATA_LENGTH_MASK)"

definition edma_ring_xmit ::
  "edma_kernel \<Rightarrow> nat \<Rightarrow> edma_skb \<Rightarrow> nat \<Rightarrow> edma_world \<Rightarrow> (edma_tx \<times> edma_world) result" where
  "edma_ring_xmit k netdev skb r w =
     bindR (aget (txdesc_ring w) r) (\<lambda>ring.
     let buf_len = ucast (es_headlen skb) :: u16;
         data = edma_reg_read w (EDMA_REG_TXDESC_PROD_IDX (td_id ring));
         hw_next_to_use = ucast (data AND EDMA_TXDESC_PROD_IDX_MASK) :: u16;
         data = edma_reg_read w (EDMA_REG_TXDESC_CONS_IDX (td_id ring));
         hw_next_to_clean = ucast (data AND EDMA_TXDESC_CONS_IDX_MASK) :: u16;
         chk_idx = (hw_next_to_use + 1) AND (td_count ring - 1)
     in if chk_idx = hw_next_to_clean then Inr (EDMA_TX_DESC, w)
        else
         (let w = (if es_hw_tstamp skb then nss_phy_tstamp_tx_buf k netdev (es_ref skb) w else w);
              w = ekcalls [Ek_skb_push (es_ref skb)] w;
              txph = zero_txph\<lparr>tx_dst_info := edma_tx_dst_info (ek_macid k netdev)\<rparr>;
              w = w\<lparr>txph_mem := (txph_mem w)(es_ref skb := txph)\<rparr>;
              store_index = hw_next_to_use AND (td_count ring - 1)
          in bindR (aget (tx_skb_store w) (unat store_index)) (\<lambda>old.
             if old \<noteq> None then Inr (EDMA_TX_DESC, w)
             else
              (let w = w\<lparr>tx_skb_store := (tx_skb_store w)[unat store_index := Some (es_ref skb)],
                         txph_mem := (txph_mem w)(es_ref skb := txph\<lparr>tx_opaque := ucast store_index\<rparr>)\<rparr>;
                   addr = ek_map_tx k (es_ref skb)
               in bindR (txdesc_set r (unat hw_next_to_use) \<lparr>td_buffer_addr = addr, td_word1 = 0\<rparr> w) (\<lambda>w.
                  if addr = 0
                  then Inr (EDMA_TX_OK, (ekcalls [Ek_kfree (es_ref skb)] w)
                                \<lparr>tx_skb_store := (tx_skb_store w)[unat store_index := None]\<rparr>)
                  else
                    bindR (txdesc_set r (unat hw_next_to_use)
                             \<lparr>td_buffer_addr = addr, td_word1 = edma_tx_word1 buf_len\<rparr> w) (\<lambda>w.
                    let hw_next_to_use = (hw_next_to_use + 1) AND (td_count ring - 1)
                    in Inr (EDMA_TX_OK,
                            edma_reg_write w (EDMA_REG_TXDESC_PROD_IDX (td_id ring))
                              (ucast hw_next_to_use AND EDMA_TXDESC_PROD_IDX_MASK))))))))"

end
