(* ===== verification/Edma_Cfg.thy ===== *)
theory Edma_Cfg
  imports Edma_Tx_Rx
begin

text \<open>
  Configuration of the EDMA engine (\<open>hal/edma/edma_cfg.c\<close>): allocation and clean-up of the rings,
  their registers, and the hardware initialisation.
\<close>

section \<open>Clean-up of one ring\<close>

text \<open>\<open>dev_kfree_skb_any\<close> ignores a null pointer.\<close>

definition kfree_skb_any :: "skb_ref option \<Rightarrow> edma_world \<Rightarrow> edma_world" where
  "kfree_skb_any skb w = (case skb of None \<Rightarrow> w | Some s \<Rightarrow> ekcalls [Ek_kfree s] w)"

text \<open>Unmap the buffer at a bus address, take it off the receive store and free it.\<close>

definition edma_drop_rx :: "u32 \<Rightarrow> edma_world \<Rightarrow> edma_world result" where
  "edma_drop_rx addr w =
     (let rxph = rxph_mem w addr;
          w = ekcalls [Ek_unmap_rx addr] w;
          store_idx = unat (rx_opaque rxph)
      in bindR (aget (rx_skb_store w) store_idx) (\<lambda>skb.
         let w = w\<lparr>rx_skb_store := (rx_skb_store w)[store_idx := None]\<rparr>
         in Inr (kfree_skb_any skb w)))"

definition edma_cleanup_rxfill_ring_res :: "nat \<Rightarrow> edma_world \<Rightarrow> edma_world result" where
  "edma_cleanup_rxfill_ring_res r w =
     bindR (aget (rxfill_ring w) r) (\<lambda>ring.
     let reg_data = edma_reg_read w (EDMA_REG_RXFILL_PROD_IDX (rf_id ring));
         curr_idx = ucast (reg_data AND EDMA_RXFILL_PROD_IDX_MASK) :: u16;
         reg_data = edma_reg_read w (EDMA_REG_RXFILL_CONS_IDX (rf_id ring));
         cons_idx = ucast (reg_data AND EDMA_RXFILL_CONS_IDX_MASK) :: u16
     in bindR (walk_u16 (ring_next (rf_count ring))
                 (\<lambda>i w. bindR (aget (rf_desc ring) (unat i)) (\<lambda>d. edma_drop_rx (rf_buffer_addr d) w))
                 curr_idx cons_idx w) (\<lambda>w.
        Inr (ekcalls [Ek_dma_free_coherent (rf_dma ring)] w)))"

definition edma_cleanup_rxdesc_ring_res :: "nat \<Rightarrow> edma_world \<Rightarrow> edma_world result" where
  "edma_cleanup_rxdesc_ring_res r w =
     bindR (aget (rxdesc_ring w) r) (\<lambda>ring.
     let cons_idx = ucast (edma_reg_read w (EDMA_REG_RXDESC_CONS_IDX (rd_id ring))
                             AND EDMA_RXDESC_CONS_IDX_MASK) :: u16;
         prod_idx = ucast (edma_reg_read w (EDMA_REG_RXDESC_PROD_IDX (rd_id ring))
                             AND EDMA_RXDESC_PROD_IDX_MASK) :: u16
     in bindR (walk_u16 (ring_next (rd_count ring))
                 (\<lambda>i w. bindR (aget (rd_desc ring) (unat i)) (\<lambda>d. edma_drop_rx (rd_buffer_addr d) w))
                 prod_idx cons_idx w) (\<lambda>w.
        Inr (ekcalls [Ek_dma_free_coherent (rd_dma ring)] w)))"

definition edma_cleanup_txcmpl_ring_res :: "edma_kernel \<Rightarrow> nat \<Rightarrow> edma_world \<Rightarrow> edma_world result" where
  "edma_cleanup_txcmpl_ring_res k r w =
     bindR (edma_clean_tx k r w) (\<lambda>(n, w).
     bindR (aget (txcmpl_ring w) r) (\<lambda>ring.
     Inr (ekcalls [Ek_dma_free_coherent (tc_dma ring)] w)))"

text \<open>
  The transmit clean-up takes the bus address of the descriptor for the index of the store,
  reads through the buffer it finds there, and advances the index twice per turn.
\<close>

definition edma_cleanup_txdesc_one :: "edma_txdesc_ring \<Rightarrow> u16 \<Rightarrow> edma_world \<Rightarrow> edma_world result" where
  "edma_cleanup_txdesc_one ring cons_idx w =
     bindR (aget (td_desc ring) (unat cons_idx)) (\<lambda>txdesc.
     let store_idx = unat (td_buffer_addr txdesc)
     in bindR (aget (tx_skb_store w) store_idx) (\<lambda>skb.
        let w = w\<lparr>tx_skb_store := (tx_skb_store w)[store_idx := None]\<rparr>
        in case skb of
             None \<Rightarrow> Inl Null_Pointer
           | Some s \<Rightarrow> Inr (ekcalls [Ek_unmap_tx s, Ek_kfree s] w)))"

definition txdesc_cleanup_next :: "u16 \<Rightarrow> u16 \<Rightarrow> u16" where
  "txdesc_cleanup_next count cons_idx = ring_next count ((cons_idx + 1) AND (count - 1))"

definition edma_cleanup_txdesc_ring_res :: "nat \<Rightarrow> edma_world \<Rightarrow> edma_world result" where
  "edma_cleanup_txdesc_ring_res r w =
     bindR (aget (txdesc_ring w) r) (\<lambda>ring.
     let data = edma_reg_read w (EDMA_REG_TXDESC_PROD_IDX (td_id ring));
         prod_idx = ucast (data AND EDMA_TXDESC_PROD_IDX_MASK) :: u16;
         data = edma_reg_read w (EDMA_REG_TXDESC_CONS_IDX (td_id ring));
         cons_idx = ucast (data AND EDMA_TXDESC_CONS_IDX_MASK) :: u16
     in bindR (walk_u16 (txdesc_cleanup_next (td_count ring)) (edma_cleanup_txdesc_one ring)
                 prod_idx cons_idx w) (\<lambda>w.
        Inr (ekcalls [Ek_dma_free_coherent (td_dma ring)] w)))"

section \<open>Set-up of the rings\<close>

text \<open>\<open>dma_alloc_coherent\<close>: the answers are numbered in the order of the calls; the memory is zeroed.\<close>

definition dma_alloc_coherent :: "edma_kernel \<Rightarrow> edma_world \<Rightarrow> u64 option \<times> edma_world" where
  "dma_alloc_coherent k w =
     (ek_dma_alloc_coherent k (ek_mem_allocs w), w\<lparr>ek_mem_allocs := Suc (ek_mem_allocs w)\<rparr>)"

definition edma_setup_rxfill_ring_res ::
  "edma_kernel \<Rightarrow> nat \<Rightarrow> edma_rxfill_ring \<Rightarrow> edma_world \<Rightarrow> status \<times> edma_world" where
  "edma_setup_rxfill_ring_res k r ring w =
     (case dma_alloc_coherent k w of
        (None, w) \<Rightarrow> (Errno ENOMEM, w\<lparr>rxfill_ring := (rxfill_ring w)[r := ring\<lparr>rf_desc := []\<rparr>]\<rparr>)
      | (Some dma, w) \<Rightarrow>
          (Success, w\<lparr>rxfill_ring := (rxfill_ring w)[r := ring
             \<lparr>rf_desc := replicate (unat (rf_count ring)) \<lparr>rf_buffer_addr = 0, rf_word1 = 0\<rparr>, rf_dma := dma\<rparr>]\<rparr>))"

definition edma_setup_rxdesc_ring_res ::
  "edma_kernel \<Rightarrow> nat \<Rightarrow> edma_rxdesc_ring \<Rightarrow> edma_world \<Rightarrow> status \<times> edma_world" where
  "edma_setup_rxdesc_ring_res k r ring w =
     (case dma_alloc_coherent k w of
        (None, w) \<Rightarrow> (Errno ENOMEM, w\<lparr>rxdesc_ring := (rxdesc_ring w)[r := ring\<lparr>rd_desc := []\<rparr>]\<rparr>)
      | (Some dma, w) \<Rightarrow>
          (Success, w\<lparr>rxdesc_ring := (rxdesc_ring w)[r := ring
             \<lparr>rd_desc := replicate (unat (rd_count ring)) \<lparr>rd_buffer_addr = 0, rd_status = 0\<rparr>, rd_dma := dma\<rparr>]\<rparr>))"

definition edma_setup_txcmpl_ring_res ::
  "edma_kernel \<Rightarrow> nat \<Rightarrow> edma_txcmpl_ring \<Rightarrow> edma_world \<Rightarrow> status \<times> edma_world" where
  "edma_setup_txcmpl_ring_res k r ring w =
     (case dma_alloc_coherent k w of
        (None, w) \<Rightarrow> (Errno ENOMEM, w\<lparr>txcmpl_ring := (txcmpl_ring w)[r := ring\<lparr>tc_desc := []\<rparr>]\<rparr>)
      | (Some dma, w) \<Rightarrow>
          (Success, w\<lparr>txcmpl_ring := (txcmpl_ring w)[r := ring
             \<lparr>tc_desc := replicate (unat (tc_count ring)) \<lparr>tc_buffer_addr = 0, tc_status = 0\<rparr>, tc_dma := dma\<rparr>]\<rparr>))"

definition edma_setup_txdesc_ring_res ::
  "edma_kernel \<Rightarrow> nat \<Rightarrow> edma_txdesc_ring \<Rightarrow> edma_world \<Rightarrow> status \<times> edma_world" where
  "edma_setup_txdesc_ring_res k r ring w =
     (case dma_alloc_coherent k w of
        (None, w) \<Rightarrow> (Errno ENOMEM, w\<lparr>txdesc_ring := (txdesc_ring w)[r := ring\<lparr>td_desc := []\<rparr>]\<rparr>)
      | (Some dma, w) \<Rightarrow>
          (Success, w\<lparr>txdesc_ring := (txdesc_ring w)[r := ring
             \<lparr>td_desc := replicate (unat (td_count ring)) \<lparr>td_buffer_addr = 0, td_word1 = 0\<rparr>, td_dma := dma\<rparr>]\<rparr>))"

text \<open>
  A loop that sets up ring after ring and stops at the first failure, with the index it failed
  at; and the two clean-up loops that then run backwards: \<open>while (--i >= 0)\<close> visits \<open>i - 1\<close> down
  to 0, \<open>while (i-- >= 0)\<close> visits \<open>-1\<close> as well.
\<close>

fun try_upto ::
  "nat \<Rightarrow> nat \<Rightarrow> (nat \<Rightarrow> 's \<Rightarrow> (status \<times> 's) result) \<Rightarrow> 's \<Rightarrow> (nat option \<times> 's) result" where
  "try_upto a 0 f s = Inr (None, s)"
| "try_upto a (Suc n) f s =
     bindR (f a s) (\<lambda>(ret, s). if failed ret then Inr (Some a, s) else try_upto (Suc a) n f s)"

definition down_pre :: "(nat \<Rightarrow> 's \<Rightarrow> 's result) \<Rightarrow> nat \<Rightarrow> 's \<Rightarrow> 's result" where
  "down_pre f i = for_list f (rev [0..<i])"

definition down_post :: "(nat \<Rightarrow> 's \<Rightarrow> 's result) \<Rightarrow> nat \<Rightarrow> 's \<Rightarrow> 's result" where
  "down_post f i =
     for_list (\<lambda>j s. if j < 0 then Inl Index_Range else f (nat j) s) (rev [-1..int i - 1])"

definition setup_txdesc_one :: "edma_kernel \<Rightarrow> nat \<Rightarrow> edma_world \<Rightarrow> (status \<times> edma_world) result" where
  "setup_txdesc_one k i w =
     bindR (aget (txdesc_ring w) i) (\<lambda>ring.
     Inr (edma_setup_txdesc_ring_res k i
            (ring\<lparr>td_count := of_nat EDMA_RING_SIZE, td_id := txdesc_ring_start (layout w) + of_nat i\<rparr>) w))"

definition setup_txcmpl_one :: "edma_kernel \<Rightarrow> nat \<Rightarrow> edma_world \<Rightarrow> (status \<times> edma_world) result" where
  "setup_txcmpl_one k i w =
     bindR (aget (txcmpl_ring w) i) (\<lambda>ring.
     Inr (edma_setup_txcmpl_ring_res k i
            (ring\<lparr>tc_count := of_nat EDMA_RING_SIZE, tc_id := txcmpl_ring_start (layout w) + of_nat i\<rparr>) w))"

definition setup_rxfill_one :: "edma_kernel \<Rightarrow> nat \<Rightarrow> edma_world \<Rightarrow> (status \<times> edma_world) result" where
  "setup_rxfill_one k i w =
     bindR (aget (rxfill_ring w) i) (\<lambda>ring.
     Inr (edma_setup_rxfill_ring_res k i
            (ring\<lparr>rf_count := of_nat EDMA_RING_SIZE, rf_id := rxfill_ring_start (layout w) + of_nat i\<rparr>) w))"

definition setup_rxdesc_one :: "edma_kernel \<Rightarrow> nat \<Rightarrow> edma_world \<Rightarrow> (status \<times> edma_world) result" where
  "setup_rxdesc_one k i w =
     bindR (aget (rxdesc_ring w) i) (\<lambda>ring.
     let n = unat (rxfill_rings (layout w))
     in if n = 0 then Inl Div_Zero
        else Inr (edma_setup_rxdesc_ring_res k i
            (ring\<lparr>rd_count := of_nat EDMA_RING_SIZE, rd_id := rxdesc_ring_start (layout w) + of_nat i,
                  rd_rxfill := i mod n\<rparr>) w))"

definition cleanup_all_txdesc :: "edma_world \<Rightarrow> edma_world result" where
  "cleanup_all_txdesc w = for_upto 0 (unat (txdesc_rings (layout w))) edma_cleanup_txdesc_ring_res w"

definition cleanup_all_txcmpl :: "edma_kernel \<Rightarrow> edma_world \<Rightarrow> edma_world result" where
  "cleanup_all_txcmpl k w = for_upto 0 (unat (txcmpl_rings (layout w))) (edma_cleanup_txcmpl_ring_res k) w"

definition cleanup_all_rxfill :: "edma_world \<Rightarrow> edma_world result" where
  "cleanup_all_rxfill w = for_upto 0 (unat (rxfill_rings (layout w))) edma_cleanup_rxfill_ring_res w"

definition cleanup_all_rxdesc :: "edma_world \<Rightarrow> edma_world result" where
  "cleanup_all_rxdesc w = for_upto 0 (unat (rxdesc_rings (layout w))) edma_cleanup_rxdesc_ring_res w"

definition edma_setup_ring_resources :: "edma_kernel \<Rightarrow> edma_world \<Rightarrow> (status \<times> edma_world) result" where
  "edma_setup_ring_resources k w =
     bindR (try_upto 0 (unat (txdesc_rings (layout w))) (setup_txdesc_one k) w) (\<lambda>(bad, w).
     case bad of
       Some i \<Rightarrow> bindR (down_post edma_cleanup_txdesc_ring_res i w) (\<lambda>w. Inr (Errno ENOMEM, w))
     | None \<Rightarrow>
     bindR (try_upto 0 (unat (txcmpl_rings (layout w))) (setup_txcmpl_one k) w) (\<lambda>(bad, w).
     case bad of
       Some i \<Rightarrow>
         bindR (down_post (edma_cleanup_txcmpl_ring_res k) i w) (\<lambda>w.
         bindR (cleanup_all_txdesc w) (\<lambda>w. Inr (Errno ENOMEM, w)))
     | None \<Rightarrow>
     bindR (try_upto 0 (unat (rxfill_rings (layout w))) (setup_rxfill_one k) w) (\<lambda>(bad, w).
     case bad of
       Some i \<Rightarrow>
         bindR (down_pre edma_cleanup_rxfill_ring_res i w) (\<lambda>w.
         bindR (cleanup_all_txcmpl k w) (\<lambda>w.
         bindR (cleanup_all_txdesc w) (\<lambda>w. Inr (Errno ENOMEM, w))))
     | None \<Rightarrow>
     bindR (try_upto 0 (unat (rxdesc_rings (layout w))) (setup_rxdesc_one k) w) (\<lambda>(bad, w).
     case bad of
       Some i \<Rightarrow>
         bindR (down_pre edma_cleanup_rxdesc_ring_res i w) (\<lambda>w.
         bindR (cleanup_all_rxfill w) (\<lambda>w.
         bindR (cleanup_all_txcmpl k w) (\<lambda>w.
         bindR (cleanup_all_txdesc w) (\<lambda>w. Inr (Errno ENOMEM, w)))))
     | None \<Rightarrow> Inr (Success, w)))))"

definition edma_free_rings :: "edma_world \<Rightarrow> edma_world" where
  "edma_free_rings w =
     ekcalls [Ek_kfree_ring RXFILL, Ek_kfree_ring RXDESC, Ek_kfree_ring TXDESC, Ek_kfree_ring TXCMPL] w"

text \<open>\<open>kzalloc\<close> of the software rings; \<open>ek_kzalloc\<close> answers the four calls in their order.\<close>

definition zero_rxfill_ring :: edma_rxfill_ring where
  "zero_rxfill_ring = \<lparr>rf_id = 0, rf_desc = [], rf_dma = 0, rf_count = 0\<rparr>"

definition zero_rxdesc_ring :: edma_rxdesc_ring where
  "zero_rxdesc_ring = \<lparr>rd_id = 0, rd_rxfill = 0, rd_desc = [], rd_dma = 0, rd_count = 0\<rparr>"

definition zero_txdesc_ring :: edma_txdesc_ring where
  "zero_txdesc_ring = \<lparr>td_id = 0, td_desc = [], td_dma = 0, td_count = 0\<rparr>"

definition zero_txcmpl_ring :: edma_txcmpl_ring where
  "zero_txcmpl_ring = \<lparr>tc_id = 0, tc_desc = [], tc_dma = 0, tc_count = 0\<rparr>"

definition edma_alloc_rings :: "edma_kernel \<Rightarrow> edma_world \<Rightarrow> status \<times> edma_world" where
  "edma_alloc_rings k w =
     (let l = layout w
      in if \<not> ek_kzalloc k 0 then (Errno ENOMEM, w\<lparr>rxfill_ring := []\<rparr>)
         else
          (let w = w\<lparr>rxfill_ring := replicate (unat (rxfill_rings l)) zero_rxfill_ring\<rparr>
           in if \<not> ek_kzalloc k 1 then (Errno ENOMEM, ekcalls [Ek_kfree_ring RXFILL] (w\<lparr>rxdesc_ring := []\<rparr>))
              else
               (let w = w\<lparr>rxdesc_ring := replicate (unat (rxdesc_rings l)) zero_rxdesc_ring\<rparr>
                in if \<not> ek_kzalloc k 2
                   then (Errno ENOMEM, ekcalls [Ek_kfree_ring RXDESC, Ek_kfree_ring RXFILL] (w\<lparr>txdesc_ring := []\<rparr>))
                   else
                    (let w = w\<lparr>txdesc_ring := replicate (unat (txdesc_rings l)) zero_txdesc_ring\<rparr>
                     in if \<not> ek_kzalloc k 3
                        then (Errno ENOMEM,
                              ekcalls [Ek_kfree_ring TXDESC, Ek_kfree_ring RXDESC, Ek_kfree_ring RXFILL]
                                (w\<lparr>txcmpl_ring := []\<rparr>))
                        else (Success, w\<lparr>txcmpl_ring := replicate (unat (txcmpl_rings l)) zero_txcmpl_ring\<rparr>)))))"

definition edma_cleanup_rings :: "edma_kernel \<Rightarrow> edma_world \<Rightarrow> edma_world result" where
  "edma_cleanup_rings k w =
     bindR (cleanup_all_txdesc w) (\<lambda>w.
     bindR (cleanup_all_txcmpl k w) (\<lambda>w.
     bindR (cleanup_all_rxfill w) (\<lambda>w.
     bindR (cleanup_all_rxdesc w) (\<lambda>w.
     Inr (edma_free_rings w)))))"

definition edma_init_rings :: "edma_kernel \<Rightarrow> edma_world \<Rightarrow> (status \<times> edma_world) result" where
  "edma_init_rings k w =
     (case edma_alloc_rings k w of
        (ret, w) \<Rightarrow> if failed ret then Inr (ret, w) else edma_setup_ring_resources k w)"

section \<open>Configuration of the rings\<close>

definition edma_configure_txdesc_ring :: "nat \<Rightarrow> edma_world \<Rightarrow> edma_world result" where
  "edma_configure_txdesc_ring r w =
     bindR (aget (txdesc_ring w) r) (\<lambda>ring.
     let w = edma_reg_write w (EDMA_REG_TXDESC_BA (td_id ring)) (ucast (td_dma ring AND ucast EDMA_RING_DMA_MASK));
         w = edma_reg_write w (EDMA_REG_TXDESC_RING_SIZE (td_id ring))
               (ucast (td_count ring) AND EDMA_TXDESC_RING_SIZE_MASK);
         data = edma_reg_read w (EDMA_REG_TXDESC_CONS_IDX (td_id ring));
         data = data AND NOT EDMA_TXDESC_CONS_IDX_MASK;
         hw_cons_idx = ucast data :: u16;
         data = edma_reg_read w (EDMA_REG_TXDESC_PROD_IDX (td_id ring));
         data = data AND NOT EDMA_TXDESC_PROD_IDX_MASK;
         data = data OR (ucast hw_cons_idx AND EDMA_TXDESC_PROD_IDX_MASK)
     in Inr (edma_reg_write w (EDMA_REG_TXDESC_PROD_IDX (td_id ring)) data))"

definition edma_configure_txcmpl_ring :: "edma_kernel \<Rightarrow> nat \<Rightarrow> edma_world \<Rightarrow> edma_world result" where
  "edma_configure_txcmpl_ring k r w =
     bindR (aget (txcmpl_ring w) r) (\<lambda>ring.
     let s = ek_soc k;
         w = edma_reg_write w (EDMA_REG_TXCMPL_BA s (tc_id ring)) (ucast (tc_dma ring AND ucast EDMA_RING_DMA_MASK));
         w = edma_reg_write w (EDMA_REG_TXCMPL_RING_SIZE s (tc_id ring))
               (ucast (tc_count ring) AND EDMA_TXDESC_RING_SIZE_MASK);
         w = edma_reg_write w (EDMA_REG_TXCMPL_CTRL s (tc_id ring)) EDMA_TXCMPL_RETMODE_OPAQUE;
         tx_mod_timer = push_bit EDMA_TX_MOD_TIMER_INIT_SHIFT (EDMA_TX_MOD_TIMER AND EDMA_TX_MOD_TIMER_INIT_MASK);
         w = edma_reg_write w (EDMA_REG_TX_MOD_TIMER s (tc_id ring)) tx_mod_timer
     in Inr (edma_reg_write w (EDMA_REG_TX_INT_CTRL s (tc_id ring)) 0x2))"

definition edma_configure_rxdesc_ring :: "nat \<Rightarrow> edma_world \<Rightarrow> edma_world result" where
  "edma_configure_rxdesc_ring r w =
     bindR (aget (rxdesc_ring w) r) (\<lambda>ring.
     let w = edma_reg_write w (EDMA_REG_RXDESC_BA (rd_id ring)) (ucast (rd_dma ring AND 0xffffffff));
         data = ucast (rd_count ring) AND EDMA_RXDESC_RING_SIZE_MASK;
         data = data OR push_bit EDMA_RXDESC_PL_OFFSET_SHIFT
                          (ucast (rx_payload_offset w) AND EDMA_RXDESC_PL_OFFSET_MASK);
         w = edma_reg_write w (EDMA_REG_RXDESC_RING_SIZE (rd_id ring)) data;
         data = push_bit EDMA_RX_MOD_TIMER_INIT_SHIFT (EDMA_RX_MOD_TIMER_INIT AND EDMA_RX_MOD_TIMER_INIT_MASK);
         w = edma_reg_write w (EDMA_REG_RX_MOD_TIMER (rd_id ring)) data
     in Inr (edma_reg_write w (EDMA_REG_RX_INT_CTRL (rd_id ring)) 0x2))"

definition edma_configure_rxfill_ring :: "edma_kernel \<Rightarrow> nat \<Rightarrow> edma_world \<Rightarrow> edma_world result" where
  "edma_configure_rxfill_ring k r w =
     bindR (aget (rxfill_ring w) r) (\<lambda>ring.
     let w = edma_reg_write w (EDMA_REG_RXFILL_BA (rf_id ring)) (ucast (rf_dma ring AND ucast EDMA_RING_DMA_MASK));
         data = ucast (rf_count ring) AND EDMA_RXFILL_RING_SIZE_MASK;
         w = edma_reg_write w (EDMA_REG_RXFILL_RING_SIZE (rf_id ring)) data
     in bindR (edma_alloc_rx_buffer k r w) (\<lambda>(n, w). Inr w))"

definition edma_configure_rings :: "edma_kernel \<Rightarrow> edma_world \<Rightarrow> edma_world result" where
  "edma_configure_rings k w =
     (let w = w\<lparr>tx_skb_store := replicate EDMA_RING_SIZE None, rx_skb_store := replicate EDMA_RING_SIZE None\<rparr>
      in bindR (for_upto 0 (unat (txdesc_rings (layout w))) edma_configure_txdesc_ring w) (\<lambda>w.
         bindR (for_upto 0 (unat (txcmpl_rings (layout w))) (edma_configure_txcmpl_ring k) w) (\<lambda>w.
         bindR (for_upto 0 (unat (rxfill_rings (layout w))) (edma_configure_rxfill_ring k) w) (\<lambda>w.
         for_upto 0 (unat (rxdesc_rings (layout w))) edma_configure_rxdesc_ring w))))"

section \<open>Hardware initialisation\<close>

definition edma_hw_reset :: "edma_kernel \<Rightarrow> edma_world \<Rightarrow> status \<times> edma_world" where
  "edma_hw_reset k w =
     (if \<not> ek_reset_control k then (Errno EINVAL, w)
      else (Success, ekcalls [Ek_reset_assert, Ek_reset_deassert] w))"

text \<open>Read a register, change its value, write it back; and a loop of writes over ring numbers \<open>a \<le> i < b\<close>.\<close>

definition edma_reg_modify :: "u32 \<Rightarrow> (u32 \<Rightarrow> u32) \<Rightarrow> edma_world \<Rightarrow> edma_world" where
  "edma_reg_modify reg f w = edma_reg_write w reg (f (edma_reg_read w reg))"

fun for_rings :: "nat \<Rightarrow> nat \<Rightarrow> (u32 \<Rightarrow> edma_world \<Rightarrow> edma_world) \<Rightarrow> edma_world \<Rightarrow> edma_world" where
  "for_rings a 0 f w = w"
| "for_rings a (Suc n) f w = for_rings (Suc a) n f (f (of_nat a) w)"

definition for_range :: "u32 \<Rightarrow> u32 \<Rightarrow> (u32 \<Rightarrow> edma_world \<Rightarrow> edma_world) \<Rightarrow> edma_world \<Rightarrow> edma_world" where
  "for_range a b = for_rings (unat a) (unat b - unat a)"

text \<open>Every interrupt masked and every ring disabled before the set-up.\<close>

definition edma_quiesce :: "soc \<Rightarrow> edma_world \<Rightarrow> edma_world" where
  "edma_quiesce s w =
     (let w = for_rings 0 (EDMA_MAX_TXCMPL_RINGS s) (\<lambda>i w. edma_reg_write w (EDMA_REG_TX_INT_MASK s i) 0) w;
          w = for_rings 0 EDMA_MAX_RXFILL_RINGS (\<lambda>i w. edma_reg_write w (EDMA_REG_RXFILL_INT_MASK i) 0) w;
          w = for_rings 0 EDMA_MAX_RXDESC_RINGS (\<lambda>i w. edma_reg_write w (EDMA_REG_RX_INT_CTRL i) 0) w;
          w = for_rings 0 EDMA_MAX_RXDESC_RINGS
                (\<lambda>i. edma_reg_modify (EDMA_REG_RXDESC_CTRL i) (\<lambda>d. d AND NOT EDMA_RXDESC_RX_EN)) w;
          w = for_rings 0 EDMA_MAX_RXFILL_RINGS
                (\<lambda>i. edma_reg_modify (EDMA_REG_RXFILL_RING_EN i) (\<lambda>d. d AND NOT EDMA_RXFILL_RING_EN)) w
      in for_rings 0 EDMA_MAX_TXDESC_RINGS
           (\<lambda>i. edma_reg_modify (EDMA_REG_TXDESC_CTRL i) (\<lambda>d. d AND NOT EDMA_TXDESC_TX_EN)) w)"

text \<open>
  The completion ring of each transmit ring, three bits per ring, ten rings per register
  (\<open>IPQ807X\<close> only): the completion rings are handed out in turn.
\<close>

definition txdesc2cmpl_reg :: "u32 \<Rightarrow> u32" where
  "txdesc2cmpl_reg i =
     (if i \<le> 9 then EDMA_REG_TXDESC2CMPL_MAP_0
      else if i \<ge> 10 \<and> i \<le> 19 then EDMA_REG_TXDESC2CMPL_MAP_1
      else EDMA_REG_TXDESC2CMPL_MAP_2)"

fun edma_map_txcmpl_loop :: "nat \<Rightarrow> nat \<Rightarrow> u32 \<Rightarrow> edma_world \<Rightarrow> edma_world" where
  "edma_map_txcmpl_loop i 0 desc_index w = w"
| "edma_map_txcmpl_loop i (Suc n) desc_index w =
     (let w = edma_reg_modify (txdesc2cmpl_reg (of_nat i))
                (\<lambda>data. data OR push_bit (i mod 10 * 3) (desc_index AND 0x7)) w;
          desc_index = desc_index + 1;
          desc_index = (if desc_index = txcmpl_ring_end (layout w)
                        then txcmpl_ring_start (layout w) else desc_index)
      in edma_map_txcmpl_loop (Suc i) n desc_index w)"

definition edma_map_txcmpl :: "edma_world \<Rightarrow> edma_world" where
  "edma_map_txcmpl w =
     (let w = edma_reg_write w EDMA_REG_TXDESC2CMPL_MAP_0 0;
          w = edma_reg_write w EDMA_REG_TXDESC2CMPL_MAP_1 0;
          w = edma_reg_write w EDMA_REG_TXDESC2CMPL_MAP_2 0;
          a = unat (txdesc_ring_start (layout w))
      in edma_map_txcmpl_loop a (unat (txdesc_ring_end (layout w)) - a) (txcmpl_ring_start (layout w)) w)"

text \<open>The fill ring of each receive ring, three bits per ring, ten rings in the first register.\<close>

definition rxdesc2fill_reg :: "u32 \<Rightarrow> u32" where
  "rxdesc2fill_reg i = (if i \<le> 9 then EDMA_REG_RXDESC2FILL_MAP_0 else EDMA_REG_RXDESC2FILL_MAP_1)"

definition edma_map_rxfill_one :: "nat \<Rightarrow> edma_world \<Rightarrow> edma_world result" where
  "edma_map_rxfill_one i w =
     bindR (aget (rxdesc_ring w) (i - unat (rxdesc_ring_start (layout w)))) (\<lambda>ring.
     bindR (aget (rxfill_ring w) (rd_rxfill ring)) (\<lambda>fill.
     Inr (edma_reg_modify (rxdesc2fill_reg (of_nat i))
            (\<lambda>data. data OR push_bit (i mod 10 * 3) (rf_id fill AND 0x7)) w)))"

definition edma_map_rxfill :: "edma_world \<Rightarrow> edma_world result" where
  "edma_map_rxfill w =
     (let w = edma_reg_write w EDMA_REG_RXDESC2FILL_MAP_0 0;
          w = edma_reg_write w EDMA_REG_RXDESC2FILL_MAP_1 0;
          a = unat (rxdesc_ring_start (layout w))
      in for_upto a (unat (rxdesc_ring_end (layout w)) - a) edma_map_rxfill_one w)"

definition edma_dmar_ctrl :: "soc \<Rightarrow> u32" where
  "edma_dmar_ctrl s =
     EDMA_DMAR_BURST_LEN_SET (EDMA_BURST_LEN_ENABLE s) OR EDMA_DMAR_REQ_PRI_SET 0
       OR EDMA_DMAR_TXDATA_OUTSTANDING_NUM_SET 31 OR EDMA_DMAR_TXDESC_OUTSTANDING_NUM_SET 7
       OR EDMA_DMAR_RXFILL_OUTSTANDING_NUM_SET 7"

definition edma_misc_mask :: "soc \<Rightarrow> u32" where
  "edma_misc_mask s =
     (let data = EDMA_MISC_AXI_RD_ERR_MASK_EN OR EDMA_MISC_AXI_WR_ERR_MASK_EN
                   OR EDMA_MISC_RX_DESC_FIFO_FULL_MASK_EN OR EDMA_MISC_RX_ERR_BUF_SIZE_MASK_EN
                   OR EDMA_MISC_TX_SRAM_FULL_MASK_EN OR EDMA_MISC_TX_CMPL_BUF_FULL_MASK_EN
                   OR EDMA_MISC_DATA_LEN_ERR_MASK_EN s
      in case s of
           IPQ807X \<Rightarrow> data OR EDMA_MISC_PKT_LEN_LA_64K_MASK_EN OR EDMA_MISC_PKT_LEN_LE_40_MASK_EN
         | IPQ60XX \<Rightarrow> data OR EDMA_MISC_TX_TIMEOUT_MASK_EN)"

text \<open>The global registers and the ring enables, once the rings are configured.\<close>

definition edma_enable :: "soc \<Rightarrow> edma_world \<Rightarrow> edma_world" where
  "edma_enable s w =
     (let l = layout w;
          w = edma_reg_write w EDMA_REG_DMAR_CTRL (edma_dmar_ctrl s);
          w = (case s of IPQ807X \<Rightarrow> w
                       | IPQ60XX \<Rightarrow> edma_reg_modify EDMA_REG_AXIW_CTRL (\<lambda>d. d OR EDMA_AXIW_MAX_WR_SIZE_EN) w);
          w = edma_reg_write w EDMA_REG_MISC_INT_MASK (edma_misc_mask s);
          w = edma_reg_write w EDMA_REG_PORT_CTRL (EDMA_PORT_PAD_EN OR EDMA_PORT_EDMA_EN);
          w = for_range (rxdesc_ring_start l) (rxdesc_ring_end l)
                (\<lambda>i. edma_reg_modify (EDMA_REG_RXDESC_CTRL i) (\<lambda>d. d OR EDMA_RXDESC_RX_EN)) w;
          w = for_range (rxfill_ring_start l) (rxfill_ring_end l)
                (\<lambda>i. edma_reg_modify (EDMA_REG_RXFILL_RING_EN i) (\<lambda>d. d OR EDMA_RXFILL_RING_EN)) w;
          w = for_range (txdesc_ring_start l) (txdesc_ring_end l)
                (\<lambda>i. edma_reg_modify (EDMA_REG_TXDESC_CTRL i) (\<lambda>d. d OR EDMA_TXDESC_TX_EN)) w
      in w\<lparr>edma_initialized := True\<rparr>)"

definition edma_hw_init :: "edma_kernel \<Rightarrow> edma_world \<Rightarrow> (status \<times> edma_world) result" where
  "edma_hw_init k w =
     (let w = w\<lparr>misc_intr_mask := 0, rxfill_intr_mask := EDMA_RXFILL_INT_MASK,
                rxdesc_intr_mask := EDMA_RXDESC_INT_MASK_PKT_INT,
                txcmpl_intr_mask := EDMA_TX_INT_MASK_PKT_INT OR EDMA_TX_INT_MASK_UGT_INT,
                rx_payload_offset := of_nat EDMA_RX_PREHDR_SIZE, active := 0, edma_initialized := False\<rparr>
      in case edma_hw_reset k w of
           (ret, w) \<Rightarrow>
             if failed ret then Inr (ret, w)
             else
              (let w = edma_quiesce (ek_soc k) w;
                   w = (case ek_soc k of IPQ807X \<Rightarrow> edma_map_txcmpl w | IPQ60XX \<Rightarrow> w);
                   w = edma_reg_write w (EDMA_QID2RID_TABLE_MEM 0) (rxdesc_ring_start (layout w) AND 0xF)
               in bindR (edma_init_rings k w) (\<lambda>(ret, w).
                  if failed ret then Inr (ret, w)
                  else
                    bindR (edma_configure_rings k w) (\<lambda>w.
                    bindR (edma_map_rxfill w) (\<lambda>w.
                    Inr (Success, edma_enable (ek_soc k) w))))))"

end
