(* ===== verification/Edma_Dp.thy ===== *)
theory Edma_Dp
  imports Edma_Cfg
begin

text \<open>
  The EDMA data plane operations (\<open>hal/edma/edma_data_plane.c\<close>): \<open>nss_dp_edma_ops\<close>, the
  interrupt set-up, the device tree, and the life cycle of the engine. The data plane context
  of a port is the net device it points to, if any.
\<close>

type_synonym data_plane_ctx = "nat option"

section \<open>Interface operations\<close>

definition edma_get_port_num_from_netdev :: "edma_kernel \<Rightarrow> data_plane_ctx \<Rightarrow> edma_world \<Rightarrow> int" where
  "edma_get_port_num_from_netdev k netdev w =
     (case filter (\<lambda>i. netdev_arr w ! i = netdev) [0..<min (EDMA_MAX_GMACS (ek_soc k)) (length (netdev_arr w))] of
        [] \<Rightarrow> -1
      | i # _ \<Rightarrow> int i + 1)"

definition edma_if_open :: "data_plane_ctx \<Rightarrow> u32 \<Rightarrow> u32 \<Rightarrow> u32 \<Rightarrow> edma_world \<Rightarrow> status \<times> edma_world" where
  "edma_if_open dpc tx_desc_ring rx_desc_ring mode w =
     (if dpc = None then (Failure, w)
      else
       (let old = active w; w = w\<lparr>active := old + 1\<rparr>
        in if old \<noteq> 0 then (Success, w) else (Success, ekcalls [Ek_napi_enable] w)))"

definition edma_if_close :: "data_plane_ctx \<Rightarrow> edma_world \<Rightarrow> status \<times> edma_world" where
  "edma_if_close dpc w =
     (let w = w\<lparr>active := active w - 1\<rparr>
      in if active w \<noteq> 0 then (Success, w) else (Success, ekcalls [Ek_napi_disable] w))"

definition edma_if_link_state :: "data_plane_ctx \<Rightarrow> u32 \<Rightarrow> edma_world \<Rightarrow> status \<times> edma_world" where
  "edma_if_link_state dpc link_state w = (Success, w)"

definition edma_if_mac_addr :: "data_plane_ctx \<Rightarrow> eth_addr \<Rightarrow> edma_world \<Rightarrow> status \<times> edma_world" where
  "edma_if_mac_addr dpc addr w = (Success, w)"

definition edma_if_change_mtu :: "data_plane_ctx \<Rightarrow> u32 \<Rightarrow> edma_world \<Rightarrow> status \<times> edma_world" where
  "edma_if_change_mtu dpc mtu w = (Success, w)"

abbreviation (input) ETH_HLEN :: u32 where "ETH_HLEN \<equiv> 14"

text \<open>The transmit ring for a queue: as the code computes it, the number of rings modulo the queue.\<close>

definition edma_select_ring :: "edma_world \<Rightarrow> u32 \<Rightarrow> u32" where
  "edma_select_ring w skbq =
     (if txdesc_rings (layout w) > 1 \<and> skbq > 0 then txdesc_rings (layout w) mod skbq else 0)"

definition edma_xmit_drop :: "nat \<Rightarrow> edma_skb \<Rightarrow> edma_world \<Rightarrow> netdev_tx_t \<times> edma_world" where
  "edma_xmit_drop netdev skb w = (NETDEV_TX_OK, ekcalls [Ek_kfree (es_ref skb), Ek_tx_dropped netdev] w)"

definition edma_if_xmit ::
  "edma_kernel \<Rightarrow> data_plane_ctx \<Rightarrow> edma_skb \<Rightarrow> edma_world \<Rightarrow> (netdev_tx_t \<times> edma_world) result" where
  "edma_if_xmit k dpc skb w =
     (case dpc of
        None \<Rightarrow> Inl Null_Pointer
      | Some netdev \<Rightarrow>
          if es_len skb < ETH_HLEN then Inr (edma_xmit_drop netdev skb w)
          else
           (let tx_ring = edma_select_ring w (es_queue skb)
            in if es_nonlinear skb then Inr (edma_xmit_drop netdev skb w)
               else
                (let nhead = needed_headroom w netdev; ntail = ek_needed_tailroom k netdev;
                     expand_skb = (es_cloned skb \<or> es_headroom skb < nhead \<or> es_headroom skb < ntail);
                     w = (if expand_skb then ekcalls [Ek_expand_head (es_ref skb)] w else w)
                 in if expand_skb \<and> ek_expand_head k (es_ref skb) then Inr (edma_xmit_drop netdev skb w)
                    else
                      bindR (edma_ring_xmit k netdev skb (unat tx_ring) w) (\<lambda>(ret, w).
                      case ret of
                        EDMA_TX_OK \<Rightarrow> Inr (NETDEV_TX_OK, w)
                      | EDMA_TX_DESC \<Rightarrow> Inr (NETDEV_TX_BUSY, ekcalls [Ek_stop_queue netdev] w)
                      | EDMA_TX_FAIL \<Rightarrow> Inr (edma_xmit_drop netdev skb w)))))"

definition edma_if_set_features :: "data_plane_ctx \<Rightarrow> edma_world \<Rightarrow> edma_world" where
  "edma_if_set_features dpc w = w"

definition edma_if_pause_on_off :: "data_plane_ctx \<Rightarrow> u32 \<Rightarrow> edma_world \<Rightarrow> status \<times> edma_world" where
  "edma_if_pause_on_off dpc pause_on w = (Success, w)"

definition edma_if_vsi_assign ::
  "edma_kernel \<Rightarrow> data_plane_ctx \<Rightarrow> u32 \<Rightarrow> edma_world \<Rightarrow> status \<times> edma_world" where
  "edma_if_vsi_assign k dpc vsi w =
     (let port_num = edma_get_port_num_from_netdev k dpc w
      in if port_num < 0 then (Failure, w)
         else
          (let port = word_of_int port_num; w = ekcalls [Ek_vsi_set port vsi] w
           in if ek_fal_vsi_set k port vsi < 0 then (Failure, w) else (Success, w)))"

text \<open>The port number is unsigned here, so that the test for a negative one never holds.\<close>

definition edma_if_vsi_unassign ::
  "edma_kernel \<Rightarrow> data_plane_ctx \<Rightarrow> u32 \<Rightarrow> edma_world \<Rightarrow> status \<times> edma_world" where
  "edma_if_vsi_unassign k dpc vsi w =
     (let port_num = word_of_int (edma_get_port_num_from_netdev k dpc w) :: u32
      in if port_num < 0 then (Failure, w)
         else
          (let w = ekcalls [Ek_vsi_set port_num 0xffff] w
           in if ek_fal_vsi_set k port_num 0xffff < 0 then (Failure, w) else (Success, w)))"

definition edma_if_rx_flow_steer ::
  "data_plane_ctx \<Rightarrow> edma_skb \<Rightarrow> u32 \<Rightarrow> bool \<Rightarrow> edma_world \<Rightarrow> status \<times> edma_world" where
  "edma_if_rx_flow_steer dpc skb cpu is_add w = (Success, w)"

section \<open>Interrupts\<close>

text \<open>The interrupt numbers; they are unsigned, so that no failure is seen here.\<close>

definition get_txcmpl_irq :: "edma_kernel \<Rightarrow> nat \<Rightarrow> edma_world \<Rightarrow> edma_world result" where
  "get_txcmpl_irq k i w =
     bindR (aset (txcmpl_intr w) i (ek_platform_irq k i)) (\<lambda>xs. Inr (w\<lparr>txcmpl_intr := xs\<rparr>))"

definition get_rxfill_irq :: "edma_kernel \<Rightarrow> nat \<Rightarrow> nat \<Rightarrow> edma_world \<Rightarrow> edma_world result" where
  "get_rxfill_irq k entry_num i w =
     bindR (aset (rxfill_intr w) i (ek_platform_irq k (entry_num + i))) (\<lambda>xs. Inr (w\<lparr>rxfill_intr := xs\<rparr>))"

definition get_rxdesc_irq :: "edma_kernel \<Rightarrow> nat \<Rightarrow> nat \<Rightarrow> edma_world \<Rightarrow> edma_world result" where
  "get_rxdesc_irq k entry_num i w =
     bindR (aset (rxdesc_intr w) i (ek_platform_irq k (entry_num + i))) (\<lambda>xs. Inr (w\<lparr>rxdesc_intr := xs\<rparr>))"

definition request_irq :: "edma_kernel \<Rightarrow> u32 \<Rightarrow> edma_world \<Rightarrow> status \<times> edma_world" where
  "request_irq k irq w =
     (if ek_request_irq k irq then (Failure, w) else (Success, ekcalls [Ek_request_irq irq] w))"

definition request_irqs ::
  "edma_kernel \<Rightarrow> (edma_world \<Rightarrow> u32 list) \<Rightarrow> nat \<Rightarrow> edma_world \<Rightarrow> (nat option \<times> edma_world) result" where
  "request_irqs k intr n w =
     try_upto 0 n (\<lambda>i w. bindR (aget (intr w) i) (\<lambda>irq. Inr (request_irq k irq w))) w"

text \<open>\<open>cookie\<close>: whether the handler is freed with the device it was requested for.\<close>

definition free_irqs :: "bool \<Rightarrow> (edma_world \<Rightarrow> u32 list) \<Rightarrow> nat \<Rightarrow> edma_world \<Rightarrow> edma_world result" where
  "free_irqs cookie intr n w =
     for_upto 0 n (\<lambda>i w. bindR (aget (intr w) i) (\<lambda>irq.
       Inr (ekcalls [Ek_sync_irq irq, Ek_free_irq irq cookie] w))) w"

definition edma_irq_init :: "edma_kernel \<Rightarrow> edma_world \<Rightarrow> (status \<times> edma_world) result" where
  "edma_irq_init k w =
     (let l = layout w; ntx = unat (txcmpl_rings l); nfill = unat (rxfill_rings l);
          nrx = unat (rxdesc_rings l)
      in bindR (for_upto 0 ntx (get_txcmpl_irq k) w) (\<lambda>w.
         bindR (for_upto 0 nfill (get_rxfill_irq k ntx) w) (\<lambda>w.
         bindR (for_upto 0 nrx (get_rxdesc_irq k (ntx + nfill)) w) (\<lambda>w.
         let w = w\<lparr>misc_intr := ek_platform_irq k (ntx + nfill + nrx)\<rparr>
         in bindR (request_irqs k txcmpl_intr ntx w) (\<lambda>(bad, w).
            if bad \<noteq> None then Inr (Failure, w)
            else
            bindR (request_irqs k rxfill_intr nfill w) (\<lambda>(bad, w).
            if bad \<noteq> None
            then bindR (free_irqs False txcmpl_intr ntx w) (\<lambda>w. Inr (Failure, w))
            else
            bindR (request_irqs k rxdesc_intr nrx w) (\<lambda>(bad, w).
            if bad \<noteq> None
            then bindR (free_irqs False rxfill_intr nfill w) (\<lambda>w.
                 bindR (free_irqs False txcmpl_intr ntx w) (\<lambda>w. Inr (Failure, w)))
            else
            case request_irq k (misc_intr w) w of
              (ret, w) \<Rightarrow>
                if failed ret
                then bindR (free_irqs False rxdesc_intr nrx w) (\<lambda>w.
                     bindR (free_irqs False rxfill_intr nfill w) (\<lambda>w.
                     bindR (free_irqs False txcmpl_intr ntx w) (\<lambda>w. Inr (Failure, w))))
                else
                  bindR (for_upto 0 nfill (edma_set_rxfill_mask (rxfill_intr_mask w)) w) (\<lambda>w.
                  bindR (for_upto 0 ntx (edma_set_txcmpl_mask (ek_soc k) (txcmpl_intr_mask w)) w) (\<lambda>w.
                  bindR (for_upto 0 nrx (edma_set_rxdesc_mask (rxdesc_intr_mask w)) w) (\<lambda>w.
                  Inr (Success, edma_reg_write w EDMA_REG_MISC_INT_MASK (misc_intr_mask w)))))))))))) "

definition edma_register_netdevice ::
  "edma_kernel \<Rightarrow> data_plane_ctx \<Rightarrow> u32 \<Rightarrow> edma_world \<Rightarrow> (status \<times> edma_world) result" where
  "edma_register_netdevice k netdev macid w =
     (case netdev of
        None \<Rightarrow> Inr (Errno EINVAL, w)
      | Some nd \<Rightarrow>
          if unat macid < EDMA_START_GMACS \<or> unat macid > EDMA_MAX_GMACS (ek_soc k) then Inr (Errno EINVAL, w)
          else
            bindR (aset (netdev_arr w) (unat macid - 1) (Some nd)) (\<lambda>arr.
            let w = w\<lparr>netdev_arr := arr\<rparr>
            in if napi_added w then Inr (Success, w)
               else
                 bindR (edma_irq_init k (ekcalls [Ek_napi_add nd] w)) (\<lambda>(ret, w).
                 if failed ret then Inr (Errno EINVAL, w)
                 else Inr (Success, w\<lparr>napi_added := True\<rparr>))))"

definition edma_if_init :: "edma_kernel \<Rightarrow> data_plane_ctx \<Rightarrow> edma_world \<Rightarrow> (status \<times> edma_world) result" where
  "edma_if_init k dpc w =
     (case dpc of
        None \<Rightarrow> Inl Null_Pointer
      | Some netdev \<Rightarrow>
          bindR (edma_register_netdevice k dpc (ek_macid k netdev) w) (\<lambda>(ret, w).
          if failed ret then Inr (Failure, w)
          else Inr (Success, w\<lparr>needed_headroom := (needed_headroom w)
                 (netdev := needed_headroom w netdev + of_nat EDMA_TX_PREHDR_SIZE)\<rparr>)))"

section \<open>Life cycle\<close>

text \<open>The device tree is read property by property; the first one missing ends the reading.\<close>

definition of_read :: "u32 option \<Rightarrow> (u32 \<Rightarrow> edma_layout \<Rightarrow> edma_layout) \<Rightarrow>
    (edma_world \<Rightarrow> status \<times> edma_world) \<Rightarrow> edma_world \<Rightarrow> status \<times> edma_world" where
  "of_read p upd rest w =
     (case p of None \<Rightarrow> (Errno EINVAL, w) | Some v \<Rightarrow> rest (w\<lparr>layout := upd v (layout w)\<rparr>))"

definition edma_of_get_pdata :: "edma_kernel \<Rightarrow> edma_world \<Rightarrow> status \<times> edma_world" where
  "edma_of_get_pdata k w =
     (let dt = ek_dt k
      in if \<not> dt_node dt then (Errno EINVAL, w)
         else if \<not> dt_pdev dt then (Errno EINVAL, w)
         else if \<not> dt_resource dt then (Errno EINVAL, w)
         else
           of_read (dt_txdesc_ring_start dt) (\<lambda>v l. l\<lparr>txdesc_ring_start := v\<rparr>) (
           of_read (dt_txdesc_rings dt)
             (\<lambda>v l. l\<lparr>txdesc_rings := v, txdesc_ring_end := txdesc_ring_start l + v\<rparr>) (
           of_read (dt_txcmpl_ring_start dt) (\<lambda>v l. l\<lparr>txcmpl_ring_start := v\<rparr>) (
           of_read (dt_txcmpl_rings dt)
             (\<lambda>v l. l\<lparr>txcmpl_rings := v, txcmpl_ring_end := txcmpl_ring_start l + v\<rparr>) (
           of_read (dt_rxfill_ring_start dt) (\<lambda>v l. l\<lparr>rxfill_ring_start := v\<rparr>) (
           of_read (dt_rxfill_rings dt)
             (\<lambda>v l. l\<lparr>rxfill_rings := v, rxfill_ring_end := rxfill_ring_start l + v\<rparr>) (
           of_read (dt_rxdesc_ring_start dt) (\<lambda>v l. l\<lparr>rxdesc_ring_start := v\<rparr>) (
           of_read (dt_rxdesc_rings dt)
             (\<lambda>v l. l\<lparr>rxdesc_rings := v, rxdesc_ring_end := rxdesc_ring_start l + v\<rparr>) (
           \<lambda>w. (Success, w))))))))) w)"

definition edma_init :: "edma_kernel \<Rightarrow> edma_world \<Rightarrow> (status \<times> edma_world) result" where
  "edma_init k w =
     (case edma_of_get_pdata k w of
        (ret, w) \<Rightarrow>
          if failed ret then Inr (Errno EINVAL, w)
          else if \<not> ek_request_mem_region k then Inr (Errno EFAULT, w)
          else if \<not> ek_ioremap k then Inr (Errno EFAULT, ekcalls [Ek_release_mem_region] w)
          else
            bindR (edma_hw_init k w) (\<lambda>(ret, w).
            if failed ret then Inr (Errno EFAULT, ekcalls [Ek_iounmap, Ek_release_mem_region] w)
            else Inr (Success, (ekcalls [Ek_set_drvdata] w)\<lparr>napi_added := False\<rparr>)))"

definition edma_disable_port :: "edma_world \<Rightarrow> edma_world" where
  "edma_disable_port w = edma_reg_write w EDMA_REG_PORT_CTRL EDMA_DISABLE"

definition edma_remove_irqs :: "edma_world \<Rightarrow> edma_world result" where
  "edma_remove_irqs w =
     (if \<not> napi_added w then Inr w
      else
        bindR (free_irqs True txcmpl_intr (unat (txcmpl_rings (layout w))) w) (\<lambda>w.
        bindR (free_irqs True rxfill_intr (unat (rxfill_rings (layout w))) w) (\<lambda>w.
        bindR (free_irqs True rxdesc_intr (unat (rxdesc_rings (layout w))) w) (\<lambda>w.
        Inr ((ekcalls [Ek_sync_irq (misc_intr w), Ek_free_irq (misc_intr w) True, Ek_napi_del] w)
               \<lparr>napi_added := False\<rparr>)))))"

definition edma_cleanup :: "edma_kernel \<Rightarrow> bool \<Rightarrow> edma_world \<Rightarrow> edma_world result" where
  "edma_cleanup k is_dp_override w =
     (if \<not> edma_initialized w then Inr (if \<not> is_dp_override then edma_disable_port w else w)
      else
       (let l = layout w;
            w = for_range (rxdesc_ring_start l) (rxdesc_ring_end l)
                  (\<lambda>i w. edma_reg_write w (EDMA_REG_RXDESC_CTRL i) EDMA_RING_DISABLE) w;
            w = for_range (txdesc_ring_start l) (txdesc_ring_end l)
                  (\<lambda>i w. edma_reg_write w (EDMA_REG_TXDESC_CTRL i) EDMA_RING_DISABLE) w;
            w = for_range (rxfill_ring_start l) (rxfill_ring_end l)
                  (\<lambda>i w. edma_reg_write w (EDMA_REG_RXFILL_RING_EN i) EDMA_RING_DISABLE) w
        in bindR (for_upto 0 (unat (rxdesc_rings l)) (edma_set_rxdesc_mask EDMA_MASK_INT_CLEAR) w) (\<lambda>w.
           bindR (for_upto 0 (unat (txcmpl_rings l)) (edma_set_txcmpl_mask (ek_soc k) EDMA_MASK_INT_CLEAR) w) (\<lambda>w.
           let w = edma_reg_write w EDMA_REG_MISC_INT_MASK EDMA_MASK_INT_CLEAR
           in bindR (edma_remove_irqs w) (\<lambda>w.
              let w = (if \<not> is_dp_override then edma_disable_port w else w)
              in bindR (edma_cleanup_rings k w) (\<lambda>w.
                 Inr ((ekcalls [Ek_iounmap, Ek_release_mem_region] w)\<lparr>edma_initialized := False\<rparr>)))))))"

definition edma_if_deinit :: "edma_kernel \<Rightarrow> data_plane_ctx \<Rightarrow> edma_world \<Rightarrow> (status \<times> edma_world) result" where
  "edma_if_deinit k dpc w =
     (if dp_override_cnt w = of_nat (EDMA_MAX_GMACS (ek_soc k)) - 1
      then bindR (edma_cleanup k True w) (\<lambda>w. Inr (Success, w))
      else Inr (Success, w\<lparr>dp_override_cnt := dp_override_cnt w + 1\<rparr>))"

end
