(* ===== verification/Hal_Arch.thy ===== *)
theory Hal_Arch
  imports Dp_Attach Syn_Dp Edma_Dp Qcom_Gmac Syn_Xgmac
begin

text \<open>
  The glue of the SoCs (\<open>hal/arch\<close>): which MAC drivers and which data plane a SoC has, and the environment of the
  driver they make up. The EDMA SoCs (ipq807x, ipq60xx) have the Qualcomm and the 10G MAC and the EDMA data plane;
  ipq50xx has the 1G Synopsys MAC with its own data plane.
\<close>

section \<open>The EDMA SoCs\<close>

text \<open>
  The context of a port is that of its MAC. A table only ever meets the contexts its own \<open>init\<close> made; any other is
  treated as the fault that NULL gives.
\<close>

datatype 'v edma_hal = Hal_qcom "'v qcom_hal_dev" | Hal_xgmac "'v Syn_Xgmac.syn_hal_dev"

text \<open>The platform resources of a port, the counters of the switch driver, and \<open>ETH_GSTRING_LEN\<close>.\<close>

record 'v mac_plat =
  mp_env :: "u32 \<Rightarrow> plat_env"
  mp_mib :: "u32 \<Rightarrow> int \<times> (qcom_mib \<Rightarrow> 'v)"
  mp_xgmib :: "u32 \<Rightarrow> int \<times> (fal_xgmib \<Rightarrow> 'v)"
  mp_gstring_len :: nat

definition qcom_ctx :: "'v edma_hal option \<Rightarrow> ('v qcom_hal_dev \<Rightarrow> 'r result) \<Rightarrow> 'r result" where
  "qcom_ctx ctx f = (case ctx of Some (Hal_qcom d) \<Rightarrow> f d | _ \<Rightarrow> Inl Null_Pointer)"

definition xgmac_ctx :: "'v edma_hal option \<Rightarrow> 'v Syn_Xgmac.syn_hal_dev option" where
  "xgmac_ctx ctx = (case ctx of Some (Hal_xgmac d) \<Rightarrow> Some d | _ \<Rightarrow> None)"

definition qcom_hal_ops :: "'c::len word mac_plat \<Rightarrow> 'c word edma_hal nss_gmac_hal_ops" where
  "qcom_hal_ops m = \<lparr>
     ho_init = (\<lambda>pd fl tr. (map_option Hal_qcom (qcom_init (mp_env m (pd_macid pd)) (\<lambda>_. 0) pd), fl, tr)),
     ho_exit = None,
     ho_setmacaddr = (\<lambda>ctx a. qcom_ctx ctx (\<lambda>d. Inr (Some (Hal_qcom (qcom_set_mac_address d a))))),
     ho_getndostats = (\<lambda>_ ctx st. qcom_ctx ctx (\<lambda>d.
        case qcom_get_netdev_stats (mp_mib m) d st of (r, d, st) \<Rightarrow> Inr (r, Some (Hal_qcom d), st))),
     ho_getssetcount = (\<lambda>ctx ss. qcom_ctx ctx (\<lambda>d. Inr (qcom_get_strset_count d ss))),
     ho_getstrings = (\<lambda>ctx ss data. qcom_ctx ctx (\<lambda>d. qcom_get_strings (mp_gstring_len m) d ss data)),
     ho_getethtoolstats = (\<lambda>_ ctx data. qcom_ctx ctx (\<lambda>d.
        bindR (qcom_get_eth_stats (mp_mib m) d data) (\<lambda>(r, d, data). Inr (r, Some (Hal_qcom d), data))))\<rparr>"

definition syn_xgmac_hal_ops :: "'c::len word mac_plat \<Rightarrow> 'c word edma_hal nss_gmac_hal_ops" where
  "syn_xgmac_hal_ops m = \<lparr>
     ho_init = (\<lambda>pd fl tr. (map_option Hal_xgmac (Syn_Xgmac.syn_init (mp_env m (pd_macid pd)) (\<lambda>_. 0) pd), fl, tr)),
     ho_exit = None,
     ho_setmacaddr = (\<lambda>ctx a. bindR (Syn_Xgmac.syn_set_mac_address (xgmac_ctx ctx) a) (\<lambda>d. Inr (Some (Hal_xgmac d)))),
     ho_getndostats = (\<lambda>_ ctx st. bindR (Syn_Xgmac.syn_get_netdev_stats (mp_xgmib m) (xgmac_ctx ctx) st)
        (\<lambda>(r, d, st). Inr (r, Some (Hal_xgmac d), st))),
     ho_getssetcount = (\<lambda>ctx ss. Syn_Xgmac.syn_get_strset_count (xgmac_ctx ctx) ss),
     ho_getstrings = (\<lambda>ctx ss data. Syn_Xgmac.syn_get_strings (mp_gstring_len m) (xgmac_ctx ctx) ss data),
     ho_getethtoolstats = (\<lambda>_ ctx data. bindR (Syn_Xgmac.syn_get_eth_stats (mp_xgmib m) (xgmac_ctx ctx) data)
        (\<lambda>(r, d, data). Inr (r, Some (Hal_xgmac d), data)))\<rparr>"

type_synonym 'v edma_driver = "('v edma_hal, edma_world) dp_world"

text \<open>The kernel answers of the engine, with the port numbers taken from the private parts.\<close>

definition edma_k :: "edma_kernel \<Rightarrow> 'v edma_driver \<Rightarrow> edma_kernel" where
  "edma_k k w = k\<lparr>ek_macid := (\<lambda>n. case privs w n of None \<Rightarrow> 0 | Some p \<Rightarrow> macid p)\<rparr>"

text \<open>An operation on the engine alone, and one that reads the net device of its context.\<close>

definition edma_op :: "(edma_world \<Rightarrow> ('r \<times> edma_world) result) \<Rightarrow> 'v edma_driver \<Rightarrow> ('r \<times> 'v edma_driver) result" where
  "edma_op f w = bindR (f (dp w)) (\<lambda>(r, s). Inr (r, w\<lparr>dp := s\<rparr>))"

definition edma_dev_op ::
  "(nat \<Rightarrow> nat option) \<Rightarrow> dpc_ref option \<Rightarrow> (data_plane_ctx \<Rightarrow> edma_world \<Rightarrow> ('r \<times> edma_world) result)
     \<Rightarrow> 'v edma_driver \<Rightarrow> ('r \<times> 'v edma_driver) result" where
  "edma_dev_op ov c f w = bindR (dpc_dev ov c w) (\<lambda>dev. edma_op (f dev) w)"

definition nss_dp_edma_ops ::
  "edma_kernel \<Rightarrow> (nat \<Rightarrow> nat option) \<Rightarrow> ('v edma_hal, edma_world, edma_skb) data_plane_ops" where
  "nss_dp_edma_ops k ov = \<lparr>
     op_init = Some (\<lambda>c w. edma_dev_op ov c (edma_if_init (edma_k k w)) w),
     op_open = Some (\<lambda>c t r m w. edma_dev_op ov c (\<lambda>dev s. Inr (edma_if_open dev t r m s)) w),
     op_close = Some (\<lambda>c w. edma_op (\<lambda>s. Inr (edma_if_close None s)) w),
     op_link_state = Some (\<lambda>c ls w. edma_op (\<lambda>s. Inr (edma_if_link_state None ls s)) w),
     op_mac_addr = Some (\<lambda>c a w. edma_op (\<lambda>s. Inr (edma_if_mac_addr None a s)) w),
     op_change_mtu = Some (\<lambda>c mtu w. edma_op (\<lambda>s. Inr (edma_if_change_mtu None mtu s)) w),
     op_xmit = Some (\<lambda>c skb w. edma_dev_op ov c (\<lambda>dev. edma_if_xmit (edma_k k w) dev skb) w),
     op_set_features = Some (\<lambda>c w. Inr (w\<lparr>dp := edma_if_set_features None (dp w)\<rparr>)),
     op_pause_on_off = Some (\<lambda>c on w. edma_op (\<lambda>s. Inr (edma_if_pause_on_off None on s)) w),
     op_vsi_assign = Some (\<lambda>c v w. edma_dev_op ov c (\<lambda>dev s. Inr (edma_if_vsi_assign (edma_k k w) dev v s)) w),
     op_vsi_unassign = Some (\<lambda>c v w. edma_dev_op ov c (\<lambda>dev s. Inr (edma_if_vsi_unassign (edma_k k w) dev v s)) w),
     op_rx_flow_steer = Some (\<lambda>c skb cpu add w. edma_op (\<lambda>s. Inr (edma_if_rx_flow_steer None skb cpu add s)) w),
     op_get_stats = None,
     op_deinit = Some (\<lambda>c w. edma_op (edma_if_deinit (edma_k k w) None) w)\<rparr>"

text \<open>
  The environment of an EDMA SoC. \<open>overlay\<close> are the tables of overlay drivers, the rest the answers of the kernel.
\<close>

record ('h, 's, 'k) kernel_env =
  ke_overlay :: "nat \<Rightarrow> ('h, 's, 'k) data_plane_ops"
  ke_overlay_dev :: "nat \<Rightarrow> nat option"
  ke_mii_ioctl :: "nat \<Rightarrow> int \<Rightarrow> status"
  ke_prepare_mac :: "nat \<Rightarrow> sockaddr \<Rightarrow> status"
  ke_alloc_etherdev :: "nat \<Rightarrow> bool"
  ke_valid_addr :: "eth_addr \<Rightarrow> bool"

definition edma_env ::
  "edma_kernel \<Rightarrow> 'c::len word mac_plat \<Rightarrow> ('c word edma_hal, edma_world, edma_skb) kernel_env
     \<Rightarrow> ('c word edma_hal, edma_world, edma_skb) dp_env" where
  "edma_env k m x = \<lparr>
     de_ops = (\<lambda>r. case r of Soc_ops \<Rightarrow> nss_dp_edma_ops k (ke_overlay_dev x) | Overlay_ops i \<Rightarrow> ke_overlay x i),
     de_hal = (\<lambda>r. case r of Qcom_hal_ops \<Rightarrow> qcom_hal_ops m | Syn_hal_ops \<Rightarrow> syn_xgmac_hal_ops m),
     de_ppe = True, de_max_ports = NSS_DP_HAL_MAX_PORTS (ek_soc k), de_start_ifnum = NSS_DP_HAL_START_IFNUM,
     de_mii_ioctl = ke_mii_ioctl x, de_prepare_mac = ke_prepare_mac x, de_alloc_etherdev = ke_alloc_etherdev x,
     de_valid_addr = ke_valid_addr x, de_soc_ops = Some Soc_ops\<rparr>"

definition edma_hal_init :: "edma_kernel \<Rightarrow> 'v edma_driver \<Rightarrow> (bool \<times> 'v edma_driver) result" where
  "edma_hal_init k w =
     bindR (nss_dp_hal_set_gmac_ops (Some Qcom_hal_ops) 0 w) (\<lambda>w.
     bindR (nss_dp_hal_set_gmac_ops (Some Syn_hal_ops) 1 w) (\<lambda>w.
     bindR (edma_op (edma_init k) w) (\<lambda>(ret, w).
     Inr (\<not> failed ret, w))))"

definition edma_hal_cleanup :: "edma_kernel \<Rightarrow> 'v edma_driver \<Rightarrow> 'v edma_driver result" where
  "edma_hal_cleanup k w =
     bindR (nss_dp_hal_set_gmac_ops None 0 w) (\<lambda>w.
     bindR (nss_dp_hal_set_gmac_ops None 1 w) (\<lambda>w.
     bindR (edma_cleanup k False (dp w)) (\<lambda>s. Inr (w\<lparr>dp := s\<rparr>))))"

section \<open>ipq50xx\<close>

abbreviation (input) GMAC_MAX_PORTS :: nat where "GMAC_MAX_PORTS \<equiv> 2"
abbreviation (input) GMAC_START_IFNUM :: nat where "GMAC_START_IFNUM \<equiv> 0"
abbreviation (input) TCSR_GMAC_AXI_CACHE_OVERRIDE_OFFSET :: u32 where "TCSR_GMAC_AXI_CACHE_OVERRIDE_OFFSET \<equiv> 0x6224"
abbreviation (input) TCSR_GMAC_AXI_CACHE_OVERRIDE_VALUE :: u32 where "TCSR_GMAC_AXI_CACHE_OVERRIDE_VALUE \<equiv> 0x05050505"

text \<open>
  The platform: the common node of the device tree with its base address, the secure monitor and whether its write
  succeeds, the mapping of the register, the clock, the resources of a port.
\<close>

record ipq50xx_plat =
  iq_common_node :: bool
  iq_tcsr_base :: "u32 option"
  iq_scm_available :: bool
  iq_scm_write_ok :: bool
  iq_ioremap_ok :: bool
  iq_clk_get_ok :: bool
  iq_clk_enable_ok :: bool
  iq_env :: "u32 \<Rightarrow> plat_env"
  iq_duplex_full :: u32
  iq_gstring_len :: nat

definition nss_dp_hal_tcsr_base_get :: "ipq50xx_plat \<Rightarrow> u32" where
  "nss_dp_hal_tcsr_base_get q =
     (if \<not> iq_common_node q then 0 else (case iq_tcsr_base q of None \<Rightarrow> 0 | Some b \<Rightarrow> b))"

definition nss_dp_hal_tcsr_set :: "ipq50xx_plat \<Rightarrow> gmac_world \<Rightarrow> gmac_world" where
  "nss_dp_hal_tcsr_set q w =
     (let tcsr_base = nss_dp_hal_tcsr_base_get q;
          wr = Nk_tcsr_write (tcsr_base + TCSR_GMAC_AXI_CACHE_OVERRIDE_OFFSET) TCSR_GMAC_AXI_CACHE_OVERRIDE_VALUE
      in if tcsr_base = 0 then w
         else if iq_scm_available q then (if iq_scm_write_ok q then nkcalls [wr] w else w)
         else if \<not> iq_ioremap_ok q then w
         else nkcalls [wr] w)"

definition nss_dp_hal_clk_enable :: "ipq50xx_plat \<Rightarrow> nk_call list \<Rightarrow> nk_call list" where
  "nss_dp_hal_clk_enable q tr =
     (if \<not> iq_clk_get_ok q then tr
      else if \<not> iq_clk_enable_ok q then tr
      else tr @ [Nk_clk_enable])"

definition gmac_hal_init :: "ipq50xx_plat \<Rightarrow> gmac_world \<Rightarrow> (bool \<times> gmac_world) result" where
  "gmac_hal_init q w =
     bindR (nss_dp_hal_set_gmac_ops (Some Syn_hal_ops) 2 w) (\<lambda>w. Inr (True, nss_dp_hal_tcsr_set q w))"

definition gmac_hal_cleanup :: "gmac_world \<Rightarrow> gmac_world result" where
  "gmac_hal_cleanup w = nss_dp_hal_set_gmac_ops None 2 w"

definition syn_gmac_hal_ops :: "ipq50xx_plat \<Rightarrow> Syn_Gmac.syn_hal_dev nss_gmac_hal_ops" where
  "syn_gmac_hal_ops q = \<lparr>
     ho_init = (\<lambda>pd fl tr. Syn_Gmac.syn_init (iq_env q (pd_macid pd)) (nss_dp_hal_clk_enable q) (iq_duplex_full q) pd fl tr),
     ho_exit = Some (\<lambda>ctx. case ctx of
        None \<Rightarrow> Inl Null_Pointer
      | Some d \<Rightarrow> bindR (Syn_Gmac.syn_exit d) (\<lambda>(d, cs). Inr (Some d, cs))),
     ho_setmacaddr = (\<lambda>ctx a. bindR (Syn_Gmac.syn_set_mac_address ctx (Some a)) (\<lambda>d. Inr (Some d))),
     ho_getndostats = (\<lambda>src ctx st. bindR (Syn_Gmac.syn_get_netdev_stats src ctx st) (\<lambda>(r, d, st). Inr (r, Some d, st))),
     ho_getssetcount = Syn_Gmac.syn_get_strset_count,
     ho_getstrings = Syn_Gmac.syn_get_strings (iq_gstring_len q),
     ho_getethtoolstats = (\<lambda>src ctx data. bindR (Syn_Gmac.syn_get_eth_stats src ctx data) (\<lambda>(r, d, data). Inr (r, Some d, data)))\<rparr>"

definition gmac_env ::
  "syn_kernel \<Rightarrow> syn_plat \<Rightarrow> ipq50xx_plat \<Rightarrow> (Syn_Gmac.syn_hal_dev, syn_state list, sk_buff) kernel_env
     \<Rightarrow> (Syn_Gmac.syn_hal_dev, syn_state list, sk_buff) dp_env" where
  "gmac_env k q i x = \<lparr>
     de_ops = (\<lambda>r. case r of Soc_ops \<Rightarrow> nss_dp_gmac_ops k q | Overlay_ops j \<Rightarrow> ke_overlay x j),
     de_hal = (\<lambda>r. syn_gmac_hal_ops i),
     de_ppe = False, de_max_ports = GMAC_MAX_PORTS, de_start_ifnum = GMAC_START_IFNUM,
     de_mii_ioctl = ke_mii_ioctl x, de_prepare_mac = ke_prepare_mac x, de_alloc_etherdev = ke_alloc_etherdev x,
     de_valid_addr = ke_valid_addr x, de_soc_ops = Some Soc_ops\<rparr>"

end
