(* ===== verification/Syn_Ring_Safety.thy ===== *)
theory Syn_Ring_Safety
  imports Syn_Ring "HOL-Library.Multiset"
begin

text \<open>
  The GMAC rings at run time: the driver's operations interleaved with the write-backs of the
  DMA engine, as a reachability predicate. On every reachable state the ring invariant holds,
  so no \<open>BUG_ON\<close> and no stray access is ever hit, and buffers are conserved: each one taken
  (allocated, or accepted from the stack) is on a ring or has left it exactly once.
\<close>

section \<open>The DMA engine\<close>

text \<open>
  What the device does to a descriptor it owns. A receive write-back replaces the status word,
  handing the descriptor back; a transmit write-back keeps the control bits (20 to 30) and
  fills in the status bits below them.
\<close>

definition dma_rx_writeback :: "nat \<Rightarrow> u32 \<Rightarrow> syn_state \<Rightarrow> syn_state" where
  "dma_rx_writeback i s st = st\<lparr>rx_desc := (rx_desc st)[i := (rx_desc st ! i)\<lparr>ds_status := s AND 0x7fffffff\<rparr>]\<rparr>"

definition dma_tx_writeback :: "nat \<Rightarrow> u32 \<Rightarrow> syn_state \<Rightarrow> syn_state" where
  "dma_tx_writeback i s st = st\<lparr>tx_desc := (tx_desc st)[i := (tx_desc st ! i)\<lparr>ds_status :=
     (ds_status (tx_desc st ! i) AND 0x7ff00000) OR (s AND 0x000fffff)\<rparr>]\<rparr>"

lemma ring_pos:
  fixes N :: nat
  assumes "i < N" "s < N"
  obtains j where "j < N" "i = (s + j) mod N"
proof
  show "(i + (N - s)) mod N < N" using assms by simp
  have "(s + (i + (N - s)) mod N) mod N = (s + (i + (N - s))) mod N" by (rule mod_add_right_eq)
  also have "s + (i + (N - s)) = i + N" using assms by simp
  finally show "i = (s + (i + (N - s)) mod N) mod N" using assms by simp
qed

text \<open>A descriptor that is not free belongs to an entry.\<close>

lemma ring_wf_used:
  assumes wf: "ring_wf P skbs descs c bi nx bd nd nb" and i: "i < 128" and u: "\<not> free_desc (descs ! i)"
  obtains j where "j < unat nb" "i = (unat bi + j) mod 128"
proof -
  note f = ring_wf_facts [OF wf] and nx = ring_wf_next [OF wf] and w = ring_wf_slices [OF wf]
  obtain j where j: "j < 128" "i = (unat bi + j) mod 128" using ring_pos [OF i f(4)] .
  have "j < unat nb"
  proof (rule ccontr)
    assume "\<not> j < unat nb"
    with j have m: "j - unat nb < 128 - unat nb" "unat nb + (j - unat nb) = j" by auto
    have "(unat nx + (j - unat nb)) mod 128 = (unat bi + unat nb + (j - unat nb)) mod 128"
      unfolding nx by (rule mod_add_left_eq)
    then have "(unat nx + (j - unat nb)) mod 128 = i" using m(2) j(2) by (simp add: add.assoc)
    then have "ring_slice descs (unat nx) (128 - unat nb) ! (j - unat nb) = descs ! i"
      using m(1) f(2) by simp
    with w(3) m(1) u show False by (metis list_all_length ring_slice_length)
  qed
  with j(2) show ?thesis using that by blast
qed

lemma ring_wf_writeback:
  assumes wf: "ring_wf P skbs descs c bi nx bd nd nb" and i: "i < 128" and u: "\<not> free_desc (descs ! i)"
    and d: "P d"
  shows "ring_wf P skbs (descs[i := d]) c bi nx bd nd nb"
    and "map fst (ring_entries skbs (descs[i := d]) bi nb) = map fst (ring_entries skbs descs bi nb)"
proof -
  note f = ring_wf_facts [OF wf] and nx = ring_wf_next [OF wf] and w = ring_wf_slices [OF wf]
  obtain j where j: "j < unat nb" "i = (unat bi + j) mod 128" using ring_wf_used [OF wf i u] .
  have busy: "ring_slice (descs[i := d]) (unat bi) (unat nb) = (ring_slice descs (unat bi) (unat nb))[j := d]"
    using ring_slice_update_at [of j "unat nb" descs "unat bi" d] j f by simp
  have "i = (unat nx + (128 - unat nb + j)) mod length descs"
  proof -
    have "(unat nx + (128 - unat nb + j)) mod 128 = (unat bi + unat nb + (128 - unat nb + j)) mod 128"
      unfolding nx by (rule mod_add_left_eq)
    also have "unat bi + unat nb + (128 - unat nb + j) = unat bi + j + 128" using f(6) by simp
    finally show ?thesis using j(2) f(2) by simp
  qed
  then have free: "ring_slice (descs[i := d]) (unat nx) (128 - unat nb) = ring_slice descs (unat nx) (128 - unat nb)"
    using ring_slice_update_other [of "128 - unat nb" "128 - unat nb + j" descs "unat nx" d] j(1) f by simp
  have upd: "list_all P ((ring_slice descs (unat bi) (unat nb))[j := d])"
    using w(2) d by (auto simp: list_all_iff dest!: set_update_subset_insert [THEN subsetD])
  show "ring_wf P skbs (descs[i := d]) c bi nx bd nd nb"
    unfolding ring_wf_def busy free by (intro conjI nx w upd) (use f in simp_all)
  show "map fst (ring_entries skbs (descs[i := d]) bi nb) = map fst (ring_entries skbs descs bi nb)"
    by (simp add: ring_entries_def)
qed

lemma owned_not_free: "syn_dp_gmac_is_desc_owned_by_dma d \<Longrightarrow> \<not> free_desc d"
  by (simp add: free_desc_def)

lemma dma_rx_writeback_ok:
  assumes "rx_inv st" "i < 128" "syn_dp_gmac_is_desc_owned_by_dma (rx_desc st ! i)"
  shows "rx_inv (dma_rx_writeback i s st)"
    and "map fst (rx_entries (dma_rx_writeback i s st)) = map fst (rx_entries st)"
    and "tx_half (dma_rx_writeback i s st) = tx_half st"
  using ring_wf_writeback [OF assms(1) [unfolded rx_inv_def] assms(2) owned_not_free [OF assms(3)],
      of "(rx_desc st ! i)\<lparr>ds_status := s AND 0x7fffffff\<rparr>"]
  by (simp_all add: rx_inv_def dma_rx_writeback_def rx_entries_def tx_half_def)

lemma dma_tx_writeback_ok:
  assumes inv: "tx_inv st" and i: "i < 128" and own: "syn_dp_gmac_is_desc_owned_by_dma (tx_desc st ! i)"
  shows "tx_inv (dma_tx_writeback i s st)"
    and "map fst (tx_entries (dma_tx_writeback i s st)) = map fst (tx_entries st)"
    and "rx_half (dma_tx_writeback i s st) = rx_half st"
proof -
  note wf = inv [unfolded tx_inv_def]
  obtain j where "j < unat (busy_tx_desc st)" "i = (unat (tx_busy st) + j) mod 128"
    using ring_wf_used [OF wf i owned_not_free [OF own]] .
  then have last: "ds_status (tx_desc st ! i) AND desc_tx_last \<noteq> 0"
    using ring_wf_busy(2) [OF wf] by simp
  define d where "d = (tx_desc st ! i)\<lparr>ds_status :=
     (ds_status (tx_desc st ! i) AND 0x7ff00000) OR (s AND 0x000fffff)\<rparr>"
  have "ds_status d AND desc_tx_last = ds_status (tx_desc st ! i) AND desc_tx_last"
    by (simp add: d_def bit.conj_disj_distrib2 and.assoc)
  with last have "ds_status d AND desc_tx_last \<noteq> 0" by simp
  from ring_wf_writeback [OF wf i owned_not_free [OF own] this]
  show "tx_inv (dma_tx_writeback i s st)"
    "map fst (tx_entries (dma_tx_writeback i s st)) = map fst (tx_entries st)"
    "rx_half (dma_tx_writeback i s st) = rx_half st"
    by (simp_all add: tx_inv_def dma_tx_writeback_def tx_entries_def rx_half_def d_def)
qed

section \<open>Set-up\<close>

lemma init_ring_free:
  "list_all free_desc (syn_dp_gmac_rx_desc_init_ring n)" "list_all free_desc (syn_dp_gmac_tx_desc_init_ring n)"
  by (auto simp: list_all_length syn_dp_gmac_rx_desc_init_ring_def syn_dp_gmac_tx_desc_init_ring_def
        nth_list_update free_desc_def zero_desc_def syn_dp_gmac_is_desc_empty_def
        syn_dp_gmac_is_desc_owned_by_dma_def)

lemma init_ring_length:
  "length (syn_dp_gmac_rx_desc_init_ring n) = n" "length (syn_dp_gmac_tx_desc_init_ring n) = n"
  by (simp_all add: syn_dp_gmac_rx_desc_init_ring_def syn_dp_gmac_tx_desc_init_ring_def)

lemma ring_slice_all: "ring_slice xs 0 (length xs) = xs"
  by (rule nth_equalityI) simp_all

lemma ring_wf_init:
  assumes "length skbs = 128" "length descs = 128" "list_all free_desc descs"
  shows "ring_wf P skbs descs 128 0 0 0 0 0"
  using assms ring_slice_all [of descs] by (simp add: ring_wf_def)

lemma setup_rings_ok:
  assumes "syn_dp_setup_rings k nghd st0 = Inr (Success, nghd', st)"
    "length (rx_skb_list st0) = 128" "length (tx_skb_list st0) = 128"
  shows "rx_inv st" "tx_inv st" "tx_entries st = []"
    "\<exists>m. map fst (rx_entries st) = map Alloc [sk_allocs st0..<sk_allocs st0 + m]
       \<and> sk_trace st = sk_trace st0 @ map Alloc_skb [sk_allocs st0..<sk_allocs st0 + m]
           @ refill_tail k (sk_allocs st0 + m) (m < 128)
       \<and> sk_allocs st = sk_allocs st0 + m + (if m < 128 then 1 else 0)"
proof -
  from assms(1) obtain ra ta where a: "k_dma_alloc_rx k = Some ra" "k_dma_alloc_tx k = Some ta"
    by (auto simp: syn_dp_setup_rings_def syn_dp_setup_rx_desc_queue_def syn_dp_setup_tx_desc_queue_def
          bindR_eq_Inr Let_def split: option.splits if_splits)
  define st1 where "st1 = st0\<lparr>rx_desc_count := 128, rx_desc := syn_dp_gmac_rx_desc_init_ring 128,
      rx_desc_dma := ra, rx_next := 0, rx_busy := 0, rx_next_desc := 0, rx_busy_desc := 0,
      busy_rx_desc := 0, tx_desc_count := 128, tx_desc := syn_dp_gmac_tx_desc_init_ring 128,
      tx_desc_dma := ta, tx_next := 0, tx_busy := 0, tx_next_desc := 0, tx_busy_desc := 0,
      busy_tx_desc := 0\<rparr>"
  have run: "syn_dp_rx_refill k st1 = Inr st"
    using assms(1) a
    by (auto simp: syn_dp_setup_rings_def syn_dp_setup_rx_desc_queue_def syn_dp_setup_tx_desc_queue_def
          bindR_eq_Inr Let_def st1_def)
  have inv: "rx_inv st1" "tx_inv st1"
    using assms(2,3) ring_wf_init init_ring_length init_ring_free
    by (simp_all add: st1_def rx_inv_def tx_inv_def)
  have e: "rx_entries st1 = []" "tx_entries st1 = []"
    by (simp_all add: st1_def rx_entries_def tx_entries_def ring_entries_def)
  obtain new where r: "rx_inv st" "rx_entries st = new"
      "map fst new = map Alloc [sk_allocs st1..<sk_allocs st1 + length new]" "tx_half st = tx_half st1"
      "sk_trace st = sk_trace st1 @ map Alloc_skb [sk_allocs st1..<sk_allocs st1 + length new]
         @ refill_tail k (sk_allocs st1 + length new) (length new < 128)"
      "sk_allocs st = sk_allocs st1 + length new + (if length new < 128 then 1 else 0)"
    using syn_dp_rx_refill_ok [OF inv(1), of k] run e(1) by auto
  show "rx_inv st" "tx_inv st" "tx_entries st = []"
    using r(1) inv(2) e(2) tx_half_eq [OF r(4)] by simp_all
  show "\<exists>m. map fst (rx_entries st) = map Alloc [sk_allocs st0..<sk_allocs st0 + m]
       \<and> sk_trace st = sk_trace st0 @ map Alloc_skb [sk_allocs st0..<sk_allocs st0 + m]
           @ refill_tail k (sk_allocs st0 + m) (m < 128)
       \<and> sk_allocs st = sk_allocs st0 + m + (if m < 128 then 1 else 0)"
    using r(2,3,5,6) by (intro exI [of _ "length new"]) (simp add: st1_def)
qed


section \<open>Reachable states\<close>

text \<open>
  The first state is the one a successful \<open>syn_dp_setup_rings\<close> leaves on fresh port state;
  \<open>acc\<close> collects the buffers \<open>syn_dp_tx\<close> has accepted from the stack since.
\<close>

inductive syn_reach :: "syn_kernel \<Rightarrow> skb_ref multiset \<Rightarrow> syn_state \<Rightarrow> bool" for k :: syn_kernel where
  after_setup: "syn_dp_setup_rings k (nghd :: syn_hal_dev) st0 = Inr (Success, nghd', st) \<Longrightarrow>
     length (rx_skb_list st0) = 128 \<Longrightarrow> length (tx_skb_list st0) = 128 \<Longrightarrow>
     sk_trace st0 = [] \<Longrightarrow> syn_reach k {#} st"
| refill: "syn_reach k acc st \<Longrightarrow> syn_dp_rx_refill k st = Inr st' \<Longrightarrow> syn_reach k acc st'"
| rx: "syn_reach k acc st \<Longrightarrow> 0 < budget \<Longrightarrow> syn_dp_rx k (int budget) st = Inr (w, st') \<Longrightarrow>
     syn_reach k acc st'"
| tx_ok: "syn_reach k acc st \<Longrightarrow> syn_dp_tx k (nghd :: syn_hal_dev) skb st = Inr (0, nghd', st') \<Longrightarrow>
     syn_reach k (add_mset (skb_ref skb) acc) st'"
| tx_refused: "syn_reach k acc st \<Longrightarrow> syn_dp_tx k (nghd :: syn_hal_dev) skb st = Inr (r, nghd', st') \<Longrightarrow>
     r \<noteq> 0 \<Longrightarrow> syn_reach k acc st'"
| tx_complete: "syn_reach k acc st \<Longrightarrow> syn_dp_process_tx_complete st = Inr st' \<Longrightarrow> syn_reach k acc st'"
| dma_rx: "syn_reach k acc st \<Longrightarrow> i < 128 \<Longrightarrow> syn_dp_gmac_is_desc_owned_by_dma (rx_desc st ! i) \<Longrightarrow>
     syn_reach k acc (dma_rx_writeback i s st)"
| dma_tx: "syn_reach k acc st \<Longrightarrow> i < 128 \<Longrightarrow> syn_dp_gmac_is_desc_owned_by_dma (tx_desc st ! i) \<Longrightarrow>
     syn_reach k acc (dma_tx_writeback i s st)"

text \<open>The buffers a trace allocates, and those it hands to the stack or frees.\<close>

definition taken :: "syn_kcall list \<Rightarrow> skb_ref multiset" where
  "taken tr = mset (concat (map (\<lambda>c. case c of Alloc_skb a \<Rightarrow> [Alloc a] | _ \<Rightarrow> []) tr))"

definition gone :: "syn_kcall list \<Rightarrow> skb_ref multiset" where
  "gone tr = mset (concat (map (\<lambda>c. case c of Napi_gro_receive s n \<Rightarrow> [s] | Dev_kfree_skb s \<Rightarrow> [s] | _ \<Rightarrow> []) tr))"

definition on_rings :: "syn_state \<Rightarrow> skb_ref multiset" where
  "on_rings st = mset (map fst (rx_entries st)) + mset (map fst (tx_entries st))"

definition conserved :: "skb_ref multiset \<Rightarrow> syn_state \<Rightarrow> bool" where
  "conserved acc st \<longleftrightarrow> gone (sk_trace st) + on_rings st = taken (sk_trace st) + acc"

definition allocs_once :: "syn_state \<Rightarrow> bool" where
  "allocs_once st \<longleftrightarrow> (\<forall>a. count (taken (sk_trace st)) (Alloc a) \<le> (if a < sk_allocs st then 1 else 0))"

lemma trace_append [simp]:
  "taken (t @ u) = taken t + taken u" "gone (t @ u) = gone t + gone u"
  by (simp_all add: taken_def gone_def)

lemma trace_alloc [simp]:
  "taken (map Alloc_skb as) = mset (map Alloc as)" "gone (map Alloc_skb as) = {#}"
  by (induction as) (simp_all add: taken_def gone_def)

lemma trace_tail [simp]:
  "taken (refill_tail k a b) = gone (refill_tail k a b)"
  by (simp add: refill_tail_def taken_def gone_def)

lemma trace_rx [simp]:
  "taken (concat (map (rx_calls k) es)) = {#}" "gone (concat (map (rx_calls k) es)) = mset (map fst es)"
  by (induction es) (simp_all add: taken_def gone_def rx_calls_def)

lemma trace_tx [simp]:
  "taken (concat (map tx_calls es)) = {#}" "gone (concat (map tx_calls es)) = mset (map fst es)"
  by (induction es) (simp_all add: taken_def gone_def tx_calls_def)

lemma ready_split: "mset (map fst (ready n es)) + mset (map fst (drop (length (ready n es)) es)) = mset (map fst es)"
proof -
  have "ready n es = take (length (ready n es)) es"
    by (metis ready_def takeWhile_eq_take take_take min_def ready_length(1))
  then have "es = ready n es @ drop (length (ready n es)) es" by (metis append_take_drop_id)
  then show ?thesis by (metis map_append mset_append)
qed

text \<open>An operation that allocates a run of fresh buffers keeps \<open>allocs_once\<close>.\<close>

lemma allocs_once_run:
  assumes once: "allocs_once st"
    and tr: "sk_trace st' = sk_trace st @ map Alloc_skb [sk_allocs st..<sk_allocs st + m]
           @ refill_tail k (sk_allocs st + m) b"
    and al: "sk_allocs st' = sk_allocs st + m + (if b then 1 else 0)"
  shows "allocs_once st'"
  unfolding allocs_once_def
proof
  fix a
  have c: "count (taken (sk_trace st)) (Alloc a) \<le> (if a < sk_allocs st then 1 else 0)"
    using once by (simp add: allocs_once_def)
  have run: "count (mset (map Alloc [sk_allocs st..<sk_allocs st + m])) (Alloc a)
      = (if sk_allocs st \<le> a \<and> a < sk_allocs st + m then 1 else 0)"
    by (induction m) auto
  have tail: "count (gone (refill_tail k (sk_allocs st + m) b)) (Alloc a)
      \<le> (if b \<and> a = sk_allocs st + m then 1 else 0)"
    by (cases "b \<and> k_netdev_alloc_skb k (sk_allocs st + m)") (auto simp: refill_tail_def gone_def)
  show "count (taken (sk_trace st')) (Alloc a) \<le> (if a < sk_allocs st' then 1 else 0)"
    using c run tail unfolding tr al by (auto split: if_splits)
qed

lemma tx_result:
  assumes inv: "tx_inv st" and run: "syn_dp_tx k nghd skb st = Inr (r, nghd', st')"
  shows "tx_inv st'" "rx_half st' = rx_half st" "sk_trace st' = sk_trace st" "sk_allocs st' = sk_allocs st"
    "map fst (tx_entries st') = map fst (tx_entries st) @ (if r = 0 then [skb_ref skb] else [])"
proof -
  have room: "unat (busy_tx_desc st) < 128" if "syn_dp_tx_avail st"
  proof -
    have "unat (busy_tx_desc st) \<le> 128" using ring_wf_facts(6) inv by (auto simp: tx_inv_def)
    moreover have "busy_tx_desc st \<noteq> 128" using that by (auto simp: syn_dp_tx_avail_def)
    then have "unat (busy_tx_desc st) \<noteq> 128" by (simp add: word_unat_eq_iff)
    ultimately show ?thesis by simp
  qed
  consider (refused) "r = -1" "st' = st"
    | (queued) a where "r = 0" "syn_dp_tx_avail st" "syn_dp_tx_desc_queue st skb a = Inr st'"
    using run by (auto simp: syn_dp_tx_def bindR_eq_Inr split: if_splits option.splits)
  then have "tx_inv st' \<and> rx_half st' = rx_half st \<and> sk_trace st' = sk_trace st \<and> sk_allocs st' = sk_allocs st
    \<and> map fst (tx_entries st') = map fst (tx_entries st) @ (if r = 0 then [skb_ref skb] else [])"
  proof cases
    case refused
    then show ?thesis using inv by simp
  next
    case queued
    with tx_desc_queue_ok [OF inv room [OF queued(2)], of skb a] more_eq [of st' st] show ?thesis by auto
  qed
  then show "tx_inv st'" "rx_half st' = rx_half st" "sk_trace st' = sk_trace st" "sk_allocs st' = sk_allocs st"
    "map fst (tx_entries st') = map fst (tx_entries st) @ (if r = 0 then [skb_ref skb] else [])"
    by blast+
qed

definition syn_ok :: "skb_ref multiset \<Rightarrow> syn_state \<Rightarrow> bool" where
  "syn_ok acc st \<longleftrightarrow> rx_inv st \<and> tx_inv st \<and> conserved acc st \<and> allocs_once st"

lemma syn_ok_setup:
  assumes "syn_dp_setup_rings k nghd st0 = Inr (Success, nghd', st)"
    "length (rx_skb_list st0) = 128" "length (tx_skb_list st0) = 128" "sk_trace st0 = []"
  shows "syn_ok {#} st"
proof -
  note s = setup_rings_ok [OF assms(1-3)]
  obtain m where m: "map fst (rx_entries st) = map Alloc [sk_allocs st0..<sk_allocs st0 + m]"
       "sk_trace st = sk_trace st0 @ map Alloc_skb [sk_allocs st0..<sk_allocs st0 + m]
           @ refill_tail k (sk_allocs st0 + m) (m < 128)"
       "sk_allocs st = sk_allocs st0 + m + (if m < 128 then 1 else 0)"
    using s(4) by blast
  have "allocs_once st0" by (simp add: allocs_once_def assms(4) taken_def)
  from allocs_once_run [OF this m(2,3)] have "allocs_once st" .
  moreover have "conserved {#} st"
    using m(1,2) s(3) assms(4) by (simp add: conserved_def on_rings_def)
  ultimately show ?thesis using s by (simp add: syn_ok_def)
qed

lemma syn_ok_refill:
  assumes ok: "syn_ok acc st" and run: "syn_dp_rx_refill k st = Inr st'"
  shows "syn_ok acc st'"
proof -
  have inv: "rx_inv st" using ok by (simp add: syn_ok_def)
  obtain new where r: "rx_inv st'" "rx_entries st' = rx_entries st @ new"
      "map fst new = map Alloc [sk_allocs st..<sk_allocs st + length new]" "tx_half st' = tx_half st"
      "sk_trace st' = sk_trace st @ map Alloc_skb [sk_allocs st..<sk_allocs st + length new]
         @ refill_tail k (sk_allocs st + length new) (length new < 128 - length (rx_entries st))"
      "sk_allocs st' = sk_allocs st + length new + (if length new < 128 - length (rx_entries st) then 1 else 0)"
    using syn_dp_rx_refill_ok [OF inv, of k] run by auto
  have "conserved acc st'"
    using ok r(2,3,5) tx_half_eq(2) [OF r(4)]
    by (auto simp: syn_ok_def conserved_def on_rings_def ac_simps)
  moreover have "allocs_once st'"
    using allocs_once_run [OF _ r(5,6)] ok by (simp add: syn_ok_def)
  ultimately show ?thesis using ok r(1) tx_half_eq(1) [OF r(4)] by (simp add: syn_ok_def)
qed

lemma syn_ok_rx:
  assumes ok: "syn_ok acc st" and b: "0 < budget" and run: "syn_dp_rx k (int budget) st = Inr (w, st')"
  shows "syn_ok acc st'"
proof -
  define es where "es = ready (min (length (rx_entries st)) budget) (rx_entries st)"
  have "rx_inv st" using ok by (simp add: syn_ok_def)
  then have r: "rx_inv st'" "rx_entries st' = drop (length es) (rx_entries st)" "tx_half st' = tx_half st"
      "sk_trace st' = sk_trace st @ concat (map (rx_calls k) es)" "sk_allocs st' = sk_allocs st"
    using syn_dp_rx_ok [of st budget k] b run by (auto simp: es_def)
  have "mset (map fst (rx_entries st)) = mset (map fst es) + mset (map fst (rx_entries st'))"
    unfolding r(2) es_def by (rule ready_split [symmetric])
  then have "conserved acc st'"
    using ok r(4) tx_half_eq(2) [OF r(3)]
    by (simp add: syn_ok_def conserved_def on_rings_def ac_simps)
  with ok r tx_half_eq(1) [OF r(3)] show ?thesis by (simp add: syn_ok_def allocs_once_def)
qed

lemma syn_ok_tx_complete:
  assumes ok: "syn_ok acc st" and run: "syn_dp_process_tx_complete st = Inr st'"
  shows "syn_ok acc st'"
proof -
  define es where "es = ready (length (tx_entries st)) (tx_entries st)"
  have "tx_inv st" using ok by (simp add: syn_ok_def)
  then have r: "tx_inv st'" "tx_entries st' = drop (length es) (tx_entries st)" "rx_half st' = rx_half st"
      "sk_trace st' = sk_trace st @ concat (map tx_calls es)" "sk_allocs st' = sk_allocs st"
    using syn_dp_process_tx_complete_ok [of st] run by (auto simp: es_def)
  have "mset (map fst (tx_entries st)) = mset (map fst es) + mset (map fst (tx_entries st'))"
    unfolding r(2) es_def by (rule ready_split [symmetric])
  then have "conserved acc st'"
    using ok r(4) rx_half_eq(2) [OF r(3)]
    by (simp add: syn_ok_def conserved_def on_rings_def ac_simps)
  with ok r rx_half_eq(1) [OF r(3)] show ?thesis by (simp add: syn_ok_def allocs_once_def)
qed

lemma syn_ok_tx:
  assumes ok: "syn_ok acc st" and run: "syn_dp_tx k nghd skb st = Inr (r, nghd', st')"
  shows "syn_ok (if r = 0 then add_mset (skb_ref skb) acc else acc) st'"
proof -
  have "tx_inv st" using ok by (simp add: syn_ok_def)
  note t = tx_result [OF this run]
  with ok rx_half_eq [OF t(2)] show ?thesis
    by (simp add: syn_ok_def conserved_def on_rings_def allocs_once_def)
qed

lemma syn_ok_dma:
  assumes ok: "syn_ok acc st" and i: "i < 128"
  shows "syn_dp_gmac_is_desc_owned_by_dma (rx_desc st ! i) \<Longrightarrow> syn_ok acc (dma_rx_writeback i s st)"
    and "syn_dp_gmac_is_desc_owned_by_dma (tx_desc st ! i) \<Longrightarrow> syn_ok acc (dma_tx_writeback i s st)"
proof -
  have [simp]: "sk_trace (dma_rx_writeback i s st) = sk_trace st" "sk_allocs (dma_rx_writeback i s st) = sk_allocs st"
    "sk_trace (dma_tx_writeback i s st) = sk_trace st" "sk_allocs (dma_tx_writeback i s st) = sk_allocs st"
    by (simp_all add: dma_rx_writeback_def dma_tx_writeback_def)
  {
    assume "syn_dp_gmac_is_desc_owned_by_dma (rx_desc st ! i)"
    note r = dma_rx_writeback_ok [OF _ i this, of s]
    show "syn_ok acc (dma_rx_writeback i s st)"
      using ok r tx_half_eq [OF r(3)] by (simp add: syn_ok_def conserved_def on_rings_def allocs_once_def)
  }
  assume "syn_dp_gmac_is_desc_owned_by_dma (tx_desc st ! i)"
  note r = dma_tx_writeback_ok [OF _ i this, of s]
  show "syn_ok acc (dma_tx_writeback i s st)"
    using ok r rx_half_eq [OF r(3)] by (simp add: syn_ok_def conserved_def on_rings_def allocs_once_def)
qed

lemma syn_reach_ok: "syn_reach k acc st \<Longrightarrow> syn_ok acc st"
proof (induction rule: syn_reach.induct)
  case (tx_ok acc st nghd skb nghd' st')
  then show ?case using syn_ok_tx [of acc st k nghd skb 0] by simp
next
  case (tx_refused acc st nghd skb r nghd' st')
  then show ?case using syn_ok_tx [of acc st k nghd skb r] by simp
qed (blast intro: syn_ok_setup syn_ok_refill syn_ok_rx syn_ok_tx_complete syn_ok_dma)+

section \<open>Properties of the rings\<close>

text \<open>A kernel that serves two buffers and then runs out, and a fresh port, for concrete runs.\<close>

definition demo_kernel :: syn_kernel where
  "demo_kernel = \<lparr>k_netdev_alloc_skb = (\<lambda>a. a < 2), k_dma_map_rx = (\<lambda>a. Some (0x1000 + of_nat a)),
     k_dma_map_tx = (\<lambda>s. Some 0x9000), k_dma_alloc_rx = Some 0x100, k_dma_alloc_tx = Some 0x200,
     k_ETH_FCS_LEN = 4\<rparr>"

definition fresh_port :: syn_state where
  "fresh_port = \<lparr>dp_stats = (\<lambda>_. 0), rx_skb_list = replicate 128 None, rx_desc_dma = 0, rx_desc = [],
     busy_rx_desc = 0, rx_desc_count = 0, rx_busy = 0, rx_next = 0, rx_busy_desc = 0, rx_next_desc = 0,
     tx_skb_list = replicate 128 None, tx_desc_dma = 0, tx_desc = [], busy_tx_desc = 0,
     tx_desc_count = 0, tx_busy = 0, tx_next = 0, tx_busy_desc = 0, tx_next_desc = 0,
     napi_added = False, sk_trace = [], sk_allocs = 0\<rparr>"

definition demo_mac :: syn_hal_dev where
  "demo_mac = nss_gmac_hal_dev.extend (kzalloc_nghd (\<lambda>_. 0)) (syn_hal_dev.fields (\<lambda>_. 0))"

definition demo_skb :: sk_buff where
  "demo_skb = \<lparr>skb_ref = Stack 7, skb_len = 60, skb_partial = True, skb_nr_frags = 0\<rparr>"

lemma setup_rings_total:
  assumes "length (rx_skb_list st0) = 128" "length (tx_skb_list st0) = 128"
    "k_dma_alloc_rx k = Some ra" "k_dma_alloc_tx k = Some ta"
  shows "\<exists>nghd' st. syn_dp_setup_rings k nghd st0 = Inr (Success, nghd', st)"
proof -
  define st1 where "st1 = st0\<lparr>rx_desc_count := 128, rx_desc := syn_dp_gmac_rx_desc_init_ring 128,
      rx_desc_dma := ra, rx_next := 0, rx_busy := 0, rx_next_desc := 0, rx_busy_desc := 0,
      busy_rx_desc := 0, tx_desc_count := 128, tx_desc := syn_dp_gmac_tx_desc_init_ring 128,
      tx_desc_dma := ta, tx_next := 0, tx_busy := 0, tx_next_desc := 0, tx_busy_desc := 0,
      busy_tx_desc := 0\<rparr>"
  have "rx_inv st1"
    using assms(1) ring_wf_init init_ring_length init_ring_free by (simp add: st1_def rx_inv_def)
  from syn_dp_rx_refill_ok [OF this] obtain st where "syn_dp_rx_refill k st1 = Inr st" by blast
  then show ?thesis
    using assms(3,4)
    by (simp add: syn_dp_setup_rings_def syn_dp_setup_rx_desc_queue_def syn_dp_setup_tx_desc_queue_def
          Let_def st1_def)
qed

lemma demo_syn_rings: "k_dma_alloc_rx demo_kernel = Some 0x100" "k_dma_alloc_tx demo_kernel = Some 0x200"
  by (simp_all add: demo_kernel_def)

lemma demo_syn_reach: "\<exists>st. syn_reach demo_kernel {#} st"
proof -
  have "length (rx_skb_list fresh_port) = 128" "length (tx_skb_list fresh_port) = 128" "sk_trace fresh_port = []"
    by (simp_all add: fresh_port_def)
  moreover obtain nghd' st where "syn_dp_setup_rings demo_kernel demo_mac fresh_port = Inr (Success, nghd', st)"
    using setup_rings_total [OF calculation(1,2) demo_syn_rings] by blast
  ultimately show ?thesis by (blast intro: syn_reach.after_setup)
qed

lemma tx_avail_room:
  assumes "tx_inv st"
  shows "syn_dp_tx_avail st \<longleftrightarrow> length (tx_entries st) < 128"
proof -
  have le: "unat (busy_tx_desc st) \<le> 128" using ring_wf_facts(6) assms by (auto simp: tx_inv_def)
  have "unat (128 - busy_tx_desc st) = 128 - unat (busy_tx_desc st)"
    using le by (subst unat_sub) (simp_all add: word_le_nat_alt)
  then show ?thesis by (simp add: syn_dp_tx_avail_def word_less_nat_alt) linarith
qed

lemma tx_total:
  assumes inv: "tx_inv st"
  shows "\<exists>r nghd' st'. syn_dp_tx k nghd skb st = Inr (r, nghd', st')"
proof (cases "syn_dp_tx_avail st")
  case True
  then have room: "unat (busy_tx_desc st) < 128" using tx_avail_room [OF inv] by simp
  show ?thesis
  proof (cases "k_dma_map_tx k (skb_ref skb)")
    case (Some a)
    then show ?thesis
      using True tx_desc_queue_ok [OF inv room, of skb a] by (auto simp: syn_dp_tx_def)
  qed (simp add: syn_dp_tx_def)
qed (simp add: syn_dp_tx_def)

text \<open>
  C1. From set-up on, whatever the driver and the DMA engine do in whatever order, every
  driver operation completes: no \<open>BUG_ON\<close> fires, no index leaves its array and no null
  buffer is used.
\<close>

theorem syn_rings_never_fault:
  assumes "syn_reach k acc st" "0 < budget"
  shows "(\<exists>st'. syn_dp_rx_refill k st = Inr st')
    \<and> (\<exists>w st'. syn_dp_rx k (int budget) st = Inr (w, st'))
    \<and> (\<exists>r nghd' st'. syn_dp_tx k (nghd :: syn_hal_dev) skb st = Inr (r, nghd', st'))
    \<and> (\<exists>st'. syn_dp_process_tx_complete st = Inr st')"
proof -
  have inv: "rx_inv st" "tx_inv st" using syn_reach_ok [OF assms(1)] by (simp_all add: syn_ok_def)
  show ?thesis
    using syn_dp_rx_refill_ok [OF inv(1), of k] syn_dp_rx_ok [OF inv(1) assms(2), of k]
      tx_total [OF inv(2)] syn_dp_process_tx_complete_ok [OF inv(2)] by blast
qed

theorem syn_rings_never_fault_witness:
  "\<exists>st. syn_reach demo_kernel {#} st \<and> (\<exists>st'. syn_dp_rx_refill demo_kernel st = Inr st')
    \<and> (\<exists>w st'. syn_dp_rx demo_kernel (int 64) st = Inr (w, st'))
    \<and> (\<exists>r nghd' st'. syn_dp_tx demo_kernel demo_mac demo_skb st = Inr (r, nghd', st'))
    \<and> (\<exists>st'. syn_dp_process_tx_complete st = Inr st')"
  using demo_syn_reach syn_rings_never_fault [of demo_kernel "{#}" _ 64 demo_mac demo_skb] by fastforce

text \<open>
  C6. Buffers are conserved on every reachable state: those delivered to the stack or freed,
  together with those on the rings, are exactly those the driver allocated together with
  those it accepted for transmission; no allocation is counted twice, so no receive buffer
  is leaked, delivered twice or freed twice.
\<close>

theorem syn_buffers_conserved:
  assumes "syn_reach k acc st"
  shows "gone (sk_trace st) + on_rings st = taken (sk_trace st) + acc
    \<and> (\<forall>a. count (taken (sk_trace st)) (Alloc a) \<le> 1)"
proof -
  have ok: "conserved acc st" "allocs_once st"
    using syn_reach_ok [OF assms] by (simp_all add: syn_ok_def)
  have "count (taken (sk_trace st)) (Alloc a) \<le> 1" for a
    using ok(2) unfolding allocs_once_def by (metis (full_types) le_trans zero_le_one)
  with ok(1) show ?thesis by (simp add: conserved_def)
qed

theorem syn_buffers_conserved_witness:
  "\<exists>st. syn_reach demo_kernel {#} st \<and> gone (sk_trace st) + on_rings st = taken (sk_trace st) + {#}
    \<and> (\<forall>a. count (taken (sk_trace st)) (Alloc a) \<le> 1)"
  using demo_syn_reach syn_buffers_conserved [of demo_kernel "{#}"] by blast

text \<open>
  C14. A receive pass on a reachable ring takes off the leading entries the DMA has given back,
  at most \<open>budget\<close> of them, oldest first; each is unmapped, then handed to the stack with its
  frame length less the checksum, or freed when the DMA marked it bad, and counted. The
  value returned is not that number: the part of the budget beyond the ring's fill level
  is added to it.
\<close>

theorem syn_dp_rx_pass:
  assumes "syn_reach k acc st" "0 < budget"
  shows "\<exists>st' done. syn_dp_rx k (int budget) st = Inr
      (if rx_entries st = [] then 0
       else int (length done) + (int budget - int (min (length (rx_entries st)) budget)), st')
    \<and> done = takeWhile (\<lambda>e. \<not> syn_dp_gmac_is_desc_owned_by_dma (snd e)) (take budget (rx_entries st))
    \<and> rx_entries st = done @ rx_entries st' \<and> tx_entries st' = tx_entries st
    \<and> sk_trace st' = sk_trace st @ concat (map (rx_calls k) done)
    \<and> dp_stats st' = fold (\<lambda>e. rx_frame_stats k (ds_status (snd e))) done (dp_stats st)"
proof -
  have inv: "rx_inv st" using syn_reach_ok [OF assms(1)] by (simp add: syn_ok_def)
  define es where "es = ready (min (length (rx_entries st)) budget) (rx_entries st)"
  have es: "es = takeWhile (\<lambda>e. \<not> syn_dp_gmac_is_desc_owned_by_dma (snd e)) (take budget (rx_entries st))"
    by (simp add: es_def ready_def min_def)
  have "take (length es) (rx_entries st) = es"
    unfolding es by (metis append_take_drop_id append_eq_conv_conj takeWhile_dropWhile_id append_assoc)
  then have split: "rx_entries st = es @ drop (length es) (rx_entries st)" by (metis append_take_drop_id)
  show ?thesis
    using syn_dp_rx_ok [OF inv assms(2), of k] split tx_half_eq(2)
    unfolding es_def [symmetric] es [symmetric]
    by (elim exE conjE) (rule exI, rule exI [of _ es], auto)
qed

theorem syn_dp_rx_pass_witness:
  "\<exists>st. syn_reach demo_kernel {#} st \<and> (\<exists>st' done. syn_dp_rx demo_kernel (int 64) st = Inr
      (if rx_entries st = [] then 0
       else int (length done) + (int 64 - int (min (length (rx_entries st)) 64)), st')
    \<and> done = takeWhile (\<lambda>e. \<not> syn_dp_gmac_is_desc_owned_by_dma (snd e)) (take 64 (rx_entries st))
    \<and> rx_entries st = done @ rx_entries st' \<and> tx_entries st' = tx_entries st
    \<and> sk_trace st' = sk_trace st @ concat (map (rx_calls demo_kernel) done)
    \<and> dp_stats st' = fold (\<lambda>e. rx_frame_stats demo_kernel (ds_status (snd e))) done (dp_stats st))"
  using demo_syn_reach syn_dp_rx_pass [of demo_kernel "{#}" _ 64] by (metis zero_less_numeral)

text \<open>
  C15. Transmit completion on a reachable ring retires the leading entries the DMA has given
  back, oldest first; each is unmapped and freed once and counted as sent or as failed.
\<close>

theorem syn_dp_tx_complete_pass:
  assumes "syn_reach k acc st"
  shows "\<exists>st' done. syn_dp_process_tx_complete st = Inr st'
    \<and> done = takeWhile (\<lambda>e. \<not> syn_dp_gmac_is_desc_owned_by_dma (snd e)) (tx_entries st)
    \<and> tx_entries st = done @ tx_entries st' \<and> rx_entries st' = rx_entries st
    \<and> sk_trace st' = sk_trace st @ concat (map tx_calls done)
    \<and> dp_stats st' = fold tx_done_entry done (dp_stats st)"
proof -
  have inv: "tx_inv st" using syn_reach_ok [OF assms(1)] by (simp add: syn_ok_def)
  define es where "es = ready (length (tx_entries st)) (tx_entries st)"
  have es: "es = takeWhile (\<lambda>e. \<not> syn_dp_gmac_is_desc_owned_by_dma (snd e)) (tx_entries st)"
    by (simp add: es_def ready_def)
  have split: "tx_entries st = es @ drop (length es) (tx_entries st)"
    unfolding es by (metis append_eq_conv_conj takeWhile_dropWhile_id)
  show ?thesis
    using syn_dp_process_tx_complete_ok [OF inv] split rx_half_eq(2)
    unfolding es_def [symmetric] es [symmetric]
    by (elim exE conjE) (rule exI, rule exI [of _ es], auto)
qed

theorem syn_dp_tx_complete_pass_witness:
  "\<exists>st. syn_reach demo_kernel {#} st \<and> (\<exists>st' done. syn_dp_process_tx_complete st = Inr st'
    \<and> done = takeWhile (\<lambda>e. \<not> syn_dp_gmac_is_desc_owned_by_dma (snd e)) (tx_entries st)
    \<and> tx_entries st = done @ tx_entries st' \<and> rx_entries st' = rx_entries st
    \<and> sk_trace st' = sk_trace st @ concat (map tx_calls done)
    \<and> dp_stats st' = fold tx_done_entry done (dp_stats st))"
  using demo_syn_reach syn_dp_tx_complete_pass [of demo_kernel "{#}"] by blast

text \<open>
  C16. Transmission on a well-formed ring: with the ring full or the buffer unmappable it
  returns -1 and changes nothing; otherwise it returns 0, the ring has gained exactly that
  buffer, at its end, in a descriptor owned by the DMA, and the transmit engine is told to poll.
\<close>

theorem syn_dp_tx_result:
  assumes "tx_inv st"
  shows "\<exists>r nghd' st'. syn_dp_tx k nghd skb st = Inr (r, nghd', st') \<and>
    (if length (tx_entries st) = 128 \<or> k_dma_map_tx k (skb_ref skb) = None
     then r = -1 \<and> nghd' = nghd \<and> st' = st
     else r = 0 \<and> nghd' = hal_write_reg nghd SYN_DMA_TX_POLL_DEMAND 0
        \<and> (\<exists>d. tx_entries st' = tx_entries st @ [(skb_ref skb, d)] \<and> syn_dp_gmac_is_desc_owned_by_dma d)
        \<and> tx_inv st' \<and> rx_half st' = rx_half st \<and> sk_trace st' = sk_trace st)"
proof -
  have le: "length (tx_entries st) \<le> 128" by (rule txq.entries_cap [OF assms])
  show ?thesis
  proof (cases "length (tx_entries st) = 128 \<or> k_dma_map_tx k (skb_ref skb) = None")
    case True
    then show ?thesis using tx_avail_room [OF assms] by (auto simp: syn_dp_tx_def)
  next
    case False
    then obtain a where a: "k_dma_map_tx k (skb_ref skb) = Some a" "length (tx_entries st) < 128"
      using le by auto
    have room: "unat (busy_tx_desc st) < 128" using a(2) by simp
    obtain st' where q: "syn_dp_tx_desc_queue st skb a = Inr st'" "tx_inv st'"
        "tx_entries st' = tx_entries st @ [(skb_ref skb,
           tx_desc_fill (ucast a) (skb_len skb) (skb_partial skb)
             (desc_tx_last OR desc_tx_first OR desc_tx_int_enable) desc_own_by_dma
             (tx_desc st ! tx_next_desc st))]"
        "rx_half st' = rx_half st" "syn_dp_info.more st' = syn_dp_info.more st"
      using tx_desc_queue_ok [OF assms room, of skb a] by blast
    have own: "syn_dp_gmac_is_desc_owned_by_dma (tx_desc_fill b l off c desc_own_by_dma d)" for b l off c d
      by (simp add: syn_dp_gmac_is_desc_owned_by_dma_def tx_desc_fill_def Let_def or.commute or_and_self)
    have "syn_dp_tx k nghd skb st = Inr (0, syn_resume_dma_tx nghd, st')"
      using a q(1) tx_avail_room [OF assms] by (simp add: syn_dp_tx_def)
    with q False own more_eq [OF q(5)] show ?thesis by (simp add: syn_resume_dma_tx_def)
  qed
qed

theorem syn_dp_tx_result_witness:
  "\<exists>st. tx_inv st \<and> (\<exists>r nghd' st'. syn_dp_tx demo_kernel demo_mac demo_skb st = Inr (r, nghd', st') \<and>
    (if length (tx_entries st) = 128 \<or> k_dma_map_tx demo_kernel (skb_ref demo_skb) = None
     then r = -1 \<and> nghd' = demo_mac \<and> st' = st
     else r = 0 \<and> nghd' = hal_write_reg demo_mac SYN_DMA_TX_POLL_DEMAND 0
        \<and> (\<exists>d. tx_entries st' = tx_entries st @ [(skb_ref demo_skb, d)] \<and> syn_dp_gmac_is_desc_owned_by_dma d)
        \<and> tx_inv st' \<and> rx_half st' = rx_half st \<and> sk_trace st' = sk_trace st))"
proof -
  obtain st :: syn_state where "tx_inv st" using demo_syn_reach syn_reach_ok unfolding syn_ok_def by blast
  with syn_dp_tx_result [of st demo_kernel demo_mac demo_skb] show ?thesis by blast
qed

text \<open>
  C17. The availability test of \<open>syn_dp_tx\<close> runs before the lock is taken. With one slot left
  and the oldest frame still with the DMA, two senders both pass the test; the second to
  queue its frame then stops the machine.
\<close>

theorem syn_dp_tx_race:
  assumes inv: "tx_inv st" and one: "length (tx_entries st) = 127"
    and own: "syn_dp_gmac_is_desc_owned_by_dma (snd (hd (tx_entries st)))"
  shows "syn_dp_tx_avail st \<and>
    (\<exists>st1. syn_dp_tx_desc_queue st skb1 a1 = Inr st1 \<and> syn_dp_tx_desc_queue st1 skb2 a2 = Inl Bug_On)"
proof -
  have room: "unat (busy_tx_desc st) < 128" using one by simp
  obtain st1 d where st1: "syn_dp_tx_desc_queue st skb1 a1 = Inr st1" "tx_inv st1"
      "tx_entries st1 = tx_entries st @ [(skb_ref skb1, d)]"
    using tx_desc_queue_ok [OF inv room, of skb1 a1] by blast
  note wf = st1(2) [unfolded tx_inv_def]
  note f = ring_wf_facts [OF wf]
  have full: "unat (busy_tx_desc st1) = 128"
    using arg_cong [OF st1(3), of length] one by simp
  then have cell: "tx_next_desc st1 = unat (tx_busy st1)" "unat (tx_next st1) = unat (tx_busy st1)"
    using ring_wf_next [OF wf] f(4,8) by simp_all
  have "tx_desc st1 ! unat (tx_busy st1) = snd (hd (tx_entries st1))"
    using ring_entries_hd(2) [OF wf] full by (simp add: tx_entries_def)
  moreover have "hd (tx_entries st1) = hd (tx_entries st)"
    using st1(3) one by (cases "tx_entries st") auto
  ultimately have "syn_dp_gmac_is_desc_owned_by_dma (tx_desc st1 ! unat (tx_busy st1))"
    using own by simp
  then have "syn_dp_tx_desc_queue st1 skb2 a2 = Inl Bug_On"
    using f cell by (simp add: syn_dp_tx_desc_queue_def syn_dp_set_tx_qptr_def aget_in BUG_ON_def
        bindR_eq_Inl Let_def)
  then show ?thesis using tx_avail_room [OF inv] one st1(1) by auto
qed

text \<open>A ring with 127 frames queued, all still with the DMA.\<close>

lemma tx_fill_owned: "syn_dp_gmac_is_desc_owned_by_dma (tx_desc_fill b l off c desc_own_by_dma d)"
  by (simp add: syn_dp_gmac_is_desc_owned_by_dma_def tx_desc_fill_def Let_def or.commute or_and_self)

lemma demo_race_state:
  "\<exists>st :: syn_state. tx_inv st \<and> length (tx_entries st) = 127
     \<and> syn_dp_gmac_is_desc_owned_by_dma (snd (hd (tx_entries st)))"
proof -
  define st0 where "st0 = fresh_port\<lparr>tx_desc := syn_dp_gmac_tx_desc_init_ring 128, tx_desc_count := 128\<rparr>"
  have "tx_inv st0"
    using ring_wf_init init_ring_length init_ring_free by (simp add: st0_def fresh_port_def tx_inv_def)
  moreover have e0: "tx_entries st0 = []"
    by (simp add: st0_def fresh_port_def tx_entries_def ring_entries_def)
  moreover have "unat (busy_tx_desc st0) < 128" by (simp add: st0_def fresh_port_def)
  ultimately obtain st1 :: syn_state and d where st1: "tx_inv st1" "tx_entries st1 = [(Stack 7, d)]"
      "syn_dp_gmac_is_desc_owned_by_dma d"
    using tx_desc_queue_ok [of st0 demo_skb 0] tx_fill_owned
    by (auto simp: demo_skb_def)
  have "length (tx_entries st1) + length (replicate 126 (demo_skb, 0 :: u64)) \<le> 128" by (simp only: st1(2)) simp
  from txq.push_all_ok [OF st1(1) this] obtain st2 :: syn_state where st2: "tx_inv st2"
      "take (length (tx_entries st1)) (tx_entries st2) = tx_entries st1"
      "length (tx_entries st2) = length (tx_entries st1) + 126"
    by auto
  have "hd (tx_entries st2) = (Stack 7, d)"
    using st2(2) unfolding st1(2) by (cases "tx_entries st2") auto
  moreover have "length (tx_entries st2) = 127" using st2(3) unfolding st1(2) by simp
  ultimately show ?thesis using st2(1) st1(3) by (metis snd_conv)
qed

theorem syn_dp_tx_race_witness:
  "\<exists>st :: syn_state. tx_inv st \<and> length (tx_entries st) = 127 \<and> syn_dp_tx_avail st \<and>
    (\<exists>st1. syn_dp_tx_desc_queue st demo_skb 0 = Inr st1 \<and> syn_dp_tx_desc_queue st1 demo_skb 0 = Inl Bug_On)"
  using demo_race_state syn_dp_tx_race [where ?skb1.0 = demo_skb and ?a1.0 = 0 and ?skb2.0 = demo_skb and ?a2.0 = 0]
  by blast

section \<open>Clean-up\<close>

text \<open>
  Both clean-up loops look at the same cell in every iteration: the index is masked, never
  advanced, and the descriptor pointer stays put.
\<close>

lemma ring_index_masked: "unat (i :: u32) < 128 \<Longrightarrow> i AND 127 = i"
proof -
  assume i: "unat i < 128"
  have "(127 :: u32) = mask 7" by (simp add: mask_eq_exp_minus_1)
  then have "i AND 127 = take_bit 7 i" by (simp add: take_bit_eq_mask)
  moreover have "unat (take_bit 7 i) = unat i"
    using i by (simp only: unsigned_take_bit_eq) (simp add: take_bit_nat_eq_self)
  ultimately show ?thesis by (simp add: word_unat_eq_iff)
qed

lemma cleanup_rx_loop_none:
  assumes "rx_desc_count st = 128" "unat i < 128" "length (rx_skb_list st) = 128"
    "rx_skb_list st ! unat i = None" "rx_busy_desc st < length (rx_desc st)"
  shows "syn_dp_cleanup_rx_loop n i st = Inr (kcalls
     (replicate n (Dma_unmap_single (ds_buffer1 (rx_desc st ! rx_busy_desc st)) SYN_DP_MINI_JUMBO_FRAME_MTU DMA_FROM_DEVICE)) st)"
  using assms
proof (induction n arbitrary: st)
  case (Suc n)
  note i = ring_index_masked [OF Suc.prems(2)]
  from Suc show ?case by (simp add: aget_in i kcalls_def Let_def)
qed (simp add: kcalls_def)

text \<open>
  C18. Cleaning up a receive ring that holds \<open>n\<close> buffers frees only the oldest of them: it
  unmaps the oldest buffer's address \<open>n\<close> times and frees that one buffer; the other
  \<open>n - 1\<close> are neither unmapped nor freed.
\<close>

theorem syn_cleanup_frees_one:
  assumes "rx_inv st" "rx_entries st = e # es"
  shows "\<exists>st'. syn_dp_cleanup_rx_loop (unat (busy_rx_desc st)) (rx_busy st) st = Inr st'
    \<and> sk_trace st' = sk_trace st
        @ Dma_unmap_single (ds_buffer1 (snd e)) SYN_DP_MINI_JUMBO_FRAME_MTU DMA_FROM_DEVICE
        # Dev_kfree_skb (fst e)
        # replicate (length es) (Dma_unmap_single (ds_buffer1 (snd e)) SYN_DP_MINI_JUMBO_FRAME_MTU DMA_FROM_DEVICE)
    \<and> gone (sk_trace st') = add_mset (fst e) (gone (sk_trace st))"
proof -
  note wf = assms(1) [unfolded rx_inv_def]
  note f = ring_wf_facts [OF wf]
  have n: "unat (busy_rx_desc st) = Suc (length es)" using assms(2) entries_length(1) [of st] by simp
  have hd: "rx_skb_list st ! unat (rx_busy st) = Some (fst e)" "rx_desc st ! unat (rx_busy st) = snd e"
    using ring_entries_hd [OF wf] assms(2) n by (simp_all add: rx_entries_def)
  note i = ring_index_masked [OF f(4)]
  define c where "c = Dma_unmap_single (ds_buffer1 (snd e)) SYN_DP_MINI_JUMBO_FRAME_MTU DMA_FROM_DEVICE"
  define st1 where "st1 = (kcalls [c, Dev_kfree_skb (fst e)] st)\<lparr>rx_skb_list := (rx_skb_list st)[unat (rx_busy st) := None]\<rparr>"
  have "syn_dp_cleanup_rx_loop (unat (busy_rx_desc st)) (rx_busy st) st
      = syn_dp_cleanup_rx_loop (length es) (rx_busy st) st1"
    using f hd by (simp add: n i aget_in aset_in st1_def c_def kcalls_def Let_def)
  also have "\<dots> = Inr (kcalls (replicate (length es) c) st1)"
    using cleanup_rx_loop_none [of st1 "rx_busy st" "length es"] f hd
    by (simp add: st1_def kcalls_def c_def)
  finally show ?thesis
    by (simp add: st1_def kcalls_def c_def gone_def)
qed

text \<open>A ring of two buffers, as \<open>syn_dp_setup_rings\<close> leaves it with the kernel above.\<close>

lemma demo_two_buffers:
  "\<exists>(st :: syn_state) e es. rx_inv st \<and> rx_entries st = e # es \<and> length es = 1"
proof -
  define st0 where "st0 = fresh_port\<lparr>rx_desc := syn_dp_gmac_rx_desc_init_ring 128, rx_desc_count := 128\<rparr>"
  have inv: "rx_inv st0"
    using ring_wf_init init_ring_length init_ring_free by (simp add: st0_def fresh_port_def rx_inv_def)
  have e0: "length (rx_entries st0) = 0" by (simp add: st0_def fresh_port_def)
  have "length (rx_entries st0) + length [(0 :: u32, 1978 :: u32, Alloc 0), (0, 1978, Alloc 1)] \<le> 128"
    unfolding e0 by simp
  from rxq.push_all_ok [OF inv this] obtain st2 :: syn_state where "rx_inv st2" "length (rx_entries st2) = 2"
    unfolding e0 by auto
  then show ?thesis by (cases "rx_entries st2") auto
qed

theorem syn_cleanup_frees_one_witness:
  "\<exists>(st :: syn_state) e es. rx_inv st \<and> rx_entries st = e # es \<and> length es = 1
    \<and> (\<exists>st'. syn_dp_cleanup_rx_loop (unat (busy_rx_desc st)) (rx_busy st) st = Inr st'
    \<and> sk_trace st' = sk_trace st
        @ Dma_unmap_single (ds_buffer1 (snd e)) SYN_DP_MINI_JUMBO_FRAME_MTU DMA_FROM_DEVICE
        # Dev_kfree_skb (fst e)
        # replicate (length es) (Dma_unmap_single (ds_buffer1 (snd e)) SYN_DP_MINI_JUMBO_FRAME_MTU DMA_FROM_DEVICE)
    \<and> gone (sk_trace st') = add_mset (fst e) (gone (sk_trace st)))"
  using demo_two_buffers syn_cleanup_frees_one by blast

end
