(* ===== verification/Dp_Contract.thy ===== *)
theory Dp_Contract
  imports Dp_Attach
begin

text \<open>
  What the net device driver needs of a data plane and its MACs, as the locale \<open>data_plane\<close>: on a port it knows, every operation
  returns, and leaves alone what belongs to the driver. The behaviour of \<open>nss_dp_open\<close>, \<open>nss_dp_close\<close> and
  \<open>nss_dp_adjust_link\<close> is proved once from that contract.
  The locale \<open>data_plane_parts\<close> adds what a port may do to the state of the data plane, as a law of its single calls.
\<close>

section \<open>What belongs to the driver\<close>

definition port_view :: "'h nss_dp_dev \<Rightarrow> _" where
  "port_view p = (macid p, dpc p, data_plane_ops p, phydev p, link_poll p, link_state p, dp_flags p,
     drv_flags p AND NSS_DP_PRIV_FLAG_INIT_DONE, vsi p, gmac_hal_ops p)"

definition dev_view :: "net_device \<Rightarrow> bool \<times> bool \<times> eth_addr \<times> u32" where
  "dev_view d = (nd_carrier d, nd_queue d, nd_addr d, nd_mtu d)"

text \<open>The other net devices, the table of ports, the contexts and the MAC tables are as before.\<close>

definition others :: "nat \<Rightarrow> ('h, 's) dp_world \<Rightarrow> ('h, 's) dp_world \<Rightarrow> bool" where
  "others n w w' \<longleftrightarrow> (\<forall>m. m \<noteq> n \<longrightarrow> privs w' m = privs w m \<and> netdevs w' m = netdevs w m)
     \<and> nss_dp w' = nss_dp w \<and> dp_ctx w' = dp_ctx w \<and> gmac_ops w' = gmac_ops w \<and> nd_allocs w' = nd_allocs w"

lemma others_refl [simp]: "others n w w"
  by (simp add: others_def)

lemma others_trans: "others n w w1 \<Longrightarrow> others n w1 w2 \<Longrightarrow> others n w w2"
  by (simp add: others_def)

lemma others_own [simp]:
  "others n w (upd_dev n f v) = others n w v" "others n w (upd_priv n g v) = others n w v"
  "others n w (nkcalls cs v) = others n w v" "others n w (v\<lparr>dp := s\<rparr>) = others n w v"
  "others n w (v\<lparr>slowproto_acl_bm := b\<rparr>) = others n w v"
  by (auto simp: others_def)

definition keeps :: "nat \<Rightarrow> ('h, 's) dp_world \<Rightarrow> ('h, 's) dp_world \<Rightarrow> bool" where
  "keeps n w w' \<longleftrightarrow> map_option port_view (privs w' n) = map_option port_view (privs w n)
     \<and> map_option dev_view (netdevs w' n) = map_option dev_view (netdevs w n) \<and> others n w w'"

text \<open>A call returns, keeps the port, and keeps the condition \<open>I\<close> of the data plane.\<close>

definition runs ::
  "(nat \<Rightarrow> ('h, 's) dp_world \<Rightarrow> bool) \<Rightarrow> nat \<Rightarrow> ('h, 's) dp_world \<Rightarrow> ('r \<times> ('h, 's) dp_world) result \<Rightarrow> bool" where
  "runs I n w m \<longleftrightarrow> (\<exists>r w'. m = Inr (r, w') \<and> keeps n w w' \<and> I n w')"

lemma runsE:
  assumes "runs I n w m" "privs w n = Some p" "netdevs w n = Some d"
  obtains r w' p' d' where "m = Inr (r, w')" "I n w'" "privs w' n = Some p'" "netdevs w' n = Some d'"
    "port_view p' = port_view p" "dev_view d' = dev_view d"
  using assms by (auto simp: runs_def keeps_def)

lemma port_viewD:
  assumes "port_view p' = port_view p"
  shows "macid p' = macid p" "dpc p' = dpc p" "data_plane_ops p' = data_plane_ops p" "phydev p' = phydev p"
    "link_poll p' = link_poll p" "link_state p' = link_state p" "dp_flags p' = dp_flags p"
    "drv_flags p' AND 1 = drv_flags p AND 1" "vsi p' = vsi p"
  using assms by (simp_all add: port_view_def)

lemma dev_viewD:
  assumes "dev_view d' = dev_view d"
  shows "nd_carrier d' = nd_carrier d" "nd_queue d' = nd_queue d" "nd_addr d' = nd_addr d" "nd_mtu d' = nd_mtu d"
  using assms by (simp_all add: dev_view_def)

lemma keeps_refl [simp]: "keeps n w w"
  by (simp add: keeps_def)

text \<open>A port that runs on the data plane of the SoC: its context is an entry of the global array that points back to it.\<close>

definition port_linked :: "nat \<Rightarrow> ('h, 's) dp_world \<Rightarrow> 'h nss_dp_dev \<Rightarrow> bool" where
  "port_linked n w p \<longleftrightarrow> data_plane_ops p = Some Soc_ops
     \<and> (\<exists>i. dpc p = Some (Dpc_global i) \<and> i < length (dp_ctx w) \<and> dp_ctx w ! i = Some n)"

lemma keeps_trans: "keeps n w w1 \<Longrightarrow> keeps n w1 w2 \<Longrightarrow> keeps n w w2"
  by (auto simp: keeps_def intro: others_trans)

lemma keeps_own:
  "keeps n w (nkcalls cs w)" "keeps n w (w\<lparr>dp := s\<rparr>)"
  "(\<And>d. dev_view (f d) = dev_view d) \<Longrightarrow> keeps n w (upd_dev n f w)"
  "(\<And>p. port_view (g p) = port_view p) \<Longrightarrow> keeps n w (upd_priv n g w)"
  by (auto simp: keeps_def option.map_comp comp_def)

lemma dpc_dev_linked:
  assumes "dpc p = Some (Dpc_global i)" "i < length (dp_ctx w)" "dp_ctx w ! i = Some n"
  shows "dpc_dev ov (dpc p) w = Inr (Some n)"
  using assms by (simp add: dpc_dev_def run_simps)

text \<open>The frame of the calls on a port: the other ports as before, and the port on the same data plane and context.\<close>

definition wiring :: "'h nss_dp_dev \<Rightarrow> u32 \<times> dpc_ref option \<times> ops_ref option" where
  "wiring p = (macid p, dpc p, data_plane_ops p)"

definition frame :: "nat \<Rightarrow> ('h, 's) dp_world \<Rightarrow> ('h, 's) dp_world \<Rightarrow> bool" where
  "frame n w w' \<longleftrightarrow> others n w w' \<and> map_option wiring (privs w' n) = map_option wiring (privs w n)"

lemma frame_refl [simp]: "frame n w w"
  by (simp add: frame_def)

lemma keeps_frame: "keeps n w w' \<Longrightarrow> frame n w0 w \<Longrightarrow> frame n w0 w'"
  by (cases "privs w n"; cases "privs w' n") (auto simp: keeps_def frame_def wiring_def port_view_def intro: others_trans)

lemma runs_framed: "runs I n w m \<Longrightarrow> frame n w0 w \<Longrightarrow> runs (\<lambda>n w. I n w \<and> frame n w0 w) n w m"
  by (auto simp: runs_def intro: keeps_frame)

section \<open>States of a port\<close>

text \<open>
  After a close with a result: the queue and the carrier are off whatever happened; a close that succeeds leaves the
  port down.
\<close>

definition port_closed :: "status \<Rightarrow> 'h nss_dp_dev \<Rightarrow> net_device \<Rightarrow> bool" where
  "port_closed r p d \<longleftrightarrow> \<not> nd_carrier d \<and> \<not> nd_queue d
     \<and> (r = Success \<longrightarrow> \<not> bit (dp_flags p) 0 \<and> link_state p = NSS_DP_LINK_DOWN)"

text \<open>
  After an open with a result: an open that succeeds leaves the port up, initialised, with its queue started, and its
  carrier and link up unless the link is polled; one that fails leaves the carrier off, and, when it fails after the
  initialisation, the port marked as up.
\<close>

definition port_opened :: "status \<Rightarrow> 'h nss_dp_dev \<Rightarrow> net_device \<Rightarrow> bool" where
  "port_opened r p d \<longleftrightarrow>
     (r = Success \<longrightarrow> bit (dp_flags p) 0 \<and> drv_flags p AND 1 \<noteq> 0 \<and> nd_queue d
        \<and> nd_carrier d = (\<not> link_poll p) \<and> (link_state p = NSS_DP_LINK_UP) = (\<not> link_poll p))
     \<and> (r \<noteq> Success \<longrightarrow> \<not> nd_carrier d \<and> (r = Errno ENOMEM \<or> r = Errno EAGAIN \<and> bit (dp_flags p) 0))"

text \<open>The carrier and the recorded link state agree.\<close>

definition link_agrees :: "'h nss_dp_dev \<Rightarrow> net_device \<Rightarrow> bool" where
  "link_agrees p d \<longleftrightarrow> nd_carrier d = (link_state p = NSS_DP_LINK_UP)"

section \<open>The contract\<close>

locale data_plane =
  fixes e :: "('h, 's, 'k) dp_env"
    and I :: "nat \<Rightarrow> ('h, 's) dp_world \<Rightarrow> bool"
  assumes port: "I n w \<Longrightarrow> \<exists>p d. privs w n = Some p \<and> netdevs w n = Some d"
    and own_dev: "I n w \<Longrightarrow> I n (upd_dev n f w)"
    and own_calls: "I n w \<Longrightarrow> I n (nkcalls cs w)"
    and own_filter: "I n w \<Longrightarrow> I n (w\<lparr>slowproto_acl_bm := b\<rparr>)"
    and own_priv: "I n w \<Longrightarrow> (\<And>p. macid (g p) = macid p \<and> dpc (g p) = dpc p \<and> data_plane_ops (g p) = data_plane_ops p
          \<and> gmac_hal_ctx (g p) = gmac_hal_ctx p \<and> gmac_hal_ops (g p) = gmac_hal_ops p) \<Longrightarrow> I n (upd_priv n g w)"
    and init: "I n w \<Longrightarrow> privs w n = Some p \<Longrightarrow> runs I n w (call_op e p op_init (\<lambda>f. f (dpc p) w))"
    and set_features: "I n w \<Longrightarrow> privs w n = Some p \<Longrightarrow>
          runs I n w (bindR (call_op e p op_set_features (\<lambda>f. f (dpc p) w)) (\<lambda>w. Inr ((), w)))"
    and vsi_assign: "I n w \<Longrightarrow> privs w n = Some p \<Longrightarrow> de_ppe e \<Longrightarrow> runs I n w (call_op e p op_vsi_assign (\<lambda>f. f (dpc p) v w))"
    and vsi_unassign: "I n w \<Longrightarrow> privs w n = Some p \<Longrightarrow> de_ppe e \<Longrightarrow> runs I n w (call_op e p op_vsi_unassign (\<lambda>f. f (dpc p) v w))"
    and mac_addr: "I n w \<Longrightarrow> privs w n = Some p \<Longrightarrow> runs I n w (call_op e p op_mac_addr (\<lambda>f. f (dpc p) a w))"
    and change_mtu: "I n w \<Longrightarrow> privs w n = Some p \<Longrightarrow> runs I n w (call_op e p op_change_mtu (\<lambda>f. f (dpc p) m w))"
    and open_op: "I n w \<Longrightarrow> privs w n = Some p \<Longrightarrow> runs I n w (call_op e p op_open (\<lambda>f. f (dpc p) 0 0 0 w))"
    and close_op: "I n w \<Longrightarrow> privs w n = Some p \<Longrightarrow> runs I n w (call_op e p op_close (\<lambda>f. f (dpc p) w))"
    and link_op: "I n w \<Longrightarrow> privs w n = Some p \<Longrightarrow> runs I n w (call_op e p op_link_state (\<lambda>f. f (dpc p) s w))"
    and mac_set: "I n w \<Longrightarrow> privs w n = Some p \<Longrightarrow> runs I n w (call_hal e p (\<lambda>h.
          bindR (ho_setmacaddr h (gmac_hal_ctx p) a) (\<lambda>c. Inr (Success, upd_priv n (\<lambda>p. p\<lparr>gmac_hal_ctx := c\<rparr>) w))))"
    and mac_stats: "I n w \<Longrightarrow> privs w n = Some p \<Longrightarrow> runs I n w (call_hal e p (\<lambda>h.
          bindR (ho_getndostats h (stats_of e p w) (gmac_hal_ctx p) st) (\<lambda>(_, c, st).
          Inr (st, upd_priv n (\<lambda>p. p\<lparr>gmac_hal_ctx := c\<rparr>) w))))"
begin

text \<open>
  Sequences of calls: a predicate \<open>Q\<close> on what the driver sees of the port is carried through \<open>must\<close>, and a failed
  call ends the sequence with its code.
\<close>

definition port_is :: "nat \<Rightarrow> ('h, 's) dp_world \<Rightarrow> ('h nss_dp_dev \<Rightarrow> net_device \<Rightarrow> bool) \<Rightarrow> bool" where
  "port_is n w Q \<longleftrightarrow> I n w \<and> (\<exists>p d. privs w n = Some p \<and> netdevs w n = Some d \<and> Q p d)"

definition stable :: "('h nss_dp_dev \<Rightarrow> net_device \<Rightarrow> bool) \<Rightarrow> bool" where
  "stable Q \<longleftrightarrow> (\<forall>p p' d d'. port_view p' = port_view p \<longrightarrow> dev_view d' = dev_view d \<longrightarrow> Q p d \<longrightarrow> Q p' d')"

lemma port_isI: "I n w \<Longrightarrow> privs w n = Some p \<Longrightarrow> netdevs w n = Some d \<Longrightarrow> Q p d \<Longrightarrow> port_is n w Q"
  by (auto simp: port_is_def)

lemma port_is_runs:
  assumes "port_is n w Q" "stable Q" "runs I n w m"
  obtains r w' where "m = Inr (r, w')" "port_is n w' Q"
proof -
  obtain p d where p: "privs w n = Some p" "netdevs w n = Some d" "Q p d" using assms(1) by (auto simp: port_is_def)
  obtain r w' p' d' where r: "m = Inr (r, w')" "I n w'" "privs w' n = Some p'" "netdevs w' n = Some d'"
    "port_view p' = port_view p" "dev_view d' = dev_view d"
    by (rule runsE [OF assms(3) p(1,2)])
  then have "port_is n w' Q" using p(3) assms(2) unfolding stable_def by (intro port_isI [OF r(2-4)]) blast
  then show ?thesis using that r(1) by blast
qed

lemma must_run:
  assumes "port_is n w Q" "stable Q" "runs I n w m"
    "\<And>w'. port_is n w' Q \<Longrightarrow> \<exists>r w''. rest w' = Inr (r, w'') \<and> R r w''"
    "\<And>w'. port_is n w' Q \<Longrightarrow> R code w'"
  shows "\<exists>r w''. must m code rest = Inr (r, w'') \<and> R r w''"
proof -
  obtain r w' where "m = Inr (r, w')" "port_is n w' Q" using port_is_runs [OF assms(1-3)] by blast
  then show ?thesis using assms(4,5) by (cases "failed r") (simp_all add: must_def)
qed

lemma must_runs:
  assumes "port_is n w Q" "stable Q" "\<And>p. privs w n = Some p \<Longrightarrow> runs I n w (m p)"
    "\<And>w'. port_is n w' Q \<Longrightarrow> \<exists>r w''. rest w' = Inr (r, w'') \<and> R r w''"
    "\<And>w'. port_is n w' Q \<Longrightarrow> R code w'"
  shows "\<exists>r w''. must (with_priv w n m) code rest = Inr (r, w'') \<and> R r w''"
proof -
  obtain p where p: "privs w n = Some p" using assms(1) by (auto simp: port_is_def)
  show ?thesis unfolding with_simps(3) [OF p] by (rule must_run [OF assms(1,2) assms(3) [OF p] assms(4,5)])
qed

lemma must_ppe_runs:
  assumes "port_is n w Q" "stable Q" "\<And>p. de_ppe e \<Longrightarrow> privs w n = Some p \<Longrightarrow> runs I n w (m p)"
    "\<And>w'. port_is n w' Q \<Longrightarrow> \<exists>r w''. rest w' = Inr (r, w'') \<and> R r w''"
    "\<And>w'. port_is n w' Q \<Longrightarrow> R code w'"
  shows "\<exists>r w''. must (if de_ppe e then with_priv w n m else Inr (Success, w)) code rest = Inr (r, w'') \<and> R r w''"
proof (cases "de_ppe e")
  case True
  then show ?thesis using must_runs [of n w Q m rest R code] assms by simp
next
  case False
  then show ?thesis using assms(1,4) by (simp add: must_def)
qed

lemma port_is_own:
  assumes "port_is n w Q"
  shows "(\<And>p d. Q p d \<Longrightarrow> Q' p (f d)) \<Longrightarrow> port_is n (upd_dev n f w) Q'"
    and "(\<And>p d. Q p d \<Longrightarrow> Q' (g p) d) \<Longrightarrow> (\<And>p. macid (g p) = macid p \<and> dpc (g p) = dpc p \<and> data_plane_ops (g p) = data_plane_ops p
          \<and> gmac_hal_ctx (g p) = gmac_hal_ctx p \<and> gmac_hal_ops (g p) = gmac_hal_ops p) \<Longrightarrow> port_is n (upd_priv n g w) Q'"
    and "port_is n (nkcalls cs w) Q" "port_is n (w\<lparr>slowproto_acl_bm := b\<rparr>) Q"
  using assms own_dev own_priv own_calls own_filter by (auto simp: port_is_def)

lemma port_is_weaken: "port_is n w Q \<Longrightarrow> (\<And>p d. Q p d \<Longrightarrow> Q' p d) \<Longrightarrow> port_is n w Q'"
  by (auto simp: port_is_def)

text \<open>Closing and opening.\<close>

abbreviation (input) is_quiet :: "'h nss_dp_dev \<Rightarrow> net_device \<Rightarrow> bool" where
  "is_quiet p d \<equiv> \<not> nd_carrier d \<and> \<not> nd_queue d"

abbreviation (input) is_down :: "'h nss_dp_dev \<Rightarrow> net_device \<Rightarrow> bool" where
  "is_down p d \<equiv> \<not> nd_carrier d \<and> \<not> nd_queue d \<and> link_state p = NSS_DP_LINK_DOWN"

lemma down_stable: "stable is_quiet" "stable is_down"
  unfolding stable_def by (auto dest: port_viewD dev_viewD)

lemma close_fails: "port_is n w is_quiet \<Longrightarrow> port_is n w (port_closed (Errno EAGAIN))"
  by (erule port_is_weaken) (simp add: port_closed_def)

lemma close_last_runs:
  assumes w: "port_is n w is_down"
  shows "\<exists>r w'. must (with_priv w n (\<lambda>p. call_op e p op_close (\<lambda>g. g (dpc p) w))) (Errno EAGAIN)
      (\<lambda>w. Inr (Success, upd_priv n (\<lambda>p. p\<lparr>dp_flags := unset_bit 0 (dp_flags p)\<rparr>) w)) = Inr (r, w') \<and> port_is n w' (port_closed r)"
proof (rule must_runs [OF w down_stable(2)], goal_cases)
  case (1 p) then show ?case using close_op w by (simp add: port_is_def)
next
  case (2 v) then show ?case by (auto simp: port_closed_def bit_unset_bit_iff intro!: port_is_own(2) [of _ _ is_down])
next
  case (3 v) then show ?case by (rule close_fails [OF port_is_weaken]) simp
qed

lemma close_tail_runs:
  assumes w: "port_is n w is_down"
  shows "\<exists>r w'. must (if de_ppe e then with_priv w n (\<lambda>p. call_op e p op_vsi_unassign (\<lambda>g. g (dpc p) (vsi p) w)) else Inr (Success, w))
      (Errno EAGAIN) (\<lambda>w. must (with_priv w n (\<lambda>p. call_op e p op_close (\<lambda>g. g (dpc p) w))) (Errno EAGAIN)
      (\<lambda>w. Inr (Success, upd_priv n (\<lambda>p. p\<lparr>dp_flags := unset_bit 0 (dp_flags p)\<rparr>) w))) = Inr (r, w') \<and> port_is n w' (port_closed r)"
proof (rule must_ppe_runs [OF w down_stable(2)], goal_cases)
  case (1 p) then show ?case using vsi_unassign w by (simp add: port_is_def)
next
  case (2 v) then show ?case by (rule close_last_runs)
next
  case (3 v) then show ?case by (rule close_fails [OF port_is_weaken]) simp
qed

lemma close_runs:
  assumes "I n w"
  shows "\<exists>r w'. nss_dp_close e n w = Inr (r, w') \<and> port_is n w' (port_closed r)"
proof -
  obtain p d where p: "privs w n = Some p" "netdevs w n = Some d" using port [OF assms] by blast
  define w1 where "w1 = upd_dev n (\<lambda>d. d\<lparr>nd_queue := False, nd_carrier := False\<rparr>) w"
  have w1: "port_is n w1 is_quiet" using own_dev [OF assms] p by (auto simp: w1_def port_is_def)
  show ?thesis
    unfolding nss_dp_close_def p(1) option.case Let_def w1_def [symmetric]
  proof (rule must_runs [OF w1 down_stable(1)], goal_cases)
    case (1 p) show ?case using link_op w1 1 by (simp add: port_is_def)
  next
    case (2 w2)
    then obtain p2 where p2: "privs w2 n = Some p2" by (auto simp: port_is_def)
    define w3 where "w3 = upd_priv n (\<lambda>p. p\<lparr>link_state := NSS_DP_LINK_DOWN\<rparr>)
        (if phydev p2 \<noteq> None then nkcalls [Nk_phy_stop n] w2 else w2)"
    have "port_is n w3 is_down"
      unfolding w3_def by (rule port_is_own(2) [of _ _ is_quiet]) (use 2 port_is_own(3) [OF 2] in auto)
    from close_tail_runs [OF this] show ?case unfolding with_simps(3) [OF p2] w3_def .
  next
    case (3 w2) then show ?case by (rule close_fails)
  qed
qed

abbreviation (input) is_off :: "'h nss_dp_dev \<Rightarrow> net_device \<Rightarrow> bool" where
  "is_off p d \<equiv> \<not> nd_carrier d"

abbreviation (input) is_ready :: "'h nss_dp_dev \<Rightarrow> net_device \<Rightarrow> bool" where
  "is_ready p d \<equiv> \<not> nd_carrier d \<and> drv_flags p AND 1 \<noteq> 0"

abbreviation (input) is_up :: "'h nss_dp_dev \<Rightarrow> net_device \<Rightarrow> bool" where
  "is_up p d \<equiv> \<not> nd_carrier d \<and> drv_flags p AND 1 \<noteq> 0 \<and> bit (dp_flags p) 0"

abbreviation (input) is_started :: "'h nss_dp_dev \<Rightarrow> net_device \<Rightarrow> bool" where
  "is_started p d \<equiv> \<not> nd_carrier d \<and> drv_flags p AND 1 \<noteq> 0 \<and> bit (dp_flags p) 0 \<and> nd_queue d"

lemma views_stable: "stable is_off" "stable is_ready" "stable is_up" "stable is_started"
  unfolding stable_def by (auto dest: port_viewD dev_viewD)

lemma init_once_runs:
  assumes w: "port_is n w is_off"
  shows "\<exists>r w'. dp_init_once e n w = Inr (r, w') \<and> (if failed r then r = Errno ENOMEM \<and> port_is n w' is_off else port_is n w' is_ready)"
proof -
  obtain p d where p: "I n w" "privs w n = Some p" "netdevs w n = Some d" "\<not> nd_carrier d" using w by (auto simp: port_is_def)
  show ?thesis
  proof (cases "drv_flags p AND 1 = 0")
    case False
    then show ?thesis using p by (auto simp: dp_init_once_def run_simps intro: port_isI)
  next
    case True
    have "\<exists>r w'. must (call_op e p op_init (\<lambda>g. g (dpc p) w)) (Errno ENOMEM)
        (\<lambda>w. Inr (Success, upd_priv n (\<lambda>p. p\<lparr>drv_flags := drv_flags p OR 1\<rparr>) w)) = Inr (r, w')
        \<and> (if failed r then r = Errno ENOMEM \<and> port_is n w' is_off else port_is n w' is_ready)"
    proof (rule must_run [OF w views_stable(1) init [OF p(1,2)]], goal_cases)
      case (1 w')
      have "(x OR 1) AND 1 \<noteq> (0 :: u64)" for x using or_and_self [of 1 x] by (simp add: or.commute)
      then show ?case by (auto intro!: port_is_own(2) [OF 1])
    next
      case (2 w') then show ?case by simp
    qed
    then show ?thesis using p True by (simp add: dp_init_once_def run_simps)
  qed
qed

lemma bring_up_runs:
  assumes w: "port_is n w is_ready"
  shows "\<exists>r w'. dp_bring_up e n w = Inr (r, w') \<and> (r = Success \<or> r = Errno EAGAIN) \<and> port_is n w' is_up"
proof -
  obtain p where p: "I n w" "privs w n = Some p" using w by (auto simp: port_is_def)
  obtain w1 where c: "call_op e p op_set_features (\<lambda>g. g (dpc p) w) = Inr w1" and w1: "port_is n w1 is_ready"
    using port_is_runs [OF w views_stable(2) set_features [OF p]] by (auto simp: bindR_eq_Inr)
  define w2 where "w2 = upd_priv n (\<lambda>p. p\<lparr>dp_flags := set_bit 0 (dp_flags p)\<rparr>) w1"
  have w2: "port_is n w2 is_up" unfolding w2_def by (rule port_is_own(2) [OF w1]) (auto simp: bit_set_bit_iff)
  have dev: "runs I n v (with_dev v n (\<lambda>d. call_op e p op_mac_addr (\<lambda>g. g (dpc p) (nd_addr d) v)))"
      "runs I n v (with_dev v n (\<lambda>d. call_op e p op_change_mtu (\<lambda>g. g (dpc p) (nd_mtu d) v)))"
    if "port_is n v is_up" "privs v n = Some p" for v p
    using that mac_addr change_mtu by (auto simp: port_is_def run_simps)
  have up: "I n v" if "port_is n v is_up" for v using that by (simp add: port_is_def)
  let ?R = "\<lambda>r w'. (r = Success \<or> r = Errno EAGAIN) \<and> port_is n w' is_up"
  have "\<exists>r w'. must (if de_ppe e then with_priv w2 n (\<lambda>p. call_op e p op_vsi_assign (\<lambda>g. g (dpc p) (vsi p) w2)) else Inr (Success, w2)) (Errno EAGAIN) (\<lambda>w.
        must (with_priv w n (\<lambda>p. with_dev w n (\<lambda>d. call_op e p op_mac_addr (\<lambda>g. g (dpc p) (nd_addr d) w)))) (Errno EAGAIN) (\<lambda>w.
        must (with_priv w n (\<lambda>p. with_dev w n (\<lambda>d. call_op e p op_change_mtu (\<lambda>g. g (dpc p) (nd_mtu d) w)))) (Errno EAGAIN) (\<lambda>w.
        must (with_priv w n (\<lambda>p. call_op e p op_open (\<lambda>g. g (dpc p) 0 0 0 w))) (Errno EAGAIN) (\<lambda>w.
        Inr (Success, w))))) = Inr (r, w') \<and> ?R r w'"
    by (rule must_ppe_runs [OF w2 views_stable(3)], (rule vsi_assign [OF up [OF w2]]; assumption),
        (rule must_runs [OF _ views_stable(3)], assumption, (rule dev(1); assumption))+,
        (rule must_runs [OF _ views_stable(3)], assumption, (rule dev(2); assumption)),
        (rule must_runs [OF _ views_stable(3)], assumption, (rule open_op [OF up]; assumption))) simp_all
  then show ?thesis unfolding dp_bring_up_def with_simps(3) [OF p(2)] c bindR_Inr Let_def w2_def .
qed

lemma link_up_runs:
  assumes w: "port_is n w is_up"
  shows "\<exists>r w'. dp_link_up e n w = Inr (r, w') \<and> port_is n w' (port_opened r)"
proof -
  define w1 where "w1 = upd_dev n (\<lambda>d. d\<lparr>nd_queue := True\<rparr>) w"
  have w1: "port_is n w1 is_started" unfolding w1_def by (rule port_is_own(1) [OF w]) auto
  obtain p where p: "I n w1" "privs w1 n = Some p" using w1 by (auto simp: port_is_def)
  let ?poll = "\<lambda>b (p :: 'h nss_dp_dev) d. is_started p d \<and> link_poll p = b"
  have st: "stable (?poll b)" for b unfolding stable_def by (auto dest: port_viewD dev_viewD)
  have w1': "port_is n w1 (?poll (link_poll p))" using w1 p by (auto simp: port_is_def)
  show ?thesis
  proof (cases "link_poll p")
    case False
    have "\<exists>r w'. must (call_op e p op_link_state (\<lambda>g. g (dpc p) 1 w1)) (Errno EAGAIN) (\<lambda>w. let w = upd_priv n (\<lambda>p. p\<lparr>link_state := NSS_DP_LINK_UP\<rparr>) w
           in Inr (Success, upd_dev n (\<lambda>d. d\<lparr>nd_carrier := True\<rparr>) w)) = Inr (r, w') \<and> port_is n w' (port_opened r)"
    proof (rule must_run [OF w1' st link_op [OF p]], goal_cases)
      case (1 w')
      have "port_is n (upd_priv n (\<lambda>p. p\<lparr>link_state := NSS_DP_LINK_UP\<rparr>) w') (\<lambda>p d. ?poll False p d \<and> link_state p = NSS_DP_LINK_UP)"
        by (rule port_is_own(2) [OF 1]) (auto simp: False)
      then show ?case by (auto simp: port_opened_def intro: port_is_own(1))
    next
      case (2 w') then show ?case by (rule port_is_weaken) (simp add: port_opened_def)
    qed
    then show ?thesis using p False by (simp add: dp_link_up_def w1_def [symmetric] run_simps)
  next
    case True
    have x: "port_is n (upd_priv n (\<lambda>p. p\<lparr>link_state := NSS_DP_LINK_DOWN\<rparr>) w1) (\<lambda>p d. ?poll True p d \<and> link_state p = NSS_DP_LINK_DOWN)"
      by (rule port_is_own(2) [OF w1']) (auto simp: True)
    have "port_is n (nkcalls [Nk_phy_start n, Nk_phy_start_aneg n] (upd_priv n (\<lambda>p. p\<lparr>link_state := NSS_DP_LINK_DOWN\<rparr>) w1)) (port_opened Success)"
      by (rule port_is_weaken [OF port_is_own(3) [OF x]]) (auto simp: port_opened_def)
    then show ?thesis using p True by (simp add: dp_link_up_def w1_def [symmetric] run_simps)
  qed
qed

lemma open_runs:
  assumes "I n w"
  shows "\<exists>r w'. nss_dp_open e n w = Inr (r, w') \<and> port_is n w' (port_opened r)"
proof -
  obtain p d where p: "privs w n = Some p" "netdevs w n = Some d" using port [OF assms] by blast
  define w1 where "w1 = upd_dev n (\<lambda>d. d\<lparr>nd_carrier := False\<rparr>) w"
  have w1: "port_is n w1 is_off" using own_dev [OF assms] p by (auto simp: w1_def port_is_def)
  obtain r2 w2 where 2: "dp_init_once e n w1 = Inr (r2, w2)"
    "if failed r2 then r2 = Errno ENOMEM \<and> port_is n w2 is_off else port_is n w2 is_ready"
    using init_once_runs [OF w1] by blast
  show ?thesis
  proof (cases "failed r2")
    case True
    then show ?thesis using 2 p
      by (auto simp: nss_dp_open_def w1_def [symmetric] port_opened_def intro: port_is_weaken)
  next
    case False
    then obtain r3 w3 where 3: "dp_bring_up e n w2 = Inr (r3, w3)" "r3 = Success \<or> r3 = Errno EAGAIN" "port_is n w3 is_up"
      using bring_up_runs [of n w2] 2(2) by auto
    show ?thesis
    proof (cases "r3 = Success")
      case True
      then show ?thesis using 2(1) 3 False p link_up_runs [OF 3(3)] by (simp add: nss_dp_open_def w1_def [symmetric])
    next
      case r3: False
      then show ?thesis using 2(1) 3 False p
        by (auto simp: nss_dp_open_def w1_def [symmetric] port_opened_def intro: port_is_weaken)
    qed
  qed
qed

text \<open>
  The link callback: on a port with a PHY, it returns, and the carrier and the recorded link state still agree; when
  the data plane accepts the change, they agree with the PHY.
\<close>

lemma link_set_agrees:
  assumes "port_is n w Q"
  shows "port_is n (upd_dev n (\<lambda>d. d\<lparr>nd_carrier := (s = NSS_DP_LINK_UP)\<rparr>) (upd_priv n (\<lambda>p. p\<lparr>link_state := s\<rparr>) w))
    (\<lambda>p d. link_agrees p d \<and> link_state p = s)"
proof -
  have "port_is n (upd_priv n (\<lambda>p. p\<lparr>link_state := s\<rparr>) w) (\<lambda>p d. link_state p = s)" by (rule port_is_own(2) [OF assms]) auto
  then show ?thesis by (rule port_is_own(1)) (auto simp: link_agrees_def)
qed

lemma adjust_runs:
  assumes w: "port_is n w link_agrees" and p: "privs w n = Some p" "phydev p = Some y" "bit (dp_flags p) 0"
  shows "\<exists>w'. nss_dp_adjust_link e n w = Inr w' \<and> port_is n w' link_agrees
    \<and> ((\<forall>s v v'. call_op e p op_link_state (\<lambda>g. g (dpc p) s v) = Inr v' \<longrightarrow> \<not> failed (fst v')) \<longrightarrow>
        (\<exists>p'. privs w' n = Some p' \<and> (link_state p' = NSS_DP_LINK_UP) = phy_link y))"
proof (cases "phy_link y = (link_state p = NSS_DP_LINK_UP)")
  case True
  then show ?thesis using w p by (auto simp: nss_dp_adjust_link_def run_simps intro: nss_dp_link_state.exhaust)
next
  case False
  have st: "stable link_agrees" unfolding stable_def link_agrees_def by (auto dest: port_viewD dev_viewD)
  have i: "I n w" using w by (simp add: port_is_def)
  define t where "t = (if link_state p = NSS_DP_LINK_DOWN then NSS_DP_LINK_UP else NSS_DP_LINK_DOWN)"
  obtain r w' where r: "call_op e p op_link_state (\<lambda>g. g (dpc p) (if t = NSS_DP_LINK_UP then 1 else 0) w) = Inr (r, w')"
    "port_is n w' link_agrees"
    using port_is_runs [OF w st link_op [OF i p(1)]] by blast
  let ?w = "upd_dev n (\<lambda>d. d\<lparr>nd_carrier := (t = NSS_DP_LINK_UP)\<rparr>) (upd_priv n (\<lambda>p. p\<lparr>link_state := t\<rparr>) w')"
  have eq: "nss_dp_adjust_link e n w = Inr (if failed r then w' else ?w)"
    using False p r(1) by (cases "link_state p") (auto simp: nss_dp_adjust_link_def run_simps t_def)
  have new: "port_is n ?w (\<lambda>p d. link_agrees p d \<and> link_state p = t)" by (rule link_set_agrees [OF r(2)])
  have agree: "(t = NSS_DP_LINK_UP) = phy_link y" using False by (cases "link_state p") (auto simp: t_def)
  show ?thesis
  proof (cases "failed r")
    case True
    then show ?thesis using eq r by (intro exI [of _ w']) fastforce
  next
    case False
    moreover have "port_is n ?w link_agrees" by (rule port_is_weaken [OF new]) simp
    ultimately show ?thesis using eq new agree by (intro exI [of _ ?w]) (auto simp: port_is_def)
  qed
qed

text \<open>What a caller sees.\<close>

lemma open_spec:
  assumes "I n w"
  shows "\<exists>r w' p d. nss_dp_open e n w = Inr (r, w') \<and> I n w' \<and> privs w' n = Some p \<and> netdevs w' n = Some d \<and> port_opened r p d"
  using open_runs [OF assms] by (auto simp: port_is_def)

lemma close_spec:
  assumes "I n w"
  shows "\<exists>r w' p d. nss_dp_close e n w = Inr (r, w') \<and> I n w' \<and> privs w' n = Some p \<and> netdevs w' n = Some d \<and> port_closed r p d"
  using close_runs [OF assms] by (auto simp: port_is_def)

lemma adjust_spec:
  assumes "I n w" "privs w n = Some p" "netdevs w n = Some d" "link_agrees p d" "phydev p = Some y" "bit (dp_flags p) 0"
    "\<And>s v v'. call_op e p op_link_state (\<lambda>g. g (dpc p) s v) = Inr v' \<Longrightarrow> \<not> failed (fst v')"
  shows "\<exists>w' p' d'. nss_dp_adjust_link e n w = Inr w' \<and> I n w' \<and> privs w' n = Some p' \<and> netdevs w' n = Some d'
    \<and> link_agrees p' d' \<and> nd_carrier d' = phy_link y"
  using adjust_runs [OF port_isI [of n w p d link_agrees], of p y] assms by (fastforce simp: port_is_def link_agrees_def)

text \<open>
  A data plane that meets the contract meets it with the frame added to its condition: everything proved above comes
  with the other ports unchanged.
\<close>

lemma framed: "data_plane e (\<lambda>n w. I n w \<and> frame n w0 w)"
proof (unfold_locales, goal_cases)
  case (1 n w) then show ?case using port by simp
next
  case (2 n w f) then show ?case using own_dev by (simp add: frame_def)
next
  case (3 n w cs) then show ?case using own_calls by (simp add: frame_def)
next
  case (4 n w b) then show ?case using own_filter by (simp add: frame_def)
next
  case (5 n w g)
  then have "wiring (g p) = wiring p" for p by (simp add: wiring_def)
  then show ?case using 5 own_priv by (simp add: frame_def option.map_comp comp_def)
qed (use init set_features vsi_assign vsi_unassign mac_addr change_mtu open_op close_op link_op mac_set mac_stats in \<open>auto intro!: runs_framed\<close>)

end

section \<open>What a port does to the data plane\<close>

text \<open>The calls a port makes, with its own context, on its data plane and its MAC.\<close>

definition state_of :: "('r \<times> ('h, 's) dp_world) result \<Rightarrow> ('h, 's) dp_world result" where
  "state_of m = bindR m (\<lambda>(_, w). Inr w)"

lemma state_of_Inr [simp]: "state_of (Inr (r, w)) = Inr w"
  by (simp add: state_of_def)

lemma state_of_eq: "Inr w = state_of m \<longleftrightarrow> (\<exists>r. m = Inr (r, w))"
  by (cases m) (auto simp: state_of_def)

inductive calls_of :: "('h, 's, 'k) dp_env \<Rightarrow> 'h nss_dp_dev \<Rightarrow> nat \<Rightarrow> ('h, 's) dp_world \<Rightarrow> ('h, 's) dp_world result \<Rightarrow> bool"
  for e :: "('h, 's, 'k) dp_env" and p :: "'h nss_dp_dev" and n :: nat and w :: "('h, 's) dp_world" where
  call_init: "calls_of e p n w (state_of (call_op e p op_init (\<lambda>f. f (dpc p) w)))"
| call_set_features: "calls_of e p n w (call_op e p op_set_features (\<lambda>f. f (dpc p) w))"
| call_vsi_assign: "de_ppe e \<Longrightarrow> calls_of e p n w (state_of (call_op e p op_vsi_assign (\<lambda>f. f (dpc p) v w)))"
| call_vsi_unassign: "de_ppe e \<Longrightarrow> calls_of e p n w (state_of (call_op e p op_vsi_unassign (\<lambda>f. f (dpc p) v w)))"
| call_mac_addr: "calls_of e p n w (state_of (call_op e p op_mac_addr (\<lambda>f. f (dpc p) a w)))"
| call_change_mtu: "calls_of e p n w (state_of (call_op e p op_change_mtu (\<lambda>f. f (dpc p) m w)))"
| call_open: "calls_of e p n w (state_of (call_op e p op_open (\<lambda>f. f (dpc p) 0 0 0 w)))"
| call_close: "calls_of e p n w (state_of (call_op e p op_close (\<lambda>f. f (dpc p) w)))"
| call_link: "calls_of e p n w (state_of (call_op e p op_link_state (\<lambda>f. f (dpc p) s w)))"
| call_mac_set: "calls_of e p n w (state_of (call_hal e p (\<lambda>h. bindR (ho_setmacaddr h (gmac_hal_ctx p) a) (\<lambda>c.
      Inr (Success, upd_priv n (\<lambda>p. p\<lparr>gmac_hal_ctx := c\<rparr>) w)))))"
| call_mac_stats: "calls_of e p n w (state_of (call_hal e p (\<lambda>h. bindR (ho_getndostats h (stats_of e p w) (gmac_hal_ctx p) st) (\<lambda>(_, c, st).
      Inr (st, upd_priv n (\<lambda>p. p\<lparr>gmac_hal_ctx := c\<rparr>) w)))))"

lemma runs_also:
  assumes "runs I n w m" "\<And>r w'. m = Inr (r, w') \<Longrightarrow> keeps n w w' \<Longrightarrow> J n w'"
  shows "runs (\<lambda>n w. I n w \<and> J n w) n w m"
  using assms by (auto simp: runs_def)

text \<open>
  A data plane whose state has parts: \<open>R m\<close> is what a call of the port of number \<open>m\<close> may do to the state of the whole
  data plane. Whatever the driver does on a port is then no more than that.
\<close>

locale data_plane_parts = data_plane e I
  for e :: "('h, 's, 'k) dp_env" and I :: "nat \<Rightarrow> ('h, 's) dp_world \<Rightarrow> bool" +
  fixes R :: "u32 \<Rightarrow> 's \<Rightarrow> 's \<Rightarrow> bool"
  assumes part_refl: "R m s s"
    and part_trans: "R m s s1 \<Longrightarrow> R m s1 s2 \<Longrightarrow> R m s s2"
    and part_calls: "I n w \<Longrightarrow> privs w n = Some p \<Longrightarrow> calls_of e p n w (Inr w') \<Longrightarrow> R (macid p) (dp w) (dp w')"
begin

abbreviation (input) within :: "u32 \<Rightarrow> 's \<Rightarrow> nat \<Rightarrow> ('h, 's) dp_world \<Rightarrow> bool" where
  "within m s n w \<equiv> map_option macid (privs w n) = Some m \<and> R m s (dp w)"

lemma runs_within:
  assumes "I n w \<and> within m s n w" "privs w n = Some p" "runs I n w c" "calls_of e p n w (state_of c)"
  shows "runs (\<lambda>n w. I n w \<and> within m s n w) n w c"
proof (rule runs_also [OF assms(3)])
  fix r w' assume c: "c = Inr (r, w')" and k: "keeps n w w'"
  have "R (macid p) (dp w) (dp w')" using part_calls [OF _ assms(2)] assms(1,4) c by simp
  then show "within m s n w'"
    using assms(1,2) k part_trans by (cases "privs w' n") (auto simp: keeps_def port_view_def)
qed

lemma state_of_features: "state_of (bindR m (\<lambda>w. Inr ((), w))) = m"
  by (cases m) (simp_all add: state_of_def)

lemma parts_framed: "data_plane e (\<lambda>n w. I n w \<and> within m s n w)"
proof (unfold_locales, goal_cases)
  case (1 n w) then show ?case using port by simp
next
  case (2 n w f) then show ?case using own_dev by simp
next
  case (3 n w cs) then show ?case using own_calls by simp
next
  case (4 n w b) then show ?case using own_filter by simp
next
  case (5 n w g) then show ?case using own_priv by (simp add: option.map_comp comp_def)
next
  case (7 n w p)
  show ?case
  proof (rule runs_within [OF 7 set_features])
    show "calls_of e p n w (state_of (bindR (call_op e p op_set_features (\<lambda>f. f (dpc p) w)) (\<lambda>w. Inr ((), w))))"
      unfolding state_of_features by (rule call_set_features)
  qed (use 7 in simp_all)
qed ((rule runs_within, assumption, assumption,
     (rule init vsi_assign vsi_unassign mac_addr change_mtu open_op close_op link_op mac_set mac_stats; simp), (rule calls_of.intros; simp))+)

end

end
