(* ===== verification/Dp_Life.thy ===== *)
theory Dp_Life
  imports Dp_Contract
begin

text \<open>
  The life of a port on a data plane that meets the contract: what the kernel asks of it, one call after the other, in
  any order. Each call returns, keeps the port sane and leaves the other ports alone, and what it does to the data plane is within the
  part of the port.
\<close>

section \<open>What the kernel asks of a port\<close>

text \<open>
  What the kernel asks of a port: to open and close it, to change its MTU or its address, its statistics, its flow
  control, and its bridge attributes (with the answers \<open>f\<close> of the switch driver). A link change comes from the PHY
  layer, which records the link and then calls \<open>nss_dp_adjust_link\<close>; a port without a PHY never sees one. The kernel
  goes on whatever a call returns.
\<close>

datatype port_event = Ev_open | Ev_close | Ev_link bool | Ev_mtu u32 | Ev_mac sockaddr | Ev_stats rtnl_link_stats64
  | Ev_pause ethtool_pauseparam | Ev_attr fal_answers switchdev_attr bool

definition phy_reports :: "nat \<Rightarrow> bool \<Rightarrow> ('h, 's) dp_world \<Rightarrow> ('h, 's) dp_world" where
  "phy_reports n b w = upd_priv n (\<lambda>p. p\<lparr>phydev := map_option (\<lambda>y. y\<lparr>phy_link := b\<rparr>) (phydev p)\<rparr>) w"

fun port_step :: "('h, 's, 'k) dp_env \<Rightarrow> nat \<Rightarrow> port_event \<Rightarrow> ('h, 's) dp_world \<Rightarrow> ('h, 's) dp_world result" where
  "port_step e n Ev_open w = bindR (nss_dp_open e n w) (\<lambda>(_, w). Inr w)"
| "port_step e n Ev_close w = bindR (nss_dp_close e n w) (\<lambda>(_, w). Inr w)"
| "port_step e n (Ev_link b) w = with_priv w n (\<lambda>p.
     if phydev p = None then Inr w else nss_dp_adjust_link e n (phy_reports n b w))"
| "port_step e n (Ev_mtu m) w = bindR (nss_dp_change_mtu e (Some n) m w) (\<lambda>(_, w). Inr w)"
| "port_step e n (Ev_mac sa) w = bindR (nss_dp_set_mac_address e (Some n) sa w) (\<lambda>(_, w). Inr w)"
| "port_step e n (Ev_stats st) w = bindR (nss_dp_get_stats64 e (Some n) st w) (\<lambda>(_, w). Inr w)"
| "port_step e n (Ev_pause pp) w = bindR (nss_dp_set_pauseparam n pp w) (\<lambda>(_, w). Inr w)"
| "port_step e n (Ev_attr f a prepare) w = bindR (nss_dp_port_attr_set f n a prepare w) (\<lambda>(_, w). Inr w)"

text \<open>A carrier is only on while the port is up and its link is recorded as up.\<close>

definition carrier_sane :: "'h nss_dp_dev \<Rightarrow> net_device \<Rightarrow> bool" where
  "carrier_sane p d \<longleftrightarrow> (nd_carrier d \<longrightarrow> link_state p = NSS_DP_LINK_UP \<and> bit (dp_flags p) 0)"

text \<open>A port nobody has opened yet: the kernel gives a new net device with its carrier on.\<close>

definition unopened :: "'h nss_dp_dev \<Rightarrow> bool" where
  "unopened p \<longleftrightarrow> drv_flags p AND 1 = 0 \<and> \<not> bit (dp_flags p) 0"

definition port_sane :: "'h nss_dp_dev \<Rightarrow> net_device \<Rightarrow> bool" where
  "port_sane p d \<longleftrightarrow> carrier_sane p d \<or> unopened p"

text \<open>The events that leave the state of the link and of the port alone.\<close>

fun calm :: "port_event \<Rightarrow> bool" where
  "calm Ev_open = False" | "calm Ev_close = False" | "calm (Ev_link b) = False" | "calm (Ev_mtu m) = True" | "calm (Ev_mac sa) = True"
| "calm (Ev_stats st) = True" | "calm (Ev_pause pp) = True" | "calm (Ev_attr f a b) = True"

definition link_view :: "'h nss_dp_dev \<Rightarrow> net_device \<Rightarrow> _" where
  "link_view p d = (link_state p, dp_flags p, drv_flags p AND 1, nd_carrier d)"

definition lasting :: "('h nss_dp_dev \<Rightarrow> net_device \<Rightarrow> bool) \<Rightarrow> bool" where
  "lasting Q \<longleftrightarrow> (\<forall>p p' d d'. link_view p' d' = link_view p d \<longrightarrow> Q p d \<longrightarrow> Q p' d')"

lemma lastingD: "lasting Q \<Longrightarrow> Q p d \<Longrightarrow> link_view p' d' = link_view p d \<Longrightarrow> Q p' d'"
  unfolding lasting_def by blast

lemma sane_lasting: "lasting carrier_sane" "lasting (\<lambda>p d. unopened p)"
  by (auto simp: lasting_def link_view_def carrier_sane_def unopened_def)

context data_plane
begin

lemma lasting_stable: "lasting Q \<Longrightarrow> stable Q"
  unfolding stable_def by (auto elim!: lastingD simp: link_view_def dest: port_viewD dev_viewD)

lemmas carrier_stable = lasting_stable [OF sane_lasting(1)]

lemma filter_keeps: "port_is n w Q \<Longrightarrow> port_is n (nss_dp_set_slow_proto_filter f p b w) Q"
  by (auto simp: nss_dp_set_slow_proto_filter_def fal_def Let_def intro!: port_is_own(3,4))

lemma stp_keeps: "port_is n w Q \<Longrightarrow> port_is n (snd (nss_dp_stp_state_set f p s w)) Q"
  by (auto simp: nss_dp_stp_state_set_def fal_def Let_def intro!: port_is_own(3) filter_keeps split: option.split)

lemma pause_runs:
  assumes "port_is n w Q" "lasting Q"
  shows "\<exists>r w'. nss_dp_set_pauseparam n pp w = Inr (r, w') \<and> port_is n w' Q"
proof -
  obtain p where p: "privs w n = Some p" using assms(1) by (auto simp: port_is_def)
  have own: "port_is n (upd_priv n (\<lambda>p. p\<lparr>pause := v\<rparr>) w) Q" for v
    by (rule port_is_own(2) [OF assms(1)]) (auto elim!: lastingD [OF assms(2)] simp: link_view_def)
  have phy: "port_is n (upd_priv n (\<lambda>p. p\<lparr>phydev := y\<rparr>) v) Q" if "port_is n v Q" for y v
    by (rule port_is_own(2) [OF that]) (auto elim!: lastingD [OF assms(2)] simp: link_view_def)
  show ?thesis
    using p own by (auto simp: nss_dp_set_pauseparam_def run_simps Let_def intro!: port_is_own(3) phy split: option.split)
qed

lemma mac_runs:
  assumes w: "port_is n w Q" and Q: "lasting Q"
  shows "\<exists>r w'. nss_dp_set_mac_address e (Some n) sa w = Inr (r, w') \<and> port_is n w' Q"
proof -
  have "\<exists>r w'. must (with_priv w n (\<lambda>p. call_op e p op_mac_addr (\<lambda>g. g (dpc p) a w))) (Errno EAGAIN) (\<lambda>w.
      let w = upd_dev n (\<lambda>d. d\<lparr>nd_addr := b\<rparr>) w in with_priv w n (\<lambda>p. call_hal e p (\<lambda>h.
        bindR (ho_setmacaddr h (gmac_hal_ctx p) b) (\<lambda>ctx. Inr (Success, upd_priv n (\<lambda>p. p\<lparr>gmac_hal_ctx := ctx\<rparr>) w))))) = Inr (r, w') \<and> port_is n w' Q" for a b
  proof (rule must_runs [OF w lasting_stable [OF Q]], goal_cases)
    case (1 p) then show ?case using mac_addr w by (simp add: port_is_def)
  next
    case (2 v)
    have v: "port_is n (upd_dev n (\<lambda>d. d\<lparr>nd_addr := b\<rparr>) v) Q"
      by (rule port_is_own(1) [OF 2]) (auto elim!: lastingD [OF Q] simp: link_view_def)
    then obtain p where p: "I n (upd_dev n (\<lambda>d. d\<lparr>nd_addr := b\<rparr>) v)" "privs (upd_dev n (\<lambda>d. d\<lparr>nd_addr := b\<rparr>) v) n = Some p"
      by (auto simp: port_is_def)
    show ?case
      unfolding Let_def with_simps(3) [OF p(2)] by (rule port_is_runs [OF v lasting_stable [OF Q] mac_set [OF p, of b]]) blast
  qed
  then show ?thesis using w by (simp add: nss_dp_set_mac_address_def)
qed

lemma calm_runs:
  assumes w: "port_is n w Q" and Q: "lasting Q" and "calm ev"
  shows "\<exists>w'. port_step e n ev w = Inr w' \<and> port_is n w' Q"
proof -
  obtain p where p: "I n w" "privs w n = Some p" using w by (auto simp: port_is_def)
  show ?thesis
  proof (cases ev)
    case (Ev_mtu m)
    have "\<exists>r w'. nss_dp_change_mtu e (Some n) m w = Inr (r, w') \<and> port_is n w' Q"
      unfolding nss_dp_change_mtu_def option.case
    proof (rule must_runs [OF w lasting_stable [OF Q]], goal_cases)
      case (2 w') then show ?case by (auto intro!: port_is_own(1) [OF 2] elim!: lastingD [OF Q] simp: link_view_def)
    qed (use change_mtu [OF p(1)] in auto)
    then show ?thesis using Ev_mtu by auto
  next
    case (Ev_stats st)
    have "\<exists>r w'. nss_dp_get_stats64 e (Some n) st w = Inr (r, w') \<and> port_is n w' Q"
      unfolding nss_dp_get_stats64_def option.case with_simps(3) [OF p(2)]
      by (rule port_is_runs [OF w lasting_stable [OF Q] mac_stats [OF p, of st]]) blast
    then show ?thesis using Ev_stats by auto
  next
    case (Ev_attr f a b)
    have "port_is n (upd_priv n (\<lambda>p. p\<lparr>brport_flags := v\<rparr>) w) Q" for v
      by (rule port_is_own(2) [OF w]) (auto elim!: lastingD [OF Q] simp: link_view_def)
    then show ?thesis
      using w p(2) stp_keeps [OF w, of f p] Ev_attr by (auto simp: nss_dp_port_attr_set_def run_simps split_beta split: switchdev_attr.split)
  next
    case (Ev_mac sa) then show ?thesis using mac_runs [OF w Q, of sa] by auto
  next
    case (Ev_pause pp) then show ?thesis using pause_runs [OF w Q, of pp] by auto
  qed (use assms(3) in simp_all)
qed

text \<open>The link callback leaves the port as it was, or records the link the PHY reports, with the carrier.\<close>

lemma adjust_cases:
  assumes w: "port_is n w Q" "stable Q" and p: "privs w n = Some p" "phydev p = Some y" "bit (dp_flags p) 0"
  shows "\<exists>v. port_is n v Q \<and> (nss_dp_adjust_link e n w = Inr v \<or> nss_dp_adjust_link e n w = Inr (
      upd_dev n (\<lambda>d. d\<lparr>nd_carrier := phy_link y\<rparr>) (upd_priv n (\<lambda>p. p\<lparr>link_state := (if phy_link y then NSS_DP_LINK_UP else NSS_DP_LINK_DOWN)\<rparr>) v)))"
proof (cases "phy_link y = (link_state p = NSS_DP_LINK_UP)")
  case True
  then show ?thesis using w p by (auto simp: nss_dp_adjust_link_def run_simps intro: nss_dp_link_state.exhaust)
next
  case False
  have "I n w" using w by (simp add: port_is_def)
  then obtain r v where r: "call_op e p op_link_state (\<lambda>g. g (dpc p) (if phy_link y then 1 else 0) w) = Inr (r, v)" "port_is n v Q"
    using port_is_runs [OF w link_op [OF _ p(1)]] by metis
  then show ?thesis
    using False p by (intro exI [of _ v]) (cases "link_state p"; auto simp: nss_dp_adjust_link_def run_simps)
qed

lemma event_cases:
  obtains (restart) "ev = Ev_open \<or> ev = Ev_close" | (link) b where "ev = Ev_link b" | (calm) "calm ev"
  by (cases ev) auto

lemma restart_runs:
  assumes "I n w" "ev = Ev_open \<or> ev = Ev_close"
  shows "\<exists>w'. port_step e n ev w = Inr w' \<and> port_is n w' carrier_sane"
  using open_runs [OF assms(1)] close_runs [OF assms(1)] assms(2)
  by (elim disjE) (fastforce simp: port_opened_def port_closed_def carrier_sane_def intro: port_is_weaken)+

lemma link_runs:
  assumes "port_is n w carrier_sane"
  shows "\<exists>w'. port_step e n (Ev_link b) w = Inr w' \<and> port_is n w' carrier_sane"
proof -
  obtain p where p: "I n w" "privs w n = Some p" using assms by (auto simp: port_is_def)
  show ?thesis
  proof (cases "phydev p = None \<or> \<not> bit (dp_flags p) 0")
    case True
    have "port_is n (phy_reports n b w) carrier_sane"
      unfolding phy_reports_def by (rule port_is_own(2) [OF assms]) (auto simp: carrier_sane_def)
    then show ?thesis using True p assms by (auto simp: run_simps nss_dp_adjust_link_def phy_reports_def)
  next
    case False
    then obtain y where y: "phydev p = Some y" "bit (dp_flags p) 0" by auto
    let ?Q = "\<lambda>p d. carrier_sane p d \<and> bit (dp_flags p) 0"
    have st: "stable ?Q" using carrier_stable unfolding stable_def by (auto dest: port_viewD)
    have w1: "port_is n (phy_reports n b w) ?Q" "privs (phy_reports n b w) n = Some (p\<lparr>phydev := Some (y\<lparr>phy_link := b\<rparr>)\<rparr>)"
      using assms own_priv [OF p(1)] p y by (auto simp: phy_reports_def port_is_def carrier_sane_def)
    have set: "port_is n (upd_dev n (\<lambda>d. d\<lparr>nd_carrier := b\<rparr>)
        (upd_priv n (\<lambda>p. p\<lparr>link_state := (if b then NSS_DP_LINK_UP else NSS_DP_LINK_DOWN)\<rparr>) v)) carrier_sane"
      if "port_is n v ?Q" for v
      by (rule port_is_own(1) [OF port_is_own(2) [OF that, of "\<lambda>p d. bit (dp_flags p) 0 \<and> (b \<longrightarrow> link_state p = NSS_DP_LINK_UP)"]])
        (auto simp: carrier_sane_def)
    obtain v where v: "port_is n v ?Q" "nss_dp_adjust_link e n (phy_reports n b w) = Inr v \<or>
        nss_dp_adjust_link e n (phy_reports n b w) = Inr (upd_dev n (\<lambda>d. d\<lparr>nd_carrier := b\<rparr>)
          (upd_priv n (\<lambda>p. p\<lparr>link_state := (if b then NSS_DP_LINK_UP else NSS_DP_LINK_DOWN)\<rparr>) v))"
      using adjust_cases [OF w1(1) st w1(2)] y(2) by auto
    then show ?thesis using p y set [OF v(1)] by (auto simp: run_simps intro: port_is_weaken)
  qed
qed

lemma unopened_link:
  assumes "port_is n w (\<lambda>p d. unopened p)"
  shows "\<exists>w'. port_step e n (Ev_link b) w = Inr w' \<and> port_is n w' (\<lambda>p d. unopened p)"
proof -
  obtain p where p: "privs w n = Some p" "unopened p" using assms by (auto simp: port_is_def)
  have "port_is n (phy_reports n b w) (\<lambda>p d. unopened p)"
    unfolding phy_reports_def by (rule port_is_own(2) [OF assms]) (auto simp: unopened_def)
  then show ?thesis using p assms by (auto simp: run_simps nss_dp_adjust_link_def phy_reports_def unopened_def)
qed

text \<open>A port keeps its carrier in order, or has not been opened yet.\<close>

lemma port_is_sane: "port_is n w port_sane \<longleftrightarrow> port_is n w carrier_sane \<or> port_is n w (\<lambda>p d. unopened p)"
  by (auto simp: port_is_def port_sane_def)

lemma port_step_sane:
  assumes "port_is n w port_sane"
  shows "\<exists>w'. port_step e n ev w = Inr w' \<and> port_is n w' port_sane"
proof (cases ev rule: event_cases)
  case restart
  have "I n w" using assms by (simp add: port_is_def)
  then show ?thesis using restart_runs [OF _ restart] port_is_sane by blast
next
  case (link b)
  then show ?thesis using assms link_runs unopened_link unfolding port_is_sane by blast
next
  case calm
  then show ?thesis using assms calm_runs [OF _ sane_lasting(1)] calm_runs [OF _ sane_lasting(2)] unfolding port_is_sane by blast
qed

text \<open>The same with the frame: the calls on a port leave the others alone.\<close>

lemma port_is_framed: "data_plane.port_is (\<lambda>n w. I n w \<and> frame n w0 w) n w Q \<longleftrightarrow> port_is n w Q \<and> frame n w0 w"
  by (auto simp: data_plane.port_is_def [OF framed] port_is_def)

lemma port_step_frame:
  assumes "port_is n w port_sane"
  shows "\<exists>w'. port_step e n ev w = Inr w' \<and> port_is n w' port_sane \<and> frame n w w'"
  using data_plane.port_step_sane [OF framed [of w], of n w ev] assms by (auto simp: port_is_framed)

end

text \<open>An event on a port does no more to the data plane than the calls of the port may do.\<close>

context data_plane_parts
begin

lemma port_is_within:
  "data_plane.port_is (\<lambda>n v. I n v \<and> within m s n v) n w Q \<longleftrightarrow> port_is n w Q \<and> within m s n w"
  unfolding data_plane.port_is_def [OF parts_framed] port_is_def by blast

lemma port_step_within:
  assumes "port_is n w port_sane" "privs w n = Some p" "port_step e n ev w = Inr w'"
  shows "R (macid p) (dp w) (dp w')"
  using data_plane.port_step_sane [OF parts_framed [of "macid p" "dp w"], of n w ev] assms part_refl
  unfolding port_is_within by simp

end

end
