(* ===== verification/Gmac_Port.thy ===== *)
theory Gmac_Port
  imports Hal_Arch Syn_Ring_Safety Dp_Life
begin

text \<open>
  The driver on ipq50xx: the GMAC data plane meets the contract of the net device driver, with the properties of
  opening, closing and transmitting on a port that follow; and each port works on its own entry of \<open>dp_info\<close>.
\<close>

section \<open>The GMAC data plane meets the contract\<close>

text \<open>
  A port of this SoC: its context is an entry of the global array that points back to it, its MAC has been
  initialised and holds its registers, and the buffer lists of the two ports have their 128 cells.
\<close>

definition lists_ok :: "syn_state list \<Rightarrow> bool" where
  "lists_ok sts \<longleftrightarrow> list_all (\<lambda>st. length (rx_skb_list st) = 128 \<and> length (tx_skb_list st) = 128) sts"

definition mac_held :: "Syn_Gmac.syn_hal_dev nss_dp_dev \<Rightarrow> bool" where
  "mac_held p \<longleftrightarrow> gmac_hal_ops p \<noteq> None \<and> (\<exists>c. gmac_hal_ctx p = Some c \<and> nghd_memres c \<noteq> None)"

definition gmac_port :: "nat \<Rightarrow> gmac_world \<Rightarrow> bool" where
  "gmac_port n w \<longleftrightarrow> lists_ok (dp w) \<and> length (dp w) = 2 \<and> (\<exists>p d. privs w n = Some p \<and> netdevs w n = Some d \<and> port_linked n w p
     \<and> mac_held p \<and> info_index p < length (dp w))"

lemma gmac_portE:
  assumes "gmac_port n w" "privs w n = Some p"
  obtains d nghd i where "netdevs w n = Some d" "gmac_hal_ctx p = Some nghd" "data_plane_ops p = Some Soc_ops"
    "dpc p = Some (Dpc_global i)" "i < length (dp_ctx w)" "dp_ctx w ! i = Some n" "info_index p < length (dp w)" "lists_ok (dp w)"
    "nghd_memres nghd \<noteq> None"
  using assms by (auto simp: gmac_port_def port_linked_def mac_held_def)

lemma memres_frame [simp]:
  "nghd_memres (hal_write_reg d r v) = nghd_memres d" "nghd_memres (hal_set_reg_bits d r v) = nghd_memres d"
  "nghd_memres (hal_clear_reg_bits d r v) = nghd_memres d"
  by (simp_all add: hal_write_reg_def hal_set_reg_bits_def hal_clear_reg_bits_def Let_def)

lemma memres_dma [simp]:
  "nghd_memres (syn_enable_dma_rx d) = nghd_memres d" "nghd_memres (syn_enable_dma_tx d) = nghd_memres d"
  "nghd_memres (syn_disable_dma_rx d) = nghd_memres d" "nghd_memres (syn_disable_dma_tx d) = nghd_memres d"
  "nghd_memres (syn_enable_dma_interrupt d) = nghd_memres d" "nghd_memres (syn_disable_dma_interrupt d) = nghd_memres d"
  by (simp_all add: syn_enable_dma_rx_def syn_enable_dma_tx_def syn_disable_dma_rx_def syn_disable_dma_tx_def
      syn_enable_dma_interrupt_def syn_disable_dma_interrupt_def Let_def)

lemma memres_rings:
  "syn_dp_setup_rings k d st = Inr (r, d', st') \<Longrightarrow> nghd_memres d' = nghd_memres d"
  "syn_dp_tx k d skb st = Inr (v, d', st') \<Longrightarrow> nghd_memres d' = nghd_memres d"
  by (auto simp: syn_dp_setup_rings_def syn_dp_tx_def Let_def bindR_eq_Inr syn_init_tx_desc_base_def syn_init_rx_desc_base_def
      syn_resume_dma_tx_def split: if_splits option.splits)

lemma lists_ok_update: "lists_ok sts \<Longrightarrow> length (rx_skb_list st) = 128 \<Longrightarrow> length (tx_skb_list st) = 128 \<Longrightarrow> lists_ok (sts[i := st])"
  unfolding lists_ok_def list_all_iff by (metis (lifting) insertE set_update_subset_insert subsetD)

lemma lists_ok_nth:
  assumes "lists_ok sts" "i < length sts"
  shows "length (rx_skb_list (sts ! i)) = 128" "length (tx_skb_list (sts ! i)) = 128"
  using assms by (simp_all add: lists_ok_def list_all_length)

lemma setup_rings_any:
  assumes "length (rx_skb_list st) = 128" "length (tx_skb_list st) = 128"
  shows "\<exists>r nghd' st'. syn_dp_setup_rings k nghd st = Inr (r, nghd', st') \<and> length (rx_skb_list st') = 128 \<and> length (tx_skb_list st') = 128"
proof (cases "k_dma_alloc_rx k = None \<or> k_dma_alloc_tx k = None")
  case True
  then show ?thesis
    using assms by (auto simp: syn_dp_setup_rings_def syn_dp_setup_rx_desc_queue_def syn_dp_setup_tx_desc_queue_def Let_def split: option.splits)
next
  case False
  then obtain ra ta where "k_dma_alloc_rx k = Some ra" "k_dma_alloc_tx k = Some ta" by auto
  from setup_rings_total [OF assms this, of nghd]
  obtain nghd' st' where s: "syn_dp_setup_rings k nghd st = Inr (Success, nghd', st')" by blast
  then show ?thesis using setup_rings_ok(1,2) [OF s assms] by (auto simp: rx_inv_def tx_inv_def ring_wf_def)
qed

lemma with_netdev_linked:
  assumes "dpc p = Some (Dpc_global i)" "i < length (dp_ctx w)" "dp_ctx w ! i = Some n"
  shows "with_netdev q (dpc p) w f = f n" "dpc_dev ov (dpc p) w = Inr (Some n)"
  by (simp_all add: with_netdev_def dpc_dev_linked [OF assms])

text \<open>Calls that change a context, the net device or the state of a port keep what belongs to the driver.\<close>

lemma gmac_port_upd_ctx:
  assumes "gmac_port n w" "privs w n = Some p" "gmac_hal_ctx p = Some nghd" "nghd_memres (f nghd) = nghd_memres nghd"
  shows "upd_ctx n f w = Inr (upd_priv n (\<lambda>p. p\<lparr>gmac_hal_ctx := Some (f nghd)\<rparr>) w)"
    "gmac_port n (upd_priv n (\<lambda>p. p\<lparr>gmac_hal_ctx := Some (f nghd)\<rparr>) w)"
    "keeps n w (upd_priv n (\<lambda>p. p\<lparr>gmac_hal_ctx := Some (f nghd)\<rparr>) w)"
  using assms by (auto simp: upd_ctx_def run_simps gmac_port_def port_linked_def mac_held_def info_index_def keeps_def port_view_def)

lemma gmac_port_calls:
  assumes "gmac_port n w"
  shows "gmac_port n (nkcalls cs w)" "gmac_port n (upd_dev n f w)" "gmac_port n (w\<lparr>slowproto_acl_bm := b\<rparr>)"
  using assms by (auto simp: gmac_port_def port_linked_def)

lemma gmac_port_priv:
  assumes "gmac_port n w" "\<And>p. macid (g p) = macid p \<and> dpc (g p) = dpc p \<and> data_plane_ops (g p) = data_plane_ops p
      \<and> (mac_held p \<longrightarrow> mac_held (g p))"
  shows "gmac_port n (upd_priv n g w)"
  using assms by (auto simp: gmac_port_def port_linked_def info_index_def)

lemma gmac_port_dp:
  assumes "gmac_port n w" "lists_ok sts" "length sts = length (dp w)"
  shows "gmac_port n (w\<lparr>dp := sts\<rparr>)"
  using assms by (auto simp: gmac_port_def port_linked_def)

lemma gmac_init_runs:
  assumes "gmac_port n w" "privs w n = Some p"
  shows "runs gmac_port n w (syn_dp_if_init k q (dpc p) w)"
proof -
  obtain d nghd i where f: "netdevs w n = Some d" "gmac_hal_ctx p = Some nghd"
    "dpc p = Some (Dpc_global i)" "i < length (dp_ctx w)" "dp_ctx w ! i = Some n" "info_index p < length (dp w)" "lists_ok (dp w)"
    "nghd_memres nghd \<noteq> None"
    by (rule gmac_portE [OF assms])
  note l = with_netdev_linked [OF f(3-5)]
  let ?i = "info_index p" and ?st = "dp w ! info_index p"
  define wr where "wr = upd_dev n (\<lambda>d. d\<lparr>nd_irq := sp_irq q n\<rparr>) (nkcalls [Nk_napi_add n] w)"
  have wr: "gmac_port n wr" "keeps n w wr"
    unfolding wr_def using assms(1)
    by (auto intro!: gmac_port_calls keeps_trans [OF keeps_own(1) keeps_own(3)] simp: dev_view_def)
  define wi where "wi = (if syn_dp_info.napi_added ?st then w else
      (upd_priv n (\<lambda>p. p\<lparr>drv_flags := drv_flags p OR 2\<rparr>) (nkcalls [Nk_request_irq (sp_irq q n) n] wr))
        \<lparr>dp := (dp w)[?i := ?st\<lparr>syn_dp_info.napi_added := True\<rparr>]\<rparr>)"
  have b: "(x OR 2) AND 1 = x AND (1 :: u64)" for x by (simp add: bit_eq_iff bit_simps) (metis bit_1_iff bit_Suc bit_0 div_0 even_numeral not0_implies_Suc one_div_two_eq_zero)
  have wi: "gmac_port n wi" "keeps n w wi" "length (dp wi) = length (dp w)" "lists_ok (dp wi)"
    unfolding wi_def using assms wr f(6,7) lists_ok_nth [OF f(7,6)] b
    by (auto intro!: gmac_port_dp gmac_port_priv gmac_port_calls lists_ok_update simp: wr_def keeps_def port_view_def dev_view_def mac_held_def)
  obtain r nghd' st' where s: "syn_dp_setup_rings k nghd (dp wi ! ?i) = Inr (r, nghd', st')"
      "length (rx_skb_list st') = 128" "length (tx_skb_list st') = 128"
    using setup_rings_any [OF lists_ok_nth [OF wi(4)]] f(6) wi(3) by metis
  define wf where "wf = upd_priv n (\<lambda>p. p\<lparr>gmac_hal_ctx := Some nghd'\<rparr>) (wi\<lparr>dp := (dp wi)[?i := st']\<rparr>)"
  have wf: "gmac_port n wf" "keeps n w wf"
    unfolding wf_def using wi s(2,3) memres_rings(1) [OF s(1)] f(8)
    by (auto intro!: gmac_port_dp gmac_port_priv lists_ok_update keeps_trans [OF keeps_trans [OF wi(2) keeps_own(2)] keeps_own(4)]
        simp: port_view_def mac_held_def)
  have "syn_dp_if_init k q (dpc p) w = Inr (Failure, wr) \<or> syn_dp_if_init k q (dpc p) w = Inr (if failed r then Failure else Success, wf)"
    using assms(2) f(1,2,6) s(1) wi(3)
    by (auto simp: syn_dp_if_init_def l run_simps with_info_def wi_def wr_def wf_def Let_def)
  then show ?thesis using wr wf by (auto simp: runs_def)
qed

lemma gmac_open_close_runs:
  assumes "gmac_port n w" "privs w n = Some p"
  shows "runs gmac_port n w (syn_dp_if_open q (dpc p) t r m w)" "runs gmac_port n w (syn_dp_if_close q (dpc p) w)"
proof -
  obtain d nghd i where f: "netdevs w n = Some d" "gmac_hal_ctx p = Some nghd"
    "dpc p = Some (Dpc_global i)" "i < length (dp_ctx w)" "dp_ctx w ! i = Some n"
    by (rule gmac_portE [OF assms])
  note l = with_netdev_linked [OF f(3-5)] and c = gmac_port_upd_ctx [OF assms f(2)]
  let ?up = "\<lambda>nghd. syn_enable_dma_tx (syn_enable_dma_rx nghd)"
  define w1 where "w1 = nkcalls [Nk_napi_enable n] (upd_priv n (\<lambda>p. p\<lparr>gmac_hal_ctx := Some (?up nghd)\<rparr>) w)"
  have w1: "gmac_port n w1" "privs w1 n = Some (p\<lparr>gmac_hal_ctx := Some (?up nghd)\<rparr>)" "keeps n w w1"
    using c(2,3) [of ?up] assms(2) by (auto simp: w1_def gmac_port_calls keeps_def)
  have o: "syn_dp_if_open q (dpc p) t r m w = bindR (upd_ctx n syn_enable_dma_interrupt w1) (\<lambda>w. Inr (Success, w))"
    by (simp add: syn_dp_if_open_def l c(1) w1_def)
  show "runs gmac_port n w (syn_dp_if_open q (dpc p) t r m w)"
    using gmac_port_upd_ctx [OF w1(1,2), of "?up nghd" syn_enable_dma_interrupt] keeps_trans [OF w1(3)] unfolding o
    by (auto simp: runs_def)
  show "runs gmac_port n w (syn_dp_if_close q (dpc p) w)"
    using c [of "\<lambda>nghd. syn_disable_dma_interrupt (syn_disable_dma_tx (syn_disable_dma_rx nghd))"]
    by (auto simp: syn_dp_if_close_def l runs_def gmac_port_calls(1) intro: keeps_trans keeps_own(1))
qed

lemma gmac_features_run:
  assumes "gmac_port n w" "privs w n = Some p"
  shows "runs gmac_port n w (bindR (syn_dp_if_set_features q (dpc p) w) (\<lambda>w. Inr ((), w)))"
    "runs gmac_port n w (syn_dp_if_link_state q (dpc p) s w)"
proof -
  obtain d nghd i where f: "netdevs w n = Some d" "gmac_hal_ctx p = Some nghd"
    "dpc p = Some (Dpc_global i)" "i < length (dp_ctx w)" "dp_ctx w ! i = Some n"
    by (rule gmac_portE [OF assms])
  note l = with_netdev_linked [OF f(3-5)]
  show "runs gmac_port n w (bindR (syn_dp_if_set_features q (dpc p) w) (\<lambda>w. Inr ((), w)))"
    using assms(1) f(1) gmac_port_calls(2) [OF assms(1)]
    by (simp add: syn_dp_if_set_features_def l run_simps Let_def runs_def keeps_def dev_view_def)
  show "runs gmac_port n w (syn_dp_if_link_state q (dpc p) s w)"
    using assms(1) by (simp add: syn_dp_if_link_state_def l runs_def)
qed

lemma gmac_table:
  assumes "gmac_port n w" "privs w n = Some p"
  shows "call_op (gmac_env k q i x) p entry f =
    (case entry (nss_dp_gmac_ops k q) of None \<Rightarrow> Inl Null_Pointer | Some g \<Rightarrow> f g)"
  by (rule gmac_portE [OF assms]) (simp add: call_op_def gmac_env_def)

lemma gmac_trivial_runs:
  assumes "gmac_port n w"
  shows "runs gmac_port n w (syn_dp_if_mac_addr c a w)" "runs gmac_port n w (syn_dp_if_change_mtu c m w)"
  using assms by (simp_all add: syn_dp_if_mac_addr_def syn_dp_if_change_mtu_def runs_def)

text \<open>The MAC: its address and its statistics, which come from the data plane.\<close>

lemma gmac_ctx_runs:
  assumes "gmac_port n w" "nghd_memres c \<noteq> None"
  shows "runs gmac_port n w (Inr (r, upd_priv n (\<lambda>p. p\<lparr>gmac_hal_ctx := Some c\<rparr>) w))"
  using assms by (auto simp: runs_def mac_held_def port_view_def intro!: gmac_port_priv keeps_own(4))

lemma gmac_mac_runs:
  assumes "gmac_port n w" "privs w n = Some p"
  shows "runs gmac_port n w (call_hal (gmac_env k q i x) p (\<lambda>h. bindR (ho_setmacaddr h (gmac_hal_ctx p) a) (\<lambda>c.
      Inr (Success, upd_priv n (\<lambda>p. p\<lparr>gmac_hal_ctx := c\<rparr>) w))))"
    "runs gmac_port n w (call_hal (gmac_env k q i x) p (\<lambda>h. bindR (ho_getndostats h (stats_of (gmac_env k q i x) p w) (gmac_hal_ctx p) st) (\<lambda>(_, c, st).
      Inr (st, upd_priv n (\<lambda>p. p\<lparr>gmac_hal_ctx := c\<rparr>) w))))"
proof -
  obtain d c j where f: "gmac_hal_ctx p = Some c" "data_plane_ops p = Some Soc_ops" "dpc p = Some (Dpc_global j)"
      "j < length (dp_ctx w)" "dp_ctx w ! j = Some n" "info_index p < length (dp w)" "nghd_memres c \<noteq> None"
    by (rule gmac_portE [OF assms])
  have ops: "gmac_hal_ops p \<noteq> None" using assms by (auto simp: gmac_port_def mac_held_def)
  obtain c' where c': "Syn_Gmac.syn_set_mac_address (Some c) (Some a) = Inr c'" "nghd_memres c' \<noteq> None"
    using f(7) by (cases a) (auto simp: Syn_Gmac.syn_set_mac_address_def Let_def)
  show "runs gmac_port n w (call_hal (gmac_env k q i x) p (\<lambda>h. bindR (ho_setmacaddr h (gmac_hal_ctx p) a) (\<lambda>c.
      Inr (Success, upd_priv n (\<lambda>p. p\<lparr>gmac_hal_ctx := c\<rparr>) w))))"
    using ops gmac_ctx_runs [OF assms(1) c'(2)] by (auto simp: call_hal_def gmac_env_def syn_gmac_hal_ops_def f(1) c'(1))
  have src: "stats_of (gmac_env k q i x) p w = Some (Some (\<lambda>s. Inr (dp_stats (dp w ! info_index p))))"
    using f(2,6) assms(2)
    by (simp add: stats_of_def gmac_env_def nss_dp_gmac_ops_def syn_dp_if_get_stats_def with_netdev_linked(1) [OF f(3-5)] run_simps aget_in fun_eq_iff)
  show "runs gmac_port n w (call_hal (gmac_env k q i x) p (\<lambda>h. bindR (ho_getndostats h (stats_of (gmac_env k q i x) p w) (gmac_hal_ctx p) st) (\<lambda>(_, c, st).
      Inr (st, upd_priv n (\<lambda>p. p\<lparr>gmac_hal_ctx := c\<rparr>) w))))"
    unfolding src using ops f(1,7)
    by (auto simp: call_hal_def gmac_env_def syn_gmac_hal_ops_def Syn_Gmac.syn_get_netdev_stats_def Syn_Gmac.syn_get_stats_def Let_def
        intro!: gmac_ctx_runs [OF assms(1)])
qed

lemma gmac_no_ppe [simp]: "\<not> de_ppe (gmac_env k q i x)"
  by (simp add: gmac_env_def)

interpretation gmac_dp: data_plane "gmac_env k q i x" gmac_port
proof (unfold_locales, goal_cases)
  case (1 n w) then show ?case by (auto simp: gmac_port_def)
next
  case (2 n w f) then show ?case by (rule gmac_port_calls)
next
  case (3 n w cs) then show ?case by (rule gmac_port_calls)
next
  case (4 n w b) then show ?case by (rule gmac_port_calls)
next
  case (5 n w g) then show ?case by (intro gmac_port_priv) (auto simp: mac_held_def)
qed (simp_all add: gmac_mac_runs gmac_table nss_dp_gmac_ops_def gmac_init_runs gmac_open_close_runs gmac_features_run gmac_trivial_runs)

section \<open>The rings of a port\<close>

text \<open>A port works on its own entry of \<open>dp_info\<close> only.\<close>

definition gmac_apart :: "u32 \<Rightarrow> syn_state list \<Rightarrow> syn_state list \<Rightarrow> bool" where
  "gmac_apart m sts sts' \<longleftrightarrow> length sts' = length sts \<and> (\<forall>j. j \<noteq> unat (m - 1) \<longrightarrow> sts' ! j = sts ! j)"

lemma gmac_apart_refl [simp]: "gmac_apart m sts sts"
  by (simp add: gmac_apart_def)

lemma gmac_apart_update: "gmac_apart m sts sts' \<Longrightarrow> gmac_apart m sts (sts'[unat (m - 1) := st])"
  by (simp add: gmac_apart_def)

lemma with_priv_Inr: "with_priv w n f = Inr r \<longleftrightarrow> (\<exists>p. privs w n = Some p \<and> f p = Inr r)"
  by (cases "privs w n") (simp_all add: with_priv_def)

lemma upd_ctx_dp: "upd_ctx n f w = Inr w' \<Longrightarrow> dp w' = dp w"
  by (auto simp: upd_ctx_def with_priv_Inr split: option.splits)

lemma gmac_init_apart:
  assumes "gmac_port n w" "privs w n = Some p" "syn_dp_if_init k q (dpc p) w = Inr (r, w')"
  shows "gmac_apart (macid p) (dp w) (dp w')"
proof -
  obtain i where f: "dpc p = Some (Dpc_global i)" "i < length (dp_ctx w)" "dp_ctx w ! i = Some n"
    by (rule gmac_portE [OF assms(1,2)])
  note l = with_netdev_linked [OF f]
  show ?thesis
    using assms(2,3)
    by (auto simp: syn_dp_if_init_def l run_simps with_info_def bindR_eq_Inr Let_def info_index_def
        intro!: gmac_apart_update split: if_splits option.splits prod.splits)
qed

lemma gmac_open_close_apart:
  assumes "gmac_port n w" "privs w n = Some p"
  shows "syn_dp_if_open q (dpc p) t r m w = Inr (v, w') \<Longrightarrow> dp w' = dp w" "syn_dp_if_close q (dpc p) w = Inr (v, w') \<Longrightarrow> dp w' = dp w"
    "syn_dp_if_set_features q (dpc p) w = Inr w' \<Longrightarrow> dp w' = dp w" "syn_dp_if_link_state q (dpc p) s w = Inr (v, w') \<Longrightarrow> dp w' = dp w"
proof -
  obtain d i where f: "netdevs w n = Some d" "dpc p = Some (Dpc_global i)" "i < length (dp_ctx w)" "dp_ctx w ! i = Some n"
    by (rule gmac_portE [OF assms])
  note l = with_netdev_linked [OF f(2-4)]
  show "syn_dp_if_open q (dpc p) t r m w = Inr (v, w') \<Longrightarrow> dp w' = dp w" "syn_dp_if_close q (dpc p) w = Inr (v, w') \<Longrightarrow> dp w' = dp w"
    by (auto simp: syn_dp_if_open_def syn_dp_if_close_def l bindR_eq_Inr dest!: upd_ctx_dp)
  show "syn_dp_if_set_features q (dpc p) w = Inr w' \<Longrightarrow> dp w' = dp w" "syn_dp_if_link_state q (dpc p) s w = Inr (v, w') \<Longrightarrow> dp w' = dp w"
    using f(1) by (auto simp: syn_dp_if_set_features_def syn_dp_if_link_state_def l run_simps Let_def bindR_eq_Inr)
qed

lemma call_hal_dp:
  assumes "call_hal e p (\<lambda>h. bindR (f h) (\<lambda>c. Inr (g c, upd_priv n (k c) w))) = Inr (r, w')"
  shows "dp w' = dp w"
  using assms by (auto simp: call_hal_def bindR_eq_Inr split: option.splits)

lemma gmac_calls_apart:
  assumes "gmac_port n w" "privs w n = Some p" "calls_of (gmac_env k q i x) p n w (Inr w')"
  shows "gmac_apart (macid p) (dp w) (dp w')"
  using assms(3)
proof (cases rule: calls_of.cases)
  case call_init
  then show ?thesis
    using gmac_init_apart [OF assms(1,2)] by (auto simp: gmac_table [OF assms(1,2)] nss_dp_gmac_ops_def state_of_eq)
next
  case (call_mac_set a)
  then have "dp w' = dp w" using call_hal_dp [where w = w] by (fastforce simp: state_of_eq)
  then show ?thesis by simp
next
  case (call_mac_stats st)
  then show ?thesis by (auto simp: state_of_eq call_hal_def bindR_eq_Inr split: option.splits)
next
  case call_set_features
  then have "syn_dp_if_set_features q (dpc p) w = Inr w'" by (simp add: gmac_table [OF assms(1,2)] nss_dp_gmac_ops_def)
  then show ?thesis using gmac_open_close_apart(3) [OF assms(1,2)] by simp
qed (use gmac_open_close_apart [OF assms(1,2)] in \<open>auto simp: gmac_table [OF assms(1,2)] nss_dp_gmac_ops_def state_of_eq
    syn_dp_if_mac_addr_def syn_dp_if_change_mtu_def\<close>)

interpretation gmac_parts: data_plane_parts "gmac_env k q i x" gmac_port gmac_apart
proof (unfold_locales, goal_cases)
  case (2 m s s1 s2) then show ?case by (simp add: gmac_apart_def)
next
  case (3 n w p w') then show ?case by (rule gmac_calls_apart)
qed simp

end
