(* ===== verification/Dp_Probe.thy ===== *)
theory Dp_Probe
  imports Dp_Contract
begin

text \<open>
  Probing a port: what \<open>nss_dp_probe\<close> leaves behind when it succeeds and when it fails, on any SoC. The stages of
  the probe work on the new net device only.
\<close>

section \<open>Work on one net device\<close>

text \<open>
  A state that differs from \<open>w0\<close> in net device \<open>n\<close>, the contexts \<open>C\<close>, the trace and the flags of the module only.
\<close>

definition at_port ::
  "nat \<Rightarrow> ('h, 's) dp_world \<Rightarrow> nat option list \<Rightarrow> ('h nss_dp_dev \<Rightarrow> net_device \<Rightarrow> bool) \<Rightarrow> ('h, 's) dp_world \<Rightarrow> bool" where
  "at_port n w0 C Q w \<longleftrightarrow> nss_dp w = nss_dp w0 \<and> dp w = dp w0 \<and> gmac_ops w = gmac_ops w0 \<and> dp_ctx w = C
     \<and> nd_allocs w = Suc n \<and> (\<forall>m. m \<noteq> n \<longrightarrow> netdevs w m = netdevs w0 m \<and> privs w m = privs w0 m)
     \<and> (\<exists>p d. privs w n = Some p \<and> netdevs w n = Some d \<and> Q p d)"

lemma at_port_own:
  assumes "at_port n w0 C Q w"
  shows "(\<And>p d. Q p d \<Longrightarrow> Q' p (f d)) \<Longrightarrow> at_port n w0 C Q' (upd_dev n f w)"
    "(\<And>p d. Q p d \<Longrightarrow> Q' (g p) d) \<Longrightarrow> at_port n w0 C Q' (upd_priv n g w)"
    "at_port n w0 C Q (nkcalls cs w)" "at_port n w0 C Q (w\<lparr>nk_trace := tr\<rparr>)" "at_port n w0 C' Q (w\<lparr>dp_ctx := C'\<rparr>)"
  using assms by (auto simp: at_port_def)

lemma at_port_weaken: "at_port n w0 C Q w \<Longrightarrow> (\<And>p d. Q p d \<Longrightarrow> Q' p d) \<Longrightarrow> at_port n w0 C Q' w"
  by (auto simp: at_port_def)

section \<open>The stages\<close>

text \<open>A private part that has just been cleared, but for what the device tree says.\<close>

definition blank :: "nat \<Rightarrow> 'h nss_dp_dev \<Rightarrow> net_device \<Rightarrow> bool" where
  "blank n p d \<longleftrightarrow> dp_netdev p = n \<and> drv_flags p = 0 \<and> dp_flags p = 0 \<and> phydev p = None"

lemma pdata_stage:
  assumes "at_port n w0 C (blank n) w" "nss_dp_of_get_pdata e t n pd w = (ret, pd', w')"
  shows "at_port n w0 C (blank n) w'" "ret = Success \<or> ret = Errno EFAULT"
    "ret = Success \<Longrightarrow> 0 < unat (pd_macid pd') \<and> unat (pd_macid pd') \<le> de_max_ports e \<and> pt_id t = Some (pd_macid pd')
       \<and> pt_mactype t = Some (pd_mactype pd') \<and> at_port n w0 C (\<lambda>p d. blank n p d \<and> macid p = pd_macid pd') w'"
proof -
  obtain p d where p: "privs w n = Some p" "netdevs w n = Some d" "blank n p d" using assms(1) by (auto simp: at_port_def)
  have w: "nss_dp w = nss_dp w0" "dp w = dp w0" "gmac_ops w = gmac_ops w0" "dp_ctx w = C" "nd_allocs w = Suc n"
    "\<And>m. m \<noteq> n \<Longrightarrow> netdevs w m = netdevs w0 m" "\<And>m. m \<noteq> n \<Longrightarrow> privs w m = privs w0 m"
    using assms(1) by (auto simp: at_port_def)
  note run = assms(2) [unfolded nss_dp_of_get_pdata_def Let_def]
  show "at_port n w0 C (blank n) w'"
    using run p w unfolding at_port_def blank_def by (simp split: option.splits if_splits prod.splits) auto
  show "ret = Success \<or> ret = Errno EFAULT"
    using run by (simp split: option.splits if_splits prod.splits)
  assume ok: "ret = Success"
  then have "0 < unat (pd_macid pd') \<and> unat (pd_macid pd') \<le> de_max_ports e \<and> pt_id t = Some (pd_macid pd') \<and> pt_mactype t = Some (pd_mactype pd')"
    using run by (auto simp: unat_gt_0 split: option.splits if_splits prod.splits)
  moreover have "at_port n w0 C (\<lambda>p d. blank n p d \<and> macid p = pd_macid pd') w'"
    using run p w ok unfolding at_port_def blank_def by (simp split: option.splits if_splits prod.splits) auto
  ultimately show "0 < unat (pd_macid pd') \<and> unat (pd_macid pd') \<le> de_max_ports e \<and> pt_id t = Some (pd_macid pd')
       \<and> pt_mactype t = Some (pd_mactype pd') \<and> at_port n w0 C (\<lambda>p d. blank n p d \<and> macid p = pd_macid pd') w'"
    by simp
qed

text \<open>What the probe has set up once the context of the port is known, and then its MAC.\<close>

definition wired :: "nat \<Rightarrow> u32 \<Rightarrow> 'h nss_dp_dev \<Rightarrow> bool" where
  "wired n m p \<longleftrightarrow> dp_netdev p = n \<and> drv_flags p = 0 \<and> macid p = m \<and> data_plane_ops p = Some Soc_ops
     \<and> dpc p = Some (Dpc_global (unat m - 1))"

definition mac_ready :: "('h, 's, 'k) dp_env \<Rightarrow> nat \<Rightarrow> u32 \<Rightarrow> 'h nss_dp_dev \<Rightarrow> bool" where
  "mac_ready e n m p \<longleftrightarrow> wired n m p \<and> (\<exists>r c pd tr tr'. gmac_hal_ops p = Some r \<and> gmac_hal_ctx p = Some c
     \<and> ho_init (de_hal e r) pd 0 tr = (Some c, dp_flags p, tr'))"

lemma hal_stage:
  assumes "at_port n w0 C (\<lambda>p d. wired n m p \<and> phydev p = None \<and> dp_flags p = 0) w" "unat (pd_mactype pd) < length (gmac_ops w0)"
  shows "yields (\<lambda>(ret, w). at_port n w0 C (\<lambda>p d. wired n m p) w
      \<and> (\<not> failed ret \<longrightarrow> at_port n w0 C (\<lambda>p d. mac_ready e n m p \<and> phydev p = None) w)) (probe_hal e n pd w)"
proof -
  obtain p d where p: "privs w n = Some p" "netdevs w n = Some d" "wired n m p" "phydev p = None" "dp_flags p = 0"
    and ops: "gmac_ops w = gmac_ops w0" using assms(1) by (auto simp: at_port_def)
  have get: "nss_dp_hal_get_gmac_ops (pd_mactype pd) w = Inr (gmac_ops w0 ! unat (pd_mactype pd))"
    using assms(2) ops by (simp add: nss_dp_hal_get_gmac_ops_def aget_in)
  show ?thesis
  proof (cases "gmac_ops w0 ! unat (pd_mactype pd)")
    case None
    then show ?thesis
      using at_port_own(2) [OF assms(1), of "\<lambda>p d. wired n m p"] by (simp add: probe_hal_def get wired_def)
  next
    case (Some r)
    obtain c fl tr where i: "ho_init (de_hal e r) pd (dp_flags p) (nk_trace w) = (c, fl, tr)" by (metis prod_cases3)
    let ?w = "(upd_priv n (\<lambda>p. p\<lparr>gmac_hal_ctx := c, dp_flags := fl\<rparr>) (upd_priv n (\<lambda>p. p\<lparr>gmac_hal_ops := Some r\<rparr>) w))\<lparr>nk_trace := tr\<rparr>"
    have run: "probe_hal e n pd w = (if c = None then Inr (Failure, ?w) else Inr (Success, ?w))"
      using p i by (simp add: probe_hal_def get Some with_priv_def Let_def)
    have priv: "privs ?w n = Some (p\<lparr>gmac_hal_ops := Some r, gmac_hal_ctx := c, dp_flags := fl\<rparr>)" using p by simp
    have "at_port n w0 C (\<lambda>p d. wired n m p) ?w" using assms(1) p by (auto simp: at_port_def wired_def)
    moreover have "at_port n w0 C (\<lambda>p d. mac_ready e n m p \<and> phydev p = None) ?w" if "c \<noteq> None"
      using assms(1) p i that by (auto simp: at_port_def wired_def mac_ready_def)
    ultimately show ?thesis unfolding run by auto
  qed
qed

lemma phy_stage:
  assumes "at_port n w0 C (\<lambda>p d. mac_ready e n m p \<and> phydev p = None) w"
  shows "yields (\<lambda>(ret, w). at_port n w0 C (\<lambda>p d. mac_ready e n m p) w
      \<and> (\<not> failed ret \<longrightarrow> at_port n w0 C (\<lambda>p d. mac_ready e n m p \<and> (phydev p \<noteq> None) = link_poll p) w)) (probe_phy t n w)"
proof -
  obtain p d where p: "privs w n = Some p" "netdevs w n = Some d" "mac_ready e n m p" "phydev p = None"
    using assms(1) by (auto simp: at_port_def)
  show ?thesis
    using assms p unfolding probe_phy_def with_simps(3) [OF p(1)]
    by (auto simp: Let_def at_port_def mac_ready_def wired_def split: option.splits if_splits)
qed

lemma vsi_stage:
  assumes "at_port n w0 C (\<lambda>p d. mac_ready e n m p \<and> (phydev p \<noteq> None) = link_poll p) w"
  shows "yields (\<lambda>(ret, w). at_port n w0 C (\<lambda>p d. mac_ready e n m p \<and> (phydev p \<noteq> None) = link_poll p) w) (probe_vsi e t n w)"
  using assms at_port_own(2) [OF assms, of "\<lambda>p d. mac_ready e n m p \<and> (phydev p \<noteq> None) = link_poll p"]
  by (simp add: probe_vsi_def mac_ready_def wired_def split: option.splits)

section \<open>The whole probe\<close>

text \<open>The MAC gives its resources back after a successful start.\<close>

definition exits :: "'h nss_gmac_hal_ops \<Rightarrow> bool" where
  "exits h \<longleftrightarrow> (\<forall>pd fl tr c. fst (ho_init h pd fl tr) = Some c \<longrightarrow> (\<exists>f c' cs. ho_exit h = Some f \<and> f (Some c) = Inr (c', cs)))"

definition probe_failed :: "port_dt \<Rightarrow> nat \<Rightarrow> ('h, 's) dp_world \<Rightarrow> ('h, 's) dp_world \<Rightarrow> bool" where
  "probe_failed t n w0 w \<longleftrightarrow> netdevs w n = None \<and> privs w n = None \<and> nss_dp w = nss_dp w0 \<and> dp w = dp w0
     \<and> gmac_ops w = gmac_ops w0 \<and> nd_allocs w = Suc n
     \<and> (dp_ctx w = dp_ctx w0 \<or> (\<exists>m. pt_id t = Some m \<and> 0 < unat m \<and> dp_ctx w = (dp_ctx w0)[unat m - 1 := Some n]))
     \<and> (\<forall>m. m \<noteq> n \<longrightarrow> netdevs w m = netdevs w0 m \<and> privs w m = privs w0 m)"

definition probe_done :: "('h, 's, 'k) dp_env \<Rightarrow> u32 \<Rightarrow> nat \<Rightarrow> ('h, 's) dp_world \<Rightarrow> ('h, 's) dp_world \<Rightarrow> bool" where
  "probe_done e m n w0 w \<longleftrightarrow> 0 < unat m \<and> unat m \<le> de_max_ports e \<and> nss_dp w = (nss_dp w0)[unat m - 1 := Some n]
     \<and> dp_ctx w = (dp_ctx w0)[unat m - 1 := Some n] \<and> dp w = dp w0
     \<and> gmac_ops w = gmac_ops w0 \<and> nd_allocs w = Suc n
     \<and> (\<forall>k. k \<noteq> n \<longrightarrow> netdevs w k = netdevs w0 k \<and> privs w k = privs w0 k)
     \<and> (\<exists>p d. privs w n = Some p \<and> netdevs w n = Some d \<and> nd_registered d \<and> mac_ready e n m p \<and> (phydev p \<noteq> None) = link_poll p)"

lemma probe_fails:
  "at_port n w0 C Q w \<Longrightarrow> C = dp_ctx w0 \<or> (\<exists>m. pt_id t = Some m \<and> 0 < unat m \<and> C = (dp_ctx w0)[unat m - 1 := Some n]) \<Longrightarrow>
     yields (\<lambda>(ret, w). ret = Errno EFAULT \<and> probe_failed t n w0 w) (probe_fail n w)"
  by (auto simp: probe_fail_def probe_failed_def free_netdev_def at_port_def)

lemma hal_exit_stage:
  assumes "at_port n w0 C (\<lambda>p d. mac_ready e n m p) w" "\<And>r. exits (de_hal e r)"
  shows "yields (\<lambda>w. at_port n w0 C (\<lambda>p d. True) w) (hal_exit e n w)"
proof -
  obtain p d r c pd tr tr' where p: "privs w n = Some p" "gmac_hal_ops p = Some r" "gmac_hal_ctx p = Some c"
      "ho_init (de_hal e r) pd 0 tr = (Some c, dp_flags p, tr')"
    using assms(1) by (auto simp: at_port_def mac_ready_def)
  obtain f c' cs where f: "ho_exit (de_hal e r) = Some f" "f (Some c) = Inr (c', cs)"
    using assms(2) [of r] p(4) unfolding exits_def by (metis fst_conv)
  show ?thesis
    using p f assms(1) by (auto simp: hal_exit_def run_simps intro!: at_port_own(2,3) elim: at_port_weaken)
qed

definition probe_result ::
  "('h, 's, 'k) dp_env \<Rightarrow> port_dt \<Rightarrow> ('h, 's) dp_world \<Rightarrow> status \<times> ('h, 's) dp_world \<Rightarrow> bool" where
  "probe_result e t w = (\<lambda>(ret, w').
     if ret = Success then (\<exists>m. pt_id t = Some m \<and> probe_done e m (nd_allocs w) w w')
     else ret = Errno ENOMEM \<and> w' = w \<or> ret = Errno EFAULT \<and> probe_failed t (nd_allocs w) w w')"

lemma yields_must:
  assumes "yields (\<lambda>(ret, w). A w \<and> (\<not> failed ret \<longrightarrow> B w)) m" "\<And>w. A w \<Longrightarrow> yields R (x w)" "\<And>w. B w \<Longrightarrow> yields R (f w)"
  shows "yields R (bindR m (\<lambda>(ret, w). if failed ret then x w else f w))"
  using assms by (auto simp: yields_def)

text \<open>The probe, with its net device set up and the nested conditions flattened.\<close>

definition probe_start :: "nat \<Rightarrow> ('h, 's) dp_world \<Rightarrow> ('h, 's) dp_world" where
  "probe_start n w = nss_dp_switchdev_setup n (nss_dp_set_ethtool_ops n
    (w\<lparr>nd_allocs := n + 1, netdevs := (netdevs w)(n \<mapsto> fresh_netdev), privs := (privs w)(n \<mapsto> zero_dp_dev n)\<rparr>))"

lemma probe_start_blank: "at_port n w (dp_ctx w) (blank n) (probe_start n w)"
  by (auto simp: probe_start_def nss_dp_switchdev_setup_def nss_dp_set_ethtool_ops_def at_port_def blank_def zero_dp_dev_def)

definition probe_link :: "('h, 's, 'k) dp_env \<Rightarrow> nat \<Rightarrow> nat \<Rightarrow> nat option list \<Rightarrow> ('h, 's) dp_world \<Rightarrow> ('h, 's) dp_world" where
  "probe_link e n i C w = upd_priv n (\<lambda>p. p\<lparr>dpc := Some (Dpc_global i)\<rparr>)
     ((upd_priv n (\<lambda>p. p\<lparr>data_plane_ops := de_soc_ops e\<rparr>) w)\<lparr>dp_ctx := C\<rparr>)"

lemma probe_unfold:
  assumes "de_alloc_etherdev e (nd_allocs w)" "de_soc_ops e = Some Soc_ops" "n = nd_allocs w"
    "nss_dp_of_get_pdata e t n pd (probe_start n w) = (ret, pd', w2)" "i = unat (pd_macid pd') - 1"
  shows "nss_dp_probe e t pd w = (if failed ret then probe_fail n w2 else
      bindR (aset (dp_ctx w2) i (Some n)) (\<lambda>C.
      bindR (probe_hal e n pd' (probe_link e n i C w2)) (\<lambda>(ret, w).
      if failed ret then probe_fail n w
      else bindR (probe_phy t n w) (\<lambda>(ret, w).
      if failed ret then probe_fail n w
      else bindR (probe_vsi e t n w) (\<lambda>(ret, w).
      if failed ret then probe_fail n w
      else if \<not> pt_register t then bindR (hal_exit e n w) (probe_fail n)
      else bindR (aset (nss_dp w) i (Some n)) (\<lambda>ports.
        Inr (Success, (upd_dev n (\<lambda>d. d\<lparr>nd_registered := True\<rparr>) w)\<lparr>nss_dp := ports, slowproto_acl_bm := 0\<rparr>)))))))"
  using assms unfolding probe_start_def
  by (simp add: nss_dp_probe_def probe_link_def Let_def cong: if_cong)

text \<open>The stages in order, and the registration; \<open>C\<close> are the contexts with that of the new port.\<close>

lemma probe_result_fails:
  assumes "at_port (nd_allocs w) w C Q v"
    "C = dp_ctx w \<or> (\<exists>m. pt_id t = Some m \<and> 0 < unat m \<and> C = (dp_ctx w)[unat m - 1 := Some (nd_allocs w)])"
  shows "yields (probe_result e t w) (probe_fail (nd_allocs w) v)"
  using probe_fails [OF assms] by (auto simp: yields_def probe_result_def)

lemma probe_registers:
  assumes v: "at_port n w C (\<lambda>p d. mac_ready e n m p \<and> (phydev p \<noteq> None) = link_poll p) v"
    and m: "0 < unat m" "unat m \<le> de_max_ports e" "pt_id t = Some m"
    and C: "C = (dp_ctx w)[i := Some n]" "i = unat m - 1" "n = nd_allocs w" "i < length (nss_dp w)"
  shows "yields (probe_result e t w) (bindR (aset (nss_dp v) i (Some n)) (\<lambda>ports.
     Inr (Success, (upd_dev n (\<lambda>d. d\<lparr>nd_registered := True\<rparr>) v)\<lparr>nss_dp := ports, slowproto_acl_bm := 0\<rparr>)))"
proof -
  have "aset (nss_dp v) i (Some n) = Inr ((nss_dp w)[i := Some n])" using v C by (simp add: at_port_def aset_in)
  then show ?thesis using v m C by (auto simp: at_port_def probe_result_def probe_done_def)
qed

lemma probe_stages:
  assumes w3: "at_port n w C (\<lambda>p d. wired n m p \<and> phydev p = None \<and> dp_flags p = 0) w3"
    and ty: "unat (pd_mactype pd') < length (gmac_ops w)" and ex: "pt_register t \<or> (\<forall>r. exits (de_hal e r))"
    and fail: "\<And>Q v. at_port n w C Q v \<Longrightarrow> yields R (probe_fail n v)"
    and last: "\<And>v. at_port n w C (\<lambda>p d. mac_ready e n m p \<and> (phydev p \<noteq> None) = link_poll p) v \<Longrightarrow> yields R (register v)"
  shows "yields R (bindR (probe_hal e n pd' w3) (\<lambda>(ret, w). if failed ret then probe_fail n w
      else bindR (probe_phy t n w) (\<lambda>(ret, w). if failed ret then probe_fail n w
      else bindR (probe_vsi e t n w) (\<lambda>(ret, w). if failed ret then probe_fail n w
      else if \<not> pt_register t then bindR (hal_exit e n w) (probe_fail n) else register w))))"
proof (rule yields_must [OF hal_stage [OF w3 ty]], goal_cases)
  case (1 v) then show ?case by (rule fail)
next
  case v: (2 v)
  show ?case
  proof (rule yields_must [OF phy_stage [OF v]], goal_cases)
    case (1 u) then show ?case by (rule fail)
  next
    case u: (2 u)
    show ?case
    proof (rule yields_bind2 [OF vsi_stage [OF u]], goal_cases)
      case (1 r x)
      have "yields R (bindR (hal_exit e n x) (probe_fail n))" if "\<not> pt_register t"
      proof (rule yields_bind [OF hal_exit_stage [of n w C e m x]])
        show "at_port n w C (\<lambda>p d. mac_ready e n m p) x" by (rule at_port_weaken [OF 1]) simp
      qed (use ex that fail in auto)
      then show ?case using fail [OF 1] last [OF 1] by (intro yields_if) auto
    qed
  qed
qed

lemma probe_spec:
  assumes e: "de_soc_ops e = Some Soc_ops" "length (dp_ctx w) = de_max_ports e" "length (nss_dp w) = de_max_ports e"
    and ty: "\<And>ty. pt_mactype t = Some ty \<Longrightarrow> unat ty < length (gmac_ops w)"
    and ex: "pt_register t \<or> (\<forall>r. exits (de_hal e r))"
  shows "yields (probe_result e t w) (nss_dp_probe e t pd w)" (is "yields ?R _")
proof (cases "de_alloc_etherdev e (nd_allocs w)")
  case True
  define n where "n = nd_allocs w"
  note fail = probe_result_fails [of w _ _ _ t e, folded n_def]
  obtain ret pd' w2 where pd: "nss_dp_of_get_pdata e t n pd (probe_start n w) = (ret, pd', w2)" by (metis prod_cases3)
  note st = pdata_stage [OF probe_start_blank pd]
  define i where "i = unat (pd_macid pd') - 1"
  note run = probe_unfold [OF True e(1) n_def pd i_def]
  show ?thesis
  proof (cases "failed ret")
    case False
    then have ok: "ret = Success" using st(2) by auto
    let ?m = "pd_macid pd'" and ?C = "(dp_ctx w)[i := Some n]"
    have m: "0 < unat ?m" "unat ?m \<le> de_max_ports e" "pt_id t = Some ?m" "unat (pd_mactype pd') < length (gmac_ops w)"
      and w2: "at_port n w (dp_ctx w) (\<lambda>p d. blank n p d \<and> macid p = ?m) w2" using st(3) [OF ok] ty by auto
    have i: "i < length (dp_ctx w)" "i < length (nss_dp w)" using m e by (auto simp: i_def)
    have set: "aset (dp_ctx w2) i (Some n) = Inr ?C" using w2 i by (simp add: at_port_def aset_in)
    have w3: "at_port n w ?C (\<lambda>p d. wired n ?m p \<and> phydev p = None \<and> dp_flags p = 0) (probe_link e n i ?C w2)"
      using w2 e(1) by (auto simp: probe_link_def at_port_def wired_def blank_def i_def)
    show ?thesis
      unfolding run set bindR_Inr if_not_P [OF False]
    proof (rule probe_stages [OF w3 m(4) ex])
      show "yields ?R (probe_fail n v)" if "at_port n w ?C Q v" for Q v using m(1,3) by (intro fail [OF that]) (auto simp: i_def)
    qed (rule probe_registers [OF _ m(1-3) refl i_def n_def i(2)])
  qed (use fail [OF st(1)] run in simp)
qed (simp add: nss_dp_probe_def probe_result_def)

section \<open>When the probe succeeds\<close>

text \<open>A device tree node that is complete, and a kernel and a MAC that serve the port.\<close>

definition dt_complete :: "('h, 's, 'k) dp_env \<Rightarrow> port_dt \<Rightarrow> bool" where
  "dt_complete e t \<longleftrightarrow> (case pt_id t of None \<Rightarrow> False | Some m \<Rightarrow> 0 < unat m \<and> unat m \<le> de_max_ports e)
     \<and> pt_mactype t \<noteq> None \<and> pt_resource t \<noteq> None \<and> pt_register t \<and> (de_ppe e \<longrightarrow> pt_vsi_get t \<noteq> None)
     \<and> (pt_link_poll t \<longrightarrow> pt_mdio_addr t \<noteq> None \<and> nss_dp_mdio_attach t \<noteq> None \<and> pt_phy_connect t \<noteq> None)"

definition mac_starts :: "('h, 's, 'k) dp_env \<Rightarrow> port_dt \<Rightarrow> ('h, 's) dp_world \<Rightarrow> bool" where
  "mac_starts e t w \<longleftrightarrow> (\<exists>ty r. pt_mactype t = Some ty \<and> unat ty < length (gmac_ops w) \<and> gmac_ops w ! unat ty = Some r
     \<and> (\<forall>pd fl tr. fst (ho_init (de_hal e r) pd fl tr) \<noteq> None))"

lemma pdata_complete:
  assumes "dt_complete e t" "nss_dp_of_get_pdata e t n pd w = (ret, pd', w')"
  shows "ret = Success" "pt_mactype t = Some (pd_mactype pd')"
  using assms by (auto simp: nss_dp_of_get_pdata_def Let_def dt_complete_def unat_gt_0 split: option.splits if_splits prod.splits)

lemma hal_succeeds:
  assumes "nss_dp_hal_get_gmac_ops (pd_mactype pd) w = Inr (Some r)" "\<And>pd fl tr. fst (ho_init (de_hal e r) pd fl tr) \<noteq> None"
    "probe_hal e n pd w = Inr (ret, w')"
  shows "ret = Success"
  using assms by (auto simp: probe_hal_def with_priv_def Let_def split: option.splits prod.splits if_splits) (metis fst_conv option.distinct(1))

lemma poll_read:
  "nss_dp_of_get_pdata e t n pd w = (Success, pd', w') \<Longrightarrow> privs w n \<noteq> None \<Longrightarrow> map_option link_poll (privs w' n) = Some (pt_link_poll t)"
  by (auto simp: nss_dp_of_get_pdata_def Let_def split: option.splits if_splits prod.splits)

lemma poll_kept:
  "map_option link_poll (privs (probe_link e n i C w) n) = map_option link_poll (privs w n)"
  by (simp add: probe_link_def option.map_comp comp_def)

lemma poll_kept_hal:
  assumes "probe_hal e n pd w = Inr (ret, w')"
  shows "map_option link_poll (privs w' n) = map_option link_poll (privs w n)"
proof -
  obtain ops where ops: "nss_dp_hal_get_gmac_ops (pd_mactype pd) w = Inr ops" using assms by (auto simp: probe_hal_def bindR_eq_Inr)
  show ?thesis
    using assms by (cases ops) (auto simp: probe_hal_def ops with_priv_def Let_def option.map_comp comp_def split: option.splits prod.splits if_splits)
qed

lemma phy_succeeds:
  assumes "dt_complete e t" "privs w n = Some p" "link_poll p \<longrightarrow> pt_link_poll t" "probe_phy t n w = Inr (ret, w')"
  shows "ret = Success"
  using assms(1,3,4) unfolding probe_phy_def with_simps(3) [OF assms(2)]
  by (auto simp: Let_def dt_complete_def split: option.splits if_splits)

lemma probe_succeeds:
  assumes e: "de_soc_ops e = Some Soc_ops" "length (dp_ctx w) = de_max_ports e" "length (nss_dp w) = de_max_ports e"
    and a: "de_alloc_etherdev e (nd_allocs w)" "dt_complete e t" "mac_starts e t w"
  shows "\<exists>w'. nss_dp_probe e t pd w = Inr (Success, w')"
proof -
  define n where "n = nd_allocs w"
  obtain ret pd' w2 where pd: "nss_dp_of_get_pdata e t n pd (probe_start n w) = (ret, pd', w2)" by (metis prod_cases3)
  note ok = pdata_complete [OF a(2) pd] and st = pdata_stage [OF probe_start_blank pd]
  define i where "i = unat (pd_macid pd') - 1"
  obtain r where r: "unat (pd_mactype pd') < length (gmac_ops w)" "gmac_ops w ! unat (pd_mactype pd') = Some r"
      "\<And>pd fl tr. fst (ho_init (de_hal e r) pd fl tr) \<noteq> None"
    using a(3) ok(2) by (auto simp: mac_starts_def)
  have w2: "at_port n w (dp_ctx w) (\<lambda>p d. blank n p d \<and> macid p = pd_macid pd') w2" "0 < unat (pd_macid pd')" "unat (pd_macid pd') \<le> de_max_ports e"
    using st(3) [OF ok(1)] by auto
  have i: "i < length (dp_ctx w)" "i < length (nss_dp w)" using w2 e by (auto simp: i_def)
  let ?C = "(dp_ctx w)[i := Some n]" and ?m = "pd_macid pd'"
  define w3 where "w3 = probe_link e n i ?C w2"
  have w3: "at_port n w ?C (\<lambda>p d. wired n ?m p \<and> phydev p = None \<and> dp_flags p = 0) w3"
    using w2 e(1) by (auto simp: w3_def probe_link_def at_port_def wired_def blank_def i_def)
  obtain r4 w4 where w4: "probe_hal e n pd' w3 = Inr (r4, w4)" "\<not> failed r4 \<Longrightarrow> at_port n w ?C (\<lambda>p d. mac_ready e n ?m p \<and> phydev p = None) w4"
    using hal_stage [OF w3 r(1), of e] by (auto simp: yields_def)
  have get: "nss_dp_hal_get_gmac_ops (pd_mactype pd') w3 = Inr (Some r)"
    using w3 r by (simp add: at_port_def nss_dp_hal_get_gmac_ops_def aget_in)
  have r4: "r4 = Success" by (rule hal_succeeds [OF get r(3) w4(1)])
  obtain p4 where p4: "privs w4 n = Some p4" using w4(2) r4 by (auto simp: at_port_def)
  obtain r5 w5 where w5: "probe_phy t n w4 = Inr (r5, w5)"
      "\<not> failed r5 \<Longrightarrow> at_port n w ?C (\<lambda>p d. mac_ready e n ?m p \<and> (phydev p \<noteq> None) = link_poll p) w5"
    using phy_stage [OF w4(2), of t] r4 by (auto simp: yields_def)
  have "privs (probe_start n w) n \<noteq> None" using probe_start_blank [of n w] by (auto simp: at_port_def)
  then have "link_poll p4 = pt_link_poll t"
    using poll_read [of e t n pd "probe_start n w" pd' w2] poll_kept [of e n i ?C w2] poll_kept_hal [OF w4(1)] pd ok(1) p4
    by (auto simp: w3_def)
  then have r5: "r5 = Success" using phy_succeeds [OF a(2) p4 _ w5(1)] by simp
  obtain r6 w6 where w6: "probe_vsi e t n w5 = Inr (r6, w6)" "at_port n w ?C (\<lambda>p d. mac_ready e n ?m p \<and> (phydev p \<noteq> None) = link_poll p) w6"
    using vsi_stage [OF w5(2), of t] r5 by (auto simp: yields_def)
  have r6: "r6 = Success" using w6(1) a(2) by (auto simp: probe_vsi_def dt_complete_def split: if_splits option.splits)
  have sets: "aset (dp_ctx w2) i (Some n) = Inr ?C" "aset (nss_dp w6) i (Some n) = Inr ((nss_dp w)[i := Some n])" "pt_register t"
    using w2(1) w6(2) i a(2) by (simp_all add: at_port_def aset_in dt_complete_def)
  show ?thesis
    unfolding probe_unfold [OF a(1) e(1) n_def pd i_def]
    by (simp add: ok(1) sets w3_def [symmetric] w4(1) r4 w5(1) r5 w6(1) r6)
qed

section \<open>Removal\<close>

text \<open>A net device whose MAC can be stopped.\<close>

definition removable :: "('h, 's, 'k) dp_env \<Rightarrow> ('h, 's) dp_world \<Rightarrow> nat \<Rightarrow> bool" where
  "removable e w n \<longleftrightarrow> (\<exists>p r f c' cs. privs w n = Some p \<and> gmac_hal_ops p = Some r \<and> ho_exit (de_hal e r) = Some f
     \<and> f (gmac_hal_ctx p) = Inr (c', cs))"

lemma mac_ready_removable:
  assumes "\<And>r. exits (de_hal e r)" "privs w n = Some p" "mac_ready e n m p"
  shows "removable e w n"
proof -
  obtain r c pd tr tr' where p: "gmac_hal_ops p = Some r" "gmac_hal_ctx p = Some c" "ho_init (de_hal e r) pd 0 tr = (Some c, dp_flags p, tr')"
    using assms(3) by (auto simp: mac_ready_def)
  have "fst (ho_init (de_hal e r) pd 0 tr) = Some c" using p(3) by simp
  then obtain f c' cs where "ho_exit (de_hal e r) = Some f" "f (Some c) = Inr (c', cs)"
    using assms(1) [of r] unfolding exits_def by blast
  then show ?thesis using p assms(2) by (simp add: removable_def)
qed

lemma removable_frame: "privs w' n = privs w n \<Longrightarrow> removable e w' n = removable e w n"
  by (simp add: removable_def)

lemma remove_one_runs:
  assumes "i < length (nss_dp w)" "nss_dp w ! i = Some n" "removable e w n"
  shows "\<exists>w'. remove_one e i w = Inr w' \<and> nss_dp w' = (nss_dp w)[i := None] \<and> dp_ctx w' = dp_ctx w
    \<and> netdevs w' = (netdevs w)(n := None) \<and> privs w' = (privs w)(n := None)"
proof -
  obtain p r f c' cs where p: "privs w n = Some p" "gmac_hal_ops p = Some r" "ho_exit (de_hal e r) = Some f" "f (gmac_hal_ctx p) = Inr (c', cs)"
    using assms(3) by (auto simp: removable_def)
  show ?thesis
    using p assms by (simp add: remove_one_def aget_in Let_def run_simps hal_exit_def free_netdev_def aset_in)
qed

text \<open>The ports before index \<open>j\<close> have been removed from \<open>w\<close>.\<close>

definition removed :: "('h, 's) dp_world \<Rightarrow> nat \<Rightarrow> ('h, 's) dp_world \<Rightarrow> bool" where
  "removed w j v \<longleftrightarrow> dp_ctx v = dp_ctx w \<and> length (nss_dp v) = length (nss_dp w)
     \<and> (\<forall>i < length (nss_dp w). nss_dp v ! i = (if i < j then None else nss_dp w ! i))
     \<and> (\<forall>i n. i < length (nss_dp w) \<longrightarrow> nss_dp w ! i = Some n \<longrightarrow>
          (if i < j then privs v n = None \<and> netdevs v n = None else privs v n = privs w n))"

text \<open>The ports in the table are distinct net devices, each with a MAC that can be stopped.\<close>

definition ports_removable :: "('h, 's, 'k) dp_env \<Rightarrow> ('h, 's) dp_world \<Rightarrow> bool" where
  "ports_removable e w \<longleftrightarrow> length (nss_dp w) = de_max_ports e
     \<and> (\<forall>i n. i < length (nss_dp w) \<longrightarrow> nss_dp w ! i = Some n \<longrightarrow> removable e w n)
     \<and> (\<forall>i j n. i < length (nss_dp w) \<longrightarrow> j < length (nss_dp w) \<longrightarrow> nss_dp w ! i = Some n \<longrightarrow> nss_dp w ! j = Some n \<longrightarrow> i = j)"

lemma remove_step:
  assumes ok: "ports_removable e w"
    and v: "removed w j v" "j < length (nss_dp w)"
  shows "yields (removed w (Suc j)) (remove_one e j v)"
proof (cases "nss_dp w ! j")
  case None
  then show ?thesis
    using v by (auto simp: removed_def remove_one_def aget_in less_Suc_eq)
next
  case (Some n)
  have "removable e v n" using ok v Some removable_frame [of v n w e] by (auto simp: removed_def ports_removable_def)
  then obtain u where u: "remove_one e j v = Inr u" "nss_dp u = (nss_dp v)[j := None]" "dp_ctx u = dp_ctx v"
      "netdevs u = (netdevs v)(n := None)" "privs u = (privs v)(n := None)"
    using remove_one_runs [of j v n e] v Some by (auto simp: removed_def)
  have "removed w (Suc j) u"
    using v u Some ok unfolding removed_def ports_removable_def by (auto simp: nth_list_update less_Suc_eq split: if_splits)
  then show ?thesis using u(1) by simp
qed

lemma remove_spec:
  assumes "ports_removable e w"
  shows "\<exists>w'. nss_dp_remove e w = Inr (Success, w') \<and> removed w (de_max_ports e) w'"
proof -
  have "yields (removed w (0 + de_max_ports e)) (for_upto 0 (de_max_ports e) (remove_one e) w)"
  proof (rule yields_upto_index)
    fix i v assume "0 \<le> i" "i < 0 + de_max_ports e" "removed w i v"
    then show "yields (removed w (Suc i)) (remove_one e i v)" using remove_step [OF assms] assms by (simp add: ports_removable_def)
  qed (simp add: removed_def)
  then show ?thesis by (auto simp: nss_dp_remove_def yields_def)
qed

text \<open>A MAC without an \<open>exit\<close> entry: the removal of the first port in the table is a call through a NULL pointer.\<close>

lemma remove_null:
  assumes "i < de_max_ports e" "length (nss_dp w) = de_max_ports e" "\<And>j. j < i \<Longrightarrow> nss_dp w ! j = None"
    "nss_dp w ! i = Some n" "privs w n = Some p" "gmac_hal_ops p = Some r" "ho_exit (de_hal e r) = None"
  shows "nss_dp_remove e w = Inl Null_Pointer"
proof -
  have "for_upto a m (remove_one e) w = Inl Null_Pointer" if "a \<le> i" "i < a + m" for a m
    using that
  proof (induction m arbitrary: a)
    case (Suc m)
    show ?case
    proof (cases "a = i")
      case True
      then show ?thesis using assms by (simp add: remove_one_def aget_in run_simps hal_exit_def Let_def)
    next
      case False
      then show ?thesis using Suc assms(1-3) by (simp add: remove_one_def aget_in)
    qed
  qed simp
  then show ?thesis using assms(1) by (simp add: nss_dp_remove_def)
qed

end
