(* ===== verification/Dp_Fleet.thy ===== *)
theory Dp_Fleet
  imports Dp_Life Dp_Probe
begin

text \<open>
  All the ports of a SoC together: ports that come and live side by side on one data plane. The condition \<open>fleet\<close> on the
  whole driver is kept by every probe and by every event on every port, and each of them leaves the other ports alone.
\<close>

section \<open>The ports of a SoC\<close>

definition tables_ok :: "('h, 's, 'k) dp_env \<Rightarrow> ('h, 's) dp_world \<Rightarrow> bool" where
  "tables_ok e w \<longleftrightarrow> length (nss_dp w) = de_max_ports e \<and> length (dp_ctx w) = de_max_ports e \<and> length (gmac_ops w) = 3"

text \<open>
  A port in the table: it meets the condition \<open>I\<close> of the data plane, its number and its context are those of its place
  in the table, and it has a carrier only while it is up with its link up, once it has been opened.
\<close>

definition in_place ::
  "(nat \<Rightarrow> ('h, 's) dp_world \<Rightarrow> bool) \<Rightarrow> nat \<Rightarrow> nat \<Rightarrow> ('h, 's) dp_world \<Rightarrow> bool" where
  "in_place I i n w \<longleftrightarrow> n < nd_allocs w \<and> I n w \<and> dp_ctx w ! i = Some n
     \<and> (\<exists>p d. privs w n = Some p \<and> netdevs w n = Some d \<and> unat (macid p) = Suc i
        \<and> dpc p = Some (Dpc_global i) \<and> port_sane p d)"

definition fleet ::
  "('h, 's, 'k) dp_env \<Rightarrow> (nat \<Rightarrow> ('h, 's) dp_world \<Rightarrow> bool) \<Rightarrow> ('s \<Rightarrow> bool) \<Rightarrow> ('h, 's) dp_world \<Rightarrow> bool" where
  "fleet e I B w \<longleftrightarrow> tables_ok e w \<and> B (dp w)
     \<and> (\<forall>i n. i < de_max_ports e \<longrightarrow> nss_dp w ! i = Some n \<longrightarrow> in_place I i n w)"

lemma fleetD:
  assumes "fleet e I B w"
  shows "tables_ok e w" "B (dp w)" "i < de_max_ports e \<Longrightarrow> nss_dp w ! i = Some n \<Longrightarrow> in_place I i n w"
  using assms by (simp_all add: fleet_def)

text \<open>A net device has one place.\<close>

lemma in_place_unique: "in_place I i n w \<Longrightarrow> in_place I j n w \<Longrightarrow> i = j"
  by (auto simp: in_place_def)

text \<open>
  A device tree node the probe copes with: its MAC type is one of the three entries of the table, and its registration
  succeeds where the MAC cannot be stopped. A node the driver is given in the course of its life has a place in the
  table that is free, too.
\<close>

definition node_probes :: "('h, 's, 'k) dp_env \<Rightarrow> port_dt \<Rightarrow> bool" where
  "node_probes e t \<longleftrightarrow> (\<forall>ty. pt_mactype t = Some ty \<longrightarrow> unat ty < 3) \<and> (pt_register t \<or> (\<forall>r. exits (de_hal e r)))"

definition node_ok :: "('h, 's, 'k) dp_env \<Rightarrow> port_dt \<Rightarrow> ('h, 's) dp_world \<Rightarrow> bool" where
  "node_ok e t w \<longleftrightarrow> node_probes e t
     \<and> (\<forall>m. pt_id t = Some m \<longrightarrow> 0 < unat m \<longrightarrow> unat m \<le> de_max_ports e \<longrightarrow> nss_dp w ! (unat m - 1) = None)"

text \<open>What the driver goes through after its start: probes of nodes, and events on the ports of the table, in any order.\<close>

inductive soc_reach :: "('h, 's, 'k) dp_env \<Rightarrow> ('h, 's) dp_world \<Rightarrow> ('h, 's) dp_world \<Rightarrow> bool"
  for e :: "('h, 's, 'k) dp_env" and w0 :: "('h, 's) dp_world" where
  start: "soc_reach e w0 w0"
| probe: "soc_reach e w0 w \<Longrightarrow> node_ok e t w \<Longrightarrow> nss_dp_probe e t pd w = Inr (ret, w') \<Longrightarrow> soc_reach e w0 w'"
| event: "soc_reach e w0 w \<Longrightarrow> i < de_max_ports e \<Longrightarrow> nss_dp w ! i = Some n \<Longrightarrow> port_step e n ev w = Inr w' \<Longrightarrow> soc_reach e w0 w'"

text \<open>
  The ports of the table are there, each with the number and the context of its place, and every event on one of them
  returns and leaves the others alone: their net devices and private parts, and their parts of the data plane (\<open>R m\<close>
  is what the port of number \<open>m\<close> may do to the state of the data plane).
\<close>

definition ports_live :: "('h, 's, 'k) dp_env \<Rightarrow> (u32 \<Rightarrow> 's \<Rightarrow> 's \<Rightarrow> bool) \<Rightarrow> ('h, 's) dp_world \<Rightarrow> bool" where
  "ports_live e R w \<longleftrightarrow> (\<forall>i n. i < de_max_ports e \<longrightarrow> nss_dp w ! i = Some n \<longrightarrow>
     (\<exists>p d. privs w n = Some p \<and> netdevs w n = Some d \<and> port_sane p d \<and> unat (macid p) = Suc i \<and> dpc p = Some (Dpc_global i)
       \<and> dp_ctx w ! i = Some n
       \<and> (\<forall>ev. \<exists>w'. port_step e n ev w = Inr w' \<and> frame n w w' \<and> R (macid p) (dp w) (dp w'))))"

section \<open>The contract of a SoC\<close>

text \<open>
  What a SoC adds to the contract of its data plane. \<open>B\<close> is the part of the condition of a port that is about the data
  plane as a whole: a port stays good when the rest changes, as long as \<open>B\<close> holds and the port and its context are as
  before. A port that has just been probed is good, and no MAC marks its port as up.
\<close>

locale soc_driver = data_plane_parts e I R
  for e :: "('h, 's, 'k) dp_env" and I :: "nat \<Rightarrow> ('h, 's) dp_world \<Rightarrow> bool" and R :: "u32 \<Rightarrow> 's \<Rightarrow> 's \<Rightarrow> bool" +
  fixes B :: "'s \<Rightarrow> bool"
  assumes soc_ops: "de_soc_ops e = Some Soc_ops"
    and base: "I n w \<Longrightarrow> B (dp w)"
    and linked: "I n w \<Longrightarrow> privs w n = Some p \<Longrightarrow> port_linked n w p"
    and share: "I n w \<Longrightarrow> B (dp w') \<Longrightarrow> privs w' n = privs w n \<Longrightarrow> netdevs w' n = netdevs w n \<Longrightarrow> privs w n = Some p
          \<Longrightarrow> port_linked n w' p \<Longrightarrow> I n w'"
    and probed: "tables_ok e w \<Longrightarrow> B (dp w) \<Longrightarrow> probe_done e i n w w' \<Longrightarrow> I n w'"
    and mac_flags: "ho_init (de_hal e r) pd 0 tr = (c, fl, tr') \<Longrightarrow> \<not> bit fl 0"
begin

lemma in_place_other:
  assumes "in_place I i m w" "i < length (dp_ctx w')" "dp_ctx w' ! i = Some m" "B (dp w')" "privs w' m = privs w m"
    "netdevs w' m = netdevs w m" "nd_allocs w \<le> nd_allocs w'"
  shows "in_place I i m w'"
proof -
  obtain p d where p: "m < nd_allocs w" "I m w" "privs w m = Some p" "netdevs w m = Some d" "dpc p = Some (Dpc_global i)" "port_sane p d"
      "unat (macid p) = Suc i"
    using assms(1) by (auto simp: in_place_def)
  have "port_linked m w' p" using linked [OF p(2,3)] assms(2,3) p(5) by (simp add: port_linked_def)
  then have "I m w'" by (rule share [OF p(2) assms(4-6) p(3)])
  then show ?thesis using p assms by (auto simp: in_place_def)
qed

text \<open>An event on a port of the table.\<close>

lemma event_ok:
  assumes "fleet e I B w" "i < de_max_ports e" "nss_dp w ! i = Some n"
  shows "\<exists>w'. port_step e n ev w = Inr w' \<and> fleet e I B w' \<and> frame n w w' \<and> (\<forall>p. privs w n = Some p \<longrightarrow> R (macid p) (dp w) (dp w'))"
proof -
  note f = fleetD [OF assms(1)] and here = fleetD(3) [OF assms]
  then obtain p d where p: "n < nd_allocs w" "dp_ctx w ! i = Some n" "privs w n = Some p" "dpc p = Some (Dpc_global i)" "port_is n w port_sane"
      "unat (macid p) = Suc i"
    by (auto simp: in_place_def port_is_def)
  obtain w' where w': "port_step e n ev w = Inr w'" "port_is n w' port_sane" "frame n w w'" using port_step_frame [OF p(5)] by blast
  have o: "others n w w'" and c: "map_option wiring (privs w' n) = Some (wiring p)"
    using w'(3) p(3) by (simp_all add: frame_def)
  have I: "I n w'" using w'(2) by (simp add: port_is_def)
  have t: "tables_ok e w'" using f(1) o by (simp add: tables_ok_def others_def)
  have "in_place I j m w'" if j: "j < de_max_ports e" "nss_dp w' ! j = Some m" for j m
  proof (cases "m = n")
    case True
    have "in_place I j m w" using f(3) j o by (simp add: others_def)
    then have "j = i" using in_place_unique [OF _ here] True by simp
    then show ?thesis using True w'(2) c p o by (auto simp: in_place_def port_is_def others_def wiring_def)
  next
    case False
    have m: "in_place I j m w" using f(3) j o by (simp add: others_def)
    show ?thesis
      by (rule in_place_other [OF m]) (use False j o m base [OF I] t in \<open>auto simp: others_def in_place_def tables_ok_def\<close>)
  qed
  then have "fleet e I B w'" using t base [OF I] by (auto simp: fleet_def)
  then show ?thesis using w' port_step_within [OF p(5) _ w'(1)] by blast
qed

text \<open>The probe of a port: one that fails leaves the ports of the table alone, and so does one that succeeds.\<close>

lemma probe_others:
  assumes "fleet e I B w" "node_ok e t w" "dp w' = dp w" "nd_allocs w' = Suc (nd_allocs w)" "tables_ok e w'"
    "\<And>m. m \<noteq> nd_allocs w \<Longrightarrow> netdevs w' m = netdevs w m \<and> privs w' m = privs w m"
    "dp_ctx w' = dp_ctx w \<or> (\<exists>m. pt_id t = Some m \<and> 0 < unat m \<and> dp_ctx w' = (dp_ctx w)[unat m - 1 := Some (nd_allocs w)])"
    "i < de_max_ports e" "nss_dp w ! i = Some n"
  shows "in_place I i n w'"
proof -
  have here: "in_place I i n w" by (rule fleetD(3) [OF assms(1,8,9)])
  have "unat m - 1 \<noteq> i" if "pt_id t = Some m" "0 < unat m" for m
    using assms(2,8,9) that by (auto simp: node_ok_def)
  then have "dp_ctx w' ! i = Some n" using assms(7) here by (auto simp: in_place_def)
  moreover have "n \<noteq> nd_allocs w" using here by (auto simp: in_place_def)
  ultimately show ?thesis
    using assms fleetD(2) [OF assms(1)] by (intro in_place_other [OF here]) (auto simp: tables_ok_def)
qed

lemma probed_in_place:
  assumes "tables_ok e w" "B (dp w)" "probe_done e m n w w'"
  shows "in_place I (unat m - 1) n w'"
proof -
  obtain p d where p: "privs w' n = Some p" "netdevs w' n = Some d" "mac_ready e n m p" using assms(3) by (auto simp: probe_done_def)
  have "port_sane p d" using p(3) mac_flags by (auto simp: mac_ready_def wired_def port_sane_def unopened_def)
  then show ?thesis
    using p assms(1,3) probed [OF assms] by (auto simp: in_place_def probe_done_def mac_ready_def wired_def tables_ok_def)
qed

lemma probe_returns:
  assumes "fleet e I B w" "node_probes e t"
  shows "\<exists>ret w'. nss_dp_probe e t pd w = Inr (ret, w') \<and> probe_result e t w (ret, w')"
proof -
  have "yields (probe_result e t w) (nss_dp_probe e t pd w)"
    by (rule probe_spec) (use fleetD(1) [OF assms(1)] assms(2) soc_ops in \<open>auto simp: tables_ok_def node_probes_def\<close>)
  then show ?thesis by (auto simp: yields_def)
qed

lemma probe_ok:
  assumes "fleet e I B w" "node_ok e t w"
  shows "\<exists>ret w'. nss_dp_probe e t pd w = Inr (ret, w') \<and> fleet e I B w' \<and> probe_result e t w (ret, w')"
proof -
  note f = fleetD [OF assms(1)]
  obtain ret w' where w': "nss_dp_probe e t pd w = Inr (ret, w')" "probe_result e t w (ret, w')"
    using probe_returns [OF assms(1), of t pd] assms(2) unfolding node_ok_def by blast
  consider (same) "w' = w" | (failed) "probe_failed t (nd_allocs w) w w'"
    | (good) m where "pt_id t = Some m" "probe_done e m (nd_allocs w) w w'"
    using w'(2) by (auto simp: probe_result_def split: if_splits)
  then have "fleet e I B w'"
  proof cases
    case failed
    then have t: "tables_ok e w'" using f(1) by (auto simp: probe_failed_def tables_ok_def)
    show ?thesis
      using t failed f(2) probe_others [OF assms _ _ t] by (simp add: fleet_def probe_failed_def)
  next
    case good
    then have t: "tables_ok e w'" using f(1) by (auto simp: probe_done_def tables_ok_def)
    have "in_place I i n w'" if i: "i < de_max_ports e" "nss_dp w' ! i = Some n" for i n
    proof (cases "i = unat m - 1")
      case True
      then have "n = nd_allocs w" using i good(2) f(1) by (auto simp: probe_done_def tables_ok_def)
      then show ?thesis using probed_in_place [OF f(1,2) good(2)] True by simp
    next
      case False
      then have "nss_dp w ! i = Some n" using i(2) good(2) by (simp add: probe_done_def)
      then show ?thesis using i(1) good t by (intro probe_others [OF assms]) (auto simp: probe_done_def)
    qed
    then show ?thesis using t good f(2) by (simp add: fleet_def probe_done_def)
  qed (use assms in simp)
  then show ?thesis using w' by blast
qed

lemma fleet_live:
  assumes "fleet e I B w"
  shows "ports_live e R w"
  unfolding ports_live_def
proof (intro allI impI)
  fix i n assume i: "i < de_max_ports e" "nss_dp w ! i = Some n"
  obtain p d where p: "privs w n = Some p" "netdevs w n = Some d" "port_sane p d" "unat (macid p) = Suc i" "dpc p = Some (Dpc_global i)"
      "dp_ctx w ! i = Some n"
    using fleetD(3) [OF assms i] by (auto simp: in_place_def)
  then show "\<exists>p d. privs w n = Some p \<and> netdevs w n = Some d \<and> port_sane p d \<and> unat (macid p) = Suc i \<and> dpc p = Some (Dpc_global i)
      \<and> dp_ctx w ! i = Some n \<and> (\<forall>ev. \<exists>w'. port_step e n ev w = Inr w' \<and> frame n w w' \<and> R (macid p) (dp w) (dp w'))"
    using event_ok [OF assms i] by blast
qed

lemma probe_result_ops: "probe_result e t w (ret, w') \<Longrightarrow> gmac_ops w' = gmac_ops w"
  by (auto simp: probe_result_def probe_failed_def probe_done_def split: if_splits)

lemma reach_ok:
  assumes "soc_reach e w0 w" "fleet e I B w0"
  shows "fleet e I B w \<and> gmac_ops w = gmac_ops w0"
  using assms
proof (induction rule: soc_reach.induct)
  case (probe w t pd ret w')
  then show ?case using probe_ok [of w t pd] probe_result_ops [of t w ret w'] by auto
next
  case (event w i n ev w')
  then show ?case using event_ok [of w i n ev] by (auto simp: frame_def others_def)
qed simp

end

end
