(* ===== verification/Gmac_Driver.thy ===== *)
theory Gmac_Driver
  imports Gmac_Port Dp_Fleet
begin

text \<open>
  The whole driver on ipq50xx: from the start of the module through the probe of a port to its life, with the GMAC
  data plane and the 1G MAC below it, NAPI polls and transmission, and the hand-over of a port to an overlay and back.
\<close>

section \<open>From the start of the module to a port\<close>

text \<open>The globals of the SoC before the module starts: arrays of two ports, none in use.\<close>

definition gmac_boot :: "gmac_world \<Rightarrow> bool" where
  "gmac_boot w \<longleftrightarrow> length (gmac_ops w) = 3 \<and> length (dp_ctx w) = 2 \<and> length (nss_dp w) = 2 \<and> length (dp w) = 2 \<and> lists_ok (dp w)"

lemma gmac_hal_init_runs:
  assumes "gmac_boot w"
  shows "\<exists>w1. nss_dp_init True (gmac_hal_init i) r w = Inr (r, w1) \<and> gmac_boot w1 \<and> gmac_ops w1 ! 2 = Some Syn_hal_ops
    \<and> netdevs w1 = netdevs w \<and> privs w1 = privs w \<and> nd_allocs w1 = nd_allocs w \<and> nss_dp w1 = nss_dp w \<and> common_init_done w1"
  using assms by (simp add: nss_dp_init_def gmac_hal_init_def nss_dp_hal_set_gmac_ops_def aset_in gmac_boot_def nss_dp_hal_tcsr_set_def Let_def)

lemma gmac_init_memres:
  assumes "fst (Syn_Gmac.syn_init env clk dup pd fl p) = Some d"
  shows "nghd_memres d \<noteq> None"
  using assms
  by (auto simp: Syn_Gmac.syn_init_def Let_def split_beta gmac_init_ops split: option.splits if_splits)

lemma gmac_init_held:
  assumes "Syn_Gmac.syn_init env clk dup pd fl tr = (Some d, fl', tr')"
  shows "nghd_memres d \<noteq> None"
  by (rule gmac_init_memres [of env clk dup pd fl tr]) (simp add: assms)

lemma gmac_exits: "exits (syn_gmac_hal_ops i)"
  using gmac_init_memres by (fastforce simp: exits_def syn_gmac_hal_ops_def Syn_Gmac.syn_exit_def split: option.splits)

lemma gmac_probe_spec:
  assumes "gmac_boot w" "\<And>ty. pt_mactype t = Some ty \<Longrightarrow> ty < 3"
  shows "yields (probe_result (gmac_env k q i x) t w) (nss_dp_probe (gmac_env k q i x) t pd w)"
proof (rule probe_spec)
  show "unat ty < length (gmac_ops w)" if "pt_mactype t = Some ty" for ty
    using assms(2) [OF that] assms(1) by (simp add: gmac_boot_def word_less_nat_alt)
  show "pt_register t \<or> (\<forall>r. exits (de_hal (gmac_env k q i x) r))" by (simp add: gmac_env_def gmac_exits)
qed (use assms(1) in \<open>simp_all add: gmac_boot_def gmac_env_def\<close>)

text \<open>A kernel with memory for the net device, and a platform with the resources of a MAC.\<close>

definition mac_env_ok :: "plat_env \<Rightarrow> bool" where
  "mac_env_ok env \<longleftrightarrow> pe_resource env \<noteq> None \<and> pe_kzalloc env \<and> pe_request_mem_region env \<noteq> None \<and> pe_ioremap env \<noteq> 0"

definition gmac_served :: "ipq50xx_plat \<Rightarrow> (Syn_Gmac.syn_hal_dev, syn_state list, sk_buff) kernel_env \<Rightarrow> port_dt \<Rightarrow> gmac_world \<Rightarrow> bool" where
  "gmac_served i x t w \<longleftrightarrow> ke_alloc_etherdev x (nd_allocs w) \<and> pt_mactype t = Some 2 \<and> (\<forall>m. mac_env_ok (iq_env i m))"

lemma gmac_probe_succeeds:
  assumes "gmac_boot w" "gmac_ops w ! 2 = Some Syn_hal_ops" "gmac_served i x t w" "dt_complete (gmac_env k q i x) t"
  shows "\<exists>w'. nss_dp_probe (gmac_env k q i x) t pd w = Inr (Success, w')"
proof (rule probe_succeeds)
  have "fst (ho_init (syn_gmac_hal_ops i) pd fl tr) \<noteq> None" for pd fl tr
    using assms(3) by (auto simp: gmac_served_def mac_env_ok_def syn_gmac_hal_ops_def Syn_Gmac.syn_init_def Let_def split_beta split: option.splits)
  then show "mac_starts (gmac_env k q i x) t w"
    using assms(1-3) by (auto simp: mac_starts_def gmac_served_def gmac_env_def gmac_boot_def)
qed (use assms in \<open>simp_all add: gmac_boot_def gmac_env_def gmac_served_def\<close>)

lemma gmac_probe_done:
  assumes "gmac_boot w" "probe_done (gmac_env k q i x) m n w w'"
  shows "gmac_port n w'"
proof -
  obtain p d where p: "privs w' n = Some p" "netdevs w' n = Some d" "mac_ready (gmac_env k q i x) n m p"
    using assms(2) by (auto simp: probe_done_def)
  have m: "0 < unat m" "unat m \<le> 2" "dp_ctx w' = (dp_ctx w)[unat m - 1 := Some n]" "dp w' = dp w"
    using assms(2) by (simp_all add: probe_done_def gmac_env_def)
  have "unat (m - 1) = unat m - 1" using m(1) by (simp add: unat_minus_one unat_gt_0)
  moreover have "mac_held p"
    using p(3) by (auto simp: mac_held_def mac_ready_def gmac_env_def syn_gmac_hal_ops_def dest: gmac_init_held)
  ultimately show ?thesis
    using p m assms(1) by (auto simp: gmac_port_def port_linked_def mac_ready_def wired_def info_index_def gmac_boot_def)
qed

section \<open>The ports of ipq50xx together\<close>

definition gmac_lists :: "syn_state list \<Rightarrow> bool" where
  "gmac_lists sts \<longleftrightarrow> lists_ok sts \<and> length sts = 2"

lemma gmac_mac_flags:
  assumes "Syn_Gmac.syn_init env clk dup pd 0 tr = (c, fl, tr')"
  shows "\<not> bit fl 0"
proof -
  have "fl = 0 \<or> fl = set_bit NSS_DP_RXCSUM 0"
    using assms by (auto simp: Syn_Gmac.syn_init_def Let_def split: option.splits if_splits prod.splits)
  then show ?thesis by (auto simp: bit_set_bit_iff)
qed

interpretation gmac_soc: soc_driver "gmac_env k q i x" gmac_port gmac_apart gmac_lists
proof (unfold_locales, goal_cases)
  case 1 show ?case by (simp add: gmac_env_def)
next
  case (2 n w) then show ?case by (simp add: gmac_port_def gmac_lists_def)
next
  case (3 n w p) then show ?case by (auto simp: gmac_port_def)
next
  case (4 n w w' p) then show ?case by (auto simp: gmac_port_def gmac_lists_def)
next
  case (5 w m n w')
  then have "gmac_boot w" by (simp add: tables_ok_def gmac_lists_def gmac_boot_def gmac_env_def)
  then show ?case using 5(3) by (rule gmac_probe_done)
next
  case (6 r pd tr c fl tr') then show ?case by (auto simp: gmac_env_def syn_gmac_hal_ops_def dest: gmac_mac_flags)
qed

section \<open>Concrete states\<close>

definition demo_plat :: syn_plat where
  "demo_plat = \<lparr>sp_irq = (\<lambda>n. 40 + of_nat n), sp_request_irq_fails = (\<lambda>_. False), sp_csum_features = 3, sp_overlay_dev = (\<lambda>_. None)\<rparr>"

definition demo_soc :: ipq50xx_plat where
  "demo_soc = \<lparr>iq_common_node = True, iq_tcsr_base = Some 0x1937000, iq_scm_available = True, iq_scm_write_ok = True,
     iq_ioremap_ok = True, iq_clk_get_ok = True, iq_clk_enable_ok = True,
     iq_env = (\<lambda>_. \<lparr>pe_resource = Some 1, pe_resource_size = 0x10000, pe_request_mem_region = Some 1, pe_kzalloc = True,
        pe_ioremap = 0x39c00000, pe_window = (\<lambda>_. 0)\<rparr>),
     iq_duplex_full = 1, iq_gstring_len = 32\<rparr>"

definition demo_kenv :: "('h, 's, 'k) kernel_env" where
  "demo_kenv = \<lparr>ke_overlay = (\<lambda>_. \<lparr>op_init = None, op_open = None, op_close = None, op_link_state = None, op_mac_addr = None,
       op_change_mtu = None, op_xmit = None, op_set_features = None, op_pause_on_off = None, op_vsi_assign = None,
       op_vsi_unassign = None, op_rx_flow_steer = None, op_get_stats = None, op_deinit = None\<rparr>),
     ke_overlay_dev = (\<lambda>_. None), ke_mii_ioctl = (\<lambda>_ _. Success), ke_prepare_mac = (\<lambda>_ _. Success),
     ke_alloc_etherdev = (\<lambda>_. True), ke_valid_addr = (\<lambda>_. True)\<rparr>"

abbreviation "demo_env \<equiv> gmac_env demo_kernel demo_plat demo_soc demo_kenv"

definition demo_node :: "u32 \<Rightarrow> port_dt" where
  "demo_node m = \<lparr>pt_id = Some m, pt_mactype = Some 2, pt_resource = Some (0x39c00000, 0x10000), pt_phy_mode = 0, pt_link_poll = False,
     pt_mdio_addr = None, pt_forced_speed = None, pt_forced_duplex = None, pt_mac = Some (Eth 2 0 0 0 0 1), pt_random = Eth 2 9 9 9 9 9,
     pt_mdio_bus = None, pt_mdio_node = False, pt_mdio_plat = False, pt_mdio_data = None, pt_phy_connect = None,
     pt_vsi_get = None, pt_register = True\<rparr>"

definition demo_pdata :: gmac_hal_platform_data where
  "demo_pdata = \<lparr>pd_netdev = 0, pd_reg_len = 0, pd_mactype = 0, pd_macid = 0\<rparr>"

definition demo_gmac_boot :: gmac_world where
  "demo_gmac_boot = \<lparr>netdevs = (\<lambda>_. None), privs = (\<lambda>_. None), nd_allocs = 0, nss_dp = [None, None],
     gmac_ops = [None, None, None], common_init_done = False, slowproto_acl_bm = 0, dp_ctx = [None, None],
     switch_init_done = False, nk_trace = [], dp = [fresh_port, fresh_port]\<rparr>"

lemma demo_gmac_boots: "gmac_boot demo_gmac_boot"
  by (simp add: gmac_boot_def demo_gmac_boot_def lists_ok_def fresh_port_def)

text \<open>A port of number \<open>m\<close> on net device 0, with its MAC started.\<close>

definition demo_gmac_dev :: "u32 \<Rightarrow> Syn_Gmac.syn_hal_dev nss_dp_dev" where
  "demo_gmac_dev m = (zero_dp_dev 0)\<lparr>macid := m, data_plane_ops := Some Soc_ops, dpc := Some (Dpc_global (unat m - 1)),
     gmac_hal_ops := Some Syn_hal_ops, gmac_hal_ctx := Some (demo_mac\<lparr>nghd_memres := Some 1\<rparr>)\<rparr>"

definition demo_gmac_world :: "u32 \<Rightarrow> gmac_world" where
  "demo_gmac_world m = demo_gmac_boot\<lparr>netdevs := [0 \<mapsto> fresh_netdev], privs := [0 \<mapsto> demo_gmac_dev m], nd_allocs := 1,
     nss_dp := [None, None][unat m - 1 := Some 0], gmac_ops := [None, None, Some Syn_hal_ops],
     dp_ctx := [None, None][unat m - 1 := Some 0]\<rparr>"

lemma demo_gmac_port: "gmac_port 0 (demo_gmac_world 1)" "gmac_port 0 (demo_gmac_world 2)"
  by (simp_all add: gmac_port_def port_linked_def info_index_def demo_gmac_world_def demo_gmac_dev_def demo_gmac_boot_def
      lists_ok_def fresh_port_def mac_held_def)

section \<open>Properties\<close>

lemma gmac_fleet_start:
  assumes "gmac_boot w" "\<forall>i < 2. nss_dp w ! i = None"
  shows "fleet (gmac_env k q i x) gmac_port gmac_lists w"
  using assms by (auto simp: fleet_def tables_ok_def gmac_boot_def gmac_lists_def gmac_env_def)

lemma gmac_fleet_boot: "fleet (gmac_env k q i x) gmac_port gmac_lists w \<Longrightarrow> gmac_boot w"
  by (simp add: fleet_def tables_ok_def gmac_boot_def gmac_lists_def gmac_env_def)

lemma gmac_fleet_removable:
  assumes "fleet (gmac_env k q i x) gmac_port gmac_lists w"
  shows "ports_removable (gmac_env k q i x) w"
proof -
  note f = fleetD [OF assms]
  have "removable (gmac_env k q i x) w n" if "gmac_port n w" for n
    using that by (auto simp: gmac_port_def mac_held_def removable_def gmac_env_def syn_gmac_hal_ops_def Syn_Gmac.syn_exit_def)
  then show ?thesis
    using f(1) f(3) in_place_unique unfolding ports_removable_def tables_ok_def by (metis in_place_def)
qed

lemma removed_all: "removed w 2 w' \<Longrightarrow> length (nss_dp w) = 2 \<Longrightarrow> nss_dp w' = [None, None]"
  by (intro nth_equalityI) (auto simp: removed_def less_2_cases_iff)

text \<open>
  C4. The driver on ipq50xx from its start to its removal: the module starts, and in every state that probes of
  device tree nodes (with a MAC type within the table of MACs and a place in the table of ports that is free) and events on the
  ports of the table (opening, closing, link, MTU and address changes, statistics, flow control, bridge attributes)
  lead to, in any order:
  the ports of the table are there, each with the number and the context of its place, with a carrier only while up
  with their link up once opened; every event on one of them returns and leaves the other alone, its net device, its
  private part and its entry of \<open>dp_info\<close> with the rings and the statistics (\<open>gmac_apart\<close>); the probe of a node whose MAC type is within the
  table returns, succeeds when the node is complete and the kernel and the MAC serve it, and changes the table only
  then; and the removal returns with an empty table.
\<close>

theorem gmac_driver_life:
  assumes "gmac_boot w" "\<forall>i < 2. nss_dp w ! i = None"
  shows "\<exists>w1. nss_dp_init True (gmac_hal_init i) Success w = Inr (Success, w1) \<and> (\<forall>v. soc_reach (gmac_env k q i x) w1 v \<longrightarrow>
      ports_live (gmac_env k q i x) gmac_apart v
    \<and> (\<forall>t pd. (\<forall>ty. pt_mactype t = Some ty \<longrightarrow> unat ty < 3) \<longrightarrow> (\<exists>ret v'. nss_dp_probe (gmac_env k q i x) t pd v = Inr (ret, v')
        \<and> (dt_complete (gmac_env k q i x) t \<and> gmac_served i x t v \<longrightarrow> ret = Success)
        \<and> (if ret = Success then \<exists>m. pt_id t = Some m \<and> nss_dp v' = (nss_dp v)[unat m - 1 := Some (nd_allocs v)] else nss_dp v' = nss_dp v)))
    \<and> (\<exists>v'. nss_dp_remove (gmac_env k q i x) v = Inr (Success, v') \<and> nss_dp v' = [None, None]))"
proof -
  let ?e = "gmac_env k q i x"
  obtain w1 where w1: "nss_dp_init True (gmac_hal_init i) Success w = Inr (Success, w1)" "gmac_boot w1" "nss_dp w1 = nss_dp w"
      "gmac_ops w1 ! 2 = Some Syn_hal_ops"
    using gmac_hal_init_runs [OF assms(1), of i Success] by auto
  have "fleet ?e gmac_port gmac_lists w1" by (rule gmac_fleet_start) (use w1 assms(2) in simp_all)
  then have v: "fleet ?e gmac_port gmac_lists v" "gmac_ops v ! 2 = Some Syn_hal_ops" if "soc_reach ?e w1 v" for v
    using gmac_soc.reach_ok [OF that] w1(4) by auto
  have "ports_live ?e gmac_apart v" if "soc_reach ?e w1 v" for v by (rule gmac_soc.fleet_live [OF v(1) [OF that]])
  moreover have "\<exists>ret v'. nss_dp_probe ?e t pd v = Inr (ret, v') \<and> (dt_complete ?e t \<and> gmac_served i x t v \<longrightarrow> ret = Success)
      \<and> (if ret = Success then \<exists>m. pt_id t = Some m \<and> nss_dp v' = (nss_dp v)[unat m - 1 := Some (nd_allocs v)] else nss_dp v' = nss_dp v)"
    if r: "soc_reach ?e w1 v" "\<forall>ty. pt_mactype t = Some ty \<longrightarrow> unat ty < 3" for v t pd
  proof -
    have "node_probes ?e t" using r(2) gmac_exits by (simp add: node_probes_def gmac_env_def)
    then obtain ret v' where p: "nss_dp_probe ?e t pd v = Inr (ret, v')" "probe_result ?e t v (ret, v')"
      using gmac_soc.probe_returns [OF v(1) [OF r(1)]] by blast
    have "dt_complete ?e t \<and> gmac_served i x t v \<longrightarrow> ret = Success"
      using gmac_probe_succeeds [OF gmac_fleet_boot [OF v(1)] v(2), OF r(1,1), of i x t k q pd] p(1) by auto
    then show ?thesis using p by (auto simp: probe_result_def probe_done_def probe_failed_def split: if_splits)
  qed
  moreover have "\<exists>v'. nss_dp_remove ?e v = Inr (Success, v') \<and> nss_dp v' = [None, None]" if "soc_reach ?e w1 v" for v
    using remove_spec [OF gmac_fleet_removable [OF v(1) [OF that]]] removed_all gmac_fleet_boot [OF v(1) [OF that]]
    by (fastforce simp: gmac_env_def gmac_boot_def)
  ultimately show ?thesis using w1(1) by blast
qed

lemma demo_gmac_probe: "dt_complete demo_env (demo_node 1)" "ke_alloc_etherdev demo_kenv 0"
    "pt_mactype (demo_node 1) = Some 2" "iq_env demo_soc m = \<lparr>pe_resource = Some 1, pe_resource_size = 0x10000, pe_request_mem_region = Some 1,
       pe_kzalloc = True, pe_ioremap = 0x39c00000, pe_window = (\<lambda>_. 0)\<rparr>"
  by (simp_all add: dt_complete_def demo_node_def gmac_env_def demo_kenv_def demo_soc_def)

theorem gmac_driver_life_witness:
  "\<exists>w1 w2 w3 w4. nss_dp_init True (gmac_hal_init demo_soc) Success demo_gmac_boot = Inr (Success, w1)
    \<and> nss_dp_probe demo_env (demo_node 1) demo_pdata w1 = Inr (Success, w2) \<and> nss_dp w2 = [Some 0, None]
    \<and> port_step demo_env 0 Ev_open w2 = Inr w3 \<and> nss_dp_remove demo_env w3 = Inr (Success, w4) \<and> nss_dp w4 = [None, None]"
proof -
  have z: "nd_allocs demo_gmac_boot = 0" "\<forall>i < 2. nss_dp demo_gmac_boot ! i = None"
    by (auto simp: demo_gmac_boot_def less_2_cases_iff)
  have e: "de_max_ports demo_env = 2" by (simp add: gmac_env_def)
  note life = gmac_driver_life [OF demo_gmac_boots z(2), of demo_soc demo_kernel demo_plat demo_kenv]
  from life obtain w1 where w1: "nss_dp_init True (gmac_hal_init demo_soc) Success demo_gmac_boot = Inr (Success, w1)"
      and reach: "\<And>v. soc_reach demo_env w1 v \<Longrightarrow> ports_live demo_env gmac_apart v"
        "\<And>v t pd. soc_reach demo_env w1 v \<Longrightarrow> \<forall>ty. pt_mactype t = Some ty \<longrightarrow> unat ty < 3 \<Longrightarrow> \<exists>ret v'. nss_dp_probe demo_env t pd v = Inr (ret, v')
        \<and> (dt_complete demo_env t \<and> gmac_served demo_soc demo_kenv t v \<longrightarrow> ret = Success)
        \<and> (if ret = Success then \<exists>m. pt_id t = Some m \<and> nss_dp v' = (nss_dp v)[unat m - 1 := Some (nd_allocs v)] else nss_dp v' = nss_dp v)"
        "\<And>v. soc_reach demo_env w1 v \<Longrightarrow> \<exists>v'. nss_dp_remove demo_env v = Inr (Success, v') \<and> nss_dp v' = [None, None]" by blast
  have w1': "nd_allocs w1 = 0" "nss_dp w1 = [None, None]"
    using gmac_hal_init_runs [OF demo_gmac_boots, of demo_soc Success] w1 by (auto simp: demo_gmac_boot_def)
  have node: "node_ok demo_env (demo_node 1) w1" "pt_id (demo_node 1) = Some 1" "\<forall>ty. pt_mactype (demo_node 1) = Some ty \<longrightarrow> unat ty < 3"
    by (simp_all add: node_ok_def node_probes_def demo_node_def w1'(2))
  have "gmac_served demo_soc demo_kenv (demo_node 1) w1" by (simp add: gmac_served_def w1'(1) demo_gmac_probe mac_env_ok_def)
  then obtain w2 where w2: "nss_dp_probe demo_env (demo_node 1) demo_pdata w1 = Inr (Success, w2)" "nss_dp w2 = [Some 0, None]"
    using reach(2) [OF soc_reach.start node(3), of demo_pdata] demo_gmac_probe(1) node(2) w1' by auto
  have r2: "soc_reach demo_env w1 w2" by (rule soc_reach.probe [OF soc_reach.start node(1) w2(1)])
  then obtain w3 where w3: "port_step demo_env 0 Ev_open w2 = Inr w3"
    using reach(1) [OF r2] w2(2) unfolding ports_live_def e by (metis less_2_cases_iff nth_Cons_0)
  have "soc_reach demo_env w1 w3" by (rule soc_reach.event [OF r2 _ _ w3, of 0]) (simp_all add: e w2(2))
  from reach(3) [OF this] show ?thesis using w1 w2 w3 by blast
qed

section \<open>Polling and transmitting\<close>

lemma syn_ok_stats [simp]: "syn_ok acc (st\<lparr>dp_stats := s\<rparr>) = syn_ok acc st"
  by (simp add: syn_ok_def rx_inv_def tx_inv_def conserved_def on_rings_def rx_entries_def tx_entries_def allocs_once_def)

lemma syn_ok_poll_stats [simp]: "syn_ok acc (poll_stats c st) = syn_ok acc st"
  by (simp add: poll_stats_def Let_def)

lemma syn_ok_lists: "syn_ok acc st \<Longrightarrow> length (rx_skb_list st) = 128 \<and> length (tx_skb_list st) = 128"
  by (simp add: syn_ok_def rx_inv_def tx_inv_def ring_wf_def)

lemma gmac_port_info:
  assumes "gmac_port n w" "length (rx_skb_list s) = 128" "length (tx_skb_list s) = 128"
  shows "gmac_port n (w\<lparr>dp := (dp w)[i := s]\<rparr>)"
  using assms by (intro gmac_port_dp lists_ok_update) (auto simp: gmac_port_def)

lemma ring_pass:
  assumes "syn_ok acc st" "0 < budget"
  shows "yields (\<lambda>(work, st'). syn_ok acc st' \<and> 0 \<le> work \<and> work \<le> int budget)
    (bindR (syn_dp_process_tx_complete st) (\<lambda>st. bindR (syn_dp_rx k (int budget) st) (\<lambda>(work, st).
     bindR (syn_dp_rx_refill k st) (\<lambda>st. Inr (work, st)))))"
proof -
  obtain s1 where s1: "syn_dp_process_tx_complete st = Inr s1" using syn_dp_process_tx_complete_ok [of st] assms(1) by (auto simp: syn_ok_def)
  note ok1 = syn_ok_tx_complete [OF assms(1) s1]
  define es where "es = ready (min (length (rx_entries s1)) budget) (rx_entries s1)"
  obtain v s2 where s2: "syn_dp_rx k (int budget) s1 = Inr (v, s2)"
      "v = (if rx_entries s1 = [] then 0 else int budget - int (min (length (rx_entries s1)) budget) + int (length es))"
    using syn_dp_rx_ok [of s1 budget k] ok1 assms(2) by (auto simp: syn_ok_def es_def)
  have "length es \<le> min (length (rx_entries s1)) budget" unfolding es_def ready_def by (rule order.trans [OF length_takeWhile_le]) simp
  then have "0 \<le> v" "v \<le> int budget" unfolding s2(2) by auto
  moreover note ok2 = syn_ok_rx [OF ok1 assms(2) s2(1)]
  moreover obtain s3 where s3: "syn_dp_rx_refill k s2 = Inr s3" using syn_dp_rx_refill_ok [of s2 k] ok2 by (auto simp: syn_ok_def)
  ultimately show ?thesis using s1 s2(1) syn_ok_refill [OF ok2 s3] by simp
qed

text \<open>
  C33. A NAPI poll on a port with working rings returns, handles at most its budget and leaves the rings working. It
  completes NAPI and enables the interrupt again exactly when it returns less than its budget. The missed frames go
  to the statistics of the first port, also when the second one is polled.
\<close>

theorem gmac_napi_poll:
  assumes port: "gmac_port n w" "privs w n = Some p" and ok: "syn_ok acc (dp w ! info_index p)" and b: "0 < budget"
  shows "\<exists>work w' c. gmac_hal_ctx p = Some c \<and> syn_dp_napi_poll k n (int budget) w = Inr (work, w') \<and> 0 \<le> work \<and> work \<le> int budget
    \<and> gmac_port n w' \<and> syn_ok acc (dp w' ! info_index p)
    \<and> nk_trace w' = nk_trace w @ (if work < int budget then [Nk_napi_complete n] else [])
    \<and> privs w' n = Some (p\<lparr>gmac_hal_ctx := Some (if work < int budget then syn_enable_dma_interrupt c else c)\<rparr>)
    \<and> (info_index p \<noteq> 0 \<longrightarrow> dp w' ! 0 = poll_stats c (dp w ! 0))"
proof -
  obtain d c i where f: "netdevs w n = Some d" "gmac_hal_ctx p = Some c" "info_index p < length (dp w)" "lists_ok (dp w)"
    by (rule gmac_portE [OF port])
  let ?i = "info_index p"
  define w1 where "w1 = w\<lparr>dp := (dp w)[0 := poll_stats c (dp w ! 0)]\<rparr>"
  have zero: "0 < length (dp w)" using f(3) by linarith
  have w1: "gmac_port n w1" "syn_ok acc (dp w1 ! ?i)" "?i < length (dp w1)" "privs w1 n = Some p"
    using port ok f(3,4) lists_ok_nth [OF f(4) zero] zero
    by (auto simp: w1_def nth_list_update poll_stats_def Let_def intro!: gmac_port_dp lists_ok_update)
  obtain v s where s: "bindR (syn_dp_process_tx_complete (dp w1 ! ?i)) (\<lambda>st. bindR (syn_dp_rx k (int budget) st) (\<lambda>(work, st).
       bindR (syn_dp_rx_refill k st) (\<lambda>st. Inr (work, st)))) = Inr (v, s)" "syn_ok acc s" "0 \<le> v" "v \<le> int budget"
    using ring_pass [OF w1(2) b, of k] by (auto simp: yields_def)
  define w2 where "w2 = w1\<lparr>dp := (dp w1)[?i := s]\<rparr>"
  have w2: "gmac_port n w2" "privs w2 n = Some p" "syn_ok acc (dp w2 ! ?i)" "nk_trace w2 = nk_trace w"
    using w1 gmac_port_info [OF w1(1), of s ?i] syn_ok_lists [OF s(2)] s(2) by (auto simp: w2_def w1_def)
  have z: "?i \<noteq> 0 \<longrightarrow> dp w2 ! 0 = poll_stats c (dp w ! 0)" using zero by (simp add: w2_def w1_def)
  have run: "syn_dp_napi_poll k n (int budget) w = (if v < int budget
      then bindR (upd_ctx n syn_enable_dma_interrupt (nkcalls [Nk_napi_complete n] w2)) (\<lambda>w. Inr (v, w)) else Inr (v, w2))"
    using f(2) port(2) zero w1(3) s(1) by (simp add: syn_dp_napi_poll_def run_simps with_info_def aget_in w1_def [symmetric] w2_def)
  show ?thesis
  proof (cases "v < int budget")
    case True
    have "privs (nkcalls [Nk_napi_complete n] w2) n = Some p" using w2(2) by simp
    note c = gmac_port_upd_ctx [OF gmac_port_calls(1) [OF w2(1)] this f(2), of syn_enable_dma_interrupt]
    show ?thesis using True run c w2 z f(2) s(3) by (intro exI [of _ v] exI exI [of _ c]) auto
  next
    case False
    then show ?thesis using run w2 z f(2) s(3,4) by (intro exI [of _ v] exI [of _ w2] exI [of _ c]) auto
  qed
qed

text \<open>Port 2, once its rings have been set up.\<close>

abbreviation (input) demo_gmac_up :: "syn_state \<Rightarrow> gmac_world" where
  "demo_gmac_up st \<equiv> (demo_gmac_world 2)\<lparr>dp := [fresh_port, st]\<rparr>"

lemma demo_gmac_rings:
  "\<exists>st. syn_ok {#} st \<and> gmac_port 0 ((demo_gmac_world 2)\<lparr>dp := [fresh_port, st]\<rparr>)
    \<and> privs ((demo_gmac_world 2)\<lparr>dp := [fresh_port, st]\<rparr>) 0 = Some (demo_gmac_dev 2) \<and> info_index (demo_gmac_dev 2) = 1"
proof -
  obtain st where "syn_reach demo_kernel {#} st" using demo_syn_reach by blast
  then have st: "syn_ok {#} st" by (rule syn_reach_ok)
  then have "gmac_port 0 ((demo_gmac_world 2)\<lparr>dp := [fresh_port, st]\<rparr>)"
    using gmac_port_info [OF demo_gmac_port(2), of st 1] syn_ok_lists [OF st] by (simp add: demo_gmac_world_def demo_gmac_boot_def)
  with st show ?thesis by (intro exI [of _ st]) (simp add: demo_gmac_world_def demo_gmac_dev_def info_index_def)
qed

theorem gmac_napi_poll_witness:
  "\<exists>w work w' c. gmac_hal_ctx (demo_gmac_dev 2) = Some c \<and> syn_dp_napi_poll demo_kernel 0 (int 64) w = Inr (work, w')
    \<and> 0 \<le> work \<and> work \<le> int 64 \<and> gmac_port 0 w' \<and> syn_ok {#} (dp w' ! 1)
    \<and> nk_trace w' = nk_trace w @ (if work < int 64 then [Nk_napi_complete 0] else [])
    \<and> dp w' ! 0 = poll_stats c (dp w ! 0)"
proof -
  obtain st where st: "syn_ok {#} st" "gmac_port 0 (demo_gmac_up st)"
      "privs (demo_gmac_up st) 0 = Some (demo_gmac_dev 2)" "info_index (demo_gmac_dev 2) = 1" using demo_gmac_rings by blast
  have "syn_ok {#} (dp (demo_gmac_up st) ! info_index (demo_gmac_dev 2))" using st(1,4) by simp
  from gmac_napi_poll [OF st(2,3) this, of 64 demo_kernel] show ?thesis unfolding st(4) by (intro exI [of _ "demo_gmac_up st"]) auto
qed

lemma syn_tx_refused:
  assumes "tx_inv st" "syn_dp_tx k nghd skb st = Inr (r, nghd', st')"
  shows "r \<noteq> 0 \<longleftrightarrow> length (tx_entries st) = 128 \<or> k_dma_map_tx k (skb_ref skb) = None"
  using assms(2) tx_avail_room [OF assms(1)] txq.entries_cap [OF assms(1)]
  by (auto simp: syn_dp_tx_def bindR_eq_Inr split: if_splits option.splits)

lemma syn_ok_drop: "syn_ok acc st \<Longrightarrow> syn_ok (add_mset (skb_ref skb) acc) (syn_dp_if_drop skb st)"
  by (simp add: syn_dp_if_drop_def syn_ok_def rx_inv_def tx_inv_def conserved_def on_rings_def rx_entries_def tx_entries_def
      allocs_once_def kcalls_def taken_def gone_def)

text \<open>
  C34. Transmitting on a port with working rings returns and takes the buffer in every case: the rings stay working
  with that buffer accounted for. A buffer with fragments, a full ring and a failed mapping give
  \<open>NETDEV_TX_BUSY\<close>, which asks the stack to send the buffer again, although the driver has just freed it and counted
  it as dropped: the statistics of the port are those before with one more dropped frame.
\<close>

theorem gmac_xmit_takes_buffer:
  assumes port: "gmac_port n w" "privs w n = Some p" and ok: "syn_ok acc (dp w ! info_index p)"
  shows "\<exists>ret w'. nss_dp_xmit (gmac_env k q i x) (Some skb) (Some n) w = Inr (ret, w') \<and> gmac_port n w'
    \<and> syn_ok (add_mset (skb_ref skb) acc) (dp w' ! info_index p)
    \<and> (ret = NETDEV_TX_BUSY \<longleftrightarrow> skb_nr_frags skb \<noteq> 0 \<or> length (tx_entries (dp w ! info_index p)) = 128 \<or> k_dma_map_tx k (skb_ref skb) = None)
    \<and> (ret = NETDEV_TX_BUSY \<longrightarrow> sk_trace (dp w' ! info_index p) = sk_trace (dp w ! info_index p) @ [Dev_kfree_skb (skb_ref skb)]
        \<and> dp_stats (dp w' ! info_index p) = stat_add GS_tx_dropped 1 (dp_stats (dp w ! info_index p)))"
proof -
  let ?i = "info_index p" and ?st = "dp w ! info_index p"
  obtain d c j where f: "gmac_hal_ctx p = Some c" "dpc p = Some (Dpc_global j)" "j < length (dp_ctx w)" "dp_ctx w ! j = Some n" "?i < length (dp w)"
    "nghd_memres c \<noteq> None"
    by (rule gmac_portE [OF port])
  have op: "nss_dp_xmit (gmac_env k q i x) (Some skb) (Some n) w = syn_dp_if_xmit k q (dpc p) skb w"
    using port by (simp add: nss_dp_xmit_def run_simps gmac_table nss_dp_gmac_ops_def)
  note run = syn_dp_if_xmit_def [of k q "dpc p" skb w, unfolded with_netdev_linked [OF f(2-4)] with_simps(3) [OF port(2)] Let_def f(1) option.case]
  have tr: "sk_trace (syn_dp_if_drop skb s) = sk_trace s @ [Dev_kfree_skb (skb_ref skb)]"
      "dp_stats (syn_dp_if_drop skb s) = stat_add GS_tx_dropped 1 (dp_stats s)" for s by (simp_all add: syn_dp_if_drop_def kcalls_def)
  show ?thesis
  proof (cases "skb_nr_frags skb = 0")
    case False
    note dr = syn_ok_drop [OF ok, of skb]
    show ?thesis
      unfolding op run using False f(5) dr tr gmac_port_info [OF port(1), of "syn_dp_if_drop skb ?st" ?i] syn_ok_lists [OF dr]
      by (simp add: with_info_def aget_in)
  next
    case True
    have tx: "tx_inv ?st" using ok by (simp add: syn_ok_def)
    obtain r c' s where s: "syn_dp_tx k c skb ?st = Inr (r, c', s)" using tx_total [OF tx] by blast
    note ok' = syn_ok_tx [OF ok s] and why = syn_tx_refused [OF tx s]
    define w1 where "w1 = upd_priv n (\<lambda>p. p\<lparr>gmac_hal_ctx := Some c'\<rparr>) (w\<lparr>dp := (dp w)[?i := s]\<rparr>)"
    have w1: "gmac_port n w1" "dp w1 = (dp w)[?i := s]"
      using gmac_port_info [OF port(1), of s ?i] syn_ok_lists [OF ok'] memres_rings(2) [OF s] f(6) by (auto simp: w1_def mac_held_def intro!: gmac_port_priv)
    have eq: "nss_dp_xmit (gmac_env k q i x) (Some skb) (Some n) w =
        (if r \<noteq> 0 then bindR (with_info w1 ?i (\<lambda>st. Inr ((), syn_dp_if_drop skb st))) (\<lambda>(_, w). Inr (NETDEV_TX_BUSY, w)) else Inr (NETDEV_TX_OK, w1))"
      unfolding op run using True f(5) s by (simp add: with_info_def aget_in w1_def)
    show ?thesis
    proof (cases "r = 0")
      case r: True
      then show ?thesis using eq w1 ok' why True f(5) by simp
    next
      case False
      note dr = syn_ok_drop [of acc s skb]
      have "s = ?st" using s False by (auto simp: syn_dp_tx_def bindR_eq_Inr split: if_splits option.splits)
      then show ?thesis
        using eq w1 ok' why True False f(5) dr tr gmac_port_info [OF w1(1), of "syn_dp_if_drop skb s" ?i] syn_ok_lists [OF dr]
        by (simp add: with_info_def aget_in)
    qed
  qed
qed

theorem gmac_xmit_takes_buffer_witness:
  "\<exists>w ret w'. nss_dp_xmit demo_env (Some (demo_skb\<lparr>skb_nr_frags := 2\<rparr>)) (Some 0) w = Inr (ret, w') \<and> ret = NETDEV_TX_BUSY
    \<and> syn_ok {#Stack 7#} (dp w' ! 1) \<and> sk_trace (dp w' ! 1) = sk_trace (dp w ! 1) @ [Dev_kfree_skb (Stack 7)]
    \<and> dp_stats (dp w' ! 1) = stat_add GS_tx_dropped 1 (dp_stats (dp w ! 1))"
proof -
  obtain st where st: "syn_ok {#} st" "gmac_port 0 (demo_gmac_up st)"
      "privs (demo_gmac_up st) 0 = Some (demo_gmac_dev 2)" "info_index (demo_gmac_dev 2) = 1" using demo_gmac_rings by blast
  have "syn_ok {#} (dp (demo_gmac_up st) ! info_index (demo_gmac_dev 2))" using st(1,4) by simp
  from gmac_xmit_takes_buffer [OF st(2,3) this, of demo_kernel demo_plat demo_soc demo_kenv "demo_skb\<lparr>skb_nr_frags := 2\<rparr>"]
  show ?thesis unfolding st(4) by (intro exI [of _ "demo_gmac_up st"]) (auto simp: demo_skb_def)
qed

section \<open>Overlays and removal\<close>

text \<open>Tearing down the rings of a port returns, and both descriptor rings are given back.\<close>

lemma masked_index: "unat (i AND 127 :: u32) < 128"
proof -
  have "(127 :: u32) = mask 7" by (simp add: mask_eq_exp_minus_1)
  then have "i AND 127 = take_bit 7 i" by (simp add: take_bit_eq_mask)
  then have "unat (i AND 127) = unat i mod 128" by (simp only: unsigned_take_bit_eq) (simp add: take_bit_eq_mod)
  then show ?thesis by simp
qed

lemma cleanup_rx_returns:
  assumes "rx_desc_count st = 128" "length (rx_skb_list st) = 128" "rx_busy_desc st < length (rx_desc st)"
  shows "\<exists>cs l. syn_dp_cleanup_rx_loop n i st = Inr ((kcalls cs st)\<lparr>rx_skb_list := l\<rparr>)"
  using assms
proof (induction n arbitrary: i st)
  case 0
  then show ?case by (intro exI [of _ "[]"] exI [of _ "rx_skb_list st"]) (simp add: kcalls_def)
next
  case (Suc n)
  let ?j = "i AND 127" and ?c = "Dma_unmap_single (ds_buffer1 (rx_desc st ! rx_busy_desc st)) SYN_DP_MINI_JUMBO_FRAME_MTU DMA_FROM_DEVICE"
  have IH: "\<exists>cs l. syn_dp_cleanup_rx_loop n ?j ((kcalls ds st)\<lparr>rx_skb_list := xs\<rparr>) = Inr ((kcalls cs st)\<lparr>rx_skb_list := l\<rparr>)"
    if xs: "length xs = 128" for ds xs
  proof -
    obtain cs l where "syn_dp_cleanup_rx_loop n ?j ((kcalls ds st)\<lparr>rx_skb_list := xs\<rparr>)
        = Inr ((kcalls cs ((kcalls ds st)\<lparr>rx_skb_list := xs\<rparr>))\<lparr>rx_skb_list := l\<rparr>)"
      using Suc.IH [of "(kcalls ds st)\<lparr>rx_skb_list := xs\<rparr>" ?j] Suc.prems xs by (auto simp: kcalls_def)
    then show ?thesis by (intro exI [of _ "ds @ cs"] exI [of _ l]) (simp add: kcalls_def)
  qed
  show ?case
    using IH [of "rx_skb_list st" "[?c]"] IH [of "(rx_skb_list st)[unat ?j := None]" "[?c, Dev_kfree_skb _]"] Suc.prems masked_index [of i]
    by (auto simp: Let_def aget_in aset_in kcalls_def split: option.split)
qed

lemma cleanup_tx_returns:
  assumes "tx_desc_count st = 128" "length (tx_skb_list st) = 128" "tx_busy_desc st < length (tx_desc st)"
  shows "\<exists>cs l. syn_dp_cleanup_tx_loop n i st = Inr ((kcalls cs st)\<lparr>tx_skb_list := l\<rparr>)"
  using assms
proof (induction n arbitrary: i st)
  case 0
  then show ?case by (intro exI [of _ "[]"] exI [of _ "tx_skb_list st"]) (simp add: kcalls_def)
next
  case (Suc n)
  let ?j = "i AND 127" and ?c = "Dma_unmap_single (ds_buffer1 (tx_desc st ! tx_busy_desc st)) SYN_DP_MINI_JUMBO_FRAME_MTU DMA_FROM_DEVICE"
  have IH: "\<exists>cs l. syn_dp_cleanup_tx_loop n ?j ((kcalls ds st)\<lparr>tx_skb_list := xs\<rparr>) = Inr ((kcalls cs st)\<lparr>tx_skb_list := l\<rparr>)"
    if xs: "length xs = 128" for ds xs
  proof -
    obtain cs l where "syn_dp_cleanup_tx_loop n ?j ((kcalls ds st)\<lparr>tx_skb_list := xs\<rparr>)
        = Inr ((kcalls cs ((kcalls ds st)\<lparr>tx_skb_list := xs\<rparr>))\<lparr>tx_skb_list := l\<rparr>)"
      using Suc.IH [of "(kcalls ds st)\<lparr>tx_skb_list := xs\<rparr>" ?j] Suc.prems xs by (auto simp: kcalls_def)
    then show ?thesis by (intro exI [of _ "ds @ cs"] exI [of _ l]) (simp add: kcalls_def)
  qed
  show ?case
    using IH [of "tx_skb_list st" "[?c]"] IH [of "(tx_skb_list st)[unat ?j := None]" "[?c, Dev_kfree_skb _]"] Suc.prems masked_index [of i]
    by (auto simp: Let_def aget_in aset_in kcalls_def split: option.split)
qed

lemma cleanup_rings_returns:
  assumes "syn_ok acc st"
  shows "\<exists>cs l l'. syn_dp_cleanup_rings st = Inr ((kcalls cs st)\<lparr>rx_skb_list := l, tx_skb_list := l'\<rparr>)
    \<and> Dma_free_coherent (rx_desc_dma st) \<in> set cs \<and> Dma_free_coherent (tx_desc_dma st) \<in> set cs"
proof -
  note rx = ring_wf_facts [OF conjunct1 [OF assms [unfolded syn_ok_def], unfolded rx_inv_def]]
  have tx: "length (tx_skb_list st) = 128" "tx_desc_count st = 128" "tx_busy_desc st < length (tx_desc st)"
    using ring_wf_facts(1-4,7) assms unfolding syn_ok_def tx_inv_def by metis+
  obtain cs l where r: "syn_dp_cleanup_rx_loop (unat (busy_rx_desc st)) (rx_busy st) st = Inr ((kcalls cs st)\<lparr>rx_skb_list := l\<rparr>)"
    using cleanup_rx_returns [of st "unat (busy_rx_desc st)" "rx_busy st"] rx by auto
  let ?s = "kcalls [Dma_free_coherent (rx_desc_dma st)] ((kcalls cs st)\<lparr>rx_skb_list := l\<rparr>)"
  obtain ds l' where t: "syn_dp_cleanup_tx_loop (unat (busy_tx_desc st)) (tx_busy st) ?s = Inr ((kcalls ds ?s)\<lparr>tx_skb_list := l'\<rparr>)"
    using cleanup_tx_returns [of ?s "unat (busy_tx_desc st)" "tx_busy st"] tx by (auto simp: kcalls_def)
  let ?cs = "cs @ [Dma_free_coherent (rx_desc_dma st)] @ ds @ [Dma_free_coherent (tx_desc_dma st)]"
  have "syn_dp_cleanup_rings st = Inr ((kcalls ?cs st)\<lparr>rx_skb_list := l, tx_skb_list := l'\<rparr>)"
    using t by (simp add: syn_dp_cleanup_rings_def r kcalls_def)
  then show ?thesis by (intro exI [of _ ?cs] exI [of _ l] exI [of _ l']) simp
qed

text \<open>The rings of the port a context names are torn down, and NAPI is deleted there; nothing else changes in \<open>dp_info\<close>.\<close>

definition torn_down :: "nat \<Rightarrow> syn_state list \<Rightarrow> syn_state list \<Rightarrow> bool" where
  "torn_down i sts sts' \<longleftrightarrow> length sts' = length sts \<and> (\<forall>j. j \<noteq> i \<longrightarrow> sts' ! j = sts ! j) \<and> \<not> syn_dp_info.napi_added (sts' ! i)
     \<and> (\<exists>cs. sk_trace (sts' ! i) = sk_trace (sts ! i) @ cs
        \<and> Dma_free_coherent (rx_desc_dma (sts ! i)) \<in> set cs \<and> Dma_free_coherent (tx_desc_dma (sts ! i)) \<in> set cs)"

lemma deinit_tears_down:
  assumes "dpc_dev (sp_overlay_dev q) c w = Inr (Some m)" "privs w m = Some p" "netdevs w m = Some d" "info_index p < length (dp w)"
    "syn_ok acc (dp w ! info_index p)"
  shows "\<exists>w'. syn_dp_if_deinit q c w = Inr (Success, w') \<and> torn_down (info_index p) (dp w) (dp w')
    \<and> (\<forall>n. map_option wiring (privs w' n) = map_option wiring (privs w n))"
proof -
  let ?i = "info_index p" and ?st = "dp w ! info_index p"
  define st where "st = ?st\<lparr>syn_dp_info.napi_added := False\<rparr>"
  define w1 where "w1 = (if drv_flags p AND 2 \<noteq> 0 then upd_priv m (\<lambda>p. p\<lparr>drv_flags := drv_flags p AND NOT 2\<rparr>)
      (nkcalls [Nk_sync_irq (nd_irq d), Nk_free_irq (nd_irq d) m] w) else w)"
  define v where "v = (if syn_dp_info.napi_added ?st then (nkcalls [Nk_napi_del m] w1)\<lparr>dp := (dp w1)[?i := st]\<rparr> else w)"
  have w1: "dp w1 = dp w" "map_option wiring (privs w1 n) = map_option wiring (privs w n)" for n
    by (simp add: w1_def) (cases "privs w n"; auto simp: w1_def wiring_def)
  have same: "st = ?st" if "\<not> syn_dp_info.napi_added ?st" using that by (cases ?st) (simp add: st_def)
  have v: "dp v = (dp w)[?i := st]" "map_option wiring (privs v n) = map_option wiring (privs w n)" for n
    using w1 same by (auto simp: v_def)
  have "syn_ok acc st" using assms(5) by (simp add: st_def syn_ok_def rx_inv_def tx_inv_def conserved_def on_rings_def rx_entries_def tx_entries_def
      allocs_once_def)
  then obtain cs l l' where s: "syn_dp_cleanup_rings st = Inr ((kcalls cs st)\<lparr>rx_skb_list := l, tx_skb_list := l'\<rparr>)"
      "Dma_free_coherent (rx_desc_dma st) \<in> set cs" "Dma_free_coherent (tx_desc_dma st) \<in> set cs"
    using cleanup_rings_returns by blast
  have eq: "syn_dp_if_deinit q c w = bindR (with_info v ?i (\<lambda>st. bindR (syn_dp_cleanup_rings st) (\<lambda>st. Inr ((), st)))) (\<lambda>(_, w). Inr (Success, w))"
    using assms(1-4) by (simp add: syn_dp_if_deinit_def with_netdev_def run_simps aget_in Let_def v_def w1_def st_def)
  then have "syn_dp_if_deinit q c w = Inr (Success, v\<lparr>dp := (dp w)[?i := (kcalls cs st)\<lparr>rx_skb_list := l, tx_skb_list := l'\<rparr>]\<rparr>)"
    using v(1) assms(4) s(1) by (simp add: with_info_def aget_in)
  then show ?thesis using v(2) assms(4) s(2,3) by (auto simp: torn_down_def st_def kcalls_def)
qed

text \<open>
  C37. Handing a port that is down to an overlay: a table with an entry missing is refused and nothing changes; a
  port that was never opened is handed over at once, with the context and the table of the overlay. A port that has
  been initialised is torn down through the context of the overlay instead of its own. Where that context names no net
  device, the driver follows a NULL pointer; where it names one, with working rings, it is the rings of the port of that net device that
  are torn down, and no others, while the port handed over counts as not initialised.
\<close>

theorem gmac_override_ctx:
  assumes port: "gmac_port n w" "privs w n = Some p" and down: "\<not> bit (dp_flags p) 0"
  shows "(\<not> ops_complete (ke_overlay x t) \<longrightarrow> nss_dp_override_data_plane (gmac_env k q i x) n (Overlay_ops t) (Some (Dpc_overlay c)) w = Inr (Failure, w))
    \<and> (ops_complete (ke_overlay x t) \<and> drv_flags p AND 1 = 0 \<longrightarrow>
        nss_dp_override_data_plane (gmac_env k q i x) n (Overlay_ops t) (Some (Dpc_overlay c)) w
          = Inr (Success, upd_priv n (\<lambda>p. p\<lparr>dpc := Some (Dpc_overlay c), data_plane_ops := Some (Overlay_ops t)\<rparr>) w))
    \<and> (ops_complete (ke_overlay x t) \<and> drv_flags p AND 1 \<noteq> 0 \<longrightarrow>
        (case sp_overlay_dev q c of
          None \<Rightarrow> nss_dp_override_data_plane (gmac_env k q i x) n (Overlay_ops t) (Some (Dpc_overlay c)) w = Inl Null_Pointer
        | Some m \<Rightarrow> \<forall>pm dm acc. privs w m = Some pm \<and> netdevs w m = Some dm \<and> info_index pm < length (dp w)
              \<and> syn_ok acc (dp w ! info_index pm) \<longrightarrow>
            (\<exists>w' p'. nss_dp_override_data_plane (gmac_env k q i x) n (Overlay_ops t) (Some (Dpc_overlay c)) w = Inr (Success, w')
              \<and> torn_down (info_index pm) (dp w) (dp w') \<and> privs w' n = Some p' \<and> drv_flags p' AND 1 = 0
              \<and> dpc p' = Some (Dpc_overlay c) \<and> data_plane_ops p' = Some (Overlay_ops t))))"
proof -
  let ?c = "Some (Dpc_overlay c)"
  let ?override = "nss_dp_override_data_plane (gmac_env k q i x) n (Overlay_ops t) ?c w"
  let ?hand = "\<lambda>w. upd_priv n (\<lambda>p. p\<lparr>dpc := ?c, data_plane_ops := Some (Overlay_ops t)\<rparr>) w"
  let ?clear = "\<lambda>w. upd_priv n (\<lambda>p. p\<lparr>drv_flags := drv_flags p AND NOT 1\<rparr>) w"
  have e: "de_ops (gmac_env k q i x) (Overlay_ops t) = ke_overlay x t" by (simp add: gmac_env_def)
  have stop: "force_stop (gmac_env k q i x) n w = Inr w" using down by (simp add: force_stop_def run_simps port(2))
  have op: "call_op (gmac_env k q i x) p op_deinit (\<lambda>g. g ?c w) = syn_dp_if_deinit q ?c w"
    by (simp add: gmac_table [OF port] nss_dp_gmac_ops_def)
  have torn: "?override = bindR (syn_dp_if_deinit q ?c w) (\<lambda>(ret, w). if failed ret then Inr (Errno ENOMEM, w) else Inr (Success, ?hand (?clear w)))"
    if "ops_complete (ke_overlay x t)" "drv_flags p AND 1 \<noteq> 0"
    using that by (cases "syn_dp_if_deinit q ?c w") (auto simp: nss_dp_override_data_plane_def must_def run_simps port(2) e stop op)
  have null: "syn_dp_if_deinit q ?c w = Inl Null_Pointer" if "sp_overlay_dev q c = None"
    using that by (simp add: syn_dp_if_deinit_def with_netdev_def dpc_dev_def)
  have other: "\<exists>w' p'. ?override = Inr (Success, w') \<and> torn_down (info_index pm) (dp w) (dp w') \<and> privs w' n = Some p' \<and> drv_flags p' AND 1 = 0
      \<and> dpc p' = ?c \<and> data_plane_ops p' = Some (Overlay_ops t)"
    if on: "ops_complete (ke_overlay x t)" "drv_flags p AND 1 \<noteq> 0" and m: "sp_overlay_dev q c = Some m" "privs w m = Some pm"
      "netdevs w m = Some dm" "info_index pm < length (dp w)" "syn_ok acc (dp w ! info_index pm)" for m pm dm acc
  proof -
    have "dpc_dev (sp_overlay_dev q) ?c w = Inr (Some m)" using m(1) by (simp add: dpc_dev_def)
    from deinit_tears_down [OF this m(2-5)] obtain v where v: "syn_dp_if_deinit q ?c w = Inr (Success, v)" "torn_down (info_index pm) (dp w) (dp v)"
        "map_option wiring (privs v n) = map_option wiring (privs w n)" by blast
    then obtain p1 where "privs v n = Some p1" using port(2) by (cases "privs v n") auto
    then show ?thesis using torn [OF on] v(1,2) by (simp add: and.assoc)
  qed
  have "?override = Inr (Failure, w)" if "\<not> ops_complete (ke_overlay x t)" using that by (simp add: nss_dp_override_data_plane_def e)
  moreover have "?override = Inr (Success, ?hand w)" if "ops_complete (ke_overlay x t)" "drv_flags p AND 1 = 0"
    using that by (simp add: nss_dp_override_data_plane_def must_def run_simps port(2) e stop)
  ultimately show ?thesis using torn null other by (auto split: option.splits)
qed

definition demo_overlay :: "(Syn_Gmac.syn_hal_dev, syn_state list, sk_buff) kernel_env" where
  "demo_overlay = demo_kenv\<lparr>ke_overlay := (\<lambda>_. nss_dp_gmac_ops demo_kernel demo_plat)\<rparr>"

text \<open>Port 2 initialised, and an overlay context that names no net device, or the net device of port 1.\<close>

definition demo_initialised :: "syn_state \<Rightarrow> gmac_world" where
  "demo_initialised st = (demo_gmac_world 2)\<lparr>privs := [0 \<mapsto> (demo_gmac_dev 2)\<lparr>drv_flags := 1\<rparr>, 1 \<mapsto> demo_gmac_dev 1],
     netdevs := [0 \<mapsto> fresh_netdev, 1 \<mapsto> fresh_netdev], nd_allocs := 2, dp := [st, st]\<rparr>"

definition demo_named :: syn_plat where
  "demo_named = demo_plat\<lparr>sp_overlay_dev := (\<lambda>_. Some 1)\<rparr>"

theorem gmac_override_ctx_witness:
  "(\<exists>w. gmac_port 0 w \<and> nss_dp_override_data_plane (gmac_env demo_kernel demo_plat demo_soc demo_overlay) 0 (Overlay_ops 0) (Some (Dpc_overlay 5)) w
      = Inl Null_Pointer
    \<and> (\<exists>w'. nss_dp_override_data_plane (gmac_env demo_kernel demo_named demo_soc demo_overlay) 0 (Overlay_ops 0) (Some (Dpc_overlay 5)) w
      = Inr (Success, w') \<and> torn_down 0 (dp w) (dp w') \<and> dp w' ! 1 = dp w ! 1))
    \<and> nss_dp_override_data_plane (gmac_env demo_kernel demo_plat demo_soc demo_kenv) 0 (Overlay_ops 0) (Some (Dpc_overlay 5)) (demo_gmac_world 1)
      = Inr (Failure, demo_gmac_world 1)
    \<and> (\<exists>w'. nss_dp_override_data_plane (gmac_env demo_kernel demo_plat demo_soc demo_overlay) 0 (Overlay_ops 0) (Some (Dpc_overlay 5)) (demo_gmac_world 1)
      = Inr (Success, w'))"
proof -
  have p: "privs (demo_gmac_world 1) 0 = Some (demo_gmac_dev 1)" "\<not> bit (dp_flags (demo_gmac_dev 1)) 0" "drv_flags (demo_gmac_dev 1) AND 1 = 0"
    by (simp_all add: demo_gmac_world_def demo_gmac_dev_def zero_dp_dev_def)
  have t: "\<not> ops_complete (ke_overlay (demo_kenv :: (Syn_Gmac.syn_hal_dev, syn_state list, sk_buff) kernel_env) 0)" "ops_complete (ke_overlay demo_overlay 0)"
    by (simp_all add: ops_complete_def demo_kenv_def demo_overlay_def nss_dp_gmac_ops_def)
  obtain st where st: "syn_ok {#} st" using demo_gmac_rings by blast
  let ?w = "demo_initialised st"
  have w: "gmac_port 0 ?w" "privs ?w 0 = Some ((demo_gmac_dev 2)\<lparr>drv_flags := 1\<rparr>)" "\<not> bit (dp_flags ((demo_gmac_dev 2)\<lparr>drv_flags := 1\<rparr>)) 0"
      "privs ?w 1 = Some (demo_gmac_dev 1)" "netdevs ?w 1 = Some fresh_netdev" "info_index (demo_gmac_dev 1) = 0" "dp ?w = [st, st]"
    using syn_ok_lists [OF st]
    by (simp_all add: demo_initialised_def demo_gmac_world_def demo_gmac_dev_def demo_gmac_boot_def zero_dp_dev_def info_index_def
        gmac_port_def port_linked_def lists_ok_def mac_held_def)
  have q: "sp_overlay_dev demo_plat 5 = None" "sp_overlay_dev demo_named 5 = Some 1" by (simp_all add: demo_plat_def demo_named_def)
  note run = gmac_override_ctx [OF w(1-3), of demo_overlay 0 demo_kernel _ demo_soc 5]
  have "nss_dp_override_data_plane (gmac_env demo_kernel demo_plat demo_soc demo_overlay) 0 (Overlay_ops 0) (Some (Dpc_overlay 5)) ?w = Inl Null_Pointer"
    using run [of demo_plat] t(2) q(1) by simp
  moreover have "\<exists>w'. nss_dp_override_data_plane (gmac_env demo_kernel demo_named demo_soc demo_overlay) 0 (Overlay_ops 0) (Some (Dpc_overlay 5)) ?w
      = Inr (Success, w') \<and> torn_down 0 (dp ?w) (dp w')"
    using run [of demo_named] t(2) q(2) w(4-7) st by auto
  moreover have "dp w' ! 1 = dp ?w ! 1" if "torn_down 0 (dp ?w) (dp w')" for w' :: gmac_world using that by (simp add: torn_down_def)
  ultimately show ?thesis
    using gmac_override_ctx [OF demo_gmac_port(1) p(1,2), of demo_kenv 0 demo_kernel demo_plat demo_soc 5]
      gmac_override_ctx [OF demo_gmac_port(1) p(1,2), of demo_overlay 0 demo_kernel demo_plat demo_soc 5] p(3) t w(1) by blast
qed

text \<open>
  C36. Giving a port back to the data plane of ipq50xx computes its context from the number of the port, where the
  probe uses the number less one: port 2 is left with a context past the end of the array, and opening it reads
  there.
\<close>

theorem gmac_restore_wrong_ctx:
  assumes "gmac_port n w" "privs w n = Some p" "\<not> bit (dp_flags p) 0" "macid p = 2" "length (dp_ctx w) = 2"
  shows "\<exists>w'. nss_dp_restore_data_plane (gmac_env k q i x) n w = Inr w'
    \<and> privs w' n = Some (p\<lparr>data_plane_ops := Some Soc_ops, dpc := Some (Dpc_global 2)\<rparr>)
    \<and> nss_dp_open (gmac_env k q i x) n w' = Inl Index_Range"
proof -
  let ?p = "p\<lparr>data_plane_ops := Some Soc_ops, dpc := Some (Dpc_global 2)\<rparr>"
  define w' where "w' = upd_priv n (\<lambda>p. p\<lparr>data_plane_ops := Some Soc_ops, dpc := Some (Dpc_global (unat (macid p)))\<rparr>) w"
  have r: "nss_dp_restore_data_plane (gmac_env k q i x) n w = Inr w'"
    using assms(2,3) by (simp add: nss_dp_restore_data_plane_def force_stop_def run_simps w'_def gmac_env_def)
  have w': "privs w' n = Some ?p" "dp_ctx w' = dp_ctx w" using assms(2,4) by (simp_all add: w'_def)
  have ctx: "with_netdev q (Some (Dpc_global 2)) v f = Inl Index_Range" if "dp_ctx v = dp_ctx w" for v f
    using that assms(5) by (simp add: with_netdev_def dpc_dev_def aget_def)
  let ?v = "upd_dev n (\<lambda>d. d\<lparr>nd_carrier := False\<rparr>) w'"
  have ops: "syn_dp_if_init k q (Some (Dpc_global 2)) ?v = Inl Index_Range" "syn_dp_if_set_features q (Some (Dpc_global 2)) ?v = Inl Index_Range"
    unfolding syn_dp_if_init_def syn_dp_if_set_features_def using w' by (simp_all add: ctx)
  have "dp_init_once (gmac_env k q i x) n ?v = (if drv_flags p AND 1 = 0 then Inl Index_Range else Inr (Success, ?v))"
    using w' ops(1) by (simp add: dp_init_once_def run_simps must_def call_op_def gmac_env_def nss_dp_gmac_ops_def)
  moreover have "dp_bring_up (gmac_env k q i x) n ?v = Inl Index_Range"
    using w' ops(2) by (simp add: dp_bring_up_def run_simps call_op_def gmac_env_def nss_dp_gmac_ops_def)
  ultimately have "nss_dp_open (gmac_env k q i x) n w' = Inl Index_Range" using w' by (simp add: nss_dp_open_def)
  then show ?thesis using r w' by blast
qed

theorem gmac_restore_wrong_ctx_witness:
  "\<exists>w'. nss_dp_restore_data_plane demo_env 0 (demo_gmac_world 2) = Inr w' \<and> nss_dp_open demo_env 0 w' = Inl Index_Range"
proof -
  have "privs (demo_gmac_world 2) 0 = Some (demo_gmac_dev 2)" "\<not> bit (dp_flags (demo_gmac_dev 2)) 0" "macid (demo_gmac_dev 2) = 2"
      "length (dp_ctx (demo_gmac_world 2)) = 2"
    by (simp_all add: demo_gmac_world_def demo_gmac_dev_def zero_dp_dev_def)
  from gmac_restore_wrong_ctx [OF demo_gmac_port(2) this, of demo_kernel demo_plat demo_soc demo_kenv] show ?thesis by blast
qed

text \<open>
  C38. Removing the driver from ipq50xx with any set of probed ports returns, empties the table of ports and frees
  every net device in it. The data plane contexts keep pointing to the freed net devices.
\<close>

theorem gmac_remove_frees:
  assumes "ports_removable (gmac_env k q i x) w"
  shows "\<exists>w'. nss_dp_remove (gmac_env k q i x) w = Inr (Success, w') \<and> nss_dp w' = [None, None]
    \<and> (\<forall>n. Some n \<in> set (nss_dp w) \<longrightarrow> netdevs w' n = None \<and> privs w' n = None) \<and> dp_ctx w' = dp_ctx w"
proof -
  have l: "length (nss_dp w) = 2" "de_max_ports (gmac_env k q i x) = 2" using assms by (simp_all add: ports_removable_def gmac_env_def)
  obtain w' where w': "nss_dp_remove (gmac_env k q i x) w = Inr (Success, w')" "removed w 2 w'"
    using remove_spec [OF assms] l by auto
  have "nss_dp w' = [None, None]" by (rule removed_all [OF w'(2) l(1)])
  moreover have "\<forall>n. Some n \<in> set (nss_dp w) \<longrightarrow> netdevs w' n = None \<and> privs w' n = None"
    using w'(2) l(1) by (auto simp: removed_def in_set_conv_nth)
  ultimately show ?thesis using w' by (auto simp: removed_def)
qed

theorem gmac_remove_frees_witness:
  "\<exists>w1 w2 w3. nss_dp_init True (gmac_hal_init demo_soc) Success demo_gmac_boot = Inr (Success, w1)
    \<and> nss_dp_probe demo_env (demo_node 1) demo_pdata w1 = Inr (Success, w2) \<and> nss_dp w2 = [Some 0, None]
    \<and> nss_dp_remove demo_env w2 = Inr (Success, w3) \<and> netdevs w3 0 = None"
proof -
  obtain w1 where w1: "nss_dp_init True (gmac_hal_init demo_soc) Success demo_gmac_boot = Inr (Success, w1)" "gmac_boot w1"
      "gmac_ops w1 ! 2 = Some Syn_hal_ops" "nss_dp w1 = [None, None]" "nd_allocs w1 = 0"
    using gmac_hal_init_runs [OF demo_gmac_boots, of demo_soc Success] by (auto simp: demo_gmac_boot_def)
  have "gmac_served demo_soc demo_kenv (demo_node 1) w1" by (simp add: gmac_served_def w1(5) demo_gmac_probe mac_env_ok_def)
  then obtain w2 where w2: "nss_dp_probe demo_env (demo_node 1) demo_pdata w1 = Inr (Success, w2)"
    using gmac_probe_succeeds [OF w1(2,3) _ demo_gmac_probe(1)] by blast
  have "probe_done demo_env 1 0 w1 w2"
    using gmac_probe_spec [OF w1(2), of "demo_node 1" demo_kernel demo_plat demo_soc demo_kenv demo_pdata] w2 w1(5)
    by (auto simp: yields_def probe_result_def demo_node_def)
  then have n: "nss_dp w2 = [Some 0, None]" and "\<exists>p. privs w2 0 = Some p \<and> mac_ready demo_env 0 1 p"
    using w1(4) by (auto simp: probe_done_def)
  then have "removable demo_env w2 0"
    using mac_ready_removable [of demo_env] gmac_exits [of demo_soc] by (auto simp: gmac_env_def)
  moreover have "de_max_ports demo_env = 2" by (simp add: gmac_env_def)
  ultimately have "ports_removable demo_env w2" using n by (auto simp: ports_removable_def less_Suc_eq)
  from gmac_remove_frees [OF this] show ?thesis using w1(1) w2 n by auto
qed

end
