(* ===== verification/Edma_Rings.thy ===== *)
theory Edma_Rings
  imports Edma_Dp "HOL-Library.Multiset"
begin

text \<open>
  What each step of the EDMA data path does, branch by branch: a refill takes consecutive free
  slots and keeps one cell between the producer and the consumer; reaping releases the buffer
  behind every completion once; transmission queues one frame or leaves the ring as it was;
  a received frame is delivered or freed. The specifications are the functions \<open>reap\<close>,
  \<open>rx_outcome\<close> and the relation \<open>rx_filled\<close>; the lemmas say that the code refines them.
\<close>

lemma unat_u16_u32: "unat (ucast (x :: u16) :: u32) = unat x"
  unfolding unsigned_ucast_eq using u16_less [of x]
  by (intro take_bit_nat_eq_self) simp

section \<open>Refilling a ring\<close>

text \<open>
  A fill ring the driver can work on: 128 descriptors, and a receive store of 128 slots.
\<close>

definition rxfill_wf :: "nat \<Rightarrow> edma_world \<Rightarrow> bool" where
  "rxfill_wf r w \<longleftrightarrow> length (rx_skb_store w) = 128 \<and> r < length (rxfill_ring w)
     \<and> rf_count (rxfill_ring w ! r) = 128 \<and> length (rf_desc (rxfill_ring w ! r)) = 128"

text \<open>
  What a refill that took \<open>n\<close> slots from \<open>next\<close> on did: the slots were free and hold fresh buffers in
  order, their descriptors carry the bus addresses and the buffer size, the preheaders name
  the slots; a last buffer may have been allocated and freed again. Nothing else changed.
\<close>

definition slot :: "nat \<Rightarrow> nat \<Rightarrow> nat" where
  "slot nx j = (nx + j) mod 128"

definition store_filled :: "nat \<Rightarrow> nat \<Rightarrow> nat \<Rightarrow> skb_ref option list \<Rightarrow> skb_ref option list \<Rightarrow> bool" where
  "store_filled nx n a s s' \<longleftrightarrow> length s' = length s
     \<and> (\<forall>j < n. s ! slot nx j = None \<and> s' ! slot nx j = Some (Alloc (a + j)))
     \<and> (\<forall>i. (\<forall>j < n. i \<noteq> slot nx j) \<longrightarrow> s' ! i = s ! i)"

definition descs_filled ::
  "edma_kernel \<Rightarrow> nat \<Rightarrow> nat \<Rightarrow> nat \<Rightarrow> edma_rxfill_desc list \<Rightarrow> edma_rxfill_desc list \<Rightarrow> bool" where
  "descs_filled k nx n a ds ds' \<longleftrightarrow> length ds' = length ds
     \<and> (\<forall>j < n. ek_map_rx k (a + j) \<noteq> 0
          \<and> ds' ! slot nx j = \<lparr>rf_buffer_addr = ek_map_rx k (a + j), rf_word1 = 2032\<rparr>)
     \<and> (\<forall>i. (\<forall>j \<le> n. i \<noteq> slot nx j) \<longrightarrow> ds' ! i = ds ! i)"

definition mem_filled ::
  "edma_kernel \<Rightarrow> nat \<Rightarrow> nat \<Rightarrow> nat \<Rightarrow> (u32 \<Rightarrow> edma_rx_preheader) \<Rightarrow> (u32 \<Rightarrow> edma_rx_preheader) \<Rightarrow> bool" where
  "mem_filled k nx n a m m' \<longleftrightarrow>
     (\<forall>b. (\<exists>j < n. b = ek_map_rx k (a + j) \<and> unat (rx_opaque (m' b)) = slot nx j)
        \<or> (\<forall>j < n. b \<noteq> ek_map_rx k (a + j)) \<and> m' b = m b)"

definition allocs_traced :: "nat \<Rightarrow> nat \<Rightarrow> nat \<Rightarrow> edma_kcall list \<Rightarrow> edma_kcall list \<Rightarrow> bool" where
  "allocs_traced n a a' t t' \<longleftrightarrow>
     (\<exists>e. t' = t @ map Ek_alloc [a..<a + n] @ e
        \<and> (a' = a + n \<and> e = []
         \<or> a' = Suc (a + n) \<and> (e = [] \<or> e = [Ek_alloc (a + n), Ek_kfree (Alloc (a + n))])))"

definition rx_frame :: "nat \<Rightarrow> edma_world \<Rightarrow> edma_world \<Rightarrow> bool" where
  "rx_frame r w w' \<longleftrightarrow> (\<exists>s m t a ds. w' = w\<lparr>rx_skb_store := s, rxph_mem := m, ek_trace := t,
     ek_allocs := a, rxfill_ring := (rxfill_ring w)[r := (rxfill_ring w ! r)\<lparr>rf_desc := ds\<rparr>]\<rparr>)"

lemma rx_frameI:
  assumes "w' = w\<lparr>rx_skb_store := rx_skb_store w', rxph_mem := rxph_mem w', ek_trace := ek_trace w',
     ek_allocs := ek_allocs w',
     rxfill_ring := (rxfill_ring w)[r := (rxfill_ring w ! r)\<lparr>rf_desc := rf_desc (rxfill_ring w' ! r)\<rparr>]\<rparr>"
  shows "rx_frame r w w'"
  using assms unfolding rx_frame_def by blast

lemma rx_frame_refl: "rx_frame r w w"
  unfolding rx_frame_def
  by (rule exI [of _ "rx_skb_store w"], rule exI [of _ "rxph_mem w"], rule exI [of _ "ek_trace w"],
      rule exI [of _ "ek_allocs w"], rule exI [of _ "rf_desc (rxfill_ring w ! r)"]) simp

lemma rx_frame_trans:
  assumes "rx_frame r w w1" "rx_frame r w1 w'" "r < length (rxfill_ring w)"
  shows "rx_frame r w w'"
proof -
  obtain s m t a ds where 1: "w1 = w\<lparr>rx_skb_store := s, rxph_mem := m, ek_trace := t,
     ek_allocs := a, rxfill_ring := (rxfill_ring w)[r := (rxfill_ring w ! r)\<lparr>rf_desc := ds\<rparr>]\<rparr>"
    using assms(1) by (auto simp: rx_frame_def)
  obtain s' m' t' a' ds' where 2: "w' = w1\<lparr>rx_skb_store := s', rxph_mem := m', ek_trace := t',
     ek_allocs := a', rxfill_ring := (rxfill_ring w1)[r := (rxfill_ring w1 ! r)\<lparr>rf_desc := ds'\<rparr>]\<rparr>"
    using assms(2) by (auto simp: rx_frame_def)
  have "w' = w\<lparr>rx_skb_store := s', rxph_mem := m', ek_trace := t',
     ek_allocs := a', rxfill_ring := (rxfill_ring w)[r := (rxfill_ring w ! r)\<lparr>rf_desc := ds'\<rparr>]\<rparr>"
    using assms(3) by (simp add: 1 2)
  then show ?thesis unfolding rx_frame_def by blast
qed

definition rx_filled :: "edma_kernel \<Rightarrow> nat \<Rightarrow> nat \<Rightarrow> nat \<Rightarrow> edma_world \<Rightarrow> edma_world \<Rightarrow> bool" where
  "rx_filled k r nx n w w' \<longleftrightarrow>
     rx_frame r w w'
   \<and> store_filled nx n (ek_allocs w) (rx_skb_store w) (rx_skb_store w')
   \<and> descs_filled k nx n (ek_allocs w) (rf_desc (rxfill_ring w ! r)) (rf_desc (rxfill_ring w' ! r))
   \<and> mem_filled k nx n (ek_allocs w) (rxph_mem w) (rxph_mem w')
   \<and> allocs_traced n (ek_allocs w) (ek_allocs w') (ek_trace w) (ek_trace w')"

lemmas filled_defs = rx_filled_def store_filled_def descs_filled_def mem_filled_def allocs_traced_def slot_def

lemma rx_filled_0: "rx_filled k r nx 0 w w"
  by (simp add: filled_defs rx_frame_refl)

text \<open>One turn that stops the loop, and one that goes on.\<close>

text \<open>No buffer, an occupied slot or a failed mapping: nothing is added to the ring.\<close>

lemma alloc_rx_refused:
  assumes "rxfill_wf r w" "unat next < 128"
    "\<not> ek_dev_alloc_skb k (ek_allocs w) \<or> rx_skb_store w ! unat next \<noteq> None \<or> ek_map_rx k (ek_allocs w) = 0"
  shows "\<exists>w'. edma_alloc_rx_one k r next w = Inr (False, w') \<and> rx_filled k r (unat next) 0 w w'"
proof -
  note f = assms(1,2) [unfolded rxfill_wf_def]
  let ?a = "ek_allocs w"
  consider (none) "\<not> ek_dev_alloc_skb k ?a" | (taken) "ek_dev_alloc_skb k ?a" "rx_skb_store w ! unat next \<noteq> None"
    | (unmapped) "ek_dev_alloc_skb k ?a" "rx_skb_store w ! unat next = None" "ek_map_rx k ?a = 0"
    using assms(3) by blast
  then show ?thesis
  proof cases
    case none
    have "rx_frame r w (w\<lparr>ek_allocs := Suc ?a\<rparr>)" by (rule rx_frameI) simp
    with none show ?thesis
      by (intro exI [of _ "w\<lparr>ek_allocs := Suc ?a\<rparr>"]) (simp add: edma_alloc_rx_one_def filled_defs Let_def)
  next
    case taken
    let ?w = "ekcalls [Ek_alloc ?a, Ek_kfree (Alloc ?a)] (w\<lparr>ek_allocs := Suc ?a\<rparr>)"
    have "rx_frame r w ?w" by (rule rx_frameI) (simp add: ekcalls_def)
    with taken show ?thesis
      using f by (intro exI [of _ ?w]) (simp add: edma_alloc_rx_one_def filled_defs Let_def aget_in ekcalls_def)
  next
    case unmapped
    let ?ds = "(rf_desc (rxfill_ring w ! r))[unat next := \<lparr>rf_buffer_addr = 0, rf_word1 = 2032\<rparr>]"
    let ?w = "(ekcalls [Ek_alloc ?a, Ek_kfree (Alloc ?a)] w)\<lparr>ek_allocs := Suc ?a,
        rxfill_ring := (rxfill_ring w)[r := (rxfill_ring w ! r)\<lparr>rf_desc := ?ds\<rparr>]\<rparr>"
    have "edma_alloc_rx_one k r next w = Inr (False, ?w)"
      using f unmapped list_update_id [of "rx_skb_store w" "unat next"]
      by (simp add: edma_alloc_rx_one_def Let_def aget_in aset_in ekcalls_def rxfill_desc_set_def)
    moreover have "rx_frame r w ?w" by (rule rx_frameI) (use f in \<open>simp add: ekcalls_def\<close>)
    then have "rx_filled k r (unat next) 0 w ?w" using f by (simp add: filled_defs Let_def ekcalls_def nth_list_update)
    ultimately show ?thesis by blast
  qed
qed

lemma edma_alloc_rx_one_ok:
  assumes "rxfill_wf r w" "unat next < 128"
  obtains w' where "edma_alloc_rx_one k r next w = Inr (False, w')" "rx_filled k r (unat next) 0 w w'"
  | w' where "edma_alloc_rx_one k r next w = Inr (True, w')" "rx_filled k r (unat next) 1 w w'" "rxfill_wf r w'"
      "ek_allocs w' = Suc (ek_allocs w)" "ek_trace w' = ek_trace w @ [Ek_alloc (ek_allocs w)]"
      "\<And>i. i \<noteq> unat next \<Longrightarrow> rf_desc (rxfill_ring w' ! r) ! i = rf_desc (rxfill_ring w ! r) ! i"
proof (cases "\<not> ek_dev_alloc_skb k (ek_allocs w) \<or> rx_skb_store w ! unat next \<noteq> None \<or> ek_map_rx k (ek_allocs w) = 0")
  case True
  from alloc_rx_refused [OF assms this] show ?thesis using that(1) by blast
next
  case False
  note f = assms [unfolded rxfill_wf_def]
  let ?a = "ek_allocs w" and ?b = "ek_map_rx k (ek_allocs w)"
  let ?ds = "(rf_desc (rxfill_ring w ! r))[unat next := \<lparr>rf_buffer_addr = ?b, rf_word1 = 2032\<rparr>]"
  let ?w = "(ekcalls [Ek_alloc ?a] w)\<lparr>ek_allocs := Suc ?a,
      rx_skb_store := (rx_skb_store w)[unat next := Some (Alloc ?a)],
      rxfill_ring := (rxfill_ring w)[r := (rxfill_ring w ! r)\<lparr>rf_desc := ?ds\<rparr>],
      rxph_mem := (rxph_mem w)(?b := (rxph_mem w ?b)\<lparr>rx_opaque := of_nat (unat next)\<rparr>)\<rparr>"
  show ?thesis
  proof (rule that(2) [of ?w])
    show "edma_alloc_rx_one k r next w = Inr (True, ?w)"
      using f False by (simp add: edma_alloc_rx_one_def Let_def aget_in aset_in ekcalls_def rxfill_desc_set_def)
    have "rx_frame r w ?w" by (rule rx_frameI) (use f in \<open>simp add: ekcalls_def\<close>)
    then show "rx_filled k r (unat next) 1 w ?w"
      using f False by (auto simp: filled_defs Let_def ekcalls_def nth_list_update unat_u16_u32 less_Suc_eq_le)
    show "rxfill_wf r ?w" using f by (simp add: rxfill_wf_def ekcalls_def)
  qed (use f in \<open>simp_all add: ekcalls_def\<close>)
qed


lemma slot_Suc: "slot (Suc nx mod 128) j = slot nx (Suc j)"
  by (simp add: slot_def mod_simps)

lemma slot_apart: "j < 127 \<Longrightarrow> slot nx 0 \<noteq> slot nx (Suc j)"
  using ring_pos_inj [of 0 128 "Suc j" nx] by (auto simp: slot_def)

lemma all_less_Suc: "(\<forall>j < Suc n. P j) \<longleftrightarrow> P 0 \<and> (\<forall>j < n. P (Suc j))"
  by (auto simp: less_Suc_eq_0_disj)

lemma store_filled_trans:
  assumes "store_filled nx 1 a s s1" "store_filled (Suc nx mod 128) n (Suc a) s1 s'" "n < 127"
  shows "store_filled nx (Suc n) a s s'"
proof -
  have t: "length s' = length s1" "\<And>j. j < n \<Longrightarrow> s1 ! slot nx (Suc j) = None"
    "\<And>j. j < n \<Longrightarrow> s' ! slot nx (Suc j) = Some (Alloc (a + Suc j))"
    "\<And>i. (\<And>j. j < n \<Longrightarrow> i \<noteq> slot nx (Suc j)) \<Longrightarrow> s' ! i = s1 ! i"
    using assms(2) by (simp_all add: store_filled_def slot_Suc)
  have o: "length s1 = length s" "s ! slot nx 0 = None" "s1 ! slot nx 0 = Some (Alloc a)"
    "\<And>i. i \<noteq> slot nx 0 \<Longrightarrow> s1 ! i = s ! i"
    using assms(1) by (simp_all add: store_filled_def)
  have "s' ! slot nx 0 = Some (Alloc a)"
    using t(4) [of "slot nx 0"] slot_apart assms(3) o(3) by simp
  moreover have "s ! slot nx (Suc j) = None" if "j < n" for j
    using t(2) [OF that] o(4) [of "slot nx (Suc j)"] slot_apart [of j nx] that assms(3) by simp
  ultimately show ?thesis
    unfolding store_filled_def all_less_Suc using t o by simp
qed

lemma descs_filled_trans:
  assumes "descs_filled k nx 1 a d d1" "descs_filled k (Suc nx mod 128) n (Suc a) d1 d'" "n < 127"
    "\<And>i. i \<noteq> slot nx 0 \<Longrightarrow> d1 ! i = d ! i"
  shows "descs_filled k nx (Suc n) a d d'"
proof -
  have t: "length d' = length d1" "\<And>j. j < n \<Longrightarrow> ek_map_rx k (a + Suc j) \<noteq> 0"
    "\<And>j. j < n \<Longrightarrow> d' ! slot nx (Suc j) = \<lparr>rf_buffer_addr = ek_map_rx k (a + Suc j), rf_word1 = 2032\<rparr>"
    "\<And>i. (\<And>j. j \<le> n \<Longrightarrow> i \<noteq> slot nx (Suc j)) \<Longrightarrow> d' ! i = d1 ! i"
    using assms(2) by (simp_all add: descs_filled_def slot_Suc)
  have o: "length d1 = length d" "ek_map_rx k a \<noteq> 0"
    "d1 ! slot nx 0 = \<lparr>rf_buffer_addr = ek_map_rx k a, rf_word1 = 2032\<rparr>"
    using assms(1) by (simp_all add: descs_filled_def)
  have "d' ! slot nx 0 = d1 ! slot nx 0"
    using slot_apart assms(3) by (intro t(4)) simp
  moreover have "d' ! i = d ! i" if "\<forall>j \<le> Suc n. i \<noteq> slot nx j" for i
    using t(4) [of i] assms(4) [of i] that by auto
  ultimately show ?thesis
    unfolding descs_filled_def all_less_Suc using t(1-3) o by simp
qed

lemma mem_filled_trans:
  assumes "mem_filled k nx 1 a m m1" "mem_filled k (Suc nx mod 128) n (Suc a) m1 m'"
  shows "mem_filled k nx (Suc n) a m m'"
  unfolding mem_filled_def
proof
  fix b
  have "(\<exists>j < n. b = ek_map_rx k (a + Suc j) \<and> unat (rx_opaque (m' b)) = slot nx (Suc j))
      \<or> (\<forall>j < n. b \<noteq> ek_map_rx k (a + Suc j)) \<and> m' b = m1 b"
    using assms(2) by (simp add: mem_filled_def slot_Suc)
  then consider j where "j < n" "b = ek_map_rx k (a + Suc j)" "unat (rx_opaque (m' b)) = slot nx (Suc j)"
    | "\<forall>j < n. b \<noteq> ek_map_rx k (a + Suc j)" "m' b = m1 b"
    by blast
  then show "(\<exists>j < Suc n. b = ek_map_rx k (a + j) \<and> unat (rx_opaque (m' b)) = slot nx j)
      \<or> (\<forall>j < Suc n. b \<noteq> ek_map_rx k (a + j)) \<and> m' b = m b"
  proof cases
    case 1
    then show ?thesis by (intro disjI1 exI [of _ "Suc j"]) simp
  next
    case 2
    then show ?thesis
      using assms(1) by (force simp: mem_filled_def all_less_Suc)
  qed
qed

lemma allocs_traced_trans:
  assumes "allocs_traced n (Suc a) a' (t @ [Ek_alloc a]) t'"
  shows "allocs_traced (Suc n) a a' t t'"
  using assms by (auto simp: allocs_traced_def upt_conv_Cons)

lemma rx_filled_trans:
  assumes one: "rx_filled k r nx 1 w w1" and tail: "rx_filled k r (Suc nx mod 128) n w1 w'"
    and a: "ek_allocs w1 = Suc (ek_allocs w)" "ek_trace w1 = ek_trace w @ [Ek_alloc (ek_allocs w)]"
    and d: "\<And>i. i \<noteq> slot nx 0 \<Longrightarrow> rf_desc (rxfill_ring w1 ! r) ! i = rf_desc (rxfill_ring w ! r) ! i"
    and r: "r < length (rxfill_ring w)" and n: "n < 127"
  shows "rx_filled k r nx (Suc n) w w'"
proof -
  note o = one [unfolded rx_filled_def] and t = tail [unfolded rx_filled_def a]
  show ?thesis
    unfolding rx_filled_def
  proof (intro conjI)
    show "rx_frame r w w'" using o t r rx_frame_trans by blast
    show "store_filled nx (Suc n) (ek_allocs w) (rx_skb_store w) (rx_skb_store w')"
      using o t n store_filled_trans by blast
    show "descs_filled k nx (Suc n) (ek_allocs w) (rf_desc (rxfill_ring w ! r)) (rf_desc (rxfill_ring w' ! r))"
      using o t descs_filled_trans [OF _ _ n d] by blast
    show "mem_filled k nx (Suc n) (ek_allocs w) (rxph_mem w) (rxph_mem w')"
      using o t mem_filled_trans by blast
    show "allocs_traced (Suc n) (ek_allocs w) (ek_allocs w') (ek_trace w) (ek_trace w')"
      using t allocs_traced_trans by blast
  qed
qed


text \<open>The free slots before the one that keeps a full ring apart from an empty one.\<close>

definition ring_room :: "nat \<Rightarrow> nat \<Rightarrow> nat" where
  "ring_room nx cons = (cons + 127 - nx) mod 128"

lemma ring_room_step:
  assumes "nx < 128" "cons < 128"
  shows "Suc nx mod 128 = cons \<Longrightarrow> ring_room nx cons = 0"
    and "Suc nx mod 128 \<noteq> cons \<Longrightarrow> ring_room nx cons = Suc (ring_room (Suc nx mod 128) cons)"
    and "Suc nx mod 128 \<noteq> cons \<Longrightarrow> ring_room (Suc nx mod 128) cons < 127"
  using assms by (auto simp: ring_room_def mod_if split: if_splits)

lemma ring_next_128: "unat idx < 128 \<Longrightarrow> unat (ring_next 128 idx) = Suc (unat idx) mod 128"
  using ring_next_unat [of idx 128] by simp

lemma rxfill_wf_filled:
  assumes "rxfill_wf r w" "rx_filled k r nx n w w'"
  shows "rxfill_wf r w'"
proof -
  obtain s m t a ds where "w' = w\<lparr>rx_skb_store := s, rxph_mem := m, ek_trace := t,
     ek_allocs := a, rxfill_ring := (rxfill_ring w)[r := (rxfill_ring w ! r)\<lparr>rf_desc := ds\<rparr>]\<rparr>"
    using assms(2) by (auto simp: rx_filled_def rx_frame_def)
  then show ?thesis
    using assms by (simp add: rxfill_wf_def rx_filled_def store_filled_def descs_filled_def)
qed

lemma edma_alloc_rx_loop_ok:
  assumes "rxfill_wf r w" "unat nxt < 128" "unat cons < 128"
  shows "\<exists>n w'. edma_alloc_rx_loop k r 128 cons nxt num w = Inr ((ring_next 128 ^^ n) nxt, num + of_nat n, w')
           \<and> n \<le> ring_room (unat nxt) (unat cons) \<and> rx_filled k r (unat nxt) n w w'"
  using assms
proof (induction k r "128 :: u16" cons nxt num w rule: edma_alloc_rx_loop.induct)
  case (1 k r cons nxt num w)
  note room = ring_room_step [OF "1.prems"(2,3)] and nx = ring_next_128 [OF "1.prems"(2)]
  show ?case
  proof (cases "ring_next 128 nxt = cons")
    case True
    then show ?thesis
      using rx_filled_0 by (intro exI [of _ 0] exI [of _ w]) (simp add: edma_alloc_rx_loop.simps)
  next
    case False
    then have ne: "Suc (unat nxt) mod 128 \<noteq> unat cons" using nx by (metis word_unat_eq_iff)
    show ?thesis
    proof (rule edma_alloc_rx_one_ok [OF "1.prems"(1,2), of k])
      fix w' assume "edma_alloc_rx_one k r nxt w = Inr (False, w')" "rx_filled k r (unat nxt) 0 w w'"
      then show ?thesis using False
        by (intro exI [of _ 0] exI [of _ w']) (simp add: edma_alloc_rx_loop.simps Let_def)
    next
      fix w1 assume one: "edma_alloc_rx_one k r nxt w = Inr (True, w1)" "rx_filled k r (unat nxt) 1 w w1"
        "rxfill_wf r w1" "ek_allocs w1 = Suc (ek_allocs w)" "ek_trace w1 = ek_trace w @ [Ek_alloc (ek_allocs w)]"
        "\<And>i. i \<noteq> unat nxt \<Longrightarrow> rf_desc (rxfill_ring w1 ! r) ! i = rf_desc (rxfill_ring w ! r) ! i"
      have "unat (ring_next 128 nxt) < 128" by (simp add: nx)
      from "1.hyps" [OF refl False one(1) refl TrueI one(3) this "1.prems"(3)]
      obtain n w' where n: "edma_alloc_rx_loop k r 128 cons (ring_next 128 nxt) (num + 1) w1
          = Inr ((ring_next 128 ^^ n) (ring_next 128 nxt), num + 1 + of_nat n, w')"
        "n \<le> ring_room (Suc (unat nxt) mod 128) (unat cons)"
        "rx_filled k r (Suc (unat nxt) mod 128) n w1 w'"
        by (auto simp: nx)
      have "rx_filled k r (unat nxt) (Suc n) w w'"
        using one(2,4-6) n "1.prems" room(3) [OF ne]
        by (intro rx_filled_trans [OF one(2) n(3)]) (auto simp: rxfill_wf_def slot_def)
      then show ?thesis
        using n one(1) False room(2) [OF ne]
        by (intro exI [of _ "Suc n"] exI [of _ w'])
           (simp add: edma_alloc_rx_loop.simps [of k r 128 cons nxt] Let_def funpow_swap1 add.assoc)
    qed
  qed
qed


text \<open>The index a register holds.\<close>

definition reg_idx :: "edma_world \<Rightarrow> u32 \<Rightarrow> u16" where
  "reg_idx w reg = ucast (edma_reg_read w reg AND 0xffff)"

lemma ucast_and_127: "unat (ucast (x AND 0xffff AND (ucast (128 :: u16) - 1)) :: u16) = unat (ucast (x AND 0xffff) :: u16) mod 128"
  for x :: u32
proof -
  have m: "(0xffff :: u32) = mask 16" "(ucast (128 :: u16) - 1 :: u32) = mask 7"
    by (simp_all add: mask_eq_exp_minus_1)
  have "(ucast (x AND 0xffff AND (ucast (128 :: u16) - 1)) :: u16) = take_bit 7 (ucast (x AND 0xffff))"
    unfolding m by (rule bit_word_eqI) (auto simp: bit_simps)
  then show ?thesis by (simp only: unsigned_take_bit_eq) (simp add: take_bit_eq_mod)
qed

lemma ucast_and_ffff: "ucast (x :: u16) AND 0xffff = (ucast x :: u32)"
proof -
  have m: "(0xffff :: u32) = mask 16" by (simp add: mask_eq_exp_minus_1)
  show ?thesis unfolding m by (rule bit_word_eqI) (auto simp: bit_simps dest: bit_imp_le_length)
qed

lemma edma_alloc_rx_buffer_ok:
  fixes w k r
  defines "fid \<equiv> rf_id (rxfill_ring w ! r)"
  defines "nx \<equiv> unat (reg_idx w (EDMA_REG_RXFILL_PROD_IDX fid)) mod 128"
    and "cons \<equiv> unat (reg_idx w (EDMA_REG_RXFILL_CONS_IDX fid))"
  assumes "rxfill_wf r w" "cons < 128"
  shows "\<exists>n w1. edma_alloc_rx_buffer k r w = Inr (of_nat n,
             if n = 0 then w1 else edma_reg_write w1 (EDMA_REG_RXFILL_PROD_IDX fid) (of_nat ((nx + n) mod 128)))
           \<and> n \<le> ring_room nx cons \<and> rx_filled k r nx n w w1"
proof -
  let ?next = "ucast (edma_reg_read w (EDMA_REG_RXFILL_PROD_IDX fid) AND 0xffff AND (ucast (128 :: u16) - 1)) :: u16"
  have nx: "unat ?next = nx" unfolding nx_def reg_idx_def by (rule ucast_and_127)
  have nx128: "nx < 128" by (simp add: nx_def)
  obtain n w1 where n: "edma_alloc_rx_loop k r 128 (reg_idx w (EDMA_REG_RXFILL_CONS_IDX fid)) ?next 0 w
        = Inr ((ring_next 128 ^^ n) ?next, of_nat n, w1)"
      "n \<le> ring_room nx cons" "rx_filled k r nx n w w1"
    using edma_alloc_rx_loop_ok [OF assms(4), of ?next "reg_idx w (EDMA_REG_RXFILL_CONS_IDX fid)" k 0] assms(5) nx nx128
    unfolding cons_def by auto
  have "n < 128" using n(2) mod_less_divisor [of 128 "cons + 127 - nx"] unfolding ring_room_def by linarith
  then have z: "(of_nat n :: u16) = 0 \<longleftrightarrow> n = 0"
    by (simp add: word_unat_eq_iff unat_of_nat)
  have "unat ((ring_next 128 ^^ n) ?next) = (nx + n) mod 128"
    using ring_next_funpow [of ?next 128 n] nx nx128 by simp
  then have p: "ucast ((ring_next 128 ^^ n) ?next) AND 0xffff = (of_nat ((nx + n) mod 128) :: u32)"
    unfolding ucast_and_ffff by (metis of_nat_unat)
  have r: "r < length (rxfill_ring w)" "rf_count (rxfill_ring w ! r) = 128" using assms(4) by (simp_all add: rxfill_wf_def)
  have "edma_alloc_rx_buffer k r w = Inr (of_nat n,
             if n = 0 then w1 else edma_reg_write w1 (EDMA_REG_RXFILL_PROD_IDX fid) (of_nat ((nx + n) mod 128)))"
    using n(1) p by (simp add: edma_alloc_rx_buffer_def aget_in r fid_def [symmetric] Let_def reg_idx_def [symmetric] z)
  with n show ?thesis by blast
qed


section \<open>Reaping transmit completions\<close>

text \<open>
  Specification: the completions name slots of the store, in order; the buffer found in a slot
  is released and the slot is empty from then on.
\<close>

fun reap :: "nat list \<Rightarrow> skb_ref option list \<Rightarrow> skb_ref list \<times> skb_ref option list" where
  "reap [] s = ([], s)"
| "reap (i # is) s =
     (let (bs, s') = reap is (s[i := None]) in (case s ! i of None \<Rightarrow> bs | Some b \<Rightarrow> b # bs, s'))"

definition stored :: "skb_ref option list \<Rightarrow> skb_ref multiset" where
  "stored s = mset (map the (filter (\<lambda>x. x \<noteq> None) s))"

lemma stored_Nil [simp]: "stored [] = {#}" by (simp add: stored_def)

lemma stored_Cons [simp]: "stored (x # s) = (case x of None \<Rightarrow> {#} | Some b \<Rightarrow> {#b#}) + stored s"
  by (cases x) (simp_all add: stored_def)

lemma stored_replicate [simp]: "stored (replicate n None) = {#}"
  by (induction n) simp_all

lemma stored_put: "i < length s \<Longrightarrow> s ! i = None \<Longrightarrow> stored (s[i := Some b]) = add_mset b (stored s)"
proof (induction s arbitrary: i)
  case (Cons x s)
  then show ?case by (cases i) (auto split: option.splits)
qed simp

lemma stored_take:
  "i < length s \<Longrightarrow> stored s = (case s ! i of None \<Rightarrow> {#} | Some b \<Rightarrow> {#b#}) + stored (s[i := None])"
proof (induction s arbitrary: i)
  case (Cons x s)
  then show ?case by (cases i) (auto split: option.splits)
qed simp

lemma reap_length [simp]: "length (snd (reap is s)) = length s"
  by (induction "is" s rule: reap.induct) (auto simp: Let_def split: prod.splits option.splits)

lemma update_None: "s ! i = None \<Longrightarrow> s[j := None] ! i = None"
  by (cases "j < length s") (auto simp: nth_list_update list_update_beyond)

text \<open>Every buffer that was in the store is released once or still there.\<close>

lemma reap_conserves: "\<forall>i \<in> set is. i < length s \<Longrightarrow> mset (fst (reap is s)) + stored (snd (reap is s)) = stored s"
proof (induction "is" s rule: reap.induct)
  case (2 i "is" s)
  then show ?case using stored_take [of i s] by (auto simp: Let_def split: prod.splits option.splits)
qed simp

lemma reap_empties: "i \<in> set is \<Longrightarrow> i < length s \<Longrightarrow> snd (reap is s) ! i = None"
proof (induction "is" s rule: reap.induct)
  case (2 j "is" s)
  have keep: "snd (reap is t) ! i = None" if "t ! i = None" "i < length t" for t
    using that by (induction "is" t rule: reap.induct)
      (auto simp: Let_def update_None split: prod.splits option.splits)
  show ?case
    using 2 keep [of "s[j := None]"] by (auto simp: Let_def split: prod.splits)
qed simp

definition tx_release :: "skb_ref list \<Rightarrow> edma_kcall list" where
  "tx_release bs = concat (map (\<lambda>s. [Ek_unmap_tx s, Ek_kfree s]) bs)"

lemma tx_release_Nil [simp]: "tx_release [] = []"
  by (simp add: tx_release_def)

lemma ekcalls_Nil [simp]: "ekcalls [] w = w"
  by (simp add: ekcalls_def)

lemma ekcalls_frame [simp]:
  "rx_skb_store (ekcalls cs w) = rx_skb_store w" "tx_skb_store (ekcalls cs w) = tx_skb_store w"
  "rxfill_ring (ekcalls cs w) = rxfill_ring w" "rxdesc_ring (ekcalls cs w) = rxdesc_ring w"
  "txdesc_ring (ekcalls cs w) = txdesc_ring w" "txcmpl_ring (ekcalls cs w) = txcmpl_ring w"
  "netdev_arr (ekcalls cs w) = netdev_arr w" "layout (ekcalls cs w) = layout w"
  "rxph_mem (ekcalls cs w) = rxph_mem w" "txph_mem (ekcalls cs w) = txph_mem w"
  "edma_reg_read (ekcalls cs w) reg = edma_reg_read w reg" "ek_allocs (ekcalls cs w) = ek_allocs w"
  "ek_trace (ekcalls cs w) = ek_trace w @ cs"
  by (simp_all add: ekcalls_def edma_reg_read_def)

definition txcmpl_slot :: "edma_world \<Rightarrow> nat \<Rightarrow> u16 \<Rightarrow> nat" where
  "txcmpl_slot w r i = unat (tc_buffer_addr (tc_desc (txcmpl_ring w ! r) ! unat i))"

lemma edma_clean_tx_one_ok:
  assumes "r < length (txcmpl_ring w)" "unat i < length (tc_desc (txcmpl_ring w ! r))"
    "txcmpl_slot w r i < length (tx_skb_store w)"
  shows "edma_clean_tx_one r i w = Inr (ekcalls
      (tx_release (case tx_skb_store w ! txcmpl_slot w r i of None \<Rightarrow> [] | Some b \<Rightarrow> [b]))
      (w\<lparr>tx_skb_store := (tx_skb_store w)[txcmpl_slot w r i := None]\<rparr>))"
  using assms
  by (auto simp: edma_clean_tx_one_def aget_in Let_def txcmpl_slot_def tx_release_def split: option.splits)

lemma clean_tx_walk:
  assumes "r < length (txcmpl_ring w)"
    "\<forall>i \<in> set is. unat i < length (tc_desc (txcmpl_ring w ! r)) \<and> txcmpl_slot w r i < length (tx_skb_store w)"
  shows "for_list (\<lambda>i (c, w). bindR (edma_clean_tx_one r i w) (\<lambda>w. Inr (c + 1, w))) is (c :: u32, w)
       = (let (bs, s) = reap (map (txcmpl_slot w r) is) (tx_skb_store w)
          in Inr (c + of_nat (length is), ekcalls (tx_release bs) (w\<lparr>tx_skb_store := s\<rparr>)))"
  using assms
proof (induction "is" arbitrary: c w)
  case (Cons i "is")
  let ?j = "txcmpl_slot w r i"
  let ?bs = "case tx_skb_store w ! ?j of None \<Rightarrow> [] | Some b \<Rightarrow> [b]"
  let ?w = "ekcalls (tx_release ?bs) (w\<lparr>tx_skb_store := (tx_skb_store w)[?j := None]\<rparr>)"
  have one: "edma_clean_tx_one r i w = Inr ?w"
    using Cons.prems by (intro edma_clean_tx_one_ok) auto
  have s: "txcmpl_slot ?w r = txcmpl_slot w r" by (rule ext) (simp add: txcmpl_slot_def)
  obtain bs s where r: "reap (map (txcmpl_slot w r) is) ((tx_skb_store w)[?j := None]) = (bs, s)"
    by (cases "reap (map (txcmpl_slot w r) is) ((tx_skb_store w)[?j := None])")
  have IH: "for_list (\<lambda>i (c, w). bindR (edma_clean_tx_one r i w) (\<lambda>w. Inr (c + 1, w))) is (c + 1, ?w)
      = Inr (c + 1 + of_nat (length is), ekcalls (tx_release bs) (?w\<lparr>tx_skb_store := s\<rparr>))"
    using Cons.IH [of ?w "c + 1"] Cons.prems r unfolding s by simp
  have e: "ekcalls (tx_release bs) (?w\<lparr>tx_skb_store := s\<rparr>)
      = ekcalls (tx_release (?bs @ bs)) (w\<lparr>tx_skb_store := s\<rparr>)"
    by (simp add: ekcalls_def tx_release_def)
  show ?case
    unfolding for_list.simps using IH
    by (simp add: one r e add.assoc split: option.splits)
qed simp

lemma edma_clean_tx_ok:
  fixes k r w
  defines "cid \<equiv> tc_id (txcmpl_ring w ! r)"
  defines "pidx \<equiv> reg_idx w (EDMA_REG_TXCMPL_PROD_IDX (ek_soc k) cid)"
    and "cidx \<equiv> reg_idx w (EDMA_REG_TXCMPL_CONS_IDX (ek_soc k) cid)"
  defines "is \<equiv> ring_span 128 cidx pidx"
  assumes "r < length (txcmpl_ring w)" "tc_count (txcmpl_ring w ! r) = 128"
    "length (tc_desc (txcmpl_ring w ! r)) = 128" "unat pidx < 128" "unat cidx < 128"
    "\<forall>i \<in> set is. txcmpl_slot w r i < length (tx_skb_store w)"
  shows "edma_clean_tx k r w =
     (let (bs, s) = reap (map (txcmpl_slot w r) is) (tx_skb_store w);
          w' = ekcalls (tx_release bs) (w\<lparr>tx_skb_store := s\<rparr>)
      in Inr (of_nat (length is),
              if is = [] then w' else edma_reg_write w' (EDMA_REG_TXCMPL_CONS_IDX (ek_soc k) cid) (ucast pidx)))"
proof -
  have l: "length is < 128" unfolding is_def using ring_dist_less [of 128 cidx pidx] by simp
  then have z: "(of_nat (length is) :: u32) = 0 \<longleftrightarrow> is = []"
    by (simp add: word_unat_eq_iff unat_of_nat)
  have b: "unat i < 128" if "i \<in> set is" for i
    using that ring_span_set [of cidx 128 i pidx] assms(9) by (simp add: is_def)
  obtain bs s where r: "reap (map (txcmpl_slot w r) is) (tx_skb_store w) = (bs, s)"
    by (cases "reap (map (txcmpl_slot w r) is) (tx_skb_store w)")
  have walk: "walk_u16 (ring_next 128) (\<lambda>i (c, w). bindR (edma_clean_tx_one r i w) (\<lambda>w. Inr (c + 1, w)))
        pidx cidx (0 :: u32, w) = Inr (of_nat (length is), ekcalls (tx_release bs) (w\<lparr>tx_skb_store := s\<rparr>))"
    using clean_tx_walk [OF assms(5), of "is" 0] assms(5-10) b r
    by (simp add: is_def ring_span_walk)
  show ?thesis
    using walk
    by (simp add: edma_clean_tx_def assms(5,6) aget_in r Let_def z reg_idx_def [symmetric]
         cid_def [symmetric] pidx_def [symmetric] cidx_def [symmetric])
qed

section \<open>Transmitting a frame\<close>

text \<open>The machine after the preheader has been pushed in front of the frame, and after the frame is queued.\<close>

definition xmit_pushed :: "edma_kernel \<Rightarrow> nat \<Rightarrow> edma_skb \<Rightarrow> edma_world \<Rightarrow> edma_world" where
  "xmit_pushed k netdev skb w =
     (ekcalls ((if es_hw_tstamp skb \<and> ek_txtstamp k netdev then [Ek_txtstamp (es_ref skb) netdev] else [])
                 @ [Ek_skb_push (es_ref skb)]) w)
       \<lparr>txph_mem := (txph_mem w)(es_ref skb := zero_txph\<lparr>tx_dst_info := edma_tx_dst_info (ek_macid k netdev)\<rparr>)\<rparr>"

definition xmit_written ::
  "edma_kernel \<Rightarrow> nat \<Rightarrow> edma_skb \<Rightarrow> nat \<Rightarrow> u16 \<Rightarrow> edma_txdesc_desc \<Rightarrow> edma_world \<Rightarrow> edma_world" where
  "xmit_written k netdev skb r pidx d w =
     (xmit_pushed k netdev skb w)
       \<lparr>txph_mem := (txph_mem w)(es_ref skb := zero_txph\<lparr>tx_dst_info := edma_tx_dst_info (ek_macid k netdev),
                                                       tx_opaque := ucast pidx\<rparr>),
        txdesc_ring := (txdesc_ring w)[r := (txdesc_ring w ! r)
          \<lparr>td_desc := (td_desc (txdesc_ring w ! r))[unat pidx := d]\<rparr>]\<rparr>"

lemma u16_and_127: "unat (x :: u16) < 128 \<Longrightarrow> x AND (128 - 1) = x"
proof -
  assume x: "unat x < 128"
  have m: "(128 - 1 :: u16) = mask 7" by (simp add: mask_eq_exp_minus_1)
  have "unat (take_bit 7 x) = unat x"
    using x by (simp only: unsigned_take_bit_eq) (simp add: take_bit_eq_mod)
  then show ?thesis unfolding m take_bit_eq_mask [symmetric] by (simp only: word_unat_eq_iff)
qed

lemma u16_succ_and_127: "unat (x :: u16) < 128 \<Longrightarrow> (x + 1) AND (128 - 1) = ring_next 128 x"
proof -
  assume x: "unat x < 128"
  have m: "(128 - 1 :: u16) = mask 7" by (simp add: mask_eq_exp_minus_1)
  have "unat ((x + 1) AND (128 - 1)) = unat (x + 1) mod 128"
    unfolding m take_bit_eq_mask [symmetric] by (simp only: unsigned_take_bit_eq) (simp add: take_bit_eq_mod)
  also have "unat (x + 1) = Suc (unat x)" using x by (subst unat_add_lem [THEN iffD1]) auto
  finally show ?thesis using ring_next_128 [OF x] by (simp add: word_unat_eq_iff)
qed

lemma edma_ring_xmit_ok:
  fixes k netdev skb r w
  defines "tid \<equiv> td_id (txdesc_ring w ! r)"
  defines "pidx \<equiv> reg_idx w (EDMA_REG_TXDESC_PROD_IDX tid)"
    and "cidx \<equiv> reg_idx w (EDMA_REG_TXDESC_CONS_IDX tid)"
    and "addr \<equiv> ek_map_tx k (es_ref skb)"
  assumes "r < length (txdesc_ring w)" "td_count (txdesc_ring w ! r) = 128"
    "length (td_desc (txdesc_ring w ! r)) = 128" "length (tx_skb_store w) = 128" "unat pidx < 128"
  shows "edma_ring_xmit k netdev skb r w =
     (if ring_next 128 pidx = cidx then Inr (EDMA_TX_DESC, w)
      else if tx_skb_store w ! unat pidx \<noteq> None then Inr (EDMA_TX_DESC, xmit_pushed k netdev skb w)
      else if addr = 0
      then Inr (EDMA_TX_OK, ekcalls [Ek_kfree (es_ref skb)]
             (xmit_written k netdev skb r pidx \<lparr>td_buffer_addr = 0, td_word1 = 0\<rparr> w))
      else Inr (EDMA_TX_OK,
             edma_reg_write
               ((xmit_written k netdev skb r pidx
                   \<lparr>td_buffer_addr = addr, td_word1 = edma_tx_word1 (ucast (es_headlen skb))\<rparr> w)
                 \<lparr>tx_skb_store := (tx_skb_store w)[unat pidx := Some (es_ref skb)]\<rparr>)
               (EDMA_REG_TXDESC_PROD_IDX tid) (ucast (ring_next 128 pidx))))"
proof -
  note ix = u16_and_127 [OF assms(9)] u16_succ_and_127 [OF assms(9)]
  have u: "(tx_skb_store w)[unat pidx := None] = tx_skb_store w" if "tx_skb_store w ! unat pidx = None"
    using list_update_id [of "tx_skb_store w" "unat pidx"] that by simp
  show ?thesis
    using assms(5-9) ix
    by (cases "tx_skb_store w ! unat pidx")
       (simp_all add: edma_ring_xmit_def aget_in aset_in Let_def reg_idx_def [symmetric] tid_def [symmetric]
          pidx_def [symmetric] cidx_def [symmetric] addr_def [symmetric] ucast_and_ffff u edma_reg_write_def
          nss_phy_tstamp_tx_buf_def txdesc_set_def ekcalls_def xmit_pushed_def xmit_written_def)
qed

section \<open>Receiving a frame\<close>

text \<open>
  Specification: a frame is delivered to the net device of its port when its preheader carries
  a port of the SoC and the device is registered and running, and is freed otherwise; a PTP event
  is offered to the PHY driver first, which may keep it.
\<close>

definition rx_netdev :: "edma_kernel \<Rightarrow> nat option list \<Rightarrow> edma_rx_preheader \<Rightarrow> nat option" where
  "rx_netdev k arr rxph =
     (let port = unat (rx_src_info rxph AND 0xfff)
      in if EDMA_RXPH_SRC_INFO_TYPE_GET rxph = 0x20 \<and> 1 \<le> port \<and> port \<le> NSS_DP_HAL_MAX_PORTS (ek_soc k)
         then (case arr ! (port - 1) of
                 None \<Rightarrow> None
               | Some nd \<Rightarrow> if ek_netif_running k nd then Some nd else None)
         else None)"

definition rx_outcome ::
  "edma_kernel \<Rightarrow> nat option list \<Rightarrow> edma_rx_preheader \<Rightarrow> edma_rxdesc_desc \<Rightarrow> skb_ref \<Rightarrow> edma_kcall list" where
  "rx_outcome k arr rxph d skb =
     (case rx_netdev k arr rxph of
        None \<Rightarrow> [Ek_kfree skb]
      | Some nd \<Rightarrow>
          (let deliver = Ek_receive skb nd (rd_status d AND 0x3fff)
           in case (if EDMA_RXPH_SERVICE_CODE_GET rxph = 9 then ek_rxtstamp k nd skb else None) of
                None \<Rightarrow> [deliver]
              | Some True \<Rightarrow> [Ek_rxtstamp skb nd True]
              | Some False \<Rightarrow> [Ek_rxtstamp skb nd False, deliver]))"

text \<open>The buffer that leaves the driver with a call: freed, delivered, or kept by the PHY driver.\<close>

definition gone :: "edma_kcall \<Rightarrow> skb_ref multiset" where
  "gone c = (case c of Ek_kfree s \<Rightarrow> {#s#} | Ek_receive s _ _ \<Rightarrow> {#s#}
     | Ek_rxtstamp s _ kept \<Rightarrow> (if kept then {#s#} else {#}) | _ \<Rightarrow> {#})"

definition all_gone :: "edma_kcall list \<Rightarrow> skb_ref multiset" where
  "all_gone cs = sum_list (map gone cs)"

lemma all_gone_simps [simp]:
  "all_gone [] = {#}" "all_gone (c # cs) = gone c + all_gone cs" "all_gone (cs @ ds) = all_gone cs + all_gone ds"
  by (simp_all add: all_gone_def)

lemma gone_simps [simp]:
  "gone (Ek_kfree s) = {#s#}" "gone (Ek_receive s nd l) = {#s#}"
  "gone (Ek_rxtstamp s nd True) = {#s#}" "gone (Ek_rxtstamp s nd False) = {#}"
  "gone (Ek_unmap_rx b) = {#}" "gone (Ek_unmap_tx s) = {#}" "gone (Ek_alloc a) = {#}"
  "gone (Ek_skb_push s) = {#}" "gone (Ek_txtstamp s nd) = {#}" "gone (Ek_start_queue nd) = {#}"
  "gone (Ek_stop_queue nd) = {#}" "gone Ek_napi_complete = {#}" "gone Ek_napi_schedule = {#}"
  "gone (Ek_expand_head s) = {#}" "gone (Ek_tx_dropped nd) = {#}"
  by (simp_all add: gone_def)

lemma rx_outcome_gone: "all_gone (rx_outcome k arr rxph d skb) = {#skb#}"
  by (simp add: rx_outcome_def Let_def split: option.split bool.split)

lemma tx_release_gone: "all_gone (tx_release bs) = mset bs"
  by (induction bs) (simp_all add: tx_release_def)

lemma edma_rx_deliver_ok:
  assumes "length (netdev_arr w) = NSS_DP_HAL_MAX_PORTS (ek_soc k)"
  shows "edma_rx_deliver k rxph d skb w = Inr (ekcalls (rx_outcome k (netdev_arr w) rxph d skb) w)"
proof -
  define port where "port = unat (rx_src_info rxph AND 0xfff)"
  show ?thesis
  proof (cases "EDMA_RXPH_SRC_INFO_TYPE_GET rxph = 0x20 \<and> 1 \<le> port \<and> port \<le> NSS_DP_HAL_MAX_PORTS (ek_soc k)")
    case False
    then show ?thesis
      by (auto simp: edma_rx_deliver_def rx_outcome_def rx_netdev_def Let_def port_def)
  next
    case True
    then have p: "aget (netdev_arr w) (port - 1) = Inr (netdev_arr w ! (port - 1))"
      using assms by (intro aget_in) linarith
    show ?thesis
      using True p
      by (auto simp: edma_rx_deliver_def rx_outcome_def rx_netdev_def Let_def port_def nss_phy_tstamp_rx_buf_def
            ekcalls_def split: option.split bool.split)
  qed
qed

definition rx_slot :: "edma_world \<Rightarrow> nat \<Rightarrow> u16 \<Rightarrow> nat" where
  "rx_slot w r i = unat (rx_opaque (rxph_mem w (rd_buffer_addr (rd_desc (rxdesc_ring w ! r) ! unat i))))"

definition rx_calls :: "edma_kernel \<Rightarrow> nat \<Rightarrow> u16 \<Rightarrow> edma_world \<Rightarrow> edma_kcall list" where
  "rx_calls k r i w =
     (let d = rd_desc (rxdesc_ring w ! r) ! unat i
      in Ek_unmap_rx (rd_buffer_addr d) #
           (case rx_skb_store w ! rx_slot w r i of
              None \<Rightarrow> []
            | Some s \<Rightarrow> rx_outcome k (netdev_arr w) (rxph_mem w (rd_buffer_addr d)) d s))"

lemma edma_clean_rx_one_ok:
  assumes "r < length (rxdesc_ring w)" "unat i < length (rd_desc (rxdesc_ring w ! r))"
    "rx_slot w r i < length (rx_skb_store w)" "length (netdev_arr w) = NSS_DP_HAL_MAX_PORTS (ek_soc k)"
  shows "edma_clean_rx_one k r i w =
     Inr (ekcalls (rx_calls k r i w) (w\<lparr>rx_skb_store := (rx_skb_store w)[rx_slot w r i := None]\<rparr>))"
  using assms
  by (auto simp: edma_clean_rx_one_def aget_in Let_def rx_slot_def rx_calls_def edma_rx_deliver_ok ekcalls_def
      split: option.splits)

lemma rx_calls_gone:
  "all_gone (rx_calls k r i w) = (case rx_skb_store w ! rx_slot w r i of None \<Rightarrow> {#} | Some s \<Rightarrow> {#s#})"
  by (simp add: rx_calls_def Let_def rx_outcome_gone split: option.split)

end
