(* ===== verification/Edma_Safety.thy ===== *)
theory Edma_Safety
  imports Edma_Rings
begin

text \<open>
  The EDMA data plane as a whole: the invariant that ties registers, rings and stores together,
  the moves of the engine, the states they and the driver can reach together, and the
  properties of the data path on those states.
\<close>

section \<open>The index registers\<close>

text \<open>Producer and consumer registers, by kind of ring; they never coincide for rings within the limits.\<close>

definition idx_base :: "soc \<Rightarrow> edma_ring_kind \<Rightarrow> u32" where
  "idx_base s kd = (case kd of TXDESC \<Rightarrow> 0x1000 | TXCMPL \<Rightarrow> EDMA_REG_TXCMPL_BASE s
     | RXFILL \<Rightarrow> 0x29000 | RXDESC \<Rightarrow> 0x39000)"

definition kind_max :: "soc \<Rightarrow> edma_ring_kind \<Rightarrow> nat" where
  "kind_max s kd = (case kd of TXDESC \<Rightarrow> EDMA_MAX_TXDESC_RINGS | TXCMPL \<Rightarrow> EDMA_MAX_TXCMPL_RINGS s
     | RXFILL \<Rightarrow> EDMA_MAX_RXFILL_RINGS | RXDESC \<Rightarrow> EDMA_MAX_RXDESC_RINGS)"

abbreviation prod_reg :: "soc \<Rightarrow> edma_ring_kind \<Rightarrow> u32 \<Rightarrow> u32" where
  "prod_reg s kd n \<equiv> idx_base s kd + 4 + 0x1000 * n"

abbreviation cons_reg :: "soc \<Rightarrow> edma_ring_kind \<Rightarrow> u32 \<Rightarrow> u32" where
  "cons_reg s kd n \<equiv> idx_base s kd + 8 + 0x1000 * n"

definition pidx :: "soc \<Rightarrow> edma_ring_kind \<Rightarrow> edma_world \<Rightarrow> u32 \<Rightarrow> u16" where
  "pidx s kd w n = reg_idx w (prod_reg s kd n)"

definition cidx :: "soc \<Rightarrow> edma_ring_kind \<Rightarrow> edma_world \<Rightarrow> u32 \<Rightarrow> u16" where
  "cidx s kd w n = reg_idx w (cons_reg s kd n)"

lemma idx_regs:
  "EDMA_REG_TXDESC_PROD_IDX n = prod_reg s TXDESC n" "EDMA_REG_TXDESC_CONS_IDX n = cons_reg s TXDESC n"
  "EDMA_REG_TXCMPL_PROD_IDX s n = prod_reg s TXCMPL n" "EDMA_REG_TXCMPL_CONS_IDX s n = cons_reg s TXCMPL n"
  "EDMA_REG_RXFILL_PROD_IDX n = prod_reg s RXFILL n" "EDMA_REG_RXFILL_CONS_IDX n = cons_reg s RXFILL n"
  "EDMA_REG_RXDESC_PROD_IDX n = prod_reg s RXDESC n" "EDMA_REG_RXDESC_CONS_IDX n = cons_reg s RXDESC n"
  by (simp_all add: idx_base_def)

lemma idx_base_low: "idx_base s kd AND 0xfff = 0" "(idx_base s kd + 4) AND 0xfff = 4" "(idx_base s kd + 8) AND 0xfff = 8"
  by (cases s; cases kd; simp add: idx_base_def EDMA_REG_TXCMPL_BASE_def)+

lemma prod_cons_reg: "prod_reg s kd n \<noteq> cons_reg s' kd' m"
  by (rule ring_reg_neq) (simp add: idx_base_low)

lemma idx_base_unat: "unat (idx_base s kd) = (case kd of TXDESC \<Rightarrow> 0x1000
     | TXCMPL \<Rightarrow> (case s of IPQ807X \<Rightarrow> 0x19000 | IPQ60XX \<Rightarrow> 0x79000) | RXFILL \<Rightarrow> 0x29000 | RXDESC \<Rightarrow> 0x39000)"
  by (cases s; cases kd; simp add: idx_base_def EDMA_REG_TXCMPL_BASE_def)

lemma idx_off_unat: "unat (idx_base s kd + 4) = unat (idx_base s kd) + 4" "unat (idx_base s kd + 8) = unat (idx_base s kd) + 8"
  by (cases s; cases kd; simp add: idx_base_def EDMA_REG_TXCMPL_BASE_def)+

lemma kind_max_less: "unat n < kind_max s kd \<Longrightarrow> unat n < 64"
  by (cases s; cases kd; simp add: kind_max_def EDMA_MAX_TXCMPL_RINGS_def)

lemma idx_pages:
  assumes "unat n < kind_max s kd" "unat m < kind_max s kd'"
    "unat (idx_base s kd) + 0x1000 * unat n = unat (idx_base s kd') + 0x1000 * unat m"
  shows "kd = kd' \<and> n = m"
  using assms
  by (cases s; cases kd; cases kd'; simp add: idx_base_unat kind_max_def EDMA_MAX_TXCMPL_RINGS_def word_unat_eq_iff)

lemma idx_reg_inj:
  assumes n: "unat n < kind_max s kd" and m: "unat m < kind_max s kd'"
  shows "prod_reg s kd n = prod_reg s kd' m \<longleftrightarrow> kd = kd' \<and> n = m"
    and "cons_reg s kd n = cons_reg s kd' m \<longleftrightarrow> kd = kd' \<and> n = m"
proof -
  have b: "unat (idx_base s x + 4) < 0x100000" "unat (idx_base s x + 8) < 0x100000" for x
    by (cases s; cases x; simp add: idx_off_unat idx_base_unat)+
  note l = kind_max_less [OF n] kind_max_less [OF m]
  show "prod_reg s kd n = prod_reg s kd' m \<longleftrightarrow> kd = kd' \<and> n = m"
    using idx_pages [OF n m] by (auto simp: ring_reg_eq [OF l b(1) b(1)] idx_off_unat)
  show "cons_reg s kd n = cons_reg s kd' m \<longleftrightarrow> kd = kd' \<and> n = m"
    using idx_pages [OF n m] by (auto simp: ring_reg_eq [OF l b(2) b(2)] idx_off_unat)
qed

lemma reg_idx_write: "reg_idx (edma_reg_write w r v) q = (if q = r then ucast (v AND 0xffff) else reg_idx w q)"
  by (simp add: reg_idx_def ereg.rd_wr)

lemma ucast_u16_back: "ucast (ucast (x :: u16) AND 0xffff :: u32) = x"
  unfolding ucast_and_ffff by (rule bit_word_eqI) (auto simp: bit_simps)

named_theorems idx_simps \<open>index registers after a register write\<close>

lemma pidx_write_prod:
  assumes "unat n < kind_max s kd" "unat m < kind_max s kd'"
  shows "pidx s kd (edma_reg_write w (prod_reg s kd' m) (ucast x)) n = (if kd = kd' \<and> n = m then x else pidx s kd w n)"
  by (simp add: pidx_def reg_idx_write idx_reg_inj [OF assms] ucast_u16_back)

lemma cidx_write_cons:
  assumes "unat n < kind_max s kd" "unat m < kind_max s kd'"
  shows "cidx s kd (edma_reg_write w (cons_reg s kd' m) (ucast x)) n = (if kd = kd' \<and> n = m then x else cidx s kd w n)"
  by (simp add: cidx_def reg_idx_write idx_reg_inj [OF assms] ucast_u16_back)

lemma pidx_write_cons [idx_simps]: "pidx s kd (edma_reg_write w (cons_reg s kd' m) v) n = pidx s kd w n"
  unfolding pidx_def reg_idx_write using prod_cons_reg by auto

lemma cidx_write_prod [idx_simps]: "cidx s kd (edma_reg_write w (prod_reg s kd' m) v) n = cidx s kd w n"
  unfolding cidx_def reg_idx_write using prod_cons_reg by (metis)

text \<open>The interrupt registers are not index registers.\<close>

definition int_base :: "soc \<Rightarrow> edma_ring_kind \<Rightarrow> u32" where
  "int_base s kd = (case kd of TXCMPL \<Rightarrow> EDMA_REG_TX_BASE s | RXFILL \<Rightarrow> 0x31000 | _ \<Rightarrow> 0x49000)"

abbreviation int_mask_reg :: "soc \<Rightarrow> edma_ring_kind \<Rightarrow> u32 \<Rightarrow> u32" where
  "int_mask_reg s kd n \<equiv> int_base s kd + 4 + 0x1000 * n"

abbreviation int_stat_reg :: "soc \<Rightarrow> edma_ring_kind \<Rightarrow> u32 \<Rightarrow> u32" where
  "int_stat_reg s kd n \<equiv> int_base s kd + 0x1000 * n"

lemma int_regs:
  "EDMA_REG_TX_INT_MASK s n = int_mask_reg s TXCMPL n" "EDMA_REG_TX_INT_STAT s n = int_stat_reg s TXCMPL n"
  "EDMA_REG_RXFILL_INT_MASK n = int_mask_reg s RXFILL n" "EDMA_REG_RXFILL_INT_STAT n = int_stat_reg s RXFILL n"
  "EDMA_REG_RXDESC_INT_MASK n = int_mask_reg s RXDESC n" "EDMA_REG_RXDESC_INT_STAT n = int_stat_reg s RXDESC n"
  by (simp_all add: int_base_def)

definition int_reg :: "soc \<Rightarrow> u32 \<Rightarrow> bool" where
  "int_reg s reg \<longleftrightarrow> reg = EDMA_REG_MISC_INT_MASK \<or> reg = EDMA_REG_MISC_INT_STAT
     \<or> (\<exists>kd n. kd \<noteq> TXDESC \<and> unat n < kind_max s kd \<and> (reg = int_mask_reg s kd n \<or> reg = int_stat_reg s kd n))"

lemma int_base_low: "int_base s kd AND 0xfff = 0" "(int_base s kd + 4) AND 0xfff = 4"
  by (cases s; cases kd; simp add: int_base_def EDMA_REG_TX_BASE_def)+

lemma int_base_unat: "unat (int_base s kd) = (case kd of
     TXCMPL \<Rightarrow> (case s of IPQ807X \<Rightarrow> 0x21000 | IPQ60XX \<Rightarrow> 0x91000) | RXFILL \<Rightarrow> 0x31000 | _ \<Rightarrow> 0x49000)"
  "unat (int_base s kd + 4) = unat (int_base s kd) + 4"
  by (cases s; cases kd; simp add: int_base_def EDMA_REG_TX_BASE_def)+

lemma int_idx_pages:
  assumes "unat n < kind_max s kd" "unat m < kind_max s kd'" "kd' \<noteq> TXDESC"
  shows "unat (idx_base s kd) + 0x1000 * unat n \<noteq> unat (int_base s kd') + 0x1000 * unat m"
  using assms
  by (cases s; cases kd; cases kd'; simp add: idx_base_unat int_base_unat kind_max_def EDMA_MAX_TXCMPL_RINGS_def)

lemma int_mask_not_prod:
  assumes "unat n < kind_max s kd" "unat m < kind_max s kd'" "kd' \<noteq> TXDESC"
  shows "prod_reg s kd n \<noteq> int_mask_reg s kd' m"
proof -
  have b: "unat (idx_base s kd + 4) < 0x100000" "unat (int_base s kd' + 4) < 0x100000"
    by (cases s; cases kd; cases kd'; simp add: idx_off_unat idx_base_unat int_base_unat)+
  show ?thesis
    using int_idx_pages [OF assms]
    by (simp add: ring_reg_eq [OF kind_max_less [OF assms(1)] kind_max_less [OF assms(2)] b] idx_off_unat int_base_unat(2))
qed

lemma low_neq: "x AND 0xfff \<noteq> y AND 0xfff \<Longrightarrow> x \<noteq> (y :: u32)"
  by auto

lemma int_reg_not_idx:
  assumes "int_reg s reg" "unat n < kind_max s kd"
  shows "prod_reg s kd n \<noteq> reg" "cons_reg s kd n \<noteq> reg"
proof -
  have l: "prod_reg s kd n AND 0xfff = 4" "cons_reg s kd n AND 0xfff = 8"
    "int_mask_reg s x m AND 0xfff = 4" "int_stat_reg s x m AND 0xfff = 0" for x m
    by (simp_all only: ring_reg_low idx_base_low int_base_low)
  have "reg AND 0xfff = 0x60 \<or> reg AND 0xfff = 0x5c \<or> reg AND 0xfff = 0
      \<or> (\<exists>kd' m. kd' \<noteq> TXDESC \<and> unat m < kind_max s kd' \<and> reg = int_mask_reg s kd' m)"
  proof -
    have "reg = 0x60 \<Longrightarrow> reg AND 0xfff = 0x60" "reg = 0x5c \<Longrightarrow> reg AND 0xfff = 0x5c" by simp_all
    then show ?thesis using assms(1) l(4) unfolding int_reg_def by blast
  qed
  then consider "reg AND 0xfff \<noteq> 4" "reg AND 0xfff \<noteq> 8"
    | kd' m where "kd' \<noteq> TXDESC" "unat m < kind_max s kd'" "reg = int_mask_reg s kd' m"
    by force
  then have "prod_reg s kd n \<noteq> reg \<and> cons_reg s kd n \<noteq> reg"
  proof cases
    case 1
    then show ?thesis using l(1,2) by metis
  next
    case 2
    have "(8 :: u32) \<noteq> 4" by simp
    then have "cons_reg s kd n \<noteq> reg" using l(2) l(3) [of kd' m] 2(3) by metis
    then show ?thesis using 2 int_mask_not_prod [OF assms(2)] by simp
  qed
  then show "prod_reg s kd n \<noteq> reg" "cons_reg s kd n \<noteq> reg" by simp_all
qed

lemma idx_write_int:
  assumes "int_reg s reg" "unat n < kind_max s kd"
  shows "pidx s kd (edma_reg_write w reg v) n = pidx s kd w n" "cidx s kd (edma_reg_write w reg v) n = cidx s kd w n"
  using int_reg_not_idx [OF assms] by (simp_all add: pidx_def cidx_def reg_idx_write)

section \<open>The invariant\<close>

text \<open>Each ring has 128 descriptors, its number within the limits, and its two indices in range;
  what a consumer ring holds between the indices names slots of the store.\<close>

definition rxfill_ok :: "soc \<Rightarrow> edma_world \<Rightarrow> nat \<Rightarrow> bool" where
  "rxfill_ok s w r \<longleftrightarrow> (let ring = rxfill_ring w ! r in
     rf_count ring = 128 \<and> length (rf_desc ring) = 128 \<and> unat (rf_id ring) < kind_max s RXFILL
   \<and> unat (pidx s RXFILL w (rf_id ring)) < 128 \<and> unat (cidx s RXFILL w (rf_id ring)) < 128)"

definition rxdesc_ok :: "soc \<Rightarrow> edma_world \<Rightarrow> nat \<Rightarrow> bool" where
  "rxdesc_ok s w r \<longleftrightarrow> (let ring = rxdesc_ring w ! r; p = pidx s RXDESC w (rd_id ring); c = cidx s RXDESC w (rd_id ring) in
     rd_count ring = 128 \<and> length (rd_desc ring) = 128 \<and> unat (rd_id ring) < kind_max s RXDESC
   \<and> rd_rxfill ring < length (rxfill_ring w) \<and> unat p < 128 \<and> unat c < 128
   \<and> (\<forall>i \<in> set (ring_span 128 c p). rx_slot w r i < 128))"

definition txdesc_ok :: "soc \<Rightarrow> edma_world \<Rightarrow> nat \<Rightarrow> bool" where
  "txdesc_ok s w r \<longleftrightarrow> (let ring = txdesc_ring w ! r in
     td_count ring = 128 \<and> length (td_desc ring) = 128 \<and> unat (td_id ring) < kind_max s TXDESC
   \<and> unat (pidx s TXDESC w (td_id ring)) < 128 \<and> unat (cidx s TXDESC w (td_id ring)) < 128)"

definition txcmpl_ok :: "soc \<Rightarrow> edma_world \<Rightarrow> nat \<Rightarrow> bool" where
  "txcmpl_ok s w r \<longleftrightarrow> (let ring = txcmpl_ring w ! r; p = pidx s TXCMPL w (tc_id ring); c = cidx s TXCMPL w (tc_id ring) in
     tc_count ring = 128 \<and> length (tc_desc ring) = 128 \<and> unat (tc_id ring) < kind_max s TXCMPL
   \<and> unat p < 128 \<and> unat c < 128 \<and> (\<forall>i \<in> set (ring_span 128 c p). txcmpl_slot w r i < 128))"

definition edma_shape :: "edma_kernel \<Rightarrow> edma_world \<Rightarrow> bool" where
  "edma_shape k w \<longleftrightarrow> length (rx_skb_store w) = 128 \<and> length (tx_skb_store w) = 128
   \<and> length (netdev_arr w) = NSS_DP_HAL_MAX_PORTS (ek_soc k)
   \<and> length (rxfill_ring w) = unat (rxfill_rings (layout w)) \<and> length (rxdesc_ring w) = unat (rxdesc_rings (layout w))
   \<and> length (txdesc_ring w) = unat (txdesc_rings (layout w)) \<and> length (txcmpl_ring w) = unat (txcmpl_rings (layout w))
   \<and> distinct (map rf_id (rxfill_ring w)) \<and> distinct (map rd_id (rxdesc_ring w))
   \<and> distinct (map td_id (txdesc_ring w)) \<and> distinct (map tc_id (txcmpl_ring w))"

text \<open>
  What the engine relies on: the preheader of a buffer in a store carries a slot number, so what
  the engine hands back does too.
\<close>

definition tags_ok :: "edma_kernel \<Rightarrow> edma_world \<Rightarrow> bool" where
  "tags_ok k w \<longleftrightarrow> (\<forall>a. Some (Alloc a) \<in> set (rx_skb_store w) \<longrightarrow> unat (rx_opaque (rxph_mem w (ek_map_rx k a))) < 128)
   \<and> (\<forall>s. Some s \<in> set (tx_skb_store w) \<longrightarrow> unat (tx_opaque (txph_mem w s)) < 128)"

definition edma_ok :: "edma_kernel \<Rightarrow> edma_world \<Rightarrow> bool" where
  "edma_ok k w \<longleftrightarrow> edma_shape k w \<and> tags_ok k w
   \<and> (\<forall>r < length (rxfill_ring w). rxfill_ok (ek_soc k) w r) \<and> (\<forall>r < length (rxdesc_ring w). rxdesc_ok (ek_soc k) w r)
   \<and> (\<forall>r < length (txdesc_ring w). txdesc_ok (ek_soc k) w r) \<and> (\<forall>r < length (txcmpl_ring w). txcmpl_ok (ek_soc k) w r)"

lemma edma_okD:
  assumes "edma_ok k w"
  shows "edma_shape k w" "tags_ok k w" "r < length (rxfill_ring w) \<Longrightarrow> rxfill_ok (ek_soc k) w r"
    "r < length (rxdesc_ring w) \<Longrightarrow> rxdesc_ok (ek_soc k) w r" "r < length (txdesc_ring w) \<Longrightarrow> txdesc_ok (ek_soc k) w r"
    "r < length (txcmpl_ring w) \<Longrightarrow> txcmpl_ok (ek_soc k) w r"
  using assms by (simp_all add: edma_ok_def)

lemma edma_okI:
  assumes "edma_shape k w" "tags_ok k w" "\<And>r. r < length (rxfill_ring w) \<Longrightarrow> rxfill_ok (ek_soc k) w r"
    "\<And>r. r < length (rxdesc_ring w) \<Longrightarrow> rxdesc_ok (ek_soc k) w r" "\<And>r. r < length (txdesc_ring w) \<Longrightarrow> txdesc_ok (ek_soc k) w r"
    "\<And>r. r < length (txcmpl_ring w) \<Longrightarrow> txcmpl_ok (ek_soc k) w r"
  shows "edma_ok k w"
  using assms by (simp add: edma_ok_def)

lemmas ring_ok_defs = rxfill_ok_def rxdesc_ok_def txdesc_ok_def txcmpl_ok_def

text \<open>
  Two machines with the same rings and the same registers look the same to the ring conditions; the
  index registers count for ring numbers within the limits only.
\<close>

definition same_idx :: "edma_kernel \<Rightarrow> edma_world \<Rightarrow> edma_world \<Rightarrow> bool" where
  "same_idx k w w' \<longleftrightarrow> (\<forall>kd n. unat n < kind_max (ek_soc k) kd \<longrightarrow>
     pidx (ek_soc k) kd w' n = pidx (ek_soc k) kd w n \<and> cidx (ek_soc k) kd w' n = cidx (ek_soc k) kd w n)"

lemma same_idxD:
  assumes "same_idx k w w'" "unat n < kind_max (ek_soc k) kd"
  shows "pidx (ek_soc k) kd w' n = pidx (ek_soc k) kd w n" "cidx (ek_soc k) kd w' n = cidx (ek_soc k) kd w n"
  using assms by (simp_all add: same_idx_def)

definition same_rings :: "edma_world \<Rightarrow> edma_world \<Rightarrow> bool" where
  "same_rings w w' \<longleftrightarrow> layout w' = layout w \<and> netdev_arr w' = netdev_arr w
   \<and> rxfill_ring w' = rxfill_ring w \<and> rxdesc_ring w' = rxdesc_ring w \<and> txdesc_ring w' = txdesc_ring w
   \<and> txcmpl_ring w' = txcmpl_ring w \<and> rxph_mem w' = rxph_mem w
   \<and> length (rx_skb_store w') = length (rx_skb_store w) \<and> length (tx_skb_store w') = length (tx_skb_store w)"

lemma same_view_ok:
  assumes ok: "edma_ok k w" and i: "same_idx k w w'" and s: "same_rings w w'" and t: "tags_ok k w'"
  shows "edma_ok k w'"
proof (rule edma_okI)
  note e = s [unfolded same_rings_def] and o = edma_okD [OF ok]
  show "edma_shape k w'" using o(1) e by (simp add: edma_shape_def)
  show "tags_ok k w'" by (rule t)
  show "rxfill_ok (ek_soc k) w' r" if "r < length (rxfill_ring w')" for r
    using o(3) [of r] that e same_idxD [OF i, of "rf_id (rxfill_ring w ! r)" RXFILL] by (simp add: rxfill_ok_def Let_def)
  show "rxdesc_ok (ek_soc k) w' r" if "r < length (rxdesc_ring w')" for r
    using o(4) [of r] that e same_idxD [OF i, of "rd_id (rxdesc_ring w ! r)" RXDESC]
    by (simp add: rxdesc_ok_def Let_def rx_slot_def)
  show "txdesc_ok (ek_soc k) w' r" if "r < length (txdesc_ring w')" for r
    using o(5) [of r] that e same_idxD [OF i, of "td_id (txdesc_ring w ! r)" TXDESC] by (simp add: txdesc_ok_def Let_def)
  show "txcmpl_ok (ek_soc k) w' r" if "r < length (txcmpl_ring w')" for r
    using o(6) [of r] that e same_idxD [OF i, of "tc_id (txcmpl_ring w ! r)" TXCMPL]
    by (simp add: txcmpl_ok_def Let_def txcmpl_slot_def)
qed

lemma reg_write_frame [simp]:
  fixes w :: edma_world
  shows "rx_skb_store (edma_reg_write w g v) = rx_skb_store w" "tx_skb_store (edma_reg_write w g v) = tx_skb_store w"
  "rxfill_ring (edma_reg_write w g v) = rxfill_ring w" "rxdesc_ring (edma_reg_write w g v) = rxdesc_ring w"
  "txdesc_ring (edma_reg_write w g v) = txdesc_ring w" "txcmpl_ring (edma_reg_write w g v) = txcmpl_ring w"
  "netdev_arr (edma_reg_write w g v) = netdev_arr w" "layout (edma_reg_write w g v) = layout w"
  "rxph_mem (edma_reg_write w g v) = rxph_mem w" "txph_mem (edma_reg_write w g v) = txph_mem w"
  "ek_trace (edma_reg_write w g v) = ek_trace w" "ek_allocs (edma_reg_write w g v) = ek_allocs w"
  by (simp_all add: edma_reg_write_def)

lemma pidx_frame:
  assumes "regs w' = regs w"
  shows "pidx s kd w' = pidx s kd w" "cidx s kd w' = cidx s kd w"
  using assms by (simp_all add: fun_eq_iff pidx_def cidx_def reg_idx_def edma_reg_read_def)

lemma same_regs_idx: "regs w' = regs w \<Longrightarrow> same_idx k w w'"
  using pidx_frame [of w' w] by (simp add: same_idx_def)

lemma regs_ekcalls [simp]: "regs (ekcalls cs w) = regs w"
  by (simp add: ekcalls_def)

lemma tags_ok_mono:
  assumes "tags_ok k w" "rxph_mem w' = rxph_mem w" "txph_mem w' = txph_mem w"
    "\<And>s. Some s \<in> set (rx_skb_store w') \<Longrightarrow> Some s \<in> set (rx_skb_store w)"
    "\<And>s. Some s \<in> set (tx_skb_store w') \<Longrightarrow> Some s \<in> set (tx_skb_store w)"
  shows "tags_ok k w'"
  using assms by (simp add: tags_ok_def)

lemma edma_ok_frame:
  assumes "edma_ok k w" "regs w' = regs w" "same_rings w w'" "txph_mem w' = txph_mem w"
    "\<And>s. Some s \<in> set (rx_skb_store w') \<Longrightarrow> Some s \<in> set (rx_skb_store w)"
    "\<And>s. Some s \<in> set (tx_skb_store w') \<Longrightarrow> Some s \<in> set (tx_skb_store w)"
  shows "edma_ok k w'"
  using assms same_view_ok [OF assms(1) same_regs_idx [OF assms(2)] assms(3)]
    tags_ok_mono [OF edma_okD(2) [OF assms(1)], of w'] by (simp add: same_rings_def)

lemma edma_ok_calls: "edma_ok k w \<Longrightarrow> edma_ok k (ekcalls cs w)"
  by (erule edma_ok_frame) (simp_all add: same_rings_def)

lemma edma_ok_int:
  assumes "edma_ok k w" "int_reg (ek_soc k) reg"
  shows "edma_ok k (edma_reg_write w reg v)"
  using assms(1)
proof (rule same_view_ok)
  show "same_idx k w (edma_reg_write w reg v)" using idx_write_int [OF assms(2)] by (simp add: same_idx_def)
  show "tags_ok k (edma_reg_write w reg v)" using edma_okD(2) [OF assms(1)] by (simp add: tags_ok_def)
qed (simp add: same_rings_def)

text \<open>Emptying a slot of a store, or counting a net device up or down, leaves the invariant.\<close>

lemma set_update_None: "Some x \<in> set (s[i := None]) \<Longrightarrow> Some x \<in> set s"
  by (auto dest: set_update_subset_insert [THEN subsetD])

lemma edma_ok_rx_take: "edma_ok k w \<Longrightarrow> edma_ok k (w\<lparr>rx_skb_store := (rx_skb_store w)[i := None]\<rparr>)"
  by (erule edma_ok_frame) (simp_all add: same_rings_def set_update_None)

lemma edma_ok_active: "edma_ok k w \<Longrightarrow> edma_ok k (w\<lparr>active := n\<rparr>)"
  by (erule edma_ok_frame) (simp_all add: same_rings_def)

section \<open>Moving an index\<close>

lemma ring_ids:
  assumes "edma_ok k w"
  shows "r < length (rxfill_ring w) \<Longrightarrow> unat (rf_id (rxfill_ring w ! r)) < kind_max (ek_soc k) RXFILL"
    "r < length (rxdesc_ring w) \<Longrightarrow> unat (rd_id (rxdesc_ring w ! r)) < kind_max (ek_soc k) RXDESC"
    "r < length (txdesc_ring w) \<Longrightarrow> unat (td_id (txdesc_ring w ! r)) < kind_max (ek_soc k) TXDESC"
    "r < length (txcmpl_ring w) \<Longrightarrow> unat (tc_id (txcmpl_ring w ! r)) < kind_max (ek_soc k) TXCMPL"
  using edma_okD(3-6) [OF assms, of r] by (simp_all add: ring_ok_defs Let_def)

lemma ring_ids_inj:
  assumes "edma_ok k w"
  shows "r < length (rxdesc_ring w) \<Longrightarrow> q < length (rxdesc_ring w) \<Longrightarrow>
       rd_id (rxdesc_ring w ! r) = rd_id (rxdesc_ring w ! q) \<longleftrightarrow> r = q"
    "r < length (txcmpl_ring w) \<Longrightarrow> q < length (txcmpl_ring w) \<Longrightarrow>
       tc_id (txcmpl_ring w ! r) = tc_id (txcmpl_ring w ! q) \<longleftrightarrow> r = q"
  using edma_okD(1) [OF assms] nth_eq_iff_index_eq [of "map rd_id (rxdesc_ring w)" r q]
    nth_eq_iff_index_eq [of "map tc_id (txcmpl_ring w)" r q]
  by (simp_all add: edma_shape_def)

lemma shape_tags_write [simp]:
  "edma_shape k (edma_reg_write w g v) \<longleftrightarrow> edma_shape k w" "tags_ok k (edma_reg_write w g v) \<longleftrightarrow> tags_ok k w"
  by (simp_all add: edma_shape_def tags_ok_def)

lemma slots_write [simp]:
  "rx_slot (edma_reg_write w g v) r i = rx_slot w r i" "txcmpl_slot (edma_reg_write w g v) r i = txcmpl_slot w r i"
  by (simp_all add: rx_slot_def txcmpl_slot_def)

lemma edma_ok_prod:
  assumes ok: "edma_ok k w" and kd: "kd = RXFILL \<or> kd = TXDESC" and n: "unat n < kind_max (ek_soc k) kd" and x: "unat (x :: u16) < 128"
  shows "edma_ok k (edma_reg_write w (prod_reg (ek_soc k) kd n) (ucast x))"
proof (rule edma_okI)
  note o = edma_okD [OF ok] and p = pidx_write_prod [OF _ n] and i = ring_ids [OF ok]
  show "edma_shape k (edma_reg_write w (prod_reg (ek_soc k) kd n) (ucast x))"
    "tags_ok k (edma_reg_write w (prod_reg (ek_soc k) kd n) (ucast x))" using o(1,2) by simp_all
  fix r
  show "r < length (rxfill_ring (edma_reg_write w (prod_reg (ek_soc k) kd n) (ucast x))) \<Longrightarrow>
      rxfill_ok (ek_soc k) (edma_reg_write w (prod_reg (ek_soc k) kd n) (ucast x)) r"
    using o(3) [of r] i(1) [of r] x by (simp add: rxfill_ok_def Let_def idx_simps p)
  show "r < length (rxdesc_ring (edma_reg_write w (prod_reg (ek_soc k) kd n) (ucast x))) \<Longrightarrow>
      rxdesc_ok (ek_soc k) (edma_reg_write w (prod_reg (ek_soc k) kd n) (ucast x)) r"
    using o(4) [of r] i(2) [of r] kd by (auto simp: rxdesc_ok_def Let_def idx_simps p)
  show "r < length (txdesc_ring (edma_reg_write w (prod_reg (ek_soc k) kd n) (ucast x))) \<Longrightarrow>
      txdesc_ok (ek_soc k) (edma_reg_write w (prod_reg (ek_soc k) kd n) (ucast x)) r"
    using o(5) [of r] i(3) [of r] x by (simp add: txdesc_ok_def Let_def idx_simps p)
  show "r < length (txcmpl_ring (edma_reg_write w (prod_reg (ek_soc k) kd n) (ucast x))) \<Longrightarrow>
      txcmpl_ok (ek_soc k) (edma_reg_write w (prod_reg (ek_soc k) kd n) (ucast x)) r"
    using o(6) [of r] i(4) [of r] kd by (auto simp: txcmpl_ok_def Let_def idx_simps p)
qed

text \<open>A consumer index may move anywhere on a ring the engine reads, and ahead on a ring the driver reads.\<close>

lemma edma_ok_cons:
  assumes ok: "edma_ok k w" and n: "unat n < kind_max (ek_soc k) kd" and x: "unat (x :: u16) < 128"
    and sub: "kd \<in> {RXDESC, TXCMPL} \<Longrightarrow>
       set (ring_span 128 x (pidx (ek_soc k) kd w n)) \<subseteq> set (ring_span 128 (cidx (ek_soc k) kd w n) (pidx (ek_soc k) kd w n))"
  shows "edma_ok k (edma_reg_write w (cons_reg (ek_soc k) kd n) (ucast x))"
proof (rule edma_okI)
  note o = edma_okD [OF ok] and p = cidx_write_cons [OF _ n] and i = ring_ids [OF ok]
  show "edma_shape k (edma_reg_write w (cons_reg (ek_soc k) kd n) (ucast x))"
    "tags_ok k (edma_reg_write w (cons_reg (ek_soc k) kd n) (ucast x))" using o(1,2) by simp_all
  fix r
  show "r < length (rxfill_ring (edma_reg_write w (cons_reg (ek_soc k) kd n) (ucast x))) \<Longrightarrow>
      rxfill_ok (ek_soc k) (edma_reg_write w (cons_reg (ek_soc k) kd n) (ucast x)) r"
    using o(3) [of r] i(1) [of r] x by (simp add: rxfill_ok_def Let_def idx_simps p)
  show "r < length (rxdesc_ring (edma_reg_write w (cons_reg (ek_soc k) kd n) (ucast x))) \<Longrightarrow>
      rxdesc_ok (ek_soc k) (edma_reg_write w (cons_reg (ek_soc k) kd n) (ucast x)) r"
    using o(4) [of r] i(2) [of r] sub x n
    by (cases "kd = RXDESC") (auto simp: rxdesc_ok_def Let_def idx_simps cidx_write_cons)
  show "r < length (txdesc_ring (edma_reg_write w (cons_reg (ek_soc k) kd n) (ucast x))) \<Longrightarrow>
      txdesc_ok (ek_soc k) (edma_reg_write w (cons_reg (ek_soc k) kd n) (ucast x)) r"
    using o(5) [of r] i(3) [of r] x by (simp add: txdesc_ok_def Let_def idx_simps p)
  show "r < length (txcmpl_ring (edma_reg_write w (cons_reg (ek_soc k) kd n) (ucast x))) \<Longrightarrow>
      txcmpl_ok (ek_soc k) (edma_reg_write w (cons_reg (ek_soc k) kd n) (ucast x)) r"
    using o(6) [of r] i(4) [of r] sub x n
    by (cases "kd = TXCMPL") (auto simp: txcmpl_ok_def Let_def idx_simps cidx_write_cons)
qed

section \<open>The engine\<close>

text \<open>
  What the engine may do between two accesses of the driver: fetch from a fill or a transmit ring;
  write a frame into a buffer of the receive store and post its descriptor, keeping the slot number in the
  preheader; post a completion that carries the slot number of a buffer of the transmit store; raise
  interrupts. It posts a descriptor only while the ring has room.
\<close>

definition dma_post_rx :: "soc \<Rightarrow> nat \<Rightarrow> u32 \<Rightarrow> edma_rx_preheader \<Rightarrow> u32 \<Rightarrow> edma_world \<Rightarrow> edma_world" where
  "dma_post_rx s r b ph st w = (let ring = rxdesc_ring w ! r; p = pidx s RXDESC w (rd_id ring) in
     edma_reg_write
       (w\<lparr>rxph_mem := (rxph_mem w)(b := ph),
          rxdesc_ring := (rxdesc_ring w)[r := ring\<lparr>rd_desc := (rd_desc ring)
             [unat p := \<lparr>rd_buffer_addr = b, rd_status = st\<rparr>]\<rparr>]\<rparr>)
       (prod_reg s RXDESC (rd_id ring)) (ucast (ring_next 128 p)))"

definition dma_post_txcmpl :: "soc \<Rightarrow> nat \<Rightarrow> u32 \<Rightarrow> u32 \<Rightarrow> edma_world \<Rightarrow> edma_world" where
  "dma_post_txcmpl s r tag st w = (let ring = txcmpl_ring w ! r; p = pidx s TXCMPL w (tc_id ring) in
     edma_reg_write
       (w\<lparr>txcmpl_ring := (txcmpl_ring w)[r := ring\<lparr>tc_desc := (tc_desc ring)
             [unat p := \<lparr>tc_buffer_addr = tag, tc_status = st\<rparr>]\<rparr>]\<rparr>)
       (prod_reg s TXCMPL (tc_id ring)) (ucast (ring_next 128 p)))"

inductive edma_dma :: "edma_kernel \<Rightarrow> edma_world \<Rightarrow> edma_world \<Rightarrow> bool" for k where
  fetch_fill: "r < length (rxfill_ring w) \<Longrightarrow> unat x < 128 \<Longrightarrow>
     edma_dma k w (edma_reg_write w (cons_reg (ek_soc k) RXFILL (rf_id (rxfill_ring w ! r))) (ucast (x :: u16)))"
| fetch_tx: "r < length (txdesc_ring w) \<Longrightarrow> unat x < 128 \<Longrightarrow>
     edma_dma k w (edma_reg_write w (cons_reg (ek_soc k) TXDESC (td_id (txdesc_ring w ! r))) (ucast (x :: u16)))"
| post_rx: "r < length (rxdesc_ring w) \<Longrightarrow> Some (Alloc a) \<in> set (rx_skb_store w) \<Longrightarrow>
     rx_opaque ph = rx_opaque (rxph_mem w (ek_map_rx k a)) \<Longrightarrow>
     ring_next 128 (pidx (ek_soc k) RXDESC w (rd_id (rxdesc_ring w ! r))) \<noteq> cidx (ek_soc k) RXDESC w (rd_id (rxdesc_ring w ! r)) \<Longrightarrow>
     edma_dma k w (dma_post_rx (ek_soc k) r (ek_map_rx k a) ph st w)"
| post_txcmpl: "r < length (txcmpl_ring w) \<Longrightarrow> Some s \<in> set (tx_skb_store w) \<Longrightarrow>
     ring_next 128 (pidx (ek_soc k) TXCMPL w (tc_id (txcmpl_ring w ! r))) \<noteq> cidx (ek_soc k) TXCMPL w (tc_id (txcmpl_ring w ! r)) \<Longrightarrow>
     edma_dma k w (dma_post_txcmpl (ek_soc k) r (tx_opaque (txph_mem w s)) st w)"
| raise: "int_reg (ek_soc k) reg \<Longrightarrow> edma_dma k w (edma_reg_write w reg v)"

text \<open>
  A write-back in two steps: the entry at the producer index is written, then the index moves over it. The entry must
  hold a slot number, and there must be room.
\<close>

lemma span_grows:
  assumes "unat c < 128" "unat p < 128" "ring_next 128 p \<noteq> c" "\<forall>j \<in> set (ring_span 128 c p). P j" "P p"
  shows "\<forall>j \<in> set (ring_span 128 c (ring_next 128 p)). P j"
  using assms ring_span_snoc [of c 128 p] by auto

lemma rx_advance_ok:
  fixes k w r
  defines "s \<equiv> ek_soc k" and "rid \<equiv> rd_id (rxdesc_ring w ! r)"
  assumes ok: "edma_ok k w" and r: "r < length (rxdesc_ring w)" and slot: "rx_slot w r (pidx s RXDESC w rid) < 128"
    and room: "ring_next 128 (pidx s RXDESC w rid) \<noteq> cidx s RXDESC w rid"
  shows "edma_ok k (edma_reg_write w (prod_reg s RXDESC rid) (ucast (ring_next 128 (pidx s RXDESC w rid))))" (is "edma_ok k ?w")
proof (rule edma_okI)
  note o = edma_okD [OF ok, folded s_def] and i = ring_ids [OF ok, folded s_def]
  note p = pidx_write_prod [OF _ i(2) [OF r]] and c = cidx_write_prod
  note rr = o(4) [OF r, unfolded rxdesc_ok_def Let_def, folded rid_def]
  have keep: "rx_slot ?w = rx_slot w" by (simp add: rx_slot_def fun_eq_iff)
  show "edma_shape k ?w" "tags_ok k ?w" using o(1,2) by (simp_all add: edma_shape_def tags_ok_def)
  fix q
  show "q < length (rxfill_ring ?w) \<Longrightarrow> rxfill_ok (ek_soc k) ?w q" "q < length (txdesc_ring ?w) \<Longrightarrow> txdesc_ok (ek_soc k) ?w q"
    "q < length (txcmpl_ring ?w) \<Longrightarrow> txcmpl_ok (ek_soc k) ?w q"
    using o(3,5,6) [of q] i(1,3,4) [of q]
    by (simp_all add: rxfill_ok_def txdesc_ok_def txcmpl_ok_def txcmpl_slot_def Let_def p c rid_def flip: s_def)
  show "rxdesc_ok (ek_soc k) ?w q" if q: "q < length (rxdesc_ring ?w)"
  proof (cases "q = r")
    case True
    have "unat (ring_next 128 (pidx s RXDESC w rid)) < 128" using rr by (simp add: ring_next_128)
    moreover have "\<forall>j \<in> set (ring_span 128 (cidx s RXDESC w rid) (ring_next 128 (pidx s RXDESC w rid))). rx_slot w r j < 128"
      by (rule span_grows) (use rr slot room in simp_all)
    ultimately show ?thesis
      using True rr i(2) [OF r] unfolding rxdesc_ok_def Let_def keep by (simp add: p c rid_def flip: s_def)
  next
    case False
    have "rd_id (rxdesc_ring w ! q) \<noteq> rid" using ring_ids_inj(1) [OF ok _ r, of q] q False by (simp add: rid_def)
    then show ?thesis
      using o(4) [of q] i(2) [of q] q unfolding rxdesc_ok_def Let_def keep by (simp add: p c rid_def flip: s_def)
  qed
qed

lemma txcmpl_advance_ok:
  fixes k w r
  defines "s \<equiv> ek_soc k" and "rid \<equiv> tc_id (txcmpl_ring w ! r)"
  assumes ok: "edma_ok k w" and r: "r < length (txcmpl_ring w)" and slot: "txcmpl_slot w r (pidx s TXCMPL w rid) < 128"
    and room: "ring_next 128 (pidx s TXCMPL w rid) \<noteq> cidx s TXCMPL w rid"
  shows "edma_ok k (edma_reg_write w (prod_reg s TXCMPL rid) (ucast (ring_next 128 (pidx s TXCMPL w rid))))" (is "edma_ok k ?w")
proof (rule edma_okI)
  note o = edma_okD [OF ok, folded s_def] and i = ring_ids [OF ok, folded s_def]
  note p = pidx_write_prod [OF _ i(4) [OF r]] and c = cidx_write_prod
  note rr = o(6) [OF r, unfolded txcmpl_ok_def Let_def, folded rid_def]
  have keep: "rx_slot ?w = rx_slot w" "txcmpl_slot ?w = txcmpl_slot w" by (simp_all add: rx_slot_def txcmpl_slot_def fun_eq_iff)
  show "edma_shape k ?w" "tags_ok k ?w" using o(1,2) by (simp_all add: edma_shape_def tags_ok_def)
  fix q
  show "q < length (rxfill_ring ?w) \<Longrightarrow> rxfill_ok (ek_soc k) ?w q" "q < length (txdesc_ring ?w) \<Longrightarrow> txdesc_ok (ek_soc k) ?w q"
    "q < length (rxdesc_ring ?w) \<Longrightarrow> rxdesc_ok (ek_soc k) ?w q"
    using o(3,4,5) [of q] i(1,2,3) [of q]
    by (simp_all add: rxfill_ok_def txdesc_ok_def rxdesc_ok_def keep Let_def p c rid_def flip: s_def)
  show "txcmpl_ok (ek_soc k) ?w q" if q: "q < length (txcmpl_ring ?w)"
  proof (cases "q = r")
    case True
    have "unat (ring_next 128 (pidx s TXCMPL w rid)) < 128" using rr by (simp add: ring_next_128)
    moreover have "\<forall>j \<in> set (ring_span 128 (cidx s TXCMPL w rid) (ring_next 128 (pidx s TXCMPL w rid))). txcmpl_slot w r j < 128"
      by (rule span_grows) (use rr slot room in simp_all)
    ultimately show ?thesis
      using True rr i(4) [OF r] unfolding txcmpl_ok_def Let_def keep by (simp add: p c rid_def flip: s_def)
  next
    case False
    have "tc_id (txcmpl_ring w ! q) \<noteq> rid" using ring_ids_inj(2) [OF ok _ r, of q] q False by (simp add: rid_def)
    then show ?thesis
      using o(6) [of q] i(4) [of q] q unfolding txcmpl_ok_def Let_def keep by (simp add: p c rid_def flip: s_def)
  qed
qed

text \<open>Writing the entry.\<close>

definition rx_put :: "nat \<Rightarrow> u16 \<Rightarrow> u32 \<Rightarrow> edma_rx_preheader \<Rightarrow> u32 \<Rightarrow> edma_world \<Rightarrow> edma_world" where
  "rx_put r p b ph st w = w\<lparr>rxph_mem := (rxph_mem w)(b := ph), rxdesc_ring := (rxdesc_ring w)[r := (rxdesc_ring w ! r)
      \<lparr>rd_desc := (rd_desc (rxdesc_ring w ! r))[unat p := \<lparr>rd_buffer_addr = b, rd_status = st\<rparr>]\<rparr>]\<rparr>"

definition txcmpl_put :: "nat \<Rightarrow> u16 \<Rightarrow> u32 \<Rightarrow> u32 \<Rightarrow> edma_world \<Rightarrow> edma_world" where
  "txcmpl_put r p tag st w = w\<lparr>txcmpl_ring := (txcmpl_ring w)[r := (txcmpl_ring w ! r)
      \<lparr>tc_desc := (tc_desc (txcmpl_ring w ! r))[unat p := \<lparr>tc_buffer_addr = tag, tc_status = st\<rparr>]\<rparr>]\<rparr>"

lemma put_idx [simp]:
  "pidx s kd (rx_put r p b ph st w) = pidx s kd w" "cidx s kd (rx_put r p b ph st w) = cidx s kd w"
  "pidx s kd (txcmpl_put r p tag st w) = pidx s kd w" "cidx s kd (txcmpl_put r p tag st w) = cidx s kd w"
  by (rule pidx_frame; simp add: rx_put_def txcmpl_put_def)+

lemma rx_put_ok:
  assumes ok: "edma_ok k w" and r: "r < length (rxdesc_ring w)" and p: "unat p < 128" and ph: "rx_opaque ph = rx_opaque (rxph_mem w b)"
    and tag: "unat (rx_opaque ph) < 128"
  shows "edma_ok k (rx_put r p b ph st w)" "rx_slot (rx_put r p b ph st w) r p < 128"
proof -
  let ?w = "rx_put r p b ph st w"
  note o = edma_okD [OF ok]
  note rr = o(4) [OF r, unfolded rxdesc_ok_def Let_def]
  have g: "rxfill_ring ?w = rxfill_ring w" "txdesc_ring ?w = txdesc_ring w" "txcmpl_ring ?w = txcmpl_ring w"
    "length (rxdesc_ring ?w) = length (rxdesc_ring w)" "rd_id (rxdesc_ring ?w ! q) = rd_id (rxdesc_ring w ! q)"
    "rd_count (rxdesc_ring ?w ! q) = rd_count (rxdesc_ring w ! q)" "rd_rxfill (rxdesc_ring ?w ! q) = rd_rxfill (rxdesc_ring w ! q)"
    "length (rd_desc (rxdesc_ring ?w ! q)) = length (rd_desc (rxdesc_ring w ! q))" for q
    using r by (simp_all add: rx_put_def nth_list_update)
  have ids: "map rd_id (rxdesc_ring ?w) = map rd_id (rxdesc_ring w)" by (simp add: rx_put_def map_update list_update_same_conv r)
  have slot: "rx_slot ?w q j < 128" if "rx_slot w q j < 128 \<or> q = r \<and> j = p" "q < length (rxdesc_ring w)" for q j
    using that tag r rr ph p by (auto simp: rx_slot_def rx_put_def nth_list_update word_unat_eq_iff)
  show "rx_slot ?w r p < 128" using slot r by blast
  show "edma_ok k ?w"
  proof (rule edma_okI)
    show "edma_shape k ?w" using o(1) ids by (simp add: edma_shape_def rx_put_def)
    show "tags_ok k ?w" using o(2) ph by (auto simp: tags_ok_def rx_put_def)
    show "rxfill_ok (ek_soc k) ?w q" if "q < length (rxfill_ring ?w)" for q using o(3) [of q] that by (simp add: rxfill_ok_def Let_def g)
    show "txdesc_ok (ek_soc k) ?w q" if "q < length (txdesc_ring ?w)" for q using o(5) [of q] that by (simp add: txdesc_ok_def Let_def g)
    show "rxdesc_ok (ek_soc k) ?w q" if "q < length (rxdesc_ring ?w)" for q using o(4) [of q] slot that by (simp add: rxdesc_ok_def Let_def g)
    show "txcmpl_ok (ek_soc k) ?w q" if "q < length (txcmpl_ring ?w)" for q
      using o(6) [of q] that by (simp add: txcmpl_ok_def Let_def g txcmpl_slot_def)
  qed
qed

lemma txcmpl_put_ok:
  assumes ok: "edma_ok k w" and r: "r < length (txcmpl_ring w)" and p: "unat p < 128" and tag: "unat tag < 128"
  shows "edma_ok k (txcmpl_put r p tag st w)" "txcmpl_slot (txcmpl_put r p tag st w) r p < 128"
proof -
  let ?w = "txcmpl_put r p tag st w"
  note o = edma_okD [OF ok]
  note rr = o(6) [OF r, unfolded txcmpl_ok_def Let_def]
  have g: "rxfill_ring ?w = rxfill_ring w" "txdesc_ring ?w = txdesc_ring w" "rxdesc_ring ?w = rxdesc_ring w" "rxph_mem ?w = rxph_mem w"
    "length (txcmpl_ring ?w) = length (txcmpl_ring w)" "tc_id (txcmpl_ring ?w ! q) = tc_id (txcmpl_ring w ! q)"
    "tc_count (txcmpl_ring ?w ! q) = tc_count (txcmpl_ring w ! q)"
    "length (tc_desc (txcmpl_ring ?w ! q)) = length (tc_desc (txcmpl_ring w ! q))" for q
    using r by (simp_all add: txcmpl_put_def nth_list_update)
  have ids: "map tc_id (txcmpl_ring ?w) = map tc_id (txcmpl_ring w)" by (simp add: txcmpl_put_def map_update list_update_same_conv r)
  have slot: "txcmpl_slot ?w q j < 128" if "txcmpl_slot w q j < 128 \<or> q = r \<and> j = p" "q < length (txcmpl_ring w)" for q j
    using that tag r rr p by (auto simp: txcmpl_slot_def txcmpl_put_def nth_list_update word_unat_eq_iff)
  show "txcmpl_slot ?w r p < 128" using slot r by blast
  show "edma_ok k ?w"
  proof (rule edma_okI)
    show "edma_shape k ?w" using o(1) ids by (simp add: edma_shape_def txcmpl_put_def)
    show "tags_ok k ?w" using o(2) by (simp add: tags_ok_def txcmpl_put_def)
    show "rxfill_ok (ek_soc k) ?w q" if "q < length (rxfill_ring ?w)" for q using o(3) [of q] that by (simp add: rxfill_ok_def Let_def g)
    show "txdesc_ok (ek_soc k) ?w q" if "q < length (txdesc_ring ?w)" for q using o(5) [of q] that by (simp add: txdesc_ok_def Let_def g)
    show "rxdesc_ok (ek_soc k) ?w q" if "q < length (rxdesc_ring ?w)" for q
      using o(4) [of q] that by (simp add: rxdesc_ok_def Let_def g rx_slot_def)
    show "txcmpl_ok (ek_soc k) ?w q" if "q < length (txcmpl_ring ?w)" for q using o(6) [of q] slot that by (simp add: txcmpl_ok_def Let_def g)
  qed
qed

lemma dma_post_rx_ok:
  assumes ok: "edma_ok k w" and r: "r < length (rxdesc_ring w)" and a: "Some (Alloc a) \<in> set (rx_skb_store w)"
    and ph: "rx_opaque ph = rx_opaque (rxph_mem w (ek_map_rx k a))"
    and room: "ring_next 128 (pidx (ek_soc k) RXDESC w (rd_id (rxdesc_ring w ! r))) \<noteq> cidx (ek_soc k) RXDESC w (rd_id (rxdesc_ring w ! r))"
  shows "edma_ok k (dma_post_rx (ek_soc k) r (ek_map_rx k a) ph st w)"
proof -
  let ?p = "pidx (ek_soc k) RXDESC w (rd_id (rxdesc_ring w ! r))"
  let ?w1 = "rx_put r ?p (ek_map_rx k a) ph st w"
  have "unat ?p < 128" "unat (rx_opaque ph) < 128"
    using edma_okD(4) [OF ok r] edma_okD(2) [OF ok] a ph by (simp_all add: rxdesc_ok_def Let_def tags_ok_def)
  note put = rx_put_ok [OF ok r this(1) ph this(2), of st]
  have id: "rd_id (rxdesc_ring ?w1 ! r) = rd_id (rxdesc_ring w ! r)" "r < length (rxdesc_ring ?w1)" using r by (simp_all add: rx_put_def)
  have "dma_post_rx (ek_soc k) r (ek_map_rx k a) ph st w =
      edma_reg_write ?w1 (prod_reg (ek_soc k) RXDESC (rd_id (rxdesc_ring w ! r))) (ucast (ring_next 128 ?p))"
    by (simp add: dma_post_rx_def rx_put_def Let_def)
  then show ?thesis using rx_advance_ok [OF put(1) id(2)] put(2) room unfolding id(1) put_idx by simp
qed

lemma dma_post_txcmpl_ok:
  assumes ok: "edma_ok k w" and r: "r < length (txcmpl_ring w)" and a: "Some s \<in> set (tx_skb_store w)"
    and room: "ring_next 128 (pidx (ek_soc k) TXCMPL w (tc_id (txcmpl_ring w ! r))) \<noteq> cidx (ek_soc k) TXCMPL w (tc_id (txcmpl_ring w ! r))"
  shows "edma_ok k (dma_post_txcmpl (ek_soc k) r (tx_opaque (txph_mem w s)) st w)"
proof -
  let ?p = "pidx (ek_soc k) TXCMPL w (tc_id (txcmpl_ring w ! r))" and ?tag = "tx_opaque (txph_mem w s)"
  let ?w1 = "txcmpl_put r ?p ?tag st w"
  have "unat ?p < 128" "unat ?tag < 128"
    using edma_okD(6) [OF ok r] edma_okD(2) [OF ok] a by (simp_all add: txcmpl_ok_def Let_def tags_ok_def)
  note put = txcmpl_put_ok [OF ok r this, of st]
  have id: "tc_id (txcmpl_ring ?w1 ! r) = tc_id (txcmpl_ring w ! r)" "r < length (txcmpl_ring ?w1)" using r by (simp_all add: txcmpl_put_def)
  have "dma_post_txcmpl (ek_soc k) r ?tag st w =
      edma_reg_write ?w1 (prod_reg (ek_soc k) TXCMPL (tc_id (txcmpl_ring w ! r))) (ucast (ring_next 128 ?p))"
    by (simp add: dma_post_txcmpl_def txcmpl_put_def Let_def)
  then show ?thesis using txcmpl_advance_ok [OF put(1) id(2)] put(2) room unfolding id(1) put_idx by simp
qed

text \<open>The engine keeps the invariant, the stores, the trace, the numbering and every consumer index of the driver.\<close>

lemma edma_dma_ok: "edma_dma k w w' \<Longrightarrow> edma_ok k w \<Longrightarrow> edma_ok k w'"
proof (induction rule: edma_dma.induct)
  case (fetch_fill r w x)
  then show ?case using ring_ids(1) by (intro edma_ok_cons) simp_all
next
  case (fetch_tx r w x)
  then show ?case using ring_ids(3) by (intro edma_ok_cons) simp_all
qed (simp_all add: dma_post_rx_ok dma_post_txcmpl_ok edma_ok_int)

definition dma_frame :: "edma_world \<Rightarrow> edma_world \<Rightarrow> bool" where
  "dma_frame w w' \<longleftrightarrow> layout w' = layout w \<and> netdev_arr w' = netdev_arr w \<and> rx_skb_store w' = rx_skb_store w
   \<and> tx_skb_store w' = tx_skb_store w \<and> ek_trace w' = ek_trace w \<and> ek_allocs w' = ek_allocs w
   \<and> map rd_id (rxdesc_ring w') = map rd_id (rxdesc_ring w)"

lemma edma_dma_frame: "edma_dma k w w' \<Longrightarrow> dma_frame w w'"
proof (induction rule: edma_dma.induct)
  case (post_rx r w a ph st)
  then show ?case by (simp add: dma_frame_def dma_post_rx_def Let_def map_update list_update_same_conv)
qed (simp_all add: dma_frame_def dma_post_txcmpl_def Let_def)

lemma edma_dma_span:
  assumes "edma_dma k w w'" "edma_ok k w" "r < length (rxdesc_ring w)"
  defines "n \<equiv> rd_id (rxdesc_ring w ! r)"
  shows "cidx (ek_soc k) RXDESC w' n = cidx (ek_soc k) RXDESC w n
    \<and> (between 128 (cidx (ek_soc k) RXDESC w n) x (pidx (ek_soc k) RXDESC w n)
        \<longrightarrow> between 128 (cidx (ek_soc k) RXDESC w n) x (pidx (ek_soc k) RXDESC w' n))"
  using assms(1-3) unfolding n_def
proof (induction rule: edma_dma.induct)
  case (fetch_fill q w y)
  then show ?case using ring_ids by (simp add: idx_simps cidx_write_cons)
next
  case (fetch_tx q w y)
  then show ?case using ring_ids by (simp add: idx_simps cidx_write_cons)
next
  case (post_rx q w a ph st)
  note i = ring_ids(2) [OF post_rx.prems(1)]
  let ?w = "w\<lparr>rxph_mem := (rxph_mem w)(ek_map_rx k a := ph),
          rxdesc_ring := (rxdesc_ring w)[q := (rxdesc_ring w ! q)\<lparr>rd_desc := (rd_desc (rxdesc_ring w ! q))
             [unat (pidx (ek_soc k) RXDESC w (rd_id (rxdesc_ring w ! q))) := \<lparr>rd_buffer_addr = ek_map_rx k a, rd_status = st\<rparr>]\<rparr>]\<rparr>"
  have f: "pidx (ek_soc k) RXDESC ?w = pidx (ek_soc k) RXDESC w" "cidx (ek_soc k) RXDESC ?w = cidx (ek_soc k) RXDESC w"
    by (rule pidx_frame; simp)+
  note o = edma_okD(4) [OF post_rx.prems(1), unfolded rxdesc_ok_def Let_def]
  show ?case
    using post_rx.hyps post_rx.prems i o [of r] o [of q] ring_ids_inj(1) [OF post_rx.prems(1), of r q]
      between_snoc [of 128 "cidx (ek_soc k) RXDESC w (rd_id (rxdesc_ring w ! q))" x "pidx (ek_soc k) RXDESC w (rd_id (rxdesc_ring w ! q))"]
    unfolding dma_post_rx_def Let_def cidx_write_prod pidx_write_prod [OF i [OF post_rx.prems(2)] i [OF post_rx.hyps(1)]] f
    by auto
next
  case (post_txcmpl q w s st)
  let ?w = "w\<lparr>txcmpl_ring := (txcmpl_ring w)[q := (txcmpl_ring w ! q)\<lparr>tc_desc := (tc_desc (txcmpl_ring w ! q))
             [unat (pidx (ek_soc k) TXCMPL w (tc_id (txcmpl_ring w ! q))) := \<lparr>tc_buffer_addr = tx_opaque (txph_mem w s), tc_status = st\<rparr>]\<rparr>]\<rparr>"
  have f: "pidx (ek_soc k) RXDESC ?w = pidx (ek_soc k) RXDESC w" "cidx (ek_soc k) RXDESC ?w = cidx (ek_soc k) RXDESC w"
    by (rule pidx_frame; simp)+
  show ?case
    using ring_ids(2) [OF post_txcmpl.prems] ring_ids(4) [OF post_txcmpl.prems(1) post_txcmpl.hyps(1)] post_txcmpl.prems(2)
    by (simp add: dma_post_txcmpl_def Let_def idx_simps pidx_write_prod f)
next
  case (raise reg w v)
  then show ?case using ring_ids(2) by (simp add: idx_write_int)
qed

end
