(* ===== verification/Edma_Inv.thy ===== *)
theory Edma_Inv
  imports Edma_Safety
begin

text \<open>
  Every operation of the EDMA data path keeps the invariant and the books of the buffers,
  whatever the engine does in between.
\<close>

text \<open>The same for any number of moves.\<close>

definition engine_ok :: "edma_kernel \<Rightarrow> bool" where
  "engine_ok k \<longleftrightarrow> (\<forall>r n w. rtranclp (edma_dma k) w (ek_rx_hw k r n w))"

lemma dma_frame_simps:
  assumes "dma_frame w w'"
  shows "layout w' = layout w" "netdev_arr w' = netdev_arr w" "rx_skb_store w' = rx_skb_store w"
    "tx_skb_store w' = tx_skb_store w" "ek_trace w' = ek_trace w" "ek_allocs w' = ek_allocs w"
    "length (rxdesc_ring w') = length (rxdesc_ring w)"
    "r < length (rxdesc_ring w) \<Longrightarrow> rd_id (rxdesc_ring w' ! r) = rd_id (rxdesc_ring w ! r)"
proof -
  have m: "map rd_id (rxdesc_ring w') = map rd_id (rxdesc_ring w)" using assms by (simp add: dma_frame_def)
  show l: "length (rxdesc_ring w') = length (rxdesc_ring w)" using m by (metis length_map)
  show "r < length (rxdesc_ring w) \<Longrightarrow> rd_id (rxdesc_ring w' ! r) = rd_id (rxdesc_ring w ! r)"
    using m l by (metis nth_map)
qed (use assms in \<open>simp_all add: dma_frame_def\<close>)

lemma edma_dma_star:
  assumes "rtranclp (edma_dma k) w w'" "edma_ok k w"
  shows "edma_ok k w' \<and> dma_frame w w'"
  using assms
proof (induction rule: rtranclp_induct)
  case base
  then show ?case by (simp add: dma_frame_def)
next
  case (step w1 w2)
  then show ?case using edma_dma_ok [OF step(2)] edma_dma_frame [OF step(2)] by (simp add: dma_frame_def)
qed

lemma edma_dma_star_span:
  assumes "rtranclp (edma_dma k) w w'" "edma_ok k w" "r < length (rxdesc_ring w)"
  defines "n \<equiv> rd_id (rxdesc_ring w ! r)"
  shows "cidx (ek_soc k) RXDESC w' n = cidx (ek_soc k) RXDESC w n
    \<and> (between 128 (cidx (ek_soc k) RXDESC w n) x (pidx (ek_soc k) RXDESC w n)
        \<longrightarrow> between 128 (cidx (ek_soc k) RXDESC w n) x (pidx (ek_soc k) RXDESC w' n))"
  using assms(1-3) unfolding n_def
proof (induction rule: rtranclp_induct)
  case (step w1 w2)
  note s = edma_dma_star [OF step(1,4)]
  note f = dma_frame_simps [OF s [THEN conjunct2]]
  show ?case
    using edma_dma_span [OF step(2) s [THEN conjunct1], of r x] step f by auto
qed simp

section \<open>Buffers\<close>

text \<open>The buffer that comes to the driver with a call, and the balance of the books.\<close>

definition came :: "edma_kcall \<Rightarrow> skb_ref multiset" where
  "came c = (case c of Ek_alloc a \<Rightarrow> {#Alloc a#} | _ \<Rightarrow> {#})"

definition all_came :: "edma_kcall list \<Rightarrow> skb_ref multiset" where
  "all_came cs = sum_list (map came cs)"

definition edma_balanced :: "skb_ref multiset \<Rightarrow> edma_world \<Rightarrow> bool" where
  "edma_balanced acc w \<longleftrightarrow>
     all_gone (ek_trace w) + stored (rx_skb_store w) + stored (tx_skb_store w) = all_came (ek_trace w) + acc"

definition edma_allocs_once :: "edma_world \<Rightarrow> bool" where
  "edma_allocs_once w \<longleftrightarrow> (\<forall>a. count (all_came (ek_trace w)) (Alloc a) \<le> (if a < ek_allocs w then 1 else 0))"

lemma all_came_simps [simp]:
  "all_came [] = {#}" "all_came (c # cs) = came c + all_came cs" "all_came (cs @ ds) = all_came cs + all_came ds"
  by (simp_all add: all_came_def)

lemma came_simps [simp]:
  "came (Ek_alloc a) = {#Alloc a#}" "came (Ek_kfree s) = {#}" "came (Ek_receive s nd l) = {#}" "came (Ek_rxtstamp s nd b) = {#}"
  "came (Ek_unmap_rx d) = {#}" "came (Ek_unmap_tx s) = {#}" "came (Ek_skb_push s) = {#}" "came (Ek_txtstamp s nd) = {#}"
  "came (Ek_start_queue nd) = {#}" "came (Ek_stop_queue nd) = {#}" "came Ek_napi_complete = {#}" "came Ek_napi_schedule = {#}"
  "came (Ek_expand_head s) = {#}" "came (Ek_tx_dropped nd) = {#}" "came Ek_napi_enable = {#}" "came Ek_napi_disable = {#}"
  "gone Ek_napi_enable = {#}" "gone Ek_napi_disable = {#}"
  by (simp_all add: came_def gone_def)

lemma all_came_allocs: "all_came (map Ek_alloc as) = mset (map Alloc as)" "all_gone (map Ek_alloc as) = {#}"
  by (induction as) simp_all

lemma all_came_release [simp]: "all_came (tx_release bs) = {#}"
  by (induction bs) (simp_all add: tx_release_def)

lemma all_came_rx [simp]: "all_came (rx_calls k r i w) = {#}"
  by (simp add: rx_calls_def Let_def rx_outcome_def split: option.split bool.split)

lemma store_filled_stored:
  assumes "store_filled nx n a s s'" "n < 128" "length s = 128"
  shows "stored s' = mset (map Alloc [a..<a + n]) + stored s"
  using assms
proof (induction n arbitrary: s')
  case 0
  then have "s' = s" by (intro nth_equalityI) (simp_all add: store_filled_def)
  then show ?case by simp
next
  case (Suc n)
  define s1 where "s1 = s'[slot nx n := None]"
  have l: "length s' = 128" "slot nx n < 128" using Suc.prems by (simp_all add: store_filled_def slot_def)
  have ne: "slot nx j \<noteq> slot nx n" if "j < n" for j
    using ring_pos_inj [of j 128 n nx] that Suc.prems(2) by (auto simp: slot_def)
  have "store_filled nx n a s s1"
    unfolding store_filled_def
  proof (intro conjI allI impI)
    show "length s1 = length s" using l Suc.prems(3) by (simp add: s1_def)
    show "s ! slot nx j = None" if "j < n" for j using Suc.prems(1) that by (simp add: store_filled_def)
    show "s1 ! slot nx j = Some (Alloc (a + j))" if "j < n" for j
      using Suc.prems(1) that ne [OF that] by (simp add: s1_def store_filled_def)
    show "s1 ! i = s ! i" if "\<forall>j<n. i \<noteq> slot nx j" for i
      using Suc.prems(1) that l by (cases "i = slot nx n") (auto simp: s1_def store_filled_def less_Suc_eq)
  qed
  then have IH: "stored s1 = mset (map Alloc [a..<a + n]) + stored s" using Suc by simp
  have "s' ! slot nx n = Some (Alloc (a + n))" using Suc.prems(1) by (simp add: store_filled_def)
  then have "stored s' = add_mset (Alloc (a + n)) (stored s1)"
    using stored_take [of "slot nx n" s'] l by (simp add: s1_def)
  with IH show ?case by simp
qed

lemma ring_room_less: "ring_room nx c < 128"
  by (simp add: ring_room_def)

lemma rx_filled_books:
  assumes "rx_filled k r nx n w w'" "n < 128" "length (rx_skb_store w) = 128"
  shows "edma_balanced acc w \<Longrightarrow> edma_balanced acc w'" "edma_allocs_once w \<Longrightarrow> edma_allocs_once w'"
proof -
  let ?a = "ek_allocs w"
  obtain e where e: "ek_trace w' = ek_trace w @ map Ek_alloc [?a..<?a + n] @ e"
    "ek_allocs w' = ?a + n \<and> e = [] \<or> ek_allocs w' = Suc (?a + n) \<and> (e = [] \<or> e = [Ek_alloc (?a + n), Ek_kfree (Alloc (?a + n))])"
    using assms(1) by (auto simp: rx_filled_def allocs_traced_def)
  have s: "stored (rx_skb_store w') = mset (map Alloc [?a..<?a + n]) + stored (rx_skb_store w)"
    using assms by (intro store_filled_stored [of nx]) (simp_all add: rx_filled_def)
  have t: "tx_skb_store w' = tx_skb_store w"
    using assms(1) by (auto simp: rx_filled_def rx_frame_def)
  have "all_gone e = all_came e" using e(2) by auto
  then show "edma_balanced acc w \<Longrightarrow> edma_balanced acc w'"
    by (simp add: edma_balanced_def e(1) s t all_came_allocs ac_simps)
  have c: "count (mset (map Alloc [?a..<?a + n])) (Alloc a) = (if ?a \<le> a \<and> a < ?a + n then 1 else 0)" for a
    by (induction n) auto
  have d: "count (all_came e) (Alloc a) \<le> (if a = ?a + n \<and> ek_allocs w' = Suc (?a + n) then 1 else 0)" for a
    using e(2) by auto
  have l: "?a + n \<le> ek_allocs w'" using e(2) by auto
  assume "edma_allocs_once w"
  then have o: "count (all_came (ek_trace w)) (Alloc a) \<le> (if a < ?a then 1 else 0)" for a
    by (simp add: edma_allocs_once_def)
  show "edma_allocs_once w'"
    unfolding edma_allocs_once_def
  proof
    fix a
    show "count (all_came (ek_trace w')) (Alloc a) \<le> (if a < ek_allocs w' then 1 else 0)"
      using o [of a] c [of a] d [of a] l by (auto simp: e(1) all_came_allocs split: if_splits)
  qed
qed

section \<open>The operations keep the invariant\<close>

lemma store_filled_allocs:
  assumes f: "store_filled nx n a s s'" and x: "Some (Alloc x) \<in> set s'"
  shows "Some (Alloc x) \<in> set s \<or> (\<exists>j < n. x = a + j)"
proof -
  obtain i where i: "i < length s'" "s' ! i = Some (Alloc x)" using x unfolding in_set_conv_nth by blast
  show ?thesis
  proof (cases "\<exists>j < n. i = slot nx j")
    case True
    then obtain j where "j < n" "s' ! i = Some (Alloc (a + j))" using f by (auto simp: store_filled_def)
    then show ?thesis using i(2) by auto
  next
    case False
    then have "s' ! i = s ! i" "i < length s" using f i(1) by (auto simp: store_filled_def)
    then show ?thesis using i(2) nth_mem by metis
  qed
qed

lemma mem_filled_tags:
  assumes "mem_filled k nx n a m m'" "unat (rx_opaque (m b)) < 128 \<or> (\<exists>j < n. b = ek_map_rx k (a + j))"
  shows "unat (rx_opaque (m' b)) < 128"
proof -
  have "slot nx j < 128" for j by (simp add: slot_def)
  then show ?thesis using assms unfolding mem_filled_def by metis
qed

lemma rx_filled_ok:
  assumes ok: "edma_ok k w" and r: "r < length (rxfill_ring w)" and f: "rx_filled k r nx n w w'" and n: "n < 128"
  shows "edma_ok k w'"
proof -
  obtain s m t a ds where w': "w' = w\<lparr>rx_skb_store := s, rxph_mem := m, ek_trace := t,
     ek_allocs := a, rxfill_ring := (rxfill_ring w)[r := (rxfill_ring w ! r)\<lparr>rf_desc := ds\<rparr>]\<rparr>"
    using f by (auto simp: rx_filled_def rx_frame_def)
  note g = edma_okD [OF ok]
  have sf: "store_filled nx n (ek_allocs w) (rx_skb_store w) s" "length ds = length (rf_desc (rxfill_ring w ! r))"
    using f r by (simp_all add: rx_filled_def w' descs_filled_def)
  note st = store_filled_allocs [OF sf(1)]
  have mem: "unat (rx_opaque (m b)) < 128" if "unat (rx_opaque (rxph_mem w b)) < 128 \<or> (\<exists>j < n. b = ek_map_rx k (ek_allocs w + j))" for b
    using f that by (auto simp: rx_filled_def w' intro: mem_filled_tags)
  have ids: "map rf_id (rxfill_ring w') = map rf_id (rxfill_ring w)"
    by (simp add: w' map_update list_update_same_conv r)
  have ix: "pidx (ek_soc k) kd w' = pidx (ek_soc k) kd w" "cidx (ek_soc k) kd w' = cidx (ek_soc k) kd w" for kd
    by (rule pidx_frame; simp add: w')+
  show ?thesis
  proof (rule edma_okI)
    show "edma_shape k w'" using g(1) ids sf(1) by (simp add: edma_shape_def w' store_filled_def)
    show "tags_ok k w'" using g(2) st mem by (auto simp: tags_ok_def w')
    fix q
    show "q < length (rxfill_ring w') \<Longrightarrow> rxfill_ok (ek_soc k) w' q"
      using g(3) [of q] sf(2) r by (cases "q = r") (simp_all add: rxfill_ok_def Let_def ix, simp_all add: w')
    show "q < length (rxdesc_ring w') \<Longrightarrow> rxdesc_ok (ek_soc k) w' q"
      using g(4) [of q] mem by (simp add: rxdesc_ok_def Let_def ix, simp add: w' rx_slot_def)
    show "q < length (txdesc_ring w') \<Longrightarrow> txdesc_ok (ek_soc k) w' q"
      using g(5) [of q] by (simp add: txdesc_ok_def Let_def ix, simp add: w')
    show "q < length (txcmpl_ring w') \<Longrightarrow> txcmpl_ok (ek_soc k) w' q"
      using g(6) [of q] by (simp add: txcmpl_ok_def Let_def ix, simp add: w' txcmpl_slot_def)
  qed
qed

definition edma_inv :: "edma_kernel \<Rightarrow> edma_layout \<Rightarrow> skb_ref multiset \<Rightarrow> edma_world \<Rightarrow> bool" where
  "edma_inv k L acc w \<longleftrightarrow> edma_ok k w \<and> layout w = L \<and> edma_balanced acc w \<and> edma_allocs_once w"

lemma edma_inv_lengths:
  assumes "edma_inv k L acc w"
  shows "length (rxfill_ring w) = unat (rxfill_rings L)" "length (rxdesc_ring w) = unat (rxdesc_rings L)"
    "length (txdesc_ring w) = unat (txdesc_rings L)" "length (txcmpl_ring w) = unat (txcmpl_rings L)"
    "length (netdev_arr w) = NSS_DP_HAL_MAX_PORTS (ek_soc k)"
    "length (rx_skb_store w) = 128" "length (tx_skb_store w) = 128"
  using assms by (auto simp: edma_inv_def edma_ok_def edma_shape_def)

text \<open>A step that adds calls which neither take nor give a buffer, and one that empties a slot.\<close>

lemma edma_inv_calls:
  "edma_inv k L acc w \<Longrightarrow> all_gone cs = {#} \<Longrightarrow> all_came cs = {#} \<Longrightarrow> edma_inv k L acc (ekcalls cs w)"
  by (simp add: edma_inv_def edma_ok_calls edma_balanced_def edma_allocs_once_def)

lemma edma_inv_int: "edma_inv k L acc w \<Longrightarrow> int_reg (ek_soc k) reg \<Longrightarrow> edma_inv k L acc (edma_reg_write w reg v)"
  by (simp add: edma_inv_def edma_ok_int edma_balanced_def edma_allocs_once_def)

lemma edma_inv_dma: "edma_inv k L acc w \<Longrightarrow> rtranclp (edma_dma k) w w' \<Longrightarrow> edma_inv k L acc w'"
  using edma_dma_star [of k w w'] by (auto simp: edma_inv_def edma_balanced_def edma_allocs_once_def dma_frame_def)

text \<open>The number of receive descriptors handled so far: each of them begins with the unmapping of its buffer.\<close>

definition rx_handled :: "edma_world \<Rightarrow> nat" where
  "rx_handled w = length (filter (\<lambda>c. case c of Ek_unmap_rx _ \<Rightarrow> True | _ \<Rightarrow> False) (ek_trace w))"

lemma rx_handled_same: "ek_trace w' = ek_trace w \<Longrightarrow> rx_handled w' = rx_handled w"
  by (simp add: rx_handled_def)

lemma rx_handled_write [simp]: "rx_handled (edma_reg_write w reg v) = rx_handled w"
  by (rule rx_handled_same) simp

lemma rx_handled_one: "rx_handled (ekcalls (rx_calls k r i w) (w\<lparr>rx_skb_store := s\<rparr>)) = Suc (rx_handled w)"
  by (simp add: rx_handled_def rx_calls_def rx_outcome_def Let_def ekcalls_def split: option.split bool.split)

lemma rx_handled_filled: "rx_filled k r nx n w w' \<Longrightarrow> rx_handled w' = rx_handled w"
  by (auto simp: rx_filled_def allocs_traced_def rx_handled_def filter_empty_conv)

lemma edma_alloc_rx_buffer_inv:
  assumes inv: "edma_inv k L acc w" and r: "r < length (rxfill_ring w)"
  shows "\<exists>n w'. edma_alloc_rx_buffer k r w = Inr (of_nat n, w') \<and> edma_inv k L acc w' \<and> n < 128
     \<and> rxdesc_ring w' = rxdesc_ring w \<and> rx_handled w' = rx_handled w
     \<and> (\<forall>i. unat i < kind_max (ek_soc k) RXDESC \<longrightarrow> pidx (ek_soc k) RXDESC w' i = pidx (ek_soc k) RXDESC w i
           \<and> cidx (ek_soc k) RXDESC w' i = cidx (ek_soc k) RXDESC w i)"
proof -
  let ?id = "rf_id (rxfill_ring w ! r)"
  note ok = inv [unfolded edma_inv_def, THEN conjunct1]
  note rr = edma_okD(3) [OF ok r, unfolded rxfill_ok_def Let_def]
  have wf: "rxfill_wf r w" using rr r edma_okD(1) [OF ok] by (simp add: rxfill_wf_def edma_shape_def)
  have ci: "unat (reg_idx w (EDMA_REG_RXFILL_CONS_IDX ?id)) < 128"
    using rr by (simp add: cidx_def idx_base_def)
  let ?nx = "unat (reg_idx w (EDMA_REG_RXFILL_PROD_IDX ?id)) mod 128"
  obtain n w1 where n: "edma_alloc_rx_buffer k r w = Inr (of_nat n,
             if n = 0 then w1 else edma_reg_write w1 (EDMA_REG_RXFILL_PROD_IDX ?id) (of_nat ((?nx + n) mod 128)))"
      "n \<le> ring_room ?nx (unat (reg_idx w (EDMA_REG_RXFILL_CONS_IDX ?id)))" "rx_filled k r ?nx n w w1"
    using edma_alloc_rx_buffer_ok [OF wf ci] by blast
  have n128: "n < 128" using n(2) ring_room_less [of ?nx] le_less_trans by blast
  have inv1: "edma_inv k L acc w1"
    using inv rx_filled_ok [OF ok r n(3) n128] rx_filled_books [OF n(3) n128] edma_okD(1) [OF ok] n(3)
    by (auto simp: edma_inv_def edma_shape_def rx_filled_def rx_frame_def)
  have fr: "rxdesc_ring w1 = rxdesc_ring w" "regs w1 = regs w" "length (rxfill_ring w1) = length (rxfill_ring w)"
    "rf_id (rxfill_ring w1 ! r) = ?id" "rx_handled w1 = rx_handled w"
    using n(3) r rx_handled_filled [OF n(3)] by (auto simp: rx_filled_def rx_frame_def)
  define p where "p = (?nx + n) mod 128"
  have p: "unat (of_nat p :: u16) < 128" by (simp add: p_def unat_of_nat)
  have pc: "(of_nat p :: u32) = ucast (of_nat p :: u16)"
    by (simp add: p_def word_unat_eq_iff unat_u16_u32 unat_of_nat)
  note id = ring_ids(1) [OF ok r]
  have inv2: "edma_inv k L acc (edma_reg_write w1 (EDMA_REG_RXFILL_PROD_IDX ?id) (of_nat p))"
    using inv1 edma_ok_prod [of k w1 RXFILL ?id "of_nat p"] p id
    unfolding pc idx_regs(5) [of _ "ek_soc k"]
    by (simp add: edma_inv_def edma_balanced_def edma_allocs_once_def)
  note ix = pidx_frame [OF fr(2)]
  show ?thesis
  proof (cases "n = 0")
    case True
    then show ?thesis using n(1) inv1 fr ix by (intro exI [of _ 0] exI [of _ w1]) simp
  next
    case False
    then show ?thesis
      using n(1) [folded p_def] inv2 fr ix id n128
      unfolding pc idx_regs(5) [of _ "ek_soc k"]
      by (intro exI [of _ n] exI [of _ "edma_reg_write w1 (prod_reg (ek_soc k) RXFILL ?id) (ucast (of_nat p :: u16))"])
         (simp add: idx_simps pidx_write_prod)
  qed
qed

lemma reap_subset: "Some x \<in> set (snd (reap is s)) \<Longrightarrow> Some x \<in> set s"
  by (induction "is" s rule: reap.induct) (auto simp: Let_def dest: set_update_None split: prod.splits option.splits)

lemma edma_ok_tx_store:
  "edma_ok k w \<Longrightarrow> length s = length (tx_skb_store w) \<Longrightarrow> (\<And>x. Some x \<in> set s \<Longrightarrow> Some x \<in> set (tx_skb_store w)) \<Longrightarrow>
     edma_ok k (w\<lparr>tx_skb_store := s\<rparr>)"
  by (erule edma_ok_frame) (simp_all add: same_rings_def)

lemma edma_clean_tx_inv:
  assumes inv: "edma_inv k L acc w" and r: "r < length (txcmpl_ring w)"
  shows "\<exists>n w'. edma_clean_tx k r w = Inr (of_nat n, w') \<and> edma_inv k L acc w' \<and> n < 128"
proof -
  let ?id = "tc_id (txcmpl_ring w ! r)" and ?s = "ek_soc k"
  let ?p = "pidx ?s TXCMPL w ?id" and ?c = "cidx ?s TXCMPL w ?id"
  let ?is = "ring_span 128 ?c ?p"
  note ok = inv [unfolded edma_inv_def, THEN conjunct1]
  note rr = edma_okD(6) [OF ok r, unfolded txcmpl_ok_def Let_def] and l = edma_inv_lengths [OF inv]
  have eq: "reg_idx w (EDMA_REG_TXCMPL_PROD_IDX ?s ?id) = ?p" "reg_idx w (EDMA_REG_TXCMPL_CONS_IDX ?s ?id) = ?c"
    by (simp_all add: pidx_def cidx_def idx_base_def)
  obtain bs s where bs: "reap (map (txcmpl_slot w r) ?is) (tx_skb_store w) = (bs, s)"
    by (cases "reap (map (txcmpl_slot w r) ?is) (tx_skb_store w)")
  have sl: "\<forall>i \<in> set (map (txcmpl_slot w r) ?is). i < length (tx_skb_store w)" using rr l by simp
  have cons: "mset bs + stored s = stored (tx_skb_store w)" using reap_conserves [OF sl] bs by simp
  define w1 where "w1 = ekcalls (tx_release bs) (w\<lparr>tx_skb_store := s\<rparr>)"
  have "edma_ok k (w\<lparr>tx_skb_store := s\<rparr>)"
    using ok reap_length [of "map (txcmpl_slot w r) ?is" "tx_skb_store w"] reap_subset [of _ "map (txcmpl_slot w r) ?is" "tx_skb_store w"] bs
    by (intro edma_ok_tx_store) simp_all
  then have inv1: "edma_inv k L acc w1"
    using inv cons [symmetric]
    by (simp add: w1_def edma_inv_def edma_ok_calls edma_balanced_def edma_allocs_once_def tx_release_gone ac_simps)
  have run: "edma_clean_tx k r w = Inr (of_nat (length ?is),
      if ?is = [] then w1 else edma_reg_write w1 (EDMA_REG_TXCMPL_CONS_IDX ?s ?id) (ucast ?p))"
    using edma_clean_tx_ok [OF r, of k] rr l sl bs unfolding eq by (simp add: Let_def w1_def)
  have ix: "pidx ?s kd w1 = pidx ?s kd w" for kd by (rule pidx_frame) (simp add: w1_def)
  have "edma_ok k (edma_reg_write w1 (cons_reg ?s TXCMPL ?id) (ucast ?p))"
    using inv1 rr ix by (intro edma_ok_cons) (simp_all add: edma_inv_def)
  then have inv2: "edma_inv k L acc (edma_reg_write w1 (EDMA_REG_TXCMPL_CONS_IDX ?s ?id) (ucast ?p))"
    using inv1 unfolding idx_regs(4) by (simp add: edma_inv_def edma_balanced_def edma_allocs_once_def)
  have "length ?is < 128" using ring_dist_less [of 128 ?c ?p] by simp
  with run inv1 inv2 show ?thesis by (intro exI [of _ "length ?is"]) auto
qed

text \<open>The receive loop: the index it stands at stays between the two indices of the ring.\<close>

lemma edma_clean_rx_one_inv:
  assumes inv: "edma_inv k L acc w" and r: "r < length (rxdesc_ring w)"
    and i: "i \<in> set (ring_span 128 (cidx (ek_soc k) RXDESC w (rd_id (rxdesc_ring w ! r))) (pidx (ek_soc k) RXDESC w (rd_id (rxdesc_ring w ! r))))"
  shows "\<exists>w'. edma_clean_rx_one k r i w = Inr w' \<and> edma_inv k L acc w' \<and> regs w' = regs w \<and> rxdesc_ring w' = rxdesc_ring w
    \<and> rx_handled w' = Suc (rx_handled w)"
proof -
  note ok = inv [unfolded edma_inv_def, THEN conjunct1]
  note rr = edma_okD(4) [OF ok r, unfolded rxdesc_ok_def Let_def] and l = edma_inv_lengths [OF inv]
  let ?j = "rx_slot w r i"
  let ?w = "ekcalls (rx_calls k r i w) (w\<lparr>rx_skb_store := (rx_skb_store w)[?j := None]\<rparr>)"
  have "unat i < 128" using ring_span_set [OF _ i] rr by simp
  then have run: "edma_clean_rx_one k r i w = Inr ?w"
    using rr r l i by (intro edma_clean_rx_one_ok) simp_all
  have "stored (rx_skb_store w) = all_gone (rx_calls k r i w) + stored ((rx_skb_store w)[?j := None])"
    unfolding rx_calls_gone using rr l i by (intro stored_take) simp
  then have "edma_inv k L acc ?w"
    using inv edma_ok_rx_take [OF ok, of ?j]
    by (simp add: edma_inv_def edma_ok_calls edma_balanced_def edma_allocs_once_def ac_simps)
  with run show ?thesis by (simp add: rx_handled_one)
qed

text \<open>What the loop sees after the engine has moved: the same ring, with a producer index that may have advanced.\<close>

lemma rx_hw_view:
  assumes "engine_ok k" "edma_inv k L acc w" "r < length (rxdesc_ring w)" "rid = rd_id (rxdesc_ring w ! r)"
    "between 128 c ci (pidx (ek_soc k) RXDESC w rid)" "cidx (ek_soc k) RXDESC w rid = c" "w1 = ek_rx_hw k r n w"
  shows "edma_inv k L acc w1" "r < length (rxdesc_ring w1)" "rd_id (rxdesc_ring w1 ! r) = rid"
    "between 128 c ci (pidx (ek_soc k) RXDESC w1 rid)" "cidx (ek_soc k) RXDESC w1 rid = c"
    "unat c < 128" "unat (pidx (ek_soc k) RXDESC w1 rid) < 128" "rx_handled w1 = rx_handled w"
proof -
  have star: "rtranclp (edma_dma k) w w1" using assms(1,7) by (simp add: engine_ok_def)
  note ok = assms(2) [unfolded edma_inv_def, THEN conjunct1]
  show inv1: "edma_inv k L acc w1" by (rule edma_inv_dma [OF assms(2) star])
  have f: "length (rxdesc_ring w1) = length (rxdesc_ring w)" "rd_id (rxdesc_ring w1 ! r) = rid"
    using dma_frame_simps(7,8) [OF edma_dma_star [OF star ok, THEN conjunct2]] assms(3,4) by simp_all
  then show r1: "r < length (rxdesc_ring w1)" "rd_id (rxdesc_ring w1 ! r) = rid" using assms(3) by simp_all
  show "rx_handled w1 = rx_handled w"
    by (rule rx_handled_same [OF dma_frame_simps(5) [OF edma_dma_star [OF star ok, THEN conjunct2]]])
  show b1: "between 128 c ci (pidx (ek_soc k) RXDESC w1 rid)" "cidx (ek_soc k) RXDESC w1 rid = c"
    using edma_dma_star_span [OF star ok assms(3), of ci] assms(4-6) by simp_all
  show "unat c < 128" "unat (pidx (ek_soc k) RXDESC w1 rid) < 128"
    using edma_okD(4) [of k w1, OF _ r1(1)] inv1 f b1(2) by (simp_all add: edma_inv_def rxdesc_ok_def Let_def)
qed

text \<open>
  What the loop has done when it returns: it has handled \<open>j\<close> descriptors, one after the other and each counted once, and
  stopped at its budget or at the producer index.
\<close>

definition rx_looped ::
  "edma_kernel \<Rightarrow> u32 \<Rightarrow> int \<Rightarrow> u16 \<Rightarrow> u32 \<Rightarrow> edma_world \<Rightarrow> u16 \<Rightarrow> u32 \<Rightarrow> edma_world \<Rightarrow> bool" where
  "rx_looped k rid budget ci wd w ci' n w' \<longleftrightarrow>
     (\<exists>j. unat n = unat wd + j \<and> ci' = (ring_next 128 ^^ j) ci \<and> rx_handled w' = rx_handled w + j)
     \<and> (n = word_of_int budget \<or> ci' = pidx (ek_soc k) RXDESC w' rid)"

lemma rx_looped_stop:
  "ci = pidx (ek_soc k) RXDESC w' rid \<or> wd = word_of_int budget \<Longrightarrow> rx_handled w' = rx_handled w \<Longrightarrow> rx_looped k rid budget ci wd w ci wd w'"
  by (auto simp: rx_looped_def intro: exI [of _ 0])

lemma unat_bound: "unat (x :: u32) < 4294967296"
  using unsigned_less [of x] by simp

lemma rx_looped_Suc:
  assumes "rx_looped k rid budget (ring_next 128 ci) (wd + 1) w1 ci' n w'" "wd < word_of_int budget" "rx_handled w1 = Suc (rx_handled w)"
  shows "rx_looped k rid budget ci wd w ci' n w'"
proof -
  obtain j where j: "unat n = unat (wd + 1) + j" "ci' = (ring_next 128 ^^ j) (ring_next 128 ci)" "rx_handled w' = rx_handled w1 + j"
    using assms(1) by (auto simp: rx_looped_def)
  have "unat wd + unat (1 :: u32) < 2 ^ LENGTH(32)"
    using assms(2) unat_bound [of "word_of_int budget"] by (simp add: word_less_nat_alt)
  then have "unat (wd + 1) = Suc (unat wd)" by (simp add: unat_add_lem [THEN iffD1])
  then show ?thesis
    using j assms(1,3) unfolding rx_looped_def by (intro conjI exI [of _ "Suc j"]) (simp_all add: funpow_swap1)
qed

lemma edma_clean_rx_loop_inv:
  assumes "engine_ok k" "edma_inv k L acc w" "r < length (rxdesc_ring w)" "rid = rd_id (rxdesc_ring w ! r)"
    "between 128 c ci (pidx (ek_soc k) RXDESC w rid)" "cidx (ek_soc k) RXDESC w rid = c" "wd \<le> word_of_int budget"
  shows "\<exists>ci' n w'. edma_clean_rx_loop k r rid 128 budget ci wd w = Inr (ci', n, w') \<and> edma_inv k L acc w'
    \<and> rd_id (rxdesc_ring w' ! r) = rid \<and> between 128 c ci' (pidx (ek_soc k) RXDESC w' rid)
    \<and> cidx (ek_soc k) RXDESC w' rid = c \<and> n \<le> word_of_int budget
    \<and> rx_looped k rid budget ci wd w ci' n w'"
  using assms
proof (induction k r rid "128 :: u16" budget ci wd w rule: edma_clean_rx_loop.induct)
  case (1 k r rid budget ci wd w)
  define w1 where "w1 = ek_rx_hw k r (unat wd) w"
  let ?p = "pidx (ek_soc k) RXDESC w1 rid"
  note v = rx_hw_view [OF "1.prems"(1-6) w1_def]
  have pe: "ucast (edma_reg_read w1 (EDMA_REG_RXDESC_PROD_IDX rid) AND 0xffff) = ?p"
    by (simp add: pidx_def reg_idx_def idx_base_def)
  have step: "edma_clean_rx_loop k r rid 128 budget ci wd w =
      (if ci = ?p then Inr (ci, wd, w1) else if wd \<ge> word_of_int budget then Inr (ci, wd, w1)
       else bindR (edma_clean_rx_one k r ci w1) (edma_clean_rx_loop k r rid 128 budget (ring_next 128 ci) (wd + 1)))"
    unfolding edma_clean_rx_loop.simps [of k r rid 128 budget ci wd w] Let_def w1_def [symmetric] pe ..
  show ?case
  proof (cases "ci = ?p \<or> wd \<ge> word_of_int budget")
    case True
    then show ?thesis
      using v "1.prems"(7) unfolding step by (intro exI [of _ ci] exI [of _ wd] exI [of _ w1]) (auto intro!: rx_looped_stop)
  next
    case False
    have "ci \<in> set (ring_span 128 c ?p)" using between_mem [OF v(4)] False v(6,7) by simp
    then obtain w2 where w2: "edma_clean_rx_one k r ci w1 = Inr w2" "edma_inv k L acc w2" "regs w2 = regs w1"
      "rxdesc_ring w2 = rxdesc_ring w1" "rx_handled w2 = Suc (rx_handled w)"
      using edma_clean_rx_one_inv [OF v(1,2), of ci] v(3,5,8) by auto
    have nx: "between 128 c (ring_next 128 ci) ?p" using between_next [OF v(4)] False v(6,7) by simp
    have le: "wd + 1 \<le> word_of_int budget" using False by (simp add: inc_le not_le)
    have IH: "\<exists>ci' n w'. edma_clean_rx_loop k r rid 128 budget (ring_next 128 ci) (wd + 1) w2 = Inr (ci', n, w') \<and> edma_inv k L acc w'
      \<and> rd_id (rxdesc_ring w' ! r) = rid \<and> between 128 c ci' (pidx (ek_soc k) RXDESC w' rid)
      \<and> cidx (ek_soc k) RXDESC w' rid = c \<and> n \<le> word_of_int budget
      \<and> rx_looped k rid budget (ring_next 128 ci) (wd + 1) w2 ci' n w'"
    proof (rule "1.hyps" [OF w1_def refl])
      show "ci \<noteq> ucast (edma_reg_read w1 (EDMA_REG_RXDESC_PROD_IDX rid) AND 0xffff)" using False unfolding pe by simp
      show "\<not> word_of_int budget \<le> wd" using False by simp
      show "between 128 c (ring_next 128 ci) (pidx (ek_soc k) RXDESC w2 rid)" "cidx (ek_soc k) RXDESC w2 rid = c"
        using nx v(5) pidx_frame [OF w2(3)] by simp_all
    qed (use "1.prems"(1) w2 v(2,3) le in simp_all)
    have "wd < word_of_int budget" using False by (simp add: not_le)
    with IH rx_looped_Suc [OF _ this w2(5)] show ?thesis using w2(1) False unfolding step by auto
  qed
qed

lemma edma_clean_rx_inv:
  assumes "engine_ok k" "edma_inv k L acc w" "r < length (rxdesc_ring w)"
  shows "\<exists>n w'. edma_clean_rx k budget r w = Inr (n, w') \<and> edma_inv k L acc w' \<and> n \<le> word_of_int budget
    \<and> rx_handled w' = rx_handled w + unat n
    \<and> (let id = rd_id (rxdesc_ring w ! r) in cidx (ek_soc k) RXDESC w' id = (ring_next 128 ^^ unat n) (cidx (ek_soc k) RXDESC w id)
        \<and> (n = word_of_int budget \<or> cidx (ek_soc k) RXDESC w' id = pidx (ek_soc k) RXDESC w' id))"
proof -
  let ?ring = "rxdesc_ring w ! r" let ?id = "rd_id ?ring" and ?s = "ek_soc k"
  note ok = assms(2) [unfolded edma_inv_def, THEN conjunct1]
  note rr = edma_okD(4) [OF ok assms(3), unfolded rxdesc_ok_def Let_def]
  let ?c = "cidx ?s RXDESC w ?id"
  have ce: "ucast (edma_reg_read w (EDMA_REG_RXDESC_CONS_IDX ?id) AND 0xffff) = ?c"
    by (simp add: cidx_def reg_idx_def idx_base_def)
  obtain ci n w1 where loop: "edma_clean_rx_loop k r ?id 128 budget ?c 0 w = Inr (ci, n, w1)" "edma_inv k L acc w1"
      "rd_id (rxdesc_ring w1 ! r) = ?id" "between 128 ?c ci (pidx ?s RXDESC w1 ?id)" "cidx ?s RXDESC w1 ?id = ?c"
      "n \<le> word_of_int budget" "rx_looped k ?id budget ?c 0 w ci n w1"
    using edma_clean_rx_loop_inv [OF assms refl between_refl refl, of 0 budget] by auto
  have "rd_rxfill ?ring < length (rxfill_ring w1)"
    using rr edma_inv_lengths(1) [OF assms(2)] edma_inv_lengths(1) [OF loop(2)] by simp
  from edma_alloc_rx_buffer_inv [OF loop(2) this] obtain m w2 where
    fill: "edma_alloc_rx_buffer k (rd_rxfill ?ring) w1 = Inr (of_nat m, w2)" "edma_inv k L acc w2"
      "rxdesc_ring w2 = rxdesc_ring w1" "pidx ?s RXDESC w2 ?id = pidx ?s RXDESC w1 ?id" "cidx ?s RXDESC w2 ?id = cidx ?s RXDESC w1 ?id"
      "rx_handled w2 = rx_handled w1"
    using rr by auto
  have r2: "r < length (rxdesc_ring w2)" "rd_id (rxdesc_ring w2 ! r) = ?id"
    using assms(3) edma_inv_lengths(2) [OF assms(2)] edma_inv_lengths(2) [OF fill(2)] fill(3) loop(3) by simp_all
  note rr2 = edma_okD(4) [OF fill(2) [unfolded edma_inv_def, THEN conjunct1] r2(1), unfolded rxdesc_ok_def Let_def r2(2)]
  have b: "between 128 ?c ci (pidx ?s RXDESC w2 ?id)" "cidx ?s RXDESC w2 ?id = ?c" using loop(4,5) fill(4,5) by simp_all
  have ci: "unat ci < 128" using between_less [OF b(1)] rr by simp
  have "edma_ok k (edma_reg_write w2 (cons_reg ?s RXDESC ?id) (ucast ci))"
    using fill(2) rr ci between_span [OF b(1)] rr2 b(2) by (intro edma_ok_cons) (simp_all add: edma_inv_def)
  then have "edma_inv k L acc (edma_reg_write w2 (EDMA_REG_RXDESC_CONS_IDX ?id) (ucast ci))"
    using fill(2) unfolding idx_regs(8) [of _ ?s] by (simp add: edma_inv_def edma_balanced_def edma_allocs_once_def)
  moreover have "cidx ?s RXDESC (edma_reg_write w2 (EDMA_REG_RXDESC_CONS_IDX ?id) (ucast ci)) ?id = ci"
      "pidx ?s RXDESC (edma_reg_write w2 (EDMA_REG_RXDESC_CONS_IDX ?id) (ucast ci)) ?id = pidx ?s RXDESC w1 ?id"
    using rr fill(4) unfolding idx_regs(8) [of _ ?s] by (simp_all add: cidx_write_cons idx_simps)
  moreover have "rx_handled w2 = rx_handled w + unat n" "ci = (ring_next 128 ^^ unat n) ?c" "n = word_of_int budget \<or> ci = pidx ?s RXDESC w1 ?id"
    using loop(7) fill(6) by (auto simp: rx_looped_def)
  ultimately show ?thesis
    using loop(1,6) fill(1) rr assms(3) by (simp add: edma_clean_rx_def aget_in Let_def ce)
qed

text \<open>Transmission.\<close>

lemma edma_ok_tx_write:
  assumes ok: "edma_ok k w" and r: "r < length (txdesc_ring w)" and tag: "unat (tx_opaque ph) < 128"
    and ds: "length ds = length (td_desc (txdesc_ring w ! r))"
  shows "edma_ok k (w\<lparr>txph_mem := (txph_mem w)(s := ph), txdesc_ring := (txdesc_ring w)[r := (txdesc_ring w ! r)\<lparr>td_desc := ds\<rparr>]\<rparr>)"
    (is "edma_ok k ?w")
proof (rule edma_okI)
  note g = edma_okD [OF ok]
  have ids: "map td_id (txdesc_ring ?w) = map td_id (txdesc_ring w)" by (simp add: map_update list_update_same_conv r)
  have ix: "pidx (ek_soc k) kd ?w = pidx (ek_soc k) kd w" "cidx (ek_soc k) kd ?w = cidx (ek_soc k) kd w" for kd
    by (rule pidx_frame; simp)+
  show "edma_shape k ?w" using g(1) ids by (simp add: edma_shape_def)
  show "tags_ok k ?w" using g(2) tag by (simp add: tags_ok_def)
  fix q
  show "q < length (rxfill_ring ?w) \<Longrightarrow> rxfill_ok (ek_soc k) ?w q" using g(3) [of q] by (simp add: rxfill_ok_def Let_def ix)
  show "q < length (rxdesc_ring ?w) \<Longrightarrow> rxdesc_ok (ek_soc k) ?w q" using g(4) [of q] by (simp add: rxdesc_ok_def Let_def ix rx_slot_def)
  show "q < length (txdesc_ring ?w) \<Longrightarrow> txdesc_ok (ek_soc k) ?w q"
    using g(5) [of q] ds r by (cases "q = r") (simp_all add: txdesc_ok_def Let_def ix)
  show "q < length (txcmpl_ring ?w) \<Longrightarrow> txcmpl_ok (ek_soc k) ?w q" using g(6) [of q] by (simp add: txcmpl_ok_def Let_def ix txcmpl_slot_def)
qed

lemma edma_ok_tx_put:
  assumes ok: "edma_ok k w" and t: "unat (tx_opaque (txph_mem w s)) < 128"
  shows "edma_ok k (w\<lparr>tx_skb_store := (tx_skb_store w)[i := Some s]\<rparr>)"
proof (rule same_view_ok [OF ok])
  show "tags_ok k (w\<lparr>tx_skb_store := (tx_skb_store w)[i := Some s]\<rparr>)"
    using edma_okD(2) [OF ok] t by (auto simp: tags_ok_def dest!: set_update_subset_insert [THEN subsetD])
qed (simp_all add: same_regs_idx same_rings_def)

lemma edma_inv_frame:
  assumes "edma_inv k L acc w" "edma_ok k w'" "layout w' = layout w" "rx_skb_store w' = rx_skb_store w"
    "tx_skb_store w' = tx_skb_store w" "ek_trace w' = ek_trace w @ cs" "all_gone cs = {#}" "all_came cs = {#}" "ek_allocs w' = ek_allocs w"
  shows "edma_inv k L acc w'"
  using assms by (simp add: edma_inv_def edma_balanced_def edma_allocs_once_def)

lemma xmit_pushed_inv:
  assumes inv: "edma_inv k L acc w" and r: "r < length (txdesc_ring w)"
  shows "edma_inv k L acc (xmit_pushed k nd skb w)"
proof -
  let ?b = "es_ref skb" and ?ring = "txdesc_ring w ! r"
  let ?calls = "(if es_hw_tstamp skb \<and> ek_txtstamp k nd then [Ek_txtstamp ?b nd] else []) @ [Ek_skb_push ?b]"
  let ?ph = "zero_txph\<lparr>tx_dst_info := edma_tx_dst_info (ek_macid k nd)\<rparr>"
  let ?w = "ekcalls ?calls (w\<lparr>txph_mem := (txph_mem w)(?b := ?ph), txdesc_ring := (txdesc_ring w)[r := ?ring\<lparr>td_desc := td_desc ?ring\<rparr>]\<rparr>)"
  have "edma_ok k w" using inv by (simp add: edma_inv_def)
  then have "edma_ok k ?w" by (intro edma_ok_calls edma_ok_tx_write [OF _ r]) (simp_all add: zero_txph_def)
  moreover have "xmit_pushed k nd skb w = ?w" by (simp add: xmit_pushed_def ekcalls_def)
  ultimately have "edma_ok k (xmit_pushed k nd skb w)" by (simp only:)
  then show ?thesis by (rule edma_inv_frame [OF inv, of _ ?calls]) (simp_all add: xmit_pushed_def)
qed

lemma xmit_written_inv:
  assumes inv: "edma_inv k L acc w" and r: "r < length (txdesc_ring w)" and p: "unat p < 128"
  shows "edma_inv k L acc (xmit_written k nd skb r p d w)" "tx_skb_store (xmit_written k nd skb r p d w) = tx_skb_store w"
    "unat (tx_opaque (txph_mem (xmit_written k nd skb r p d w) (es_ref skb))) < 128"
proof -
  let ?b = "es_ref skb" and ?ring = "txdesc_ring w ! r"
  let ?calls = "(if es_hw_tstamp skb \<and> ek_txtstamp k nd then [Ek_txtstamp ?b nd] else []) @ [Ek_skb_push ?b]"
  let ?ph = "zero_txph\<lparr>tx_dst_info := edma_tx_dst_info (ek_macid k nd), tx_opaque := ucast p\<rparr>"
  let ?w = "ekcalls ?calls (w\<lparr>txph_mem := (txph_mem w)(?b := ?ph), txdesc_ring := (txdesc_ring w)[r := ?ring\<lparr>td_desc := (td_desc ?ring)[unat p := d]\<rparr>]\<rparr>)"
  have ok: "edma_ok k w" using inv by (simp add: edma_inv_def)
  then have "edma_ok k ?w"
    using edma_okD(5) [OF ok r] p by (intro edma_ok_calls edma_ok_tx_write [OF _ r]) (simp_all add: unat_u16_u32 txdesc_ok_def Let_def)
  moreover have "xmit_written k nd skb r p d w = ?w" by (simp add: xmit_written_def xmit_pushed_def ekcalls_def)
  ultimately have "edma_ok k (xmit_written k nd skb r p d w)" by (simp only:)
  then show "edma_inv k L acc (xmit_written k nd skb r p d w)"
    by (rule edma_inv_frame [OF inv, of _ ?calls]) (simp_all add: xmit_written_def xmit_pushed_def)
  show "tx_skb_store (xmit_written k nd skb r p d w) = tx_skb_store w"
    "unat (tx_opaque (txph_mem (xmit_written k nd skb r p d w) (es_ref skb))) < 128"
    using p by (simp_all add: xmit_written_def xmit_pushed_def unat_u16_u32)
qed

text \<open>The frame goes into an empty slot of the store, and the producer index moves past it.\<close>

lemma xmit_queued_inv:
  assumes inv: "edma_inv k L acc v" and b: "unat (tx_opaque (txph_mem v b)) < 128" and p: "unat p < 128" "tx_skb_store v ! unat p = None"
    and id: "unat i < kind_max (ek_soc k) TXDESC"
  shows "edma_inv k L (add_mset b acc) (edma_reg_write (v\<lparr>tx_skb_store := (tx_skb_store v)[unat p := Some b]\<rparr>)
      (prod_reg (ek_soc k) TXDESC i) (ucast (ring_next 128 p)))"
proof -
  let ?w1 = "v\<lparr>tx_skb_store := (tx_skb_store v)[unat p := Some b]\<rparr>"
  have "edma_ok k ?w1" using inv b edma_ok_tx_put [of k v b "unat p"] by (simp add: edma_inv_def)
  then have "edma_ok k (edma_reg_write ?w1 (prod_reg (ek_soc k) TXDESC i) (ucast (ring_next 128 p)))"
    using id p by (intro edma_ok_prod) (simp_all add: ring_next_128)
  moreover have "stored ((tx_skb_store v)[unat p := Some b]) = add_mset b (stored (tx_skb_store v))"
    using p edma_inv_lengths [OF inv] by (intro stored_put) simp_all
  ultimately show ?thesis using inv by (simp add: edma_inv_def edma_balanced_def edma_allocs_once_def)
qed

lemma edma_ring_xmit_inv:
  assumes inv: "edma_inv k L acc w" and r: "r < length (txdesc_ring w)"
  shows "\<exists>ret w'. edma_ring_xmit k nd skb r w = Inr (ret, w') \<and> ret \<noteq> EDMA_TX_FAIL
     \<and> edma_inv k L (if ret = EDMA_TX_OK then add_mset (es_ref skb) acc else acc) w'"
proof -
  let ?id = "td_id (txdesc_ring w ! r)" and ?s = "ek_soc k" and ?b = "es_ref skb"
  let ?p = "pidx ?s TXDESC w ?id"
  note ok = inv [unfolded edma_inv_def, THEN conjunct1]
  note rr = edma_okD(5) [OF ok r, unfolded txdesc_ok_def Let_def] and l = edma_inv_lengths [OF inv]
  have pe: "reg_idx w (EDMA_REG_TXDESC_PROD_IDX ?id) = ?p" "EDMA_REG_TXDESC_PROD_IDX ?id = prod_reg ?s TXDESC ?id"
    by (simp_all add: pidx_def idx_base_def)
  have p: "unat ?p < 128" using rr by simp
  note push = xmit_pushed_inv [OF inv r, of nd skb] and written = xmit_written_inv [OF inv r p, of nd skb]
  have freed: "edma_inv k L (add_mset ?b acc) (ekcalls [Ek_kfree ?b] (xmit_written k nd skb r ?p d w))" for d
    using written(1) [of d] by (simp add: edma_inv_def edma_ok_calls edma_balanced_def edma_allocs_once_def)
  have queued: "edma_inv k L (add_mset ?b acc) (edma_reg_write ((xmit_written k nd skb r ?p d w)
      \<lparr>tx_skb_store := (tx_skb_store w)[unat ?p := Some ?b]\<rparr>) (prod_reg ?s TXDESC ?id) (ucast (ring_next 128 ?p)))"
    if e: "tx_skb_store w ! unat ?p = None" for d
    using xmit_queued_inv [OF written(1,3) [of d] p, of ?id] e rr unfolding written(2) by simp
  note run = edma_ring_xmit_ok [OF r, of k nd skb, unfolded pe(1)]
  show ?thesis
    using run rr l push freed queued inv unfolding pe(2) by auto
qed

lemma edma_select_ring_range:
  assumes "0 < txdesc_rings (layout w)"
  shows "edma_select_ring w q < txdesc_rings (layout w) \<longleftrightarrow> txdesc_rings (layout w) = 1 \<or> q \<le> txdesc_rings (layout w)"
proof -
  let ?n = "txdesc_rings (layout w)"
  have one: "?n > 1 \<longleftrightarrow> ?n \<noteq> 1" using assms by (metis inc_le less_le plus_word.abs_eq word_le_0_iff add.left_neutral not_less order_less_irrefl)
  show ?thesis
  proof (cases "?n > 1 \<and> 0 < q")
    case True
    then have m: "edma_select_ring w q = ?n mod q" by (simp add: edma_select_ring_def)
    show ?thesis
    proof (cases "q \<le> ?n")
      case q: True
      have "?n mod q < q" using True by (simp add: word_mod_less_divisor)
      then have "?n mod q < ?n" using q by (rule less_le_trans)
      then show ?thesis using q m by simp
    next
      case False
      then have "?n mod q = ?n" by (simp add: word_unat_eq_iff unat_mod word_less_nat_alt not_le)
      then show ?thesis using m False one True by simp
    qed
  next
    case False
    then show ?thesis using assms one by (auto simp: edma_select_ring_def)
  qed
qed

lemma edma_if_xmit_inv:
  assumes inv: "edma_inv k L acc w" and q: "unat (edma_select_ring w (es_queue skb)) < unat (txdesc_rings L)"
  shows "\<exists>ret w'. edma_if_xmit k (Some nd) skb w = Inr (ret, w')
     \<and> edma_inv k L (if ret = NETDEV_TX_OK then add_mset (es_ref skb) acc else acc) w'"
proof -
  let ?b = "es_ref skb"
  have drop: "edma_inv k L (add_mset ?b acc) (ekcalls [Ek_kfree ?b, Ek_tx_dropped nd] v)" if "edma_inv k L acc v" for v
    using that by (simp add: edma_inv_def edma_ok_calls edma_balanced_def edma_allocs_once_def)
  define w1 where "w1 = (if es_cloned skb \<or> es_headroom skb < needed_headroom w nd \<or> es_headroom skb < ek_needed_tailroom k nd
      then ekcalls [Ek_expand_head ?b] w else w)"
  have inv1: "edma_inv k L acc w1" using inv edma_inv_calls [OF inv, of "[Ek_expand_head ?b]"] by (simp add: w1_def)
  have "unat (edma_select_ring w (es_queue skb)) < length (txdesc_ring w1)"
    using q edma_inv_lengths(3) [OF inv1] by simp
  from edma_ring_xmit_inv [OF inv1 this, of nd skb] obtain ret w2 where x:
    "edma_ring_xmit k nd skb (unat (edma_select_ring w (es_queue skb))) w1 = Inr (ret, w2)" "ret \<noteq> EDMA_TX_FAIL"
    "edma_inv k L (if ret = EDMA_TX_OK then add_mset ?b acc else acc) w2" by blast
  have "edma_inv k L acc (ekcalls [Ek_stop_queue nd] w2)" if "ret = EDMA_TX_DESC"
    using x(3) that by (intro edma_inv_calls) simp_all
  then show ?thesis
    using drop [OF inv] drop [OF edma_inv_calls [OF inv, of "[Ek_expand_head ?b]"]] x
    by (cases ret) (auto simp: edma_if_xmit_def edma_xmit_drop_def Let_def w1_def [symmetric])
qed

lemma add_work_inv:
  assumes "\<And>w. edma_inv k L acc w \<Longrightarrow> \<exists>n w'. f i w = Inr (n, w') \<and> edma_inv k L acc w'" "edma_inv k L acc (snd s)"
  shows "\<exists>s'. add_work f i s = Inr s' \<and> edma_inv k L acc (snd s')"
  using assms(1) [OF assms(2)] by (auto simp: add_work_def split: prod.split)

text \<open>Masking or unmasking the interrupts of all rings of a kind.\<close>

lemma ring_int_regs:
  assumes "edma_ok k w"
  shows "i < length (rxdesc_ring w) \<Longrightarrow> int_reg (ek_soc k) (EDMA_REG_RXDESC_INT_MASK (rd_id (rxdesc_ring w ! i)))"
    "i < length (txcmpl_ring w) \<Longrightarrow> int_reg (ek_soc k) (EDMA_REG_TX_INT_MASK (ek_soc k) (tc_id (txcmpl_ring w ! i)))"
    "i < length (rxfill_ring w) \<Longrightarrow> int_reg (ek_soc k) (EDMA_REG_RXFILL_INT_MASK (rf_id (rxfill_ring w ! i)))"
  unfolding int_reg_def int_regs [where s = "ek_soc k"] using ring_ids [OF assms, of i] by blast+

lemma set_mask_inv:
  assumes "edma_inv k L acc w"
  shows "i < unat (rxdesc_rings L) \<Longrightarrow> \<exists>w'. edma_set_rxdesc_mask m i w = Inr w' \<and> edma_inv k L acc w'"
    "i < unat (txcmpl_rings L) \<Longrightarrow> \<exists>w'. edma_set_txcmpl_mask (ek_soc k) m i w = Inr w' \<and> edma_inv k L acc w'"
    "i < unat (rxfill_rings L) \<Longrightarrow> \<exists>w'. edma_set_rxfill_mask m i w = Inr w' \<and> edma_inv k L acc w'"
  using edma_inv_lengths [OF assms] edma_inv_int [OF assms] ring_int_regs [of k w] assms
  by (simp_all add: edma_set_rxdesc_mask_def edma_set_txcmpl_mask_def edma_set_rxfill_mask_def aget_in edma_inv_def)

lemma irq_one_inv:
  assumes "edma_inv k L acc (snd s)"
  shows "i < unat (rxdesc_rings L) \<Longrightarrow> \<exists>s'. rxdesc_irq_one i s = Inr s' \<and> edma_inv k L acc (snd s')"
    "i < unat (txcmpl_rings L) \<Longrightarrow> \<exists>s'. txcmpl_irq_one (ek_soc k) i s = Inr s' \<and> edma_inv k L acc (snd s')"
    "i < unat (rxfill_rings L) \<Longrightarrow> \<exists>s'. rxfill_irq_one i s = Inr s' \<and> edma_inv k L acc (snd s')"
  using edma_inv_lengths [OF assms] edma_inv_int [OF assms] ring_int_regs [of k "snd s"] assms
  by (simp_all add: rxdesc_irq_one_def txcmpl_irq_one_def rxfill_irq_one_def aget_in edma_inv_def Let_def split_beta)

lemma edma_wake_one_inv:
  assumes "edma_inv k L acc w" "i < EDMA_MAX_GMACS (ek_soc k)"
  shows "\<exists>w'. edma_wake_one k i w = Inr w' \<and> edma_inv k L acc w'"
  using assms edma_inv_lengths(5) [OF assms(1)] edma_inv_calls [OF assms(1)]
  by (auto simp: edma_wake_one_def aget_in split: option.split)

lemma masks_inv:
  assumes "edma_inv k L acc w"
  shows "\<exists>w'. for_upto 0 (unat (rxdesc_rings L)) (edma_set_rxdesc_mask m) w = Inr w' \<and> edma_inv k L acc w'"
    "\<exists>w'. for_upto 0 (unat (txcmpl_rings L)) (edma_set_txcmpl_mask (ek_soc k) m) w = Inr w' \<and> edma_inv k L acc w'"
    "\<exists>w'. for_upto 0 (unat (rxfill_rings L)) (edma_set_rxfill_mask m) w = Inr w' \<and> edma_inv k L acc w'"
  using assms by (intro for_upto_inv set_mask_inv; simp)+

text \<open>A poll is the work on the rings, and then, when the work was less than the budget, the unmasking.\<close>

definition napi_unmask :: "edma_kernel \<Rightarrow> edma_layout \<Rightarrow> edma_world \<Rightarrow> edma_world result" where
  "napi_unmask k L w =
     bindR (for_upto 0 (unat (rxdesc_rings L)) (edma_set_rxdesc_mask (rxdesc_intr_mask w)) w) (\<lambda>w.
     bindR (for_upto 0 (unat (txcmpl_rings L)) (edma_set_txcmpl_mask (ek_soc k) (txcmpl_intr_mask w)) w) (\<lambda>w.
     for_upto 0 (unat (rxfill_rings L)) (edma_set_rxfill_mask (rxfill_intr_mask w)) w))"

lemma napi_unmask_inv:
  assumes "edma_inv k L acc w"
  shows "\<exists>w'. napi_unmask k L w = Inr w' \<and> edma_inv k L acc w'"
proof -
  obtain w1 where 1: "for_upto 0 (unat (rxdesc_rings L)) (edma_set_rxdesc_mask (rxdesc_intr_mask w)) w = Inr w1" "edma_inv k L acc w1"
    using masks_inv(1) [OF assms] by blast
  obtain w2 where 2: "for_upto 0 (unat (txcmpl_rings L)) (edma_set_txcmpl_mask (ek_soc k) (txcmpl_intr_mask w1)) w1 = Inr w2" "edma_inv k L acc w2"
    using masks_inv(2) [OF 1(2)] by blast
  obtain w3 where 3: "for_upto 0 (unat (rxfill_rings L)) (edma_set_rxfill_mask (rxfill_intr_mask w2)) w2 = Inr w3" "edma_inv k L acc w3"
    using masks_inv(3) [OF 2(2)] by blast
  show ?thesis using 1 2 3 by (simp add: napi_unmask_def)
qed

lemma edma_napi_split:
  assumes "engine_ok k" "edma_inv k L acc w"
  shows "\<exists>(n :: u32) w'. edma_inv k L acc w' \<and> edma_napi k budget w =
     (if sint n < budget then bindR (napi_unmask k L (ekcalls [Ek_napi_complete] w')) (\<lambda>w. Inr (sint n, w)) else Inr (sint n, w'))"
proof -
  let ?P = "\<lambda>s. edma_inv k L acc (snd s)"
  have L: "layout w = L" using assms(2) by (simp add: edma_inv_def)
  have rx: "\<exists>s'. add_work (edma_clean_rx k budget) i s = Inr s' \<and> ?P s'" if "i < unat (rxdesc_rings L)" "?P s" for i s
    using that edma_clean_rx_inv [OF assms(1)] edma_inv_lengths(2) by (intro add_work_inv) (metis, simp)
  have tx: "\<exists>s'. add_work (edma_clean_tx k) i s = Inr s' \<and> ?P s'" if "i < unat (txcmpl_rings L)" "?P s" for i s
    using that edma_clean_tx_inv edma_inv_lengths(4) by (intro add_work_inv) (metis, simp)
  have fill: "\<exists>s'. add_work (edma_alloc_rx_buffer k) i s = Inr s' \<and> ?P s'" if "i < unat (rxfill_rings L)" "?P s" for i s
    using that edma_alloc_rx_buffer_inv edma_inv_lengths(1) by (intro add_work_inv) (metis, simp)
  obtain s1 where s1: "for_upto 0 (unat (rxdesc_rings L)) (add_work (edma_clean_rx k budget)) (0, w) = Inr s1" "?P s1"
    using for_upto_inv [of 0 "unat (rxdesc_rings L)" ?P "add_work (edma_clean_rx k budget)" "(0, w)"] rx assms(2) by auto
  obtain s2 where s2: "for_upto 0 (unat (txcmpl_rings L)) (add_work (edma_clean_tx k)) s1 = Inr s2" "?P s2"
    using for_upto_inv [of 0 "unat (txcmpl_rings L)" ?P "add_work (edma_clean_tx k)" s1] tx s1(2) by auto
  obtain n w3 where s3: "for_upto 0 (unat (rxfill_rings L)) (add_work (edma_alloc_rx_buffer k)) s2 = Inr (n, w3)" "edma_inv k L acc w3"
    using for_upto_inv [of 0 "unat (rxfill_rings L)" ?P "add_work (edma_alloc_rx_buffer k)" s2] fill s2(2) by auto
  obtain w4 where w4: "for_upto 0 (EDMA_MAX_GMACS (ek_soc k)) (edma_wake_one k) w3 = Inr w4" "edma_inv k L acc w4"
    using for_upto_inv [of 0 "EDMA_MAX_GMACS (ek_soc k)" "edma_inv k L acc" "edma_wake_one k" w3] edma_wake_one_inv s3(2) by auto
  show ?thesis
    using s1 s2 s3 w4 by (intro exI [of _ n] exI [of _ w4]) (simp add: edma_napi_def L Let_def napi_unmask_def bindR_assoc)
qed

lemma edma_napi_inv:
  assumes "engine_ok k" "edma_inv k L acc w"
  shows "\<exists>n w'. edma_napi k budget w = Inr (n, w') \<and> edma_inv k L acc w'"
proof -
  obtain n :: u32 and w1 where w1: "edma_inv k L acc w1" "edma_napi k budget w =
     (if sint n < budget then bindR (napi_unmask k L (ekcalls [Ek_napi_complete] w1)) (\<lambda>w. Inr (sint n, w)) else Inr (sint n, w1))"
    using edma_napi_split [OF assms, of budget] by blast
  have "edma_inv k L acc (ekcalls [Ek_napi_complete] w1)" by (rule edma_inv_calls [OF w1(1)]) simp_all
  then obtain w2 where "napi_unmask k L (ekcalls [Ek_napi_complete] w1) = Inr w2" "edma_inv k L acc w2"
    using napi_unmask_inv by blast
  then show ?thesis using w1 by simp
qed

lemma edma_handle_irq_inv:
  assumes inv: "edma_inv k L acc w"
  shows "\<exists>n w'. edma_handle_irq k d w = Inr (n, w') \<and> edma_inv k L acc w'"
proof -
  let ?P = "\<lambda>s. edma_inv k L acc (snd s)"
  have L: "layout w = L" using inv by (simp add: edma_inv_def)
  obtain a w1 where 1: "for_upto 0 (unat (rxdesc_rings L)) rxdesc_irq_one (0, w) = Inr (a, w1)" "edma_inv k L acc w1"
    using for_upto_inv [of 0 "unat (rxdesc_rings L)" ?P rxdesc_irq_one "(0, w)"] irq_one_inv(1) inv by auto
  obtain b w2 where 2: "for_upto 0 (unat (txcmpl_rings L)) (txcmpl_irq_one (ek_soc k)) (0, w1) = Inr (b, w2)" "edma_inv k L acc w2"
    using for_upto_inv [of 0 "unat (txcmpl_rings L)" ?P "txcmpl_irq_one (ek_soc k)" "(0, w1)"] irq_one_inv(2) 1(2) by auto
  obtain c w3 where 3: "for_upto 0 (unat (rxfill_rings L)) rxfill_irq_one (0, w2) = Inr (c, w3)" "edma_inv k L acc w3"
    using for_upto_inv [of 0 "unat (rxfill_rings L)" ?P rxfill_irq_one "(0, w2)"] irq_one_inv(3) 2(2) by auto
  obtain w4 where 4: "for_upto 0 (unat (rxdesc_rings L)) (edma_set_rxdesc_mask 0) w3 = Inr w4" "edma_inv k L acc w4"
    using masks_inv(1) [OF 3(2)] by blast
  have "edma_inv k L acc (ekcalls [Ek_napi_schedule] w4)" by (rule edma_inv_calls [OF 4(2)]) simp_all
  then show ?thesis using 1 2 3 4 inv by (auto simp: edma_handle_irq_def L Let_def)
qed

lemma edma_misc_irq_inv: "edma_inv k L acc w \<Longrightarrow> edma_inv k L acc (snd (edma_handle_misc_irq w))"
  by (simp add: edma_handle_misc_irq_def Let_def edma_inv_int int_reg_def)

lemma edma_open_close_inv:
  assumes "edma_inv k L acc w"
  shows "edma_inv k L acc (snd (edma_if_open dpc t r m w))" "edma_inv k L acc (snd (edma_if_close dpc w))"
proof -
  have a: "edma_inv k L acc (w\<lparr>active := n\<rparr>)" for n
    by (rule edma_inv_frame [OF assms, of _ "[]"]) (use assms edma_ok_active in \<open>auto simp: edma_inv_def\<close>)
  show "edma_inv k L acc (snd (edma_if_open dpc t r m w))" "edma_inv k L acc (snd (edma_if_close dpc w))"
    using assms a edma_inv_calls [OF a] by (simp_all add: edma_if_open_def edma_if_close_def Let_def)
qed

end
