(* ===== verification/Edma_Init.thy ===== *)
theory Edma_Init
  imports Edma_Inv
begin

text \<open>
  Initialisation of the EDMA engine: the registers the set-up writes are not index registers, the
  rings come out with 128 descriptors and consecutive numbers, and a successful \<open>edma_hw_init\<close>
  establishes the invariant. It succeeds whenever memory and the reset controller are available.
\<close>

section \<open>Registers that are not indices\<close>

definition other_reg :: "soc \<Rightarrow> u32 \<Rightarrow> bool" where
  "other_reg s reg \<longleftrightarrow> (\<forall>kd n. unat n < kind_max s kd \<longrightarrow> prod_reg s kd n \<noteq> reg \<and> cons_reg s kd n \<noteq> reg)"

lemma other_int: "int_reg s reg \<Longrightarrow> other_reg s reg"
  using int_reg_not_idx by (simp add: other_reg_def)

lemma other_low:
  assumes "reg AND 0xfff \<noteq> 4" "reg AND 0xfff \<noteq> 8"
  shows "other_reg s reg"
proof -
  have "prod_reg s kd n AND 0xfff = 4" "cons_reg s kd n AND 0xfff = 8" for kd n
    by (simp_all only: ring_reg_low idx_base_low)
  then show ?thesis using assms unfolding other_reg_def by metis
qed

lemma idx_reg_unat:
  assumes "unat n < kind_max s kd"
  shows "unat (prod_reg s kd n) = unat (idx_base s kd) + 4 + 0x1000 * unat n" "unat (cons_reg s kd n) = unat (idx_base s kd) + 8 + 0x1000 * unat n"
proof -
  have b: "unat (idx_base s kd + 4) < 0x100000" "unat (idx_base s kd + 8) < 0x100000"
    by (cases s; cases kd; simp add: idx_off_unat idx_base_unat)+
  show "unat (prod_reg s kd n) = unat (idx_base s kd) + 4 + 0x1000 * unat n" "unat (cons_reg s kd n) = unat (idx_base s kd) + 8 + 0x1000 * unat n"
    using ring_reg_unat [OF kind_max_less [OF assms] b(1)] ring_reg_unat [OF kind_max_less [OF assms] b(2)] by (simp_all add: idx_off_unat)
qed

lemma other_global: "unat reg < 0x1000 \<Longrightarrow> other_reg s reg"
proof -
  assume l: "unat reg < 0x1000"
  have "unat (idx_base s kd) \<ge> 0x1000" for kd by (cases s; cases kd; simp add: idx_base_unat)
  then have "unat (prod_reg s kd n) \<ge> 0x1000" "unat (cons_reg s kd n) \<ge> 0x1000" if "unat n < kind_max s kd" for kd n
    unfolding idx_reg_unat [OF that] by (meson le_add1 order_trans)+
  then have "prod_reg s kd n \<noteq> reg \<and> cons_reg s kd n \<noteq> reg" if "unat n < kind_max s kd" for kd n
    using l that not_le by metis
  then show ?thesis by (simp add: other_reg_def)
qed

lemma other_timer:
  assumes m: "unat m < kind_max s kd'" "kd' \<noteq> TXDESC"
  shows "other_reg s (int_base s kd' + 8 + 0x1000 * m)"
  unfolding other_reg_def
proof (intro allI impI conjI)
  fix kd and n :: u32 assume n: "unat n < kind_max s kd"
  have b: "unat (int_base s kd' + 8) < 0x100000" "unat (int_base s kd' + 8) = unat (int_base s kd') + 8"
    by (cases s; cases kd'; simp add: int_base_def EDMA_REG_TX_BASE_def)+
  have u: "unat (int_base s kd' + 8 + 0x1000 * m) = unat (int_base s kd') + 8 + 0x1000 * unat m"
    using ring_reg_unat [OF kind_max_less [OF m(1)] b(1)] b(2) by simp
  show "cons_reg s kd n \<noteq> int_base s kd' + 8 + 0x1000 * m"
  proof
    assume "cons_reg s kd n = int_base s kd' + 8 + 0x1000 * m"
    then have "unat (idx_base s kd) + 8 + 0x1000 * unat n = unat (int_base s kd') + 8 + 0x1000 * unat m"
      unfolding u [symmetric] idx_reg_unat(2) [OF n, symmetric] by (rule arg_cong)
    with int_idx_pages [OF n m] show False by simp
  qed
  have "(int_base s kd' + 8) AND 0xfff = 8" by (cases s; cases kd'; simp add: int_base_def EDMA_REG_TX_BASE_def)
  then show "prod_reg s kd n \<noteq> int_base s kd' + 8 + 0x1000 * m"
    by (intro ring_reg_neq) (simp add: idx_base_low)
qed

text \<open>A step that writes such registers only.\<close>

definition quiet :: "edma_kernel \<Rightarrow> edma_world \<Rightarrow> edma_world \<Rightarrow> bool" where
  "quiet k w w' \<longleftrightarrow> (\<exists>g. w' = w\<lparr>regs := g\<rparr>) \<and> same_idx k w w'"

lemma quiet_refl [simp]: "quiet k w w"
  unfolding quiet_def by (auto intro: exI [of _ "regs w"] same_regs_idx)

lemma quiet_trans: "quiet k w w1 \<Longrightarrow> quiet k w1 w2 \<Longrightarrow> quiet k w w2"
  by (auto simp: quiet_def same_idx_def)

lemma quiet_write: "other_reg (ek_soc k) reg \<Longrightarrow> quiet k w (edma_reg_write w reg v)"
proof -
  assume "other_reg (ek_soc k) reg"
  then have "same_idx k w (edma_reg_write w reg v)"
    by (simp add: same_idx_def other_reg_def pidx_def cidx_def reg_idx_write)
  then show ?thesis by (auto simp: quiet_def edma_reg_write_def)
qed

lemma quiet_modify: "other_reg (ek_soc k) reg \<Longrightarrow> quiet k w (edma_reg_modify reg f w)"
  unfolding edma_reg_modify_def by (rule quiet_write)

lemma quiet_for_rings:
  assumes "\<And>i w. a \<le> i \<Longrightarrow> i < a + n \<Longrightarrow> quiet k w (f (of_nat i) w)"
  shows "quiet k w (for_rings a n f w)"
  using assms
proof (induction n arbitrary: a w)
  case (Suc n)
  have "quiet k w (f (of_nat a) w)" using Suc.prems [of a w] by simp
  moreover have "quiet k (f (of_nat a) w) (for_rings (Suc a) n f (f (of_nat a) w))"
    by (rule Suc.IH) (use Suc.prems in simp)
  ultimately show ?case by (auto intro: quiet_trans)
qed simp

lemma quietD:
  assumes "quiet k w w'"
  shows "layout w' = layout w" "rx_skb_store w' = rx_skb_store w" "tx_skb_store w' = tx_skb_store w"
    "rxfill_ring w' = rxfill_ring w" "rxdesc_ring w' = rxdesc_ring w" "txdesc_ring w' = txdesc_ring w"
    "txcmpl_ring w' = txcmpl_ring w" "netdev_arr w' = netdev_arr w" "ek_trace w' = ek_trace w"
    "ek_allocs w' = ek_allocs w" "rxph_mem w' = rxph_mem w" "txph_mem w' = txph_mem w" "misc_intr_mask w' = misc_intr_mask w"
    "rxdesc_intr_mask w' = rxdesc_intr_mask w" "rxfill_intr_mask w' = rxfill_intr_mask w" "txcmpl_intr_mask w' = txcmpl_intr_mask w"
    "active w' = active w" "napi_added w' = napi_added w" "same_idx k w w'"
  using assms by (auto simp: quiet_def)

lemma quiet_inv:
  assumes "edma_inv k L acc w" "quiet k w w'"
  shows "edma_inv k L acc w'"
proof -
  note q = quietD [OF assms(2)]
  have ok: "edma_ok k w" using assms(1) by (simp add: edma_inv_def)
  have "edma_ok k w'"
    by (rule same_view_ok [OF ok q(19)]) (use q edma_okD(2) [OF ok] in \<open>simp_all add: same_rings_def tags_ok_def\<close>)
  then show ?thesis using assms(1) q by (simp add: edma_inv_def edma_balanced_def edma_allocs_once_def)
qed

lemma low_of_ring: "(c AND 0xfff) = x \<Longrightarrow> (c + 0x1000 * n) AND 0xfff = (x :: u32)"
  using ring_reg_low [of c n] by simp

lemma other_ring_low: "c AND 0xfff \<noteq> 4 \<Longrightarrow> c AND 0xfff \<noteq> 8 \<Longrightarrow> other_reg s (c + 0x1000 * n)"
  using low_of_ring [of c _ n] by (intro other_low) auto

lemma edma_quiesce_quiet: "quiet k w (edma_quiesce (ek_soc k) w)"
proof -
  let ?s = "ek_soc k"
  have nat: "unat (of_nat i :: u32) = i" if "i < 24" for i using that by (simp add: unat_of_nat)
  have 1: "quiet k w (for_rings 0 (EDMA_MAX_TXCMPL_RINGS ?s) (\<lambda>i w. edma_reg_write w (EDMA_REG_TX_INT_MASK ?s i) 0) w)" for w
  proof (rule quiet_for_rings)
    fix i w assume "0 \<le> i" "i < 0 + EDMA_MAX_TXCMPL_RINGS ?s"
    then have "unat (of_nat i :: u32) < kind_max ?s TXCMPL"
      using nat [of i] by (cases ?s) (simp_all add: kind_max_def EDMA_MAX_TXCMPL_RINGS_def)
    then show "quiet k w (edma_reg_write w (EDMA_REG_TX_INT_MASK ?s (of_nat i)) 0)"
      by (intro quiet_write other_int) (auto simp: int_reg_def int_regs)
  qed
  have 2: "quiet k w (for_rings 0 EDMA_MAX_RXFILL_RINGS (\<lambda>i w. edma_reg_write w (EDMA_REG_RXFILL_INT_MASK i) 0) w)" for w
  proof (rule quiet_for_rings)
    fix i w assume "0 \<le> i" "i < 0 + EDMA_MAX_RXFILL_RINGS"
    then have "unat (of_nat i :: u32) < kind_max ?s RXFILL" using nat [of i] by (simp add: kind_max_def)
    then show "quiet k w (edma_reg_write w (EDMA_REG_RXFILL_INT_MASK (of_nat i)) 0)"
      unfolding int_regs(3) [of _ ?s] by (intro quiet_write other_int) (auto simp: int_reg_def)
  qed
  have 3: "quiet k w (for_rings 0 EDMA_MAX_RXDESC_RINGS (\<lambda>i w. edma_reg_write w (EDMA_REG_RX_INT_CTRL i) 0) w)" for w
    by (intro quiet_for_rings quiet_write other_ring_low) simp_all
  have 4: "quiet k w (for_rings 0 EDMA_MAX_RXDESC_RINGS
        (\<lambda>i. edma_reg_modify (EDMA_REG_RXDESC_CTRL i) (\<lambda>d. d AND NOT EDMA_RXDESC_RX_EN)) w)" for w
    by (intro quiet_for_rings quiet_modify other_ring_low) simp_all
  have 5: "quiet k w (for_rings 0 EDMA_MAX_RXFILL_RINGS
        (\<lambda>i. edma_reg_modify (EDMA_REG_RXFILL_RING_EN i) (\<lambda>d. d AND NOT EDMA_RXFILL_RING_EN)) w)" for w
    by (intro quiet_for_rings quiet_modify other_ring_low) simp_all
  have 6: "quiet k w (for_rings 0 EDMA_MAX_TXDESC_RINGS
        (\<lambda>i. edma_reg_modify (EDMA_REG_TXDESC_CTRL i) (\<lambda>d. d AND NOT EDMA_TXDESC_TX_EN)) w)" for w
    by (intro quiet_for_rings quiet_modify other_ring_low) simp_all
  show ?thesis
    unfolding edma_quiesce_def Let_def
    by (rule quiet_trans [OF 1 quiet_trans [OF 2 quiet_trans [OF 3 quiet_trans [OF 4 quiet_trans [OF 5 6]]]]])
qed

lemma edma_map_txcmpl_loop_quiet: "quiet k w (edma_map_txcmpl_loop i n d w)"
proof (induction n arbitrary: i d w)
  case (Suc n)
  have "other_reg (ek_soc k) (txdesc2cmpl_reg (of_nat i))"
    by (rule other_global) (simp add: txdesc2cmpl_reg_def)
  note q = quiet_modify [OF this]
  show ?case by (simp add: Let_def quiet_trans [OF q Suc])
qed simp

lemma edma_map_txcmpl_quiet: "quiet k w (edma_map_txcmpl w)"
proof -
  have q: "quiet k v (edma_reg_write v reg x)" if "unat reg < 0x1000" for v reg x
    by (rule quiet_write [OF other_global [OF that]])
  show ?thesis
    unfolding edma_map_txcmpl_def Let_def
    by (intro quiet_trans [OF quiet_trans [OF quiet_trans [OF q q] q] edma_map_txcmpl_loop_quiet]) simp_all
qed

section \<open>Set-up of the rings\<close>

lemma try_upto_all:
  assumes "\<And>i s s' ret. a \<le> i \<Longrightarrow> i < a + n \<Longrightarrow> P i s \<Longrightarrow> f i s = Inr (ret, s') \<Longrightarrow> \<not> failed ret \<Longrightarrow> P (Suc i) s'"
    "P a s" "try_upto a n f s = Inr (None, s')"
  shows "P (a + n) s'"
  using assms
proof (induction n arbitrary: a s)
  case (Suc n)
  from Suc.prems(3) obtain ret s1 where 1: "f a s = Inr (ret, s1)" "\<not> failed ret" "try_upto (Suc a) n f s1 = Inr (None, s')"
    by (auto simp: bindR_eq_Inr split: if_splits)
  have "P (Suc a + n) s'"
    using Suc.prems(1) [of a s ret s1] Suc.prems(1,2) 1 by (intro Suc.IH) auto
  then show ?case by simp
qed simp

text \<open>Setting up a list of rings one by one: what each turn puts in its place is there at the end.\<close>

lemma setup_all:
  assumes run: "try_upto 0 (length rs0) f (put rs0 m0) = Inr (None, w')"
    and one: "\<And>i rs m ret v. i < length rs \<Longrightarrow> f i (put rs m) = Inr (ret, v) \<Longrightarrow> \<not> failed ret \<Longrightarrow>
       \<exists>x m. v = put (rs[i := x]) m \<and> G i x"
  shows "\<exists>rs m. w' = put rs m \<and> length rs = length rs0 \<and> (\<forall>j < length rs0. G j (rs ! j))"
proof -
  let ?P = "\<lambda>i v. \<exists>rs m. v = put rs m \<and> length rs = length rs0 \<and> (\<forall>j < i. G j (rs ! j))"
  have step: "?P (Suc i) v'" if P: "?P i v" and i: "i < length rs0"
    and run: "f i v = Inr (ret, v')" "\<not> failed ret" for i v v' ret
  proof -
    obtain rs m where v: "v = put rs m" "length rs = length rs0" "\<forall>j < i. G j (rs ! j)" using P by blast
    obtain x m' where "v' = put (rs[i := x]) m'" "G i x" using one [of i rs m ret v'] run v(1,2) i by auto
    then show ?thesis
      using v(2,3) i by (intro exI [of _ "rs[i := x]"] exI [of _ m']) (auto simp: nth_list_update less_Suc_eq)
  qed
  have "?P 0 (put rs0 m0)" by (intro exI [of _ rs0] exI [of _ m0]) simp
  from try_upto_all [of 0 _ ?P, OF _ this run] step show ?thesis by auto
qed

definition txdesc_fresh :: "u32 \<Rightarrow> nat \<Rightarrow> edma_txdesc_ring \<Rightarrow> bool" where
  "txdesc_fresh start j r \<longleftrightarrow> td_count r = 128 \<and> length (td_desc r) = 128 \<and> td_id r = start + of_nat j"

definition txcmpl_fresh :: "u32 \<Rightarrow> nat \<Rightarrow> edma_txcmpl_ring \<Rightarrow> bool" where
  "txcmpl_fresh start j r \<longleftrightarrow> tc_count r = 128 \<and> length (tc_desc r) = 128 \<and> tc_id r = start + of_nat j"

definition rxfill_fresh :: "u32 \<Rightarrow> nat \<Rightarrow> edma_rxfill_ring \<Rightarrow> bool" where
  "rxfill_fresh start j r \<longleftrightarrow> rf_count r = 128 \<and> length (rf_desc r) = 128 \<and> rf_id r = start + of_nat j"

definition rxdesc_fresh :: "u32 \<Rightarrow> nat \<Rightarrow> nat \<Rightarrow> edma_rxdesc_ring \<Rightarrow> bool" where
  "rxdesc_fresh start fills j r \<longleftrightarrow> rd_count r = 128 \<and> length (rd_desc r) = 128 \<and> rd_id r = start + of_nat j \<and> rd_rxfill r < fills"

lemmas fresh_defs = txdesc_fresh_def txcmpl_fresh_def rxfill_fresh_def rxdesc_fresh_def

lemma setup_txdesc_all:
  assumes "try_upto 0 (length (txdesc_ring w)) (setup_txdesc_one k) w = Inr (None, w')"
  shows "\<exists>rs m. w' = w\<lparr>ek_mem_allocs := m, txdesc_ring := rs\<rparr> \<and> length rs = length (txdesc_ring w)
    \<and> (\<forall>j < length (txdesc_ring w). txdesc_fresh (txdesc_ring_start (layout w)) j (rs ! j))"
proof (rule setup_all [of "txdesc_ring w" "setup_txdesc_one k" "\<lambda>rs m. w\<lparr>ek_mem_allocs := m, txdesc_ring := rs\<rparr>" "ek_mem_allocs w"])
  show "try_upto 0 (length (txdesc_ring w)) (setup_txdesc_one k) (w\<lparr>ek_mem_allocs := ek_mem_allocs w, txdesc_ring := txdesc_ring w\<rparr>) = Inr (None, w')"
    using assms by simp
qed (auto simp: setup_txdesc_one_def edma_setup_txdesc_ring_res_def dma_alloc_coherent_def aget_in txdesc_fresh_def split: option.splits)

lemma setup_txcmpl_all:
  assumes "try_upto 0 (length (txcmpl_ring w)) (setup_txcmpl_one k) w = Inr (None, w')"
  shows "\<exists>rs m. w' = w\<lparr>ek_mem_allocs := m, txcmpl_ring := rs\<rparr> \<and> length rs = length (txcmpl_ring w)
    \<and> (\<forall>j < length (txcmpl_ring w). txcmpl_fresh (txcmpl_ring_start (layout w)) j (rs ! j))"
proof (rule setup_all [of "txcmpl_ring w" "setup_txcmpl_one k" "\<lambda>rs m. w\<lparr>ek_mem_allocs := m, txcmpl_ring := rs\<rparr>" "ek_mem_allocs w"])
  show "try_upto 0 (length (txcmpl_ring w)) (setup_txcmpl_one k) (w\<lparr>ek_mem_allocs := ek_mem_allocs w, txcmpl_ring := txcmpl_ring w\<rparr>) = Inr (None, w')"
    using assms by simp
qed (auto simp: setup_txcmpl_one_def edma_setup_txcmpl_ring_res_def dma_alloc_coherent_def aget_in txcmpl_fresh_def split: option.splits)

lemma setup_rxfill_all:
  assumes "try_upto 0 (length (rxfill_ring w)) (setup_rxfill_one k) w = Inr (None, w')"
  shows "\<exists>rs m. w' = w\<lparr>ek_mem_allocs := m, rxfill_ring := rs\<rparr> \<and> length rs = length (rxfill_ring w)
    \<and> (\<forall>j < length (rxfill_ring w). rxfill_fresh (rxfill_ring_start (layout w)) j (rs ! j))"
proof (rule setup_all [of "rxfill_ring w" "setup_rxfill_one k" "\<lambda>rs m. w\<lparr>ek_mem_allocs := m, rxfill_ring := rs\<rparr>" "ek_mem_allocs w"])
  show "try_upto 0 (length (rxfill_ring w)) (setup_rxfill_one k) (w\<lparr>ek_mem_allocs := ek_mem_allocs w, rxfill_ring := rxfill_ring w\<rparr>) = Inr (None, w')"
    using assms by simp
qed (auto simp: setup_rxfill_one_def edma_setup_rxfill_ring_res_def dma_alloc_coherent_def aget_in rxfill_fresh_def split: option.splits)

lemma setup_rxdesc_all:
  assumes "try_upto 0 (length (rxdesc_ring w)) (setup_rxdesc_one k) w = Inr (None, w')"
  shows "\<exists>rs m. w' = w\<lparr>ek_mem_allocs := m, rxdesc_ring := rs\<rparr> \<and> length rs = length (rxdesc_ring w)
    \<and> (\<forall>j < length (rxdesc_ring w). rxdesc_fresh (rxdesc_ring_start (layout w)) (unat (rxfill_rings (layout w))) j (rs ! j))"
proof (rule setup_all [of "rxdesc_ring w" "setup_rxdesc_one k" "\<lambda>rs m. w\<lparr>ek_mem_allocs := m, rxdesc_ring := rs\<rparr>" "ek_mem_allocs w"])
  show "try_upto 0 (length (rxdesc_ring w)) (setup_rxdesc_one k) (w\<lparr>ek_mem_allocs := ek_mem_allocs w, rxdesc_ring := rxdesc_ring w\<rparr>) = Inr (None, w')"
    using assms by simp
qed (auto simp: setup_rxdesc_one_def edma_setup_rxdesc_ring_res_def dma_alloc_coherent_def aget_in rxdesc_fresh_def Let_def
       split: option.splits if_splits)

definition rings_fresh :: "edma_world \<Rightarrow> bool" where
  "rings_fresh w \<longleftrightarrow> length (txdesc_ring w) = unat (txdesc_rings (layout w)) \<and> length (txcmpl_ring w) = unat (txcmpl_rings (layout w))
   \<and> length (rxfill_ring w) = unat (rxfill_rings (layout w)) \<and> length (rxdesc_ring w) = unat (rxdesc_rings (layout w))
   \<and> (\<forall>j < length (txdesc_ring w). txdesc_fresh (txdesc_ring_start (layout w)) j (txdesc_ring w ! j))
   \<and> (\<forall>j < length (txcmpl_ring w). txcmpl_fresh (txcmpl_ring_start (layout w)) j (txcmpl_ring w ! j))
   \<and> (\<forall>j < length (rxfill_ring w). rxfill_fresh (rxfill_ring_start (layout w)) j (rxfill_ring w ! j))
   \<and> (\<forall>j < length (rxdesc_ring w). rxdesc_fresh (rxdesc_ring_start (layout w)) (unat (rxfill_rings (layout w))) j (rxdesc_ring w ! j))"

definition outside_rings :: "edma_world \<Rightarrow> edma_world \<Rightarrow> bool" where
  "outside_rings w w' \<longleftrightarrow> (\<exists>m a b c d. w' = w\<lparr>ek_mem_allocs := m, rxfill_ring := a, rxdesc_ring := b, txdesc_ring := c, txcmpl_ring := d\<rparr>)"

lemma edma_init_rings_ok:
  assumes "edma_init_rings k w = Inr (Success, w')"
  shows "rings_fresh w' \<and> outside_rings w w'"
proof -
  let ?L = "layout w"
  define w0 where "w0 = w\<lparr>rxfill_ring := replicate (unat (rxfill_rings ?L)) zero_rxfill_ring,
    rxdesc_ring := replicate (unat (rxdesc_rings ?L)) zero_rxdesc_ring,
    txdesc_ring := replicate (unat (txdesc_rings ?L)) zero_txdesc_ring,
    txcmpl_ring := replicate (unat (txcmpl_rings ?L)) zero_txcmpl_ring\<rparr>"
  have "edma_setup_ring_resources k w0 = Inr (Success, w')"
    using assms by (auto simp: edma_init_rings_def edma_alloc_rings_def Let_def w0_def split: if_splits)
  then obtain w1 w2 w3 where run: "try_upto 0 (unat (txdesc_rings (layout w0))) (setup_txdesc_one k) w0 = Inr (None, w1)"
    "try_upto 0 (unat (txcmpl_rings (layout w1))) (setup_txcmpl_one k) w1 = Inr (None, w2)"
    "try_upto 0 (unat (rxfill_rings (layout w2))) (setup_rxfill_one k) w2 = Inr (None, w3)"
    "try_upto 0 (unat (rxdesc_rings (layout w3))) (setup_rxdesc_one k) w3 = Inr (None, w')"
    by (auto simp: edma_setup_ring_resources_def bindR_eq_Inr split: option.splits)
  obtain t m1 where 1: "w1 = w0\<lparr>ek_mem_allocs := m1, txdesc_ring := t\<rparr>" "length t = unat (txdesc_rings ?L)"
    "\<forall>j < unat (txdesc_rings ?L). txdesc_fresh (txdesc_ring_start ?L) j (t ! j)"
    using setup_txdesc_all [of w0 k w1] run(1) by (auto simp: w0_def)
  obtain c m2 where 2: "w2 = w1\<lparr>ek_mem_allocs := m2, txcmpl_ring := c\<rparr>" "length c = unat (txcmpl_rings ?L)"
    "\<forall>j < unat (txcmpl_rings ?L). txcmpl_fresh (txcmpl_ring_start ?L) j (c ! j)"
    using setup_txcmpl_all [of w1 k w2] run(2) by (auto simp: 1 w0_def)
  obtain f m3 where 3: "w3 = w2\<lparr>ek_mem_allocs := m3, rxfill_ring := f\<rparr>" "length f = unat (rxfill_rings ?L)"
    "\<forall>j < unat (rxfill_rings ?L). rxfill_fresh (rxfill_ring_start ?L) j (f ! j)"
    using setup_rxfill_all [of w2 k w3] run(3) by (auto simp: 2(1) 1(1) w0_def)
  obtain d m4 where 4: "w' = w3\<lparr>ek_mem_allocs := m4, rxdesc_ring := d\<rparr>" "length d = unat (rxdesc_rings ?L)"
    "\<forall>j < unat (rxdesc_rings ?L). rxdesc_fresh (rxdesc_ring_start ?L) (unat (rxfill_rings ?L)) j (d ! j)"
    using setup_rxdesc_all [of w3 k w'] run(4) by (auto simp: 3(1) 2(1) 1(1) w0_def)
  have w': "w' = w\<lparr>ek_mem_allocs := m4, rxfill_ring := f, rxdesc_ring := d, txdesc_ring := t, txcmpl_ring := c\<rparr>"
    by (simp add: 4(1) 3(1) 2(1) 1(1) w0_def)
  then have "outside_rings w w'" unfolding outside_rings_def by blast
  moreover have "rings_fresh w'" using 1(2,3) 2(2,3) 3(2,3) 4(2,3) unfolding w' by (simp add: rings_fresh_def)
  ultimately show ?thesis by simp
qed

section \<open>Initialisation establishes the invariant\<close>

text \<open>
  A layout the device tree may give: at least one fill ring, and every ring number within the limits
  of its kind. After a reset the index registers are all zero.
\<close>

definition layout_ok :: "soc \<Rightarrow> edma_layout \<Rightarrow> bool" where
  "layout_ok s L \<longleftrightarrow> unat (txdesc_ring_start L) + unat (txdesc_rings L) \<le> kind_max s TXDESC
   \<and> unat (txcmpl_ring_start L) + unat (txcmpl_rings L) \<le> kind_max s TXCMPL
   \<and> unat (rxfill_ring_start L) + unat (rxfill_rings L) \<le> kind_max s RXFILL
   \<and> unat (rxdesc_ring_start L) + unat (rxdesc_rings L) \<le> kind_max s RXDESC
   \<and> txdesc_ring_end L = txdesc_ring_start L + txdesc_rings L \<and> rxfill_ring_end L = rxfill_ring_start L + rxfill_rings L
   \<and> rxdesc_ring_end L = rxdesc_ring_start L + rxdesc_rings L \<and> 0 < rxfill_rings L"

definition idle :: "soc \<Rightarrow> edma_world \<Rightarrow> bool" where
  "idle s w \<longleftrightarrow> (\<forall>kd n. unat n < kind_max s kd \<longrightarrow> pidx s kd w n = 0 \<and> cidx s kd w n = 0)"

lemma idleD:
  assumes "idle s w" "unat n < kind_max s kd"
  shows "pidx s kd w n = 0" "cidx s kd w n = 0"
  using assms by (simp_all add: idle_def)

lemma kind_max_24: "kind_max s kd \<le> 24"
  by (cases s; cases kd; simp add: kind_max_def EDMA_MAX_TXCMPL_RINGS_def)

lemma ring_id_unat:
  assumes "j < n" "unat start + n \<le> kind_max s kd"
  shows "unat (start + of_nat j :: u32) = unat start + j" "unat (start + of_nat j :: u32) < kind_max s kd"
proof -
  have l: "unat start + j < 24" using assms kind_max_24 [of s kd] by linarith
  have u: "unat (of_nat j :: u32) = j" using l by (simp add: unat_of_nat)
  show e: "unat (start + of_nat j :: u32) = unat start + j"
    using l u by (subst unat_add_lem [THEN iffD1]) simp_all
  show "unat (start + of_nat j :: u32) < kind_max s kd" using e assms by simp
qed

lemma ring_ids_distinct:
  assumes "unat (start :: u32) + length rs \<le> kind_max s kd" "\<And>j. j < length rs \<Longrightarrow> i (rs ! j) = start + of_nat j"
  shows "distinct (map i rs)"
proof -
  have "map i rs ! a \<noteq> map i rs ! b" if "a < length rs" "b < length rs" "a \<noteq> b" for a b
  proof
    assume "map i rs ! a = map i rs ! b"
    then have "unat (start + of_nat a) = unat (start + of_nat b)" using that assms(2) by simp
    then show False using that ring_id_unat(1) [OF _ assms(1)] by simp
  qed
  then show ?thesis by (simp add: distinct_conv_nth)
qed

lemma fresh_ok:
  assumes "rings_fresh w" "layout_ok (ek_soc k) (layout w)" "idle (ek_soc k) w"
    "rx_skb_store w = replicate 128 None" "tx_skb_store w = replicate 128 None"
    "length (netdev_arr w) = NSS_DP_HAL_MAX_PORTS (ek_soc k)"
  shows "edma_ok k w"
proof -
  let ?s = "ek_soc k" and ?L = "layout w"
  note f = assms(1) [unfolded rings_fresh_def] and l = assms(2) [unfolded layout_ok_def]
  have id: "r < length (txdesc_ring w) \<Longrightarrow> unat (td_id (txdesc_ring w ! r)) < kind_max ?s TXDESC"
    "r < length (txcmpl_ring w) \<Longrightarrow> unat (tc_id (txcmpl_ring w ! r)) < kind_max ?s TXCMPL"
    "r < length (rxfill_ring w) \<Longrightarrow> unat (rf_id (rxfill_ring w ! r)) < kind_max ?s RXFILL"
    "r < length (rxdesc_ring w) \<Longrightarrow> unat (rd_id (rxdesc_ring w ! r)) < kind_max ?s RXDESC" for r
    using f l ring_id_unat(2) by (simp_all add: fresh_defs)
  show ?thesis
  proof (rule edma_okI)
    show "edma_shape k w"
      using f l assms(4-6)
        ring_ids_distinct [of "txdesc_ring_start ?L" "txdesc_ring w" ?s TXDESC td_id]
        ring_ids_distinct [of "txcmpl_ring_start ?L" "txcmpl_ring w" ?s TXCMPL tc_id]
        ring_ids_distinct [of "rxfill_ring_start ?L" "rxfill_ring w" ?s RXFILL rf_id]
        ring_ids_distinct [of "rxdesc_ring_start ?L" "rxdesc_ring w" ?s RXDESC rd_id]
      by (simp add: edma_shape_def fresh_defs)
    show "tags_ok k w" using assms(4,5) by (simp add: tags_ok_def)
    fix r
    show "r < length (rxfill_ring w) \<Longrightarrow> rxfill_ok ?s w r"
      using f id(3) [of r] idleD [OF assms(3) id(3) [of r]] by (simp add: rxfill_ok_def rxfill_fresh_def Let_def)
    show "r < length (rxdesc_ring w) \<Longrightarrow> rxdesc_ok ?s w r"
      using f id(4) [of r] idleD [OF assms(3) id(4) [of r]] by (simp add: rxdesc_ok_def rxdesc_fresh_def Let_def)
    show "r < length (txdesc_ring w) \<Longrightarrow> txdesc_ok ?s w r"
      using f id(1) [of r] idleD [OF assms(3) id(1) [of r]] by (simp add: txdesc_ok_def txdesc_fresh_def Let_def)
    show "r < length (txcmpl_ring w) \<Longrightarrow> txcmpl_ok ?s w r"
      using f id(2) [of r] idleD [OF assms(3) id(2) [of r]] by (simp add: txcmpl_ok_def txcmpl_fresh_def Let_def)
  qed
qed

text \<open>Configuring the rings.\<close>

lemma quiet_idle: "quiet k w w' \<Longrightarrow> idle (ek_soc k) w \<Longrightarrow> idle (ek_soc k) w'"
  using quietD(19) [of k w w'] by (auto simp: idle_def same_idx_def)

lemma idle_same: "idle (ek_soc k) w \<Longrightarrow> idle (ek_soc k) w' \<Longrightarrow> same_idx k w w'"
  by (simp add: idle_def same_idx_def)

lemma idle_write_prod:
  assumes "idle s w" "v AND 0xffff = 0"
  shows "idle s (edma_reg_write w (prod_reg s TXDESC m) v)"
  using assms by (auto simp: idle_def cidx_write_prod pidx_def [of _ _ "edma_reg_write w x v" for x] reg_idx_write)
     (simp add: pidx_def)

lemma configure_txdesc_ok:
  assumes inv: "edma_inv k L acc w" and idle: "idle (ek_soc k) w" and i: "i < unat (txdesc_rings L)"
  shows "\<exists>w'. edma_configure_txdesc_ring i w = Inr w' \<and> edma_inv k L acc w' \<and> idle (ek_soc k) w'"
proof -
  let ?s = "ek_soc k"
  have i': "i < length (txdesc_ring w)" using i edma_inv_lengths(3) [OF inv] by simp
  let ?r = "txdesc_ring w ! i"
  define w1 where "w1 = edma_reg_write (edma_reg_write w (EDMA_REG_TXDESC_BA (td_id ?r)) (ucast (td_dma ?r AND ucast EDMA_RING_DMA_MASK)))
     (EDMA_REG_TXDESC_RING_SIZE (td_id ?r)) (ucast (td_count ?r) AND EDMA_TXDESC_RING_SIZE_MASK)"
  have q: "quiet k w w1" unfolding w1_def by (intro quiet_trans [OF quiet_write quiet_write] other_ring_low) simp_all
  note inv1 = quiet_inv [OF inv q] and idle1 = quiet_idle [OF q idle]
  define v where "v = (edma_reg_read w1 (EDMA_REG_TXDESC_PROD_IDX (td_id ?r)) AND NOT 0xffff)
     OR (ucast (ucast (edma_reg_read w1 (EDMA_REG_TXDESC_CONS_IDX (td_id ?r)) AND NOT 0xffff) :: u16) AND 0xffff)"
  have m: "(0xffff :: u32) = mask 16" by (simp add: mask_eq_exp_minus_1)
  have v0: "v AND 0xffff = 0" unfolding v_def m by (rule bit_word_eqI) (auto simp: bit_simps)
  let ?w = "edma_reg_write w1 (prod_reg ?s TXDESC (td_id ?r)) v"
  have idle2: "idle ?s ?w" using idle1 v0 by (rule idle_write_prod)
  have "edma_ok k ?w"
    using inv1 by (intro same_view_ok [OF _ idle_same [OF idle1 idle2]]) (auto simp: edma_inv_def same_rings_def dest: edma_okD(2))
  then have "edma_inv k L acc ?w" using inv1 by (simp add: edma_inv_def edma_balanced_def edma_allocs_once_def)
  moreover have "edma_configure_txdesc_ring i w = Inr ?w"
    unfolding idx_regs(1) [of _ ?s, symmetric]
    by (simp add: edma_configure_txdesc_ring_def aget_in i' Let_def w1_def v_def)
  ultimately show ?thesis using idle2 by simp
qed

lemma configure_txcmpl_ok:
  assumes inv: "edma_inv k L acc w" and i: "i < unat (txcmpl_rings L)"
  shows "\<exists>w'. edma_configure_txcmpl_ring k i w = Inr w' \<and> edma_inv k L acc w'"
proof -
  let ?s = "ek_soc k" let ?r = "txcmpl_ring w ! i"
  have i': "i < length (txcmpl_ring w)" using i edma_inv_lengths(4) [OF inv] by simp
  have id: "unat (tc_id ?r) < kind_max ?s TXCMPL" using inv ring_ids(4) i' by (auto simp: edma_inv_def)
  have low: "(EDMA_REG_TXCMPL_BASE ?s + c) AND 0xfff = c" "(EDMA_REG_TX_BASE ?s + c) AND 0xfff = c" if "c \<in> {0, 0xc, 0x14}" for c
    using that by (cases ?s; auto simp: EDMA_REG_TXCMPL_BASE_def EDMA_REG_TX_BASE_def)+
  have t: "other_reg ?s (EDMA_REG_TX_MOD_TIMER ?s (tc_id ?r))"
    using other_timer [OF id] by (simp add: int_base_def)
  have o: "other_reg ?s (EDMA_REG_TXCMPL_BASE ?s + c + 0x1000 * tc_id ?r)" "other_reg ?s (EDMA_REG_TX_BASE ?s + c + 0x1000 * tc_id ?r)"
    if "c \<in> {0, 0xc, 0x14}" for c
    using low [OF that] that by (intro other_ring_low; auto)+
  have "\<exists>w'. edma_configure_txcmpl_ring k i w = Inr w' \<and> quiet k w w'"
    unfolding edma_configure_txcmpl_ring_def Let_def aget_in [OF i'] bindR_Inr
  proof (rule exI, rule conjI, rule refl)
    show "quiet k w (edma_reg_write (edma_reg_write (edma_reg_write (edma_reg_write (edma_reg_write w
        (EDMA_REG_TXCMPL_BA ?s (tc_id ?r)) a) (EDMA_REG_TXCMPL_RING_SIZE ?s (tc_id ?r)) b) (EDMA_REG_TXCMPL_CTRL ?s (tc_id ?r)) c)
        (EDMA_REG_TX_MOD_TIMER ?s (tc_id ?r)) d) (EDMA_REG_TX_INT_CTRL ?s (tc_id ?r)) e)" for a b c d e
      by (intro quiet_trans [OF quiet_trans [OF quiet_trans [OF quiet_trans [OF quiet_write quiet_write] quiet_write] quiet_write] quiet_write]
            o t) simp_all
  qed
  then show ?thesis using quiet_inv [OF inv] by blast
qed

lemma configure_rxdesc_ok:
  assumes inv: "edma_inv k L acc w" and i: "i < unat (rxdesc_rings L)"
  shows "\<exists>w'. edma_configure_rxdesc_ring i w = Inr w' \<and> edma_inv k L acc w'"
proof -
  let ?s = "ek_soc k" let ?r = "rxdesc_ring w ! i"
  have i': "i < length (rxdesc_ring w)" using i edma_inv_lengths(2) [OF inv] by simp
  have id: "unat (rd_id ?r) < kind_max ?s RXDESC" using inv ring_ids(2) i' by (auto simp: edma_inv_def)
  have t: "other_reg ?s (EDMA_REG_RX_MOD_TIMER (rd_id ?r))"
    using other_timer [OF id] by (simp add: int_base_def)
  have "\<exists>w'. edma_configure_rxdesc_ring i w = Inr w' \<and> quiet k w w'"
    unfolding edma_configure_rxdesc_ring_def using i' t
    by (auto simp: aget_in Let_def intro!: quiet_trans [OF _ quiet_write] other_ring_low quiet_write)
  then show ?thesis using quiet_inv [OF inv] by blast
qed

lemma configure_rxfill_ok:
  assumes inv: "edma_inv k L acc w" and i: "i < unat (rxfill_rings L)"
  shows "\<exists>w'. edma_configure_rxfill_ring k i w = Inr w' \<and> edma_inv k L acc w'"
proof -
  let ?r = "rxfill_ring w ! i"
  have i': "i < length (rxfill_ring w)" using i edma_inv_lengths(1) [OF inv] by simp
  define w1 where "w1 = edma_reg_write (edma_reg_write w (EDMA_REG_RXFILL_BA (rf_id ?r)) (ucast (rf_dma ?r AND ucast EDMA_RING_DMA_MASK)))
     (EDMA_REG_RXFILL_RING_SIZE (rf_id ?r)) (ucast (rf_count ?r) AND EDMA_RXFILL_RING_SIZE_MASK)"
  have q: "quiet k w w1" unfolding w1_def by (intro quiet_trans [OF quiet_write quiet_write] other_ring_low) simp_all
  have "i < length (rxfill_ring w1)" using i' quietD(4) [OF q] by simp
  then obtain n w2 where "edma_alloc_rx_buffer k i w1 = Inr (of_nat n, w2)" "edma_inv k L acc w2"
    using edma_alloc_rx_buffer_inv [OF quiet_inv [OF inv q]] by blast
  moreover have "edma_configure_rxfill_ring k i w = bindR (edma_alloc_rx_buffer k i w1) (\<lambda>(n, w). Inr w)"
    by (simp add: edma_configure_rxfill_ring_def aget_in i' Let_def w1_def)
  ultimately show ?thesis by simp
qed

lemma edma_configure_rings_ok:
  assumes f: "rings_fresh w" and l: "layout_ok (ek_soc k) (layout w)" and i: "idle (ek_soc k) w"
    and n: "length (netdev_arr w) = NSS_DP_HAL_MAX_PORTS (ek_soc k)"
    and t: "all_gone (ek_trace w) = {#}" "all_came (ek_trace w) = {#}"
  shows "\<exists>w'. edma_configure_rings k w = Inr w' \<and> edma_inv k (layout w) {#} w'"
proof -
  let ?L = "layout w"
  define w0 where "w0 = w\<lparr>tx_skb_store := replicate 128 None, rx_skb_store := replicate 128 None\<rparr>"
  have i0: "idle (ek_soc k) w0" using i pidx_frame [of w0 w] by (simp add: idle_def w0_def)
  have "edma_ok k w0"
    using f l n i0 by (intro fresh_ok) (simp_all add: w0_def rings_fresh_def)
  then have inv0: "edma_inv k ?L {#} w0"
    using t by (simp add: edma_inv_def edma_balanced_def edma_allocs_once_def w0_def)
  obtain w1 where w1: "for_upto 0 (unat (txdesc_rings ?L)) edma_configure_txdesc_ring w0 = Inr w1" "edma_inv k ?L {#} w1"
    using for_upto_inv [of 0 "unat (txdesc_rings ?L)" "\<lambda>w. edma_inv k ?L {#} w \<and> idle (ek_soc k) w" edma_configure_txdesc_ring w0]
      configure_txdesc_ok [of k ?L "{#}"] inv0 i0 by auto
  obtain w2 where w2: "for_upto 0 (unat (txcmpl_rings ?L)) (edma_configure_txcmpl_ring k) w1 = Inr w2" "edma_inv k ?L {#} w2"
    using for_upto_inv [of 0 "unat (txcmpl_rings ?L)" "edma_inv k ?L {#}" "edma_configure_txcmpl_ring k" w1]
      configure_txcmpl_ok [of k ?L "{#}"] w1(2) by auto
  obtain w3 where w3: "for_upto 0 (unat (rxfill_rings ?L)) (edma_configure_rxfill_ring k) w2 = Inr w3" "edma_inv k ?L {#} w3"
    using for_upto_inv [of 0 "unat (rxfill_rings ?L)" "edma_inv k ?L {#}" "edma_configure_rxfill_ring k" w2]
      configure_rxfill_ok [of k ?L "{#}"] w2(2) by auto
  obtain w4 where w4: "for_upto 0 (unat (rxdesc_rings ?L)) edma_configure_rxdesc_ring w3 = Inr w4" "edma_inv k ?L {#} w4"
    using for_upto_inv [of 0 "unat (rxdesc_rings ?L)" "edma_inv k ?L {#}" edma_configure_rxdesc_ring w3]
      configure_rxdesc_ok [of k ?L "{#}"] w3(2) by auto
  have L: "layout w0 = ?L" "layout w1 = ?L" "layout w2 = ?L" "layout w3 = ?L"
    using w1(2) w2(2) w3(2) by (simp_all add: edma_inv_def w0_def)
  show ?thesis using w1 w2 w3 w4 L by (simp add: edma_configure_rings_def w0_def [symmetric] Let_def)
qed

lemma edma_map_rxfill_ok:
  assumes inv: "edma_inv k L acc w" and l: "layout_ok (ek_soc k) L"
  shows "\<exists>w'. edma_map_rxfill w = Inr w' \<and> edma_inv k L acc w'"
proof -
  have q: "quiet k v (edma_reg_write v reg x)" if "unat reg < 0x1000" for v reg x
    by (rule quiet_write [OF other_global [OF that]])
  define w1 where "w1 = edma_reg_write (edma_reg_write w EDMA_REG_RXDESC2FILL_MAP_0 0) EDMA_REG_RXDESC2FILL_MAP_1 0"
  have inv1: "edma_inv k L acc w1"
    unfolding w1_def by (rule quiet_inv [OF inv quiet_trans [OF q q]]) simp_all
  let ?a = "unat (rxdesc_ring_start L)" and ?n = "unat (rxdesc_rings L)"
  have "unat (rxdesc_ring_end L) = ?a + ?n"
  proof -
    have "?a + ?n \<le> 24" using l kind_max_24 [of "ek_soc k" RXDESC] unfolding layout_ok_def by (meson le_trans)
    then have "unat (rxdesc_ring_start L + rxdesc_rings L) = ?a + ?n" by (subst unat_add_lem [THEN iffD1]) simp_all
    then show ?thesis using l by (simp add: layout_ok_def)
  qed
  then have e: "unat (rxdesc_ring_end L) - ?a = ?n" by simp
  have step: "\<exists>v'. edma_map_rxfill_one i v = Inr v' \<and> edma_inv k L acc v'" if "?a \<le> i" "i < ?a + ?n" "edma_inv k L acc v" for i v
  proof -
    have L: "layout v = L" using that(3) by (simp add: edma_inv_def)
    have r: "i - ?a < length (rxdesc_ring v)" using that edma_inv_lengths(2) [OF that(3)] by simp
    have d: "rd_rxfill (rxdesc_ring v ! (i - ?a)) < length (rxfill_ring v)"
      using edma_okD(4) [of k v, OF _ r] that(3) by (simp add: edma_inv_def rxdesc_ok_def Let_def)
    have "other_reg (ek_soc k) (rxdesc2fill_reg (of_nat i))" by (rule other_global) (simp add: rxdesc2fill_reg_def)
    from quiet_inv [OF that(3) quiet_modify [OF this]] show ?thesis
      by (simp add: edma_map_rxfill_one_def L aget_in r d)
  qed
  have "layout w = L" using inv by (simp add: edma_inv_def)
  then show ?thesis
    using for_upto_inv [of ?a ?n "edma_inv k L acc" edma_map_rxfill_one w1] step inv1
    by (simp add: edma_map_rxfill_def Let_def w1_def [symmetric] e)
qed

lemma edma_enable_ok:
  assumes inv: "edma_inv k L acc w"
  shows "edma_inv k L acc (edma_enable (ek_soc k) w)"
proof -
  have q: "quiet k v (edma_reg_write v reg x)" if "unat reg < 0x1000" for v reg x
    by (rule quiet_write [OF other_global [OF that]])
  have m: "quiet k v (case s of IPQ807X \<Rightarrow> v | IPQ60XX \<Rightarrow> edma_reg_modify EDMA_REG_AXIW_CTRL f v)" for v f s
    by (cases s) (simp_all add: quiet_modify other_global)
  have r: "quiet k v (for_range a b (\<lambda>i. edma_reg_modify (c + 0x1000 * i) f) v)"
    if "c AND 0xfff \<noteq> 4" "c AND 0xfff \<noteq> 8" for v a b c f
    unfolding for_range_def using that by (intro quiet_for_rings quiet_modify other_ring_low)
  define v where "v = (let l = layout w;
          w = edma_reg_write w EDMA_REG_DMAR_CTRL (edma_dmar_ctrl (ek_soc k));
          w = (case ek_soc k of IPQ807X \<Rightarrow> w
                       | IPQ60XX \<Rightarrow> edma_reg_modify EDMA_REG_AXIW_CTRL (\<lambda>d. d OR EDMA_AXIW_MAX_WR_SIZE_EN) w);
          w = edma_reg_write w EDMA_REG_MISC_INT_MASK (edma_misc_mask (ek_soc k));
          w = edma_reg_write w EDMA_REG_PORT_CTRL (EDMA_PORT_PAD_EN OR EDMA_PORT_EDMA_EN);
          w = for_range (rxdesc_ring_start l) (rxdesc_ring_end l)
                (\<lambda>i. edma_reg_modify (EDMA_REG_RXDESC_CTRL i) (\<lambda>d. d OR EDMA_RXDESC_RX_EN)) w;
          w = for_range (rxfill_ring_start l) (rxfill_ring_end l)
                (\<lambda>i. edma_reg_modify (EDMA_REG_RXFILL_RING_EN i) (\<lambda>d. d OR EDMA_RXFILL_RING_EN)) w
      in for_range (txdesc_ring_start l) (txdesc_ring_end l)
                (\<lambda>i. edma_reg_modify (EDMA_REG_TXDESC_CTRL i) (\<lambda>d. d OR EDMA_TXDESC_TX_EN)) w)"
  have "quiet k w v"
    unfolding v_def Let_def
    by (intro quiet_trans [OF quiet_trans [OF quiet_trans [OF quiet_trans [OF quiet_trans [OF quiet_trans [OF q m] q] q] r] r] r]) simp_all
  then have "edma_inv k L acc v" by (rule quiet_inv [OF inv])
  moreover have "edma_enable (ek_soc k) w = v\<lparr>edma_initialized := True\<rparr>"
    by (simp add: edma_enable_def v_def Let_def)
  moreover have "edma_ok k (v\<lparr>edma_initialized := True\<rparr>)" if "edma_ok k v"
    by (rule edma_ok_frame [OF that]) (simp_all add: same_rings_def)
  ultimately show ?thesis by (simp add: edma_inv_def edma_balanced_def edma_allocs_once_def)
qed

text \<open>A machine to start from: a layout within the limits, idle index registers, and no kernel call yet.\<close>

definition edma_boot :: "edma_kernel \<Rightarrow> edma_world \<Rightarrow> bool" where
  "edma_boot k w \<longleftrightarrow> layout_ok (ek_soc k) (layout w) \<and> idle (ek_soc k) w
   \<and> length (netdev_arr w) = NSS_DP_HAL_MAX_PORTS (ek_soc k) \<and> ek_trace w = []"

text \<open>The machine when the rings are about to be set up.\<close>

definition edma_prepared :: "edma_kernel \<Rightarrow> edma_world \<Rightarrow> edma_world" where
  "edma_prepared k w =
     (let w = ekcalls [Ek_reset_assert, Ek_reset_deassert] (w\<lparr>misc_intr_mask := 0, rxfill_intr_mask := EDMA_RXFILL_INT_MASK,
                rxdesc_intr_mask := EDMA_RXDESC_INT_MASK_PKT_INT,
                txcmpl_intr_mask := EDMA_TX_INT_MASK_PKT_INT OR EDMA_TX_INT_MASK_UGT_INT,
                rx_payload_offset := of_nat EDMA_RX_PREHDR_SIZE, active := 0, edma_initialized := False\<rparr>);
          w = edma_quiesce (ek_soc k) w;
          w = (case ek_soc k of IPQ807X \<Rightarrow> edma_map_txcmpl w | IPQ60XX \<Rightarrow> w)
      in edma_reg_write w (EDMA_QID2RID_TABLE_MEM 0) (rxdesc_ring_start (layout w) AND 0xF))"

lemma edma_hw_init_eq:
  "ek_reset_control k \<Longrightarrow> edma_hw_init k w =
     bindR (edma_init_rings k (edma_prepared k w)) (\<lambda>(ret, w).
       if failed ret then Inr (ret, w)
       else bindR (edma_configure_rings k w) (\<lambda>w. bindR (edma_map_rxfill w) (\<lambda>w. Inr (Success, edma_enable (ek_soc k) w))))"
  by (simp add: edma_hw_init_def edma_hw_reset_def edma_prepared_def Let_def)

lemma edma_prepared_ok:
  assumes "edma_boot k w"
  shows "layout (edma_prepared k w) = layout w" "netdev_arr (edma_prepared k w) = netdev_arr w"
    "ek_trace (edma_prepared k w) = [Ek_reset_assert, Ek_reset_deassert]" "idle (ek_soc k) (edma_prepared k w)"
    "misc_intr_mask (edma_prepared k w) = 0" "active (edma_prepared k w) = 0"
proof -
  let ?s = "ek_soc k"
  define w1 where "w1 = ekcalls [Ek_reset_assert, Ek_reset_deassert] (w\<lparr>misc_intr_mask := 0, rxfill_intr_mask := EDMA_RXFILL_INT_MASK,
                rxdesc_intr_mask := EDMA_RXDESC_INT_MASK_PKT_INT,
                txcmpl_intr_mask := EDMA_TX_INT_MASK_PKT_INT OR EDMA_TX_INT_MASK_UGT_INT,
                rx_payload_offset := of_nat EDMA_RX_PREHDR_SIZE, active := 0, edma_initialized := False\<rparr>)"
  define w2 where "w2 = edma_quiesce ?s w1"
  define w3 where "w3 = (case ?s of IPQ807X \<Rightarrow> edma_map_txcmpl w2 | IPQ60XX \<Rightarrow> w2)"
  have "quiet k w2 w3" unfolding w3_def by (cases ?s) (simp_all add: edma_map_txcmpl_quiet)
  then have "quiet k w1 w3" using edma_quiesce_quiet [of k w1] quiet_trans unfolding w2_def by blast
  moreover have "quiet k w3 (edma_reg_write w3 (EDMA_QID2RID_TABLE_MEM 0) v)" for v by (intro quiet_write other_low) simp_all
  ultimately have q: "quiet k w1 (edma_prepared k w)"
    unfolding edma_prepared_def Let_def w1_def [symmetric] w2_def [symmetric] w3_def [symmetric] by (rule quiet_trans)
  have 1: "layout w1 = layout w" "regs w1 = regs w" "netdev_arr w1 = netdev_arr w" "ek_trace w1 = [Ek_reset_assert, Ek_reset_deassert]"
    "misc_intr_mask w1 = 0" "active w1 = 0"
    using assms by (simp_all add: w1_def edma_boot_def) (simp_all add: ekcalls_def)
  show "idle ?s (edma_prepared k w)" using quiet_idle [OF q] assms pidx_frame [OF 1(2)] by (simp add: edma_boot_def idle_def)
  show "layout (edma_prepared k w) = layout w" "netdev_arr (edma_prepared k w) = netdev_arr w"
    "ek_trace (edma_prepared k w) = [Ek_reset_assert, Ek_reset_deassert]"
    "misc_intr_mask (edma_prepared k w) = 0" "active (edma_prepared k w) = 0"
    using quietD [OF q] 1 by simp_all
qed

lemma edma_hw_init_rest:
  assumes boot: "edma_boot k w0" and run: "edma_init_rings k (edma_prepared k w0) = Inr (Success, w1)" and c: "ek_reset_control k"
  shows "\<exists>w. edma_hw_init k w0 = Inr (Success, w) \<and> edma_inv k (layout w0) {#} w"
proof -
  note p = edma_prepared_ok [OF boot]
  have f: "rings_fresh w1" "outside_rings (edma_prepared k w0) w1" using edma_init_rings_ok [OF run] by simp_all
  have 1: "layout w1 = layout w0" "netdev_arr w1 = netdev_arr w0" "ek_trace w1 = [Ek_reset_assert, Ek_reset_deassert]"
    "regs w1 = regs (edma_prepared k w0)"
    using f(2) p by (auto simp: outside_rings_def)
  have "idle (ek_soc k) w1" using p(4) pidx_frame [OF 1(4)] by (simp add: idle_def)
  with edma_configure_rings_ok [OF f(1), of k] 1 boot
  obtain w2 where 2: "edma_configure_rings k w1 = Inr w2" "edma_inv k (layout w0) {#} w2"
    by (auto simp: edma_boot_def gone_def came_def)
  then obtain w3 where 3: "edma_map_rxfill w2 = Inr w3" "edma_inv k (layout w0) {#} w3"
    using edma_map_rxfill_ok [of k "layout w0" "{#}" w2] boot by (auto simp: edma_boot_def)
  show ?thesis
    using edma_enable_ok [OF 3(2)] 2(1) 3(1) run by (simp add: edma_hw_init_eq [OF c])
qed

lemma edma_hw_init_inv:
  assumes boot: "edma_boot k w0" and run: "edma_hw_init k w0 = Inr (Success, w)"
  shows "edma_inv k (layout w0) {#} w"
proof -
  have c: "ek_reset_control k" using run by (cases "ek_reset_control k") (simp_all add: edma_hw_init_def edma_hw_reset_def)
  obtain w1 where "edma_init_rings k (edma_prepared k w0) = Inr (Success, w1)"
    using run unfolding edma_hw_init_eq [OF c] by (auto simp: bindR_eq_Inr failed_def split: if_splits)
  from edma_hw_init_rest [OF boot this c] run show ?thesis by auto
qed

text \<open>With memory and the reset controller at hand, initialisation succeeds.\<close>

lemma try_upto_ok:
  assumes "\<And>i s. a \<le> i \<Longrightarrow> i < a + n \<Longrightarrow> P s \<Longrightarrow> \<exists>s'. f i s = Inr (Success, s') \<and> P s'" "P s"
  shows "\<exists>s'. try_upto a n f s = Inr (None, s') \<and> P s'"
  using assms
proof (induction n arbitrary: a s)
  case (Suc n)
  obtain s1 where s1: "f a s = Inr (Success, s1)" "P s1" using Suc.prems(1) [of a s] Suc.prems(2) by auto
  have "\<exists>s'. try_upto (Suc a) n f s1 = Inr (None, s') \<and> P s'" using s1(2) by (intro Suc.IH Suc.prems(1)) auto
  with s1(1) show ?case by simp
qed simp

definition memory_ok :: "edma_kernel \<Rightarrow> bool" where
  "memory_ok k \<longleftrightarrow> ek_reset_control k \<and> (\<forall>i. ek_kzalloc k i) \<and> (\<forall>i. ek_dma_alloc_coherent k i \<noteq> None)"

lemma edma_init_rings_succeeds:
  assumes m: "memory_ok k" and l: "0 < rxfill_rings (layout w)"
  shows "\<exists>w'. edma_init_rings k w = Inr (Success, w')"
proof -
  let ?L = "layout w"
  let ?P = "\<lambda>v. layout v = ?L \<and> length (txdesc_ring v) = unat (txdesc_rings ?L) \<and> length (txcmpl_ring v) = unat (txcmpl_rings ?L)
    \<and> length (rxfill_ring v) = unat (rxfill_rings ?L) \<and> length (rxdesc_ring v) = unat (rxdesc_rings ?L)"
  define w0 where "w0 = w\<lparr>rxfill_ring := replicate (unat (rxfill_rings ?L)) zero_rxfill_ring,
    rxdesc_ring := replicate (unat (rxdesc_rings ?L)) zero_rxdesc_ring,
    txdesc_ring := replicate (unat (txdesc_rings ?L)) zero_txdesc_ring,
    txcmpl_ring := replicate (unat (txcmpl_rings ?L)) zero_txcmpl_ring\<rparr>"
  have 0: "edma_init_rings k w = edma_setup_ring_resources k w0" "?P w0"
    using m by (simp_all add: edma_init_rings_def edma_alloc_rings_def memory_ok_def Let_def w0_def)
  have d: "\<exists>dma. dma_alloc_coherent k v = (Some dma, v\<lparr>ek_mem_allocs := Suc (ek_mem_allocs v)\<rparr>)" for v
    using m by (auto simp: dma_alloc_coherent_def memory_ok_def)
  have nz: "unat (rxfill_rings ?L) \<noteq> 0" using l by (simp add: word_less_nat_alt)
  have s1: "\<exists>v'. setup_txdesc_one k i v = Inr (Success, v') \<and> ?P v'" if "i < unat (txdesc_rings ?L)" "?P v" for i v
    using that d [of v] by (auto simp: setup_txdesc_one_def aget_in edma_setup_txdesc_ring_res_def)
  have s2: "\<exists>v'. setup_txcmpl_one k i v = Inr (Success, v') \<and> ?P v'" if "i < unat (txcmpl_rings ?L)" "?P v" for i v
    using that d [of v] by (auto simp: setup_txcmpl_one_def aget_in edma_setup_txcmpl_ring_res_def)
  have s3: "\<exists>v'. setup_rxfill_one k i v = Inr (Success, v') \<and> ?P v'" if "i < unat (rxfill_rings ?L)" "?P v" for i v
    using that d [of v] by (auto simp: setup_rxfill_one_def aget_in edma_setup_rxfill_ring_res_def)
  have s4: "\<exists>v'. setup_rxdesc_one k i v = Inr (Success, v') \<and> ?P v'" if "i < unat (rxdesc_rings ?L)" "?P v" for i v
    using that d [of v] nz by (auto simp: setup_rxdesc_one_def aget_in edma_setup_rxdesc_ring_res_def Let_def)
  obtain w1 where 1: "try_upto 0 (unat (txdesc_rings ?L)) (setup_txdesc_one k) w0 = Inr (None, w1)" "?P w1"
    using try_upto_ok [of 0 "unat (txdesc_rings ?L)" ?P "setup_txdesc_one k" w0] s1 0(2) by auto
  obtain w2 where 2: "try_upto 0 (unat (txcmpl_rings ?L)) (setup_txcmpl_one k) w1 = Inr (None, w2)" "?P w2"
    using try_upto_ok [of 0 "unat (txcmpl_rings ?L)" ?P "setup_txcmpl_one k" w1] s2 1(2) by auto
  obtain w3 where 3: "try_upto 0 (unat (rxfill_rings ?L)) (setup_rxfill_one k) w2 = Inr (None, w3)" "?P w3"
    using try_upto_ok [of 0 "unat (rxfill_rings ?L)" ?P "setup_rxfill_one k" w2] s3 2(2) by auto
  obtain w4 where 4: "try_upto 0 (unat (rxdesc_rings ?L)) (setup_rxdesc_one k) w3 = Inr (None, w4)" "?P w4"
    using try_upto_ok [of 0 "unat (rxdesc_rings ?L)" ?P "setup_rxdesc_one k" w3] s4 3(2) by auto
  show ?thesis
    using 0 1 2 3 4 by (simp add: edma_setup_ring_resources_def)
qed

lemma edma_hw_init_succeeds:
  assumes "edma_boot k w" "memory_ok k"
  shows "\<exists>w'. edma_hw_init k w = Inr (Success, w') \<and> edma_inv k (layout w) {#} w'"
proof -
  have "0 < rxfill_rings (layout (edma_prepared k w))"
    using assms(1) edma_prepared_ok(1) [OF assms(1)] by (simp add: edma_boot_def layout_ok_def)
  from edma_init_rings_succeeds [OF assms(2) this] edma_hw_init_rest [OF assms(1)] assms(2)
  show ?thesis by (auto simp: memory_ok_def)
qed

end
