(* ===== verification/Edma_Reach.thy ===== *)
theory Edma_Reach
  imports Edma_Init
begin

text \<open>
  The EDMA driver and the engine together: registration of net devices, the states reachable by
  initialisation, the operations of the driver and the moves of the engine in any order, and the
  properties of the data path on those states.
\<close>

section \<open>Registering a net device\<close>

lemma ends_try:
  assumes "\<And>i s. P s \<Longrightarrow> ends (\<lambda>(ret, s). P s) (f i s)" "P s"
  shows "ends (\<lambda>(bad, s). P s) (try_upto a n f s)"
  using assms(2) by (induction n arbitrary: a s) (auto intro!: ends_bind2 [where P = P] assms(1) ends_if)

text \<open>Fields the invariant does not look at.\<close>

lemma edma_inv_same:
  assumes "edma_inv k L acc w" "regs w' = regs w" "same_rings w w'" "txph_mem w' = txph_mem w"
    "rx_skb_store w' = rx_skb_store w" "tx_skb_store w' = tx_skb_store w" "ek_trace w' = ek_trace w" "ek_allocs w' = ek_allocs w"
  shows "edma_inv k L acc w'"
proof -
  have "edma_ok k w'" by (rule edma_ok_frame [of k w]) (use assms in \<open>simp_all add: edma_inv_def\<close>)
  then show ?thesis using assms by (simp add: edma_inv_def edma_balanced_def edma_allocs_once_def same_rings_def)
qed

lemma edma_inv_netdev:
  assumes "edma_inv k L acc w" "length arr = length (netdev_arr w)"
  shows "edma_inv k L acc (w\<lparr>netdev_arr := arr\<rparr>)"
proof -
  let ?w = "w\<lparr>netdev_arr := arr\<rparr>"
  note g = edma_okD [of k w] assms(1) [unfolded edma_inv_def, THEN conjunct1]
  have ix: "pidx s kd ?w = pidx s kd w" "cidx s kd ?w = cidx s kd w" for s kd by (rule pidx_frame; simp)+
  have "edma_ok k ?w"
    by (rule edma_okI) (use g assms(2) in \<open>simp_all add: edma_shape_def tags_ok_def ring_ok_defs Let_def ix rx_slot_def txcmpl_slot_def\<close>)
  then show ?thesis using assms by (simp add: edma_inv_def edma_balanced_def edma_allocs_once_def)
qed

lemma get_irq_inv:
  assumes "edma_inv k L acc w"
  shows "ends (edma_inv k L acc) (get_txcmpl_irq k i w)" "ends (edma_inv k L acc) (get_rxfill_irq k e i w)"
    "ends (edma_inv k L acc) (get_rxdesc_irq k e i w)"
  by (auto simp: get_txcmpl_irq_def get_rxfill_irq_def get_rxdesc_irq_def result_elims same_rings_def ends_def
      intro!: edma_inv_same [OF assms])

lemma request_irq_inv: "edma_inv k L acc w \<Longrightarrow> edma_inv k L acc (snd (request_irq k irq w))"
  by (auto simp: request_irq_def gone_def came_def intro!: edma_inv_calls)

lemma irqs_inv:
  assumes "edma_inv k L acc w"
  shows "ends (\<lambda>(bad, w). edma_inv k L acc w) (request_irqs k intr n w)" "ends (edma_inv k L acc) (free_irqs c intr n w)"
  unfolding request_irqs_def free_irqs_def
  by (rule ends_try ends_upto; use assms request_irq_inv in \<open>auto simp: gone_def came_def split_beta intro!: ends_any edma_inv_calls\<close>)+

lemma masks_end:
  assumes "edma_inv k L acc w"
  shows "ends (edma_inv k L acc) (for_upto 0 (unat (rxdesc_rings L)) (edma_set_rxdesc_mask m) w)"
    "ends (edma_inv k L acc) (for_upto 0 (unat (txcmpl_rings L)) (edma_set_txcmpl_mask (ek_soc k) m) w)"
    "ends (edma_inv k L acc) (for_upto 0 (unat (rxfill_rings L)) (edma_set_rxfill_mask m) w)"
  using masks_inv [OF assms, of m] by (auto simp: ends_def)

lemma edma_irq_init_inv:
  assumes "edma_inv k L acc w"
  shows "ends (\<lambda>(ret, w). edma_inv k L acc w) (edma_irq_init k w)"
proof -
  have L: "layout w = L" using assms by (simp add: edma_inv_def)
  have misc: "edma_inv k L acc (v\<lparr>misc_intr := i\<rparr>)" if "edma_inv k L acc v" for v i
    by (rule edma_inv_same [OF that]) (simp_all add: same_rings_def)
  have tail: "ends (\<lambda>(r, w). edma_inv k L acc w)
      (bindR (for_upto 0 (unat (rxfill_rings L)) (edma_set_rxfill_mask (rxfill_intr_mask v)) v) (\<lambda>w.
       bindR (for_upto 0 (unat (txcmpl_rings L)) (edma_set_txcmpl_mask (ek_soc k) (txcmpl_intr_mask w)) w) (\<lambda>w.
       bindR (for_upto 0 (unat (rxdesc_rings L)) (edma_set_rxdesc_mask (rxdesc_intr_mask w)) w) (\<lambda>w.
       Inr (Success, edma_reg_write w EDMA_REG_MISC_INT_MASK (misc_intr_mask w))))))" if "edma_inv k L acc v" for v
    by (intro ends_bind [where P = "edma_inv k L acc"] masks_end that) (auto intro!: edma_inv_int simp: int_reg_def)
  have req: "ends (\<lambda>(r, w). edma_inv k L acc w) (case request_irq k i v of (ret, w) \<Rightarrow> f ret w)"
    if "edma_inv k L acc v" "\<And>ret w. edma_inv k L acc w \<Longrightarrow> ends (\<lambda>(r, w). edma_inv k L acc w) (f ret w)" for v f i
    using request_irq_inv [OF that(1), of i] that(2) by (simp add: split_beta)
  show ?thesis
    unfolding edma_irq_init_def L Let_def
    by (intro ends_bind [where P = "edma_inv k L acc"] ends_bind2 [where P = "edma_inv k L acc"] ends_if
        ends_upto irqs_inv get_irq_inv tail req misc assms) simp_all
qed

lemma edma_if_init_inv:
  assumes inv: "edma_inv k L acc w" and run: "edma_if_init k dpc w = Inr (ret, w')"
  shows "edma_inv k L acc w'"
proof -
  from run obtain nd st v where nd: "dpc = Some nd" and v: "edma_register_netdevice k dpc (ek_macid k nd) w = Inr (st, v)"
    and w': "failed st \<and> w' = v \<or> w' = v\<lparr>needed_headroom := (needed_headroom v)(nd := needed_headroom v nd + of_nat EDMA_TX_PREHDR_SIZE)\<rparr>"
    by (auto simp: edma_if_init_def bindR_eq_Inr split: option.splits if_splits)
  have "edma_inv k L acc v"
  proof (cases "w = v")
    case False
    define arr where "arr = (netdev_arr w)[unat (ek_macid k nd) - 1 := Some nd]"
    have arr: "length arr = length (netdev_arr w)"
      "v = w\<lparr>netdev_arr := arr\<rparr> \<or> (\<exists>s u. edma_irq_init k (ekcalls [Ek_napi_add nd] (w\<lparr>netdev_arr := arr\<rparr>)) = Inr (s, u)
          \<and> (v = u \<or> v = u\<lparr>napi_added := True\<rparr>))"
      using v nd False by (auto simp: edma_register_netdevice_def result_elims Let_def arr_def split: if_splits)
    have a: "edma_inv k L acc (w\<lparr>netdev_arr := arr\<rparr>)" by (rule edma_inv_netdev [OF inv arr(1)])
    moreover have "edma_inv k L acc (ekcalls [Ek_napi_add nd] (w\<lparr>netdev_arr := arr\<rparr>))"
      by (rule edma_inv_calls [OF a]) (simp_all add: gone_def came_def)
    moreover have "edma_inv k L acc (u\<lparr>napi_added := True\<rparr>)" if "edma_inv k L acc u" for u
      by (rule edma_inv_same [OF that]) (simp_all add: same_rings_def)
    ultimately show ?thesis using arr(2) endsD [OF edma_irq_init_inv] by blast
  qed (use inv in simp)
  then show ?thesis using w' by (auto intro: edma_inv_same simp: same_rings_def)
qed

section \<open>Reachable states\<close>

text \<open>
  The engine is initialised; net devices register, open and close; the stack transmits, NAPI polls
  and interrupts come in any order, with the engine moving in between. \<open>acc\<close> collects the buffers
  the driver has accepted from the stack.
\<close>

inductive edma_reach :: "edma_kernel \<Rightarrow> edma_layout \<Rightarrow> skb_ref multiset \<Rightarrow> edma_world \<Rightarrow> bool"
  for k :: edma_kernel and L :: edma_layout where
  hw_init: "edma_boot k w0 \<Longrightarrow> layout w0 = L \<Longrightarrow> edma_hw_init k w0 = Inr (Success, w) \<Longrightarrow> edma_reach k L {#} w"
| if_init: "edma_reach k L acc w \<Longrightarrow> edma_if_init k dpc w = Inr (ret, w') \<Longrightarrow> edma_reach k L acc w'"
| if_open: "edma_reach k L acc w \<Longrightarrow> edma_reach k L acc (snd (edma_if_open dpc t r m w))"
| if_close: "edma_reach k L acc w \<Longrightarrow> edma_reach k L acc (snd (edma_if_close dpc w))"
| xmit: "edma_reach k L acc w \<Longrightarrow> edma_if_xmit k dpc skb w = Inr (ret, w') \<Longrightarrow>
     edma_reach k L (if ret = NETDEV_TX_OK then add_mset (es_ref skb) acc else acc) w'"
| napi: "edma_reach k L acc w \<Longrightarrow> edma_napi k budget w = Inr (n, w') \<Longrightarrow> edma_reach k L acc w'"
| irq: "edma_reach k L acc w \<Longrightarrow> edma_handle_irq k d w = Inr (i, w') \<Longrightarrow> edma_reach k L acc w'"
| misc_irq: "edma_reach k L acc w \<Longrightarrow> edma_reach k L acc (snd (edma_handle_misc_irq w))"
| dma: "edma_reach k L acc w \<Longrightarrow> edma_dma k w w' \<Longrightarrow> edma_reach k L acc w'"

lemma edma_xmit_keeps:
  assumes inv: "edma_inv k L acc w" and run: "edma_if_xmit k dpc skb w = Inr (ret, w')"
  shows "edma_inv k L (if ret = NETDEV_TX_OK then add_mset (es_ref skb) acc else acc) w'"
proof -
  obtain nd where nd: "dpc = Some nd" using run by (cases dpc) (simp_all add: edma_if_xmit_def)
  show ?thesis
  proof (cases "unat (edma_select_ring w (es_queue skb)) < unat (txdesc_rings L)")
    case True
    then show ?thesis using edma_if_xmit_inv [OF inv, of skb nd] run nd by auto
  next
    case False
    let ?b = "es_ref skb"
    have drop: "edma_inv k L (add_mset ?b acc) (ekcalls [Ek_kfree ?b, Ek_tx_dropped nd] v)" if "edma_inv k L acc v" for v
      using that by (simp add: edma_inv_def edma_ok_calls edma_balanced_def edma_allocs_once_def)
    have "edma_ring_xmit k nd skb (unat (edma_select_ring w (es_queue skb))) v = Inl Index_Range" if "txdesc_ring v = txdesc_ring w" for v
      using False edma_inv_lengths(3) [OF inv] that by (simp add: edma_ring_xmit_def aget_def)
    then show ?thesis
      using run drop [OF inv] drop [OF edma_inv_calls [OF inv, of "[Ek_expand_head ?b]"]] nd
      by (auto simp: edma_if_xmit_def edma_xmit_drop_def Let_def split: if_splits)
  qed
qed

lemma edma_reach_inv:
  assumes "engine_ok k" "edma_reach k L acc w"
  shows "edma_inv k L acc w"
  using assms(2)
proof (induction rule: edma_reach.induct)
  case (hw_init w0 w)
  then show ?case using edma_hw_init_inv by blast
next
  case (if_init acc w dpc ret w')
  then show ?case using edma_if_init_inv by blast
next
  case (xmit acc w dpc skb ret w')
  show ?case by (rule edma_xmit_keeps [OF xmit.IH xmit.hyps(2)])
next
  case (napi acc w budget n w')
  then show ?case using edma_napi_inv [OF assms(1) napi.IH, of budget] by auto
next
  case (irq acc w d i w')
  then show ?case using edma_handle_irq_inv [OF irq.IH, of d] by auto
next
  case (dma acc w w')
  then show ?case using edma_inv_dma [OF dma.IH] by blast
qed (simp_all add: edma_open_close_inv edma_misc_irq_inv)

section \<open>Interrupt masks\<close>

lemma for_upto_writes:
  assumes "\<And>i g. a \<le> i \<Longrightarrow> i < a + n \<Longrightarrow> body i (w\<lparr>regs := g\<rparr>) = Inr (w\<lparr>regs := g(reg i := m)\<rparr>)"
  shows "for_upto a n body w = Inr (w\<lparr>regs := \<lambda>x. if x \<in> reg ` {a..<a + n} then m else regs w x\<rparr>)"
  using assms
proof (induction n arbitrary: a w)
  case (Suc n)
  let ?w = "w\<lparr>regs := (regs w)(reg a := m)\<rparr>"
  have one: "body a w = Inr ?w" using Suc.prems [of a "regs w"] by (simp add: fun_upd_def)
  have "for_upto (Suc a) n body ?w = Inr (?w\<lparr>regs := \<lambda>x. if x \<in> reg ` {Suc a..<Suc a + n} then m else regs ?w x\<rparr>)"
  proof (rule Suc.IH)
    fix i g assume "Suc a \<le> i" "i < Suc a + n"
    then show "body i (?w\<lparr>regs := g\<rparr>) = Inr (?w\<lparr>regs := g(reg i := m)\<rparr>)" using Suc.prems [of i g] by (simp add: fun_upd_def)
  qed
  moreover have "{a..<a + Suc n} = insert a {Suc a..<Suc a + n}" by auto
  ultimately show ?case using one by (auto simp: fun_eq_iff)
qed simp

definition rxdesc_mask_regs :: "edma_world \<Rightarrow> u32 set" where
  "rxdesc_mask_regs w = (\<lambda>i. EDMA_REG_RXDESC_INT_MASK (rd_id (rxdesc_ring w ! i))) ` {0..<length (rxdesc_ring w)}"

definition txcmpl_mask_regs :: "soc \<Rightarrow> edma_world \<Rightarrow> u32 set" where
  "txcmpl_mask_regs s w = (\<lambda>i. EDMA_REG_TX_INT_MASK s (tc_id (txcmpl_ring w ! i))) ` {0..<length (txcmpl_ring w)}"

definition rxfill_mask_regs :: "edma_world \<Rightarrow> u32 set" where
  "rxfill_mask_regs w = (\<lambda>i. EDMA_REG_RXFILL_INT_MASK (rf_id (rxfill_ring w ! i))) ` {0..<length (rxfill_ring w)}"

definition set_regs :: "u32 set \<Rightarrow> u32 \<Rightarrow> edma_world \<Rightarrow> edma_world" where
  "set_regs A m w = w\<lparr>regs := \<lambda>x. if x \<in> A then m else regs w x\<rparr>"

lemma rxdesc_masks: "for_upto 0 (length (rxdesc_ring w)) (edma_set_rxdesc_mask m) w = Inr (set_regs (rxdesc_mask_regs w) m w)"
  using for_upto_writes [of 0 "length (rxdesc_ring w)" "edma_set_rxdesc_mask m" w "\<lambda>i. EDMA_REG_RXDESC_INT_MASK (rd_id (rxdesc_ring w ! i))" m]
  by (simp add: edma_set_rxdesc_mask_def aget_in edma_reg_write_def set_regs_def rxdesc_mask_regs_def)

lemma txcmpl_masks:
  "for_upto 0 (length (txcmpl_ring w)) (edma_set_txcmpl_mask s m) w = Inr (set_regs (txcmpl_mask_regs s w) m w)"
  using for_upto_writes [of 0 "length (txcmpl_ring w)" "edma_set_txcmpl_mask s m" w "\<lambda>i. EDMA_REG_TX_INT_MASK s (tc_id (txcmpl_ring w ! i))" m]
  by (simp add: edma_set_txcmpl_mask_def aget_in edma_reg_write_def set_regs_def txcmpl_mask_regs_def)

lemma rxfill_masks: "for_upto 0 (length (rxfill_ring w)) (edma_set_rxfill_mask m) w = Inr (set_regs (rxfill_mask_regs w) m w)"
  using for_upto_writes [of 0 "length (rxfill_ring w)" "edma_set_rxfill_mask m" w "\<lambda>i. EDMA_REG_RXFILL_INT_MASK (rf_id (rxfill_ring w ! i))" m]
  by (simp add: edma_set_rxfill_mask_def aget_in edma_reg_write_def set_regs_def rxfill_mask_regs_def)

lemma set_regs_frame [simp]:
  "rxdesc_ring (set_regs A m w) = rxdesc_ring w" "txcmpl_ring (set_regs A m w) = txcmpl_ring w" "rxfill_ring (set_regs A m w) = rxfill_ring w"
  "rxdesc_mask_regs (set_regs A m w) = rxdesc_mask_regs w" "txcmpl_mask_regs s (set_regs A m w) = txcmpl_mask_regs s w"
  "rxfill_mask_regs (set_regs A m w) = rxfill_mask_regs w" "layout (set_regs A m w) = layout w"
  "ek_trace (set_regs A m w) = ek_trace w" "rxdesc_intr_mask (set_regs A m w) = rxdesc_intr_mask w"
  "txcmpl_intr_mask (set_regs A m w) = txcmpl_intr_mask w" "rxfill_intr_mask (set_regs A m w) = rxfill_intr_mask w"
  by (simp_all add: set_regs_def rxdesc_mask_regs_def txcmpl_mask_regs_def rxfill_mask_regs_def)

text \<open>The mask registers of the three kinds of rings are apart.\<close>

lemma int_page_inj:
  assumes "unat n < kind_max s kd" "unat m < kind_max s kd'" "kd \<noteq> TXDESC" "kd' \<noteq> TXDESC"
    "unat (int_base s kd) + 0x1000 * unat n = unat (int_base s kd') + 0x1000 * unat m"
  shows "kd = kd' \<and> n = m"
  using assms
  by (cases s; cases kd; cases kd'; simp add: int_base_unat kind_max_def EDMA_MAX_TXCMPL_RINGS_def word_unat_eq_iff)

lemma int_mask_inj:
  assumes n: "unat n < kind_max s kd" "kd \<noteq> TXDESC" and m: "unat m < kind_max s kd'" "kd' \<noteq> TXDESC"
  shows "int_mask_reg s kd n = int_mask_reg s kd' m \<longleftrightarrow> kd = kd' \<and> n = m"
proof -
  have b: "unat (int_base s x + 4) < 0x100000" for x
    by (cases s; cases x; simp add: int_base_unat)
  show ?thesis
    using int_page_inj [OF n(1) m(1) n(2) m(2)]
    by (auto simp: ring_reg_eq [OF kind_max_less [OF n(1)] kind_max_less [OF m(1)] b b] int_base_unat(2))
qed

lemma mask_regs_apart:
  assumes "edma_ok k w"
  shows "rxdesc_mask_regs w \<inter> txcmpl_mask_regs (ek_soc k) w = {}" "rxdesc_mask_regs w \<inter> rxfill_mask_regs w = {}"
    "txcmpl_mask_regs (ek_soc k) w \<inter> rxfill_mask_regs w = {}"
  unfolding rxdesc_mask_regs_def txcmpl_mask_regs_def rxfill_mask_regs_def int_regs [where s = "ek_soc k"]
  using ring_ids [OF assms] int_mask_inj by fastforce+

section \<open>Polling\<close>

definition unmasked :: "soc \<Rightarrow> edma_world \<Rightarrow> bool" where
  "unmasked s w \<longleftrightarrow> (\<forall>x \<in> rxdesc_mask_regs w. regs w x = rxdesc_intr_mask w)
     \<and> (\<forall>x \<in> txcmpl_mask_regs s w. regs w x = txcmpl_intr_mask w) \<and> (\<forall>x \<in> rxfill_mask_regs w. regs w x = rxfill_intr_mask w)"

lemma napi_unmask_ok:
  assumes "edma_inv k L acc w" "napi_unmask k L w = Inr w'"
  shows "unmasked (ek_soc k) w' \<and> ek_trace w' = ek_trace w"
proof -
  note l = edma_inv_lengths [OF assms(1)]
  have "w' = set_regs (rxfill_mask_regs w) (rxfill_intr_mask w) (set_regs (txcmpl_mask_regs (ek_soc k) w) (txcmpl_intr_mask w)
      (set_regs (rxdesc_mask_regs w) (rxdesc_intr_mask w) w))"
    using assms(2) unfolding napi_unmask_def l [symmetric]
    by (simp add: rxdesc_masks txcmpl_masks [where w = "set_regs A m w" for A m, simplified] rxfill_masks [where w = "set_regs A m (set_regs B n w)" for A m B n, simplified])
  then show ?thesis
    using mask_regs_apart [of k w] assms(1) by (auto simp: unmasked_def edma_inv_def) (auto simp: set_regs_def)
qed

lemma or_zero_iff: "x OR y = 0 \<longleftrightarrow> x = 0 \<and> y = (0 :: u32)"
  by (auto simp: bit_eq_iff bit_simps)

text \<open>The interrupt handler: it collects the status of every ring and masks every ring.\<close>

lemma for_upto_status:
  assumes "\<And>i st g. a \<le> i \<Longrightarrow> i < a + n \<Longrightarrow> body i (st, w\<lparr>regs := g\<rparr>) = Inr (st OR (g (stat i) AND c), w\<lparr>regs := g(reg i := 0)\<rparr>)"
    and "\<And>i j. stat i \<noteq> reg j"
  shows "\<exists>st'. for_upto a n body (st :: u32, w) = Inr (st', set_regs (reg ` {a..<a + n}) 0 w)
     \<and> (st' = 0 \<longleftrightarrow> st = 0 \<and> (\<forall>i. a \<le> i \<and> i < a + n \<longrightarrow> regs w (stat i) AND c = 0))"
  using assms
proof (induction n arbitrary: a w st)
  case (Suc n)
  let ?w = "w\<lparr>regs := (regs w)(reg a := 0)\<rparr>" and ?st = "st OR (regs w (stat a) AND c)"
  have one: "body a (st, w) = Inr (?st, ?w)" using Suc.prems(1) [of a st "regs w"] by (simp add: fun_upd_def)
  have "\<exists>st'. for_upto (Suc a) n body (?st, ?w) = Inr (st', set_regs (reg ` {Suc a..<Suc a + n}) 0 ?w)
     \<and> (st' = 0 \<longleftrightarrow> ?st = 0 \<and> (\<forall>i. Suc a \<le> i \<and> i < Suc a + n \<longrightarrow> regs ?w (stat i) AND c = 0))"
  proof (rule Suc.IH)
    fix i st' g assume "Suc a \<le> i" "i < Suc a + n"
    then show "body i (st', ?w\<lparr>regs := g\<rparr>) = Inr (st' OR (g (stat i) AND c), ?w\<lparr>regs := g(reg i := 0)\<rparr>)"
      using Suc.prems(1) [of i st' g] by (simp add: fun_upd_def)
  qed (rule Suc.prems(2))
  then obtain st' where IH: "for_upto (Suc a) n body (?st, ?w) = Inr (st', set_regs (reg ` {Suc a..<Suc a + n}) 0 ?w)"
     "st' = 0 \<longleftrightarrow> ?st = 0 \<and> (\<forall>i. Suc a \<le> i \<and> i < Suc a + n \<longrightarrow> regs w (stat i) AND c = 0)"
    using Suc.prems(2) by auto
  have s: "{a..<a + Suc n} = insert a {Suc a..<Suc a + n}" by auto
  have "set_regs (reg ` {Suc a..<Suc a + n}) 0 ?w = set_regs (reg ` {a..<a + Suc n}) 0 w"
    unfolding s by (auto simp: set_regs_def fun_eq_iff)
  moreover have "(\<forall>i. a \<le> i \<and> i < a + Suc n \<longrightarrow> P i) \<longleftrightarrow> P a \<and> (\<forall>i. Suc a \<le> i \<and> i < Suc a + n \<longrightarrow> P i)" for P
    by (metis Suc_leI add_Suc add_Suc_right le_eq_less_or_eq less_add_Suc1 Suc_leD)
  ultimately show ?case using one IH by (simp add: or_zero_iff)
qed (auto simp: set_regs_def)

definition irq_pending :: "soc \<Rightarrow> edma_world \<Rightarrow> bool" where
  "irq_pending s w \<longleftrightarrow>
     (\<exists>i < length (rxdesc_ring w). regs w (EDMA_REG_RXDESC_INT_STAT (rd_id (rxdesc_ring w ! i))) AND EDMA_RXDESC_RING_INT_STATUS_MASK \<noteq> 0)
   \<or> (\<exists>i < length (txcmpl_ring w). regs w (EDMA_REG_TX_INT_STAT s (tc_id (txcmpl_ring w ! i))) AND EDMA_TXCMPL_RING_INT_STATUS_MASK \<noteq> 0)
   \<or> (\<exists>i < length (rxfill_ring w). regs w (EDMA_REG_RXFILL_INT_STAT (rf_id (rxfill_ring w ! i))) AND EDMA_RXFILL_RING_INT_STATUS_MASK \<noteq> 0)"

lemma stat_not_mask: "int_stat_reg s kd n \<noteq> int_mask_reg s' kd' m"
  by (rule ring_reg_neq) (simp add: int_base_low)

lemma edma_handle_irq_ok:
  assumes inv: "edma_inv k L acc w"
  defines "M \<equiv> rxdesc_mask_regs w \<union> txcmpl_mask_regs (ek_soc k) w \<union> rxfill_mask_regs w"
  shows "edma_handle_irq k True w =
     (if irq_pending (ek_soc k) w
      then Inr (IRQ_HANDLED, if ek_napi_schedule_prep k then ekcalls [Ek_napi_schedule] (set_regs M 0 w) else set_regs M 0 w)
      else Inr (IRQ_NONE, set_regs M 0 w))"
proof -
  let ?s = "ek_soc k"
  have L: "layout w = L" using inv by (simp add: edma_inv_def)
  note l = edma_inv_lengths [OF inv]
  note ne = stat_not_mask [of ?s RXDESC _ ?s RXDESC] stat_not_mask [of ?s TXCMPL _ ?s TXCMPL] stat_not_mask [of ?s RXFILL _ ?s RXFILL]
  obtain a where a: "for_upto 0 (length (rxdesc_ring w)) rxdesc_irq_one (0, w) = Inr (a, set_regs (rxdesc_mask_regs w) 0 w)"
      "a = 0 \<longleftrightarrow> (\<forall>i < length (rxdesc_ring w). regs w (EDMA_REG_RXDESC_INT_STAT (rd_id (rxdesc_ring w ! i))) AND EDMA_RXDESC_RING_INT_STATUS_MASK = 0)"
    using for_upto_status [of 0 "length (rxdesc_ring w)" rxdesc_irq_one w "\<lambda>i. EDMA_REG_RXDESC_INT_STAT (rd_id (rxdesc_ring w ! i))"
        EDMA_RXDESC_RING_INT_STATUS_MASK "\<lambda>i. EDMA_REG_RXDESC_INT_MASK (rd_id (rxdesc_ring w ! i))" 0] ne(1)
    by (simp add: rxdesc_irq_one_def aget_in edma_reg_read_def edma_reg_write_def Let_def rxdesc_mask_regs_def int_base_def) blast
  define w1 where "w1 = set_regs (rxdesc_mask_regs w) 0 w"
  obtain b where b: "for_upto 0 (length (txcmpl_ring w)) (txcmpl_irq_one ?s) (0, w1) = Inr (b, set_regs (txcmpl_mask_regs ?s w) 0 w1)"
      "b = 0 \<longleftrightarrow> (\<forall>i < length (txcmpl_ring w). regs w1 (EDMA_REG_TX_INT_STAT ?s (tc_id (txcmpl_ring w ! i))) AND EDMA_TXCMPL_RING_INT_STATUS_MASK = 0)"
    using for_upto_status [of 0 "length (txcmpl_ring w)" "txcmpl_irq_one ?s" w1 "\<lambda>i. EDMA_REG_TX_INT_STAT ?s (tc_id (txcmpl_ring w ! i))"
        EDMA_TXCMPL_RING_INT_STATUS_MASK "\<lambda>i. EDMA_REG_TX_INT_MASK ?s (tc_id (txcmpl_ring w ! i))" 0] ne(2)
    by (simp add: txcmpl_irq_one_def aget_in edma_reg_read_def edma_reg_write_def Let_def txcmpl_mask_regs_def int_base_def w1_def) blast
  define w2 where "w2 = set_regs (txcmpl_mask_regs ?s w) 0 w1"
  obtain c where c: "for_upto 0 (length (rxfill_ring w)) rxfill_irq_one (0, w2) = Inr (c, set_regs (rxfill_mask_regs w) 0 w2)"
      "c = 0 \<longleftrightarrow> (\<forall>i < length (rxfill_ring w). regs w2 (EDMA_REG_RXFILL_INT_STAT (rf_id (rxfill_ring w ! i))) AND EDMA_RXFILL_RING_INT_STATUS_MASK = 0)"
    using for_upto_status [of 0 "length (rxfill_ring w)" rxfill_irq_one w2 "\<lambda>i. EDMA_REG_RXFILL_INT_STAT (rf_id (rxfill_ring w ! i))"
        EDMA_RXFILL_RING_INT_STATUS_MASK "\<lambda>i. EDMA_REG_RXFILL_INT_MASK (rf_id (rxfill_ring w ! i))" 0] ne(3)
    by (simp add: rxfill_irq_one_def aget_in edma_reg_read_def edma_reg_write_def Let_def rxfill_mask_regs_def int_base_def w2_def w1_def) blast
  have w3: "set_regs (rxfill_mask_regs w) 0 w2 = set_regs M 0 w" "set_regs (rxdesc_mask_regs w) 0 (set_regs M 0 w) = set_regs M 0 w"
    by (auto simp: w2_def w1_def M_def set_regs_def fun_eq_iff)
  have stat: "regs w1 (int_stat_reg ?s kd n) = regs w (int_stat_reg ?s kd n)" "regs w2 (int_stat_reg ?s kd n) = regs w (int_stat_reg ?s kd n)" for kd n
    using stat_not_mask unfolding w2_def w1_def set_regs_def rxdesc_mask_regs_def txcmpl_mask_regs_def int_regs [where s = ?s] by auto
  have pend: "irq_pending ?s w \<longleftrightarrow> \<not> (a = 0 \<and> b = 0 \<and> c = 0)"
    unfolding irq_pending_def a(2) b(2) c(2) int_regs [where s = ?s] stat by blast
  have masks: "for_upto 0 (length (rxdesc_ring w)) (edma_set_rxdesc_mask 0) (set_regs M 0 w) = Inr (set_regs M 0 w)"
    using rxdesc_masks [of "set_regs M 0 w" 0] by (simp add: w3(2))
  show ?thesis
    unfolding edma_handle_irq_def Let_def L l [symmetric] a(1) bindR_Inr prod.case w1_def [symmetric] b(1) w2_def [symmetric] c(1) w3(1)
    using masks by (simp add: pend)
qed

section \<open>Properties of the data path\<close>

text \<open>A small machine for the witnesses: one ring of each kind, memory for everything, an engine that waits.\<close>

definition demo_layout :: edma_layout where
  "demo_layout = \<lparr>txdesc_rings = 2, txdesc_ring_start = 0, txdesc_ring_end = 2, txcmpl_rings = 1, txcmpl_ring_start = 0,
     txcmpl_ring_end = 1, rxfill_rings = 1, rxfill_ring_start = 0, rxfill_ring_end = 1, rxdesc_rings = 1,
     rxdesc_ring_start = 0, rxdesc_ring_end = 1\<rparr>"

definition demo_rxph :: edma_rx_preheader where
  "demo_rxph = \<lparr>rx_opaque = 0, rx_src_info = 0x2001, rx_dst_info = 0, rx_pre2 = 0, rx_pre3 = 0, rx_pre4 = 0, rx_pre5 = 0,
     rx_pre6 = 0, rx_pre7 = 0\<rparr>"

definition demo_machine :: edma_world where
  "demo_machine = \<lparr>layout = demo_layout, netdev_arr = replicate 6 None, rx_payload_offset = 0, active = 0, napi_added = False,
     rx_skb_store = [], tx_skb_store = [], rxfill_ring = [], rxdesc_ring = [], txdesc_ring = [], txcmpl_ring = [],
     txcmpl_intr = [0], rxfill_intr = [0], rxdesc_intr = [0], misc_intr = 0, rxfill_intr_mask = 0, rxdesc_intr_mask = 0,
     txcmpl_intr_mask = 0, misc_intr_mask = 0, dp_override_cnt = 0, edma_initialized = False,
     regs = \<lambda>_. 0, rxph_mem = \<lambda>_. demo_rxph, txph_mem = \<lambda>_. zero_txph, ek_trace = [], ek_allocs = 0, ek_mem_allocs = 0,
     needed_headroom = \<lambda>_. 0\<rparr>"

definition demo_dt :: edma_dt where
  "demo_dt = \<lparr>dt_node = True, dt_pdev = True, dt_resource = True, dt_txdesc_ring_start = Some 0, dt_txdesc_rings = Some 2,
     dt_txcmpl_ring_start = Some 0, dt_txcmpl_rings = Some 1, dt_rxfill_ring_start = Some 0, dt_rxfill_rings = Some 1,
     dt_rxdesc_ring_start = Some 0, dt_rxdesc_rings = Some 1\<rparr>"

definition demo_edma :: edma_kernel where
  "demo_edma = \<lparr>ek_soc = IPQ807X, ek_dev_alloc_skb = \<lambda>_. True, ek_map_rx = \<lambda>a. 0x40000000 + of_nat a * 0x800,
     ek_map_tx = \<lambda>_. 0x50000000, ek_netif_running = \<lambda>_. True, ek_rxtstamp = \<lambda>_ _. None, ek_txtstamp = \<lambda>_. False,
     ek_queue_stopped = \<lambda>_. False, ek_carrier_ok = \<lambda>_. True, ek_napi_schedule_prep = True, ek_macid = \<lambda>n. of_nat (Suc n),
     ek_dma_alloc_coherent = \<lambda>i. Some (of_nat i * 0x1000), ek_kzalloc = \<lambda>_. True, ek_rx_hw = \<lambda>_ _ w. w,
     ek_reset_control = True, ek_needed_tailroom = \<lambda>_. 0, ek_expand_head = \<lambda>_. False, ek_fal_vsi_set = \<lambda>_ _. 0,
     ek_platform_irq = of_nat, ek_request_irq = \<lambda>_. False, ek_dt = demo_dt, ek_request_mem_region = True, ek_ioremap = True\<rparr>"

lemma demo_engine: "engine_ok demo_edma"
  by (simp add: engine_ok_def demo_edma_def)

lemma demo_boot: "edma_boot demo_edma demo_machine"
  by (simp add: edma_boot_def layout_ok_def demo_edma_def demo_machine_def demo_layout_def kind_max_def
        EDMA_MAX_TXCMPL_RINGS_def idle_def pidx_def cidx_def reg_idx_def edma_reg_read_def NSS_DP_HAL_MAX_PORTS_def)

lemma demo_memory: "memory_ok demo_edma"
  by (simp add: memory_ok_def demo_edma_def)

lemma demo_reach: "\<exists>w. edma_reach demo_edma demo_layout {#} w"
proof -
  obtain w where "edma_hw_init demo_edma demo_machine = Inr (Success, w)"
    using edma_hw_init_succeeds [OF demo_boot demo_memory] by blast
  then have "edma_reach demo_edma demo_layout {#} w"
    by (intro edma_reach.hw_init [OF demo_boot]) (simp_all add: demo_machine_def)
  then show ?thesis by blast
qed

definition demo_frame :: edma_skb where
  "demo_frame = \<lparr>es_ref = Stack 0, es_len = 60, es_headlen = 60, es_queue = 0, es_nonlinear = False, es_cloned = False,
     es_headroom = 64, es_hw_tstamp = False\<rparr>"

text \<open>
  C2. On every state the driver and the engine can reach together, a NAPI poll with any budget and the
  interrupt handlers return, and so does a transmission whenever there is a single transmit ring or
  the queue of the frame is not above the number of rings: no access outside a ring, a store or the
  table of net devices, and no loop without end.
\<close>

theorem edma_never_faults:
  assumes "engine_ok k" "edma_reach k L acc w"
  shows "(\<exists>n w'. edma_napi k budget w = Inr (n, w')) \<and> (\<exists>i w'. edma_handle_irq k d w = Inr (i, w'))
    \<and> (0 < txdesc_rings L \<and> (txdesc_rings L = 1 \<or> es_queue skb \<le> txdesc_rings L) \<longrightarrow>
         (\<exists>ret w'. edma_if_xmit k (Some nd) skb w = Inr (ret, w')))"
proof -
  have inv: "edma_inv k L acc w" by (rule edma_reach_inv [OF assms])
  have "layout w = L" using inv by (simp add: edma_inv_def)
  then show ?thesis
    using edma_napi_inv [OF assms(1) inv, of budget] edma_handle_irq_inv [OF inv, of d]
      edma_if_xmit_inv [OF inv, of skb nd] edma_select_ring_range [of w "es_queue skb"]
    by (auto simp: word_less_nat_alt)
qed

theorem edma_never_faults_witness:
  "\<exists>w. edma_reach demo_edma demo_layout {#} w \<and> (\<exists>n w'. edma_napi demo_edma 64 w = Inr (n, w'))
    \<and> (\<exists>ret w'. edma_if_xmit demo_edma (Some 0) demo_frame w = Inr (ret, w'))"
proof -
  obtain w where w: "edma_reach demo_edma demo_layout {#} w" using demo_reach by blast
  show ?thesis
    using edma_never_faults [OF demo_engine w, of 64 True demo_frame 0] w by (auto simp: demo_layout_def demo_frame_def)
qed

text \<open>
  C5. Buffers are conserved by the EDMA data plane: on every reachable state, the buffers delivered to the
  stack, kept by the PHY driver or freed, together with those in the receive and the transmit store, are
  exactly the buffers allocated and the frames accepted for transmission; and no buffer is allocated twice.
\<close>

theorem edma_buffers_conserved:
  assumes "engine_ok k" "edma_reach k L acc w"
  shows "all_gone (ek_trace w) + stored (rx_skb_store w) + stored (tx_skb_store w) = all_came (ek_trace w) + acc
    \<and> (\<forall>a. count (all_came (ek_trace w)) (Alloc a) \<le> 1)"
  using edma_reach_inv [OF assms]
  by (auto simp: edma_inv_def edma_balanced_def edma_allocs_once_def) (metis One_nat_def le_zero_eq le_SucI)

theorem edma_buffers_conserved_witness:
  "\<exists>w. edma_reach demo_edma demo_layout {#} w \<and>
    all_gone (ek_trace w) + stored (rx_skb_store w) + stored (tx_skb_store w) = all_came (ek_trace w) + {#}"
  using demo_reach edma_buffers_conserved [OF demo_engine] by blast

text \<open>
  C7. Reaping refines its specification: on every reachable state, \<open>edma_clean_tx\<close> releases the buffers that
  the completions between the consumer and the producer index name, in order, each slot at most once,
  leaves the others in the store, moves the consumer index to the producer index, and returns the number
  of completions.
\<close>

theorem edma_clean_tx_refines:
  fixes k L acc w r
  defines "i \<equiv> tc_id (txcmpl_ring w ! r)"
  defines "is \<equiv> ring_span 128 (cidx (ek_soc k) TXCMPL w i) (pidx (ek_soc k) TXCMPL w i)"
  assumes "engine_ok k" "edma_reach k L acc w" "r < length (txcmpl_ring w)"
  shows "edma_clean_tx k r w =
     (let (bs, s) = reap (map (txcmpl_slot w r) is) (tx_skb_store w);
          w' = ekcalls (tx_release bs) (w\<lparr>tx_skb_store := s\<rparr>)
      in Inr (of_nat (length is),
              if is = [] then w' else edma_reg_write w' (EDMA_REG_TXCMPL_CONS_IDX (ek_soc k) i) (ucast (pidx (ek_soc k) TXCMPL w i))))
    \<and> mset (fst (reap (map (txcmpl_slot w r) is) (tx_skb_store w))) \<subseteq># stored (tx_skb_store w)"
proof -
  have inv: "edma_inv k L acc w" by (rule edma_reach_inv [OF assms(3,4)])
  note rr = edma_okD(6) [OF inv [unfolded edma_inv_def, THEN conjunct1] assms(5), unfolded txcmpl_ok_def Let_def]
  have eq: "reg_idx w (EDMA_REG_TXCMPL_PROD_IDX (ek_soc k) i) = pidx (ek_soc k) TXCMPL w i"
    "reg_idx w (EDMA_REG_TXCMPL_CONS_IDX (ek_soc k) i) = cidx (ek_soc k) TXCMPL w i"
    by (simp_all add: pidx_def cidx_def idx_base_def)
  have sl: "\<forall>j \<in> set (map (txcmpl_slot w r) is). j < length (tx_skb_store w)"
    using rr edma_inv_lengths(7) [OF inv] by (simp add: is_def i_def)
  have "mset (fst (reap (map (txcmpl_slot w r) is) (tx_skb_store w))) \<subseteq># stored (tx_skb_store w)"
    using reap_conserves [OF sl] by (metis mset_subset_eq_add_left)
  then show ?thesis
    using edma_clean_tx_ok [OF assms(5), of k] rr edma_inv_lengths(7) [OF inv]
    unfolding i_def [symmetric] eq is_def [symmetric] by simp
qed

theorem edma_clean_tx_refines_witness:
  "\<exists>w. edma_reach demo_edma demo_layout {#} w \<and> 0 < length (txcmpl_ring w)
     \<and> (\<exists>n w'. edma_clean_tx demo_edma 0 w = Inr (n, w'))"
proof -
  obtain w where w: "edma_reach demo_edma demo_layout {#} w" using demo_reach by blast
  have l: "0 < length (txcmpl_ring w)"
    using edma_inv_lengths(4) [OF edma_reach_inv [OF demo_engine w]] by (simp add: demo_layout_def)
  show ?thesis
    using edma_clean_tx_refines [OF demo_engine w l] w l by (auto simp: Let_def split_beta)
qed

lemma demo_rings:
  assumes "edma_reach demo_edma demo_layout acc w"
  shows "length (rxfill_ring w) = 1" "length (rxdesc_ring w) = 1" "length (txdesc_ring w) = 2" "length (txcmpl_ring w) = 1"
  using edma_inv_lengths [OF edma_reach_inv [OF demo_engine assms]] by (simp_all add: demo_layout_def)

lemma ring_room_apart:
  assumes "n \<le> ring_room nx c" "n \<noteq> 0" "nx < 128" "c < 128"
  shows "(nx + n) mod 128 \<noteq> c"
proof (cases "nx < c")
  case True
  then have "c + 127 - nx = (c - nx - 1) + 128" by simp
  then have "ring_room nx c = c - nx - 1" unfolding ring_room_def using assms(4) by (simp only: mod_add_self2) simp
  then have "nx + n < c" using assms(1,2) True by linarith
  then show ?thesis using assms(4) by simp
next
  case False
  then have "ring_room nx c = c + 127 - nx" unfolding ring_room_def by simp
  then have le: "nx + n \<le> c + 127" using assms(1,3) by linarith
  show ?thesis
  proof (cases "nx + n < 128")
    case True
    then show ?thesis using False assms(2) by simp
  next
    case F: False
    then have "(nx + n) mod 128 = nx + n - 128" using le assms(4) by (simp add: le_mod_geq)
    then show ?thesis using le F by linarith
  qed
qed

text \<open>
  C19. Refilling: on every reachable state, \<open>edma_alloc_rx_buffer\<close> puts \<open>n\<close> fresh buffers into consecutive free
  slots from the producer index on, with their descriptors, bus addresses and slot numbers in the preheaders
  (\<open>rx_filled\<close>), publishes exactly these by moving the producer index, and never lets it catch up with the
  consumer index; nothing else changes.
\<close>

theorem edma_refill_spec:
  fixes k L acc w r
  defines "i \<equiv> rf_id (rxfill_ring w ! r)"
  defines "nx \<equiv> unat (pidx (ek_soc k) RXFILL w i)" and "c \<equiv> unat (cidx (ek_soc k) RXFILL w i)"
  assumes "engine_ok k" "edma_reach k L acc w" "r < length (rxfill_ring w)"
  shows "\<exists>n w1. edma_alloc_rx_buffer k r w = Inr (of_nat n,
             if n = 0 then w1 else edma_reg_write w1 (EDMA_REG_RXFILL_PROD_IDX i) (of_nat ((nx + n) mod 128)))
           \<and> rx_filled k r nx n w w1 \<and> n \<le> ring_room nx c \<and> (n = 0 \<or> (nx + n) mod 128 \<noteq> c)"
proof -
  have inv: "edma_inv k L acc w" by (rule edma_reach_inv [OF assms(4,5)])
  note rr = edma_okD(3) [OF inv [unfolded edma_inv_def, THEN conjunct1] assms(6), unfolded rxfill_ok_def Let_def]
  have wf: "rxfill_wf r w" using rr assms(6) edma_inv_lengths(6) [OF inv] by (simp add: rxfill_wf_def)
  have eq: "unat (reg_idx w (EDMA_REG_RXFILL_PROD_IDX i)) mod 128 = nx" "unat (reg_idx w (EDMA_REG_RXFILL_CONS_IDX i)) = c"
    using rr by (simp_all add: nx_def c_def i_def pidx_def cidx_def idx_base_def)
  have l: "nx < 128" "c < 128" using rr by (simp_all add: nx_def c_def i_def)
  have room: "(nx + n) mod 128 \<noteq> c" if "n \<le> ring_room nx c" "n \<noteq> 0" for n
    using ring_room_apart [OF that l] .
  obtain n w1 where n: "edma_alloc_rx_buffer k r w = Inr (of_nat n,
             if n = 0 then w1 else edma_reg_write w1 (EDMA_REG_RXFILL_PROD_IDX i) (of_nat ((nx + n) mod 128)))"
      "n \<le> ring_room nx c" "rx_filled k r nx n w w1"
    using edma_alloc_rx_buffer_ok [OF wf, of k, folded i_def, unfolded eq, OF l(2)] by blast
  show ?thesis by (rule exI [of _ n], rule exI [of _ w1]) (use n room [OF n(2)] in blast)
qed

theorem edma_refill_spec_witness:
  "\<exists>w. edma_reach demo_edma demo_layout {#} w \<and> 0 < length (rxfill_ring w)
     \<and> (\<exists>n w'. edma_alloc_rx_buffer demo_edma 0 w = Inr (of_nat n, w'))"
proof -
  obtain w where w: "edma_reach demo_edma demo_layout {#} w" using demo_reach by blast
  have l: "0 < length (rxfill_ring w)" using demo_rings(1) [OF w] by simp
  show ?thesis using edma_refill_spec [OF demo_engine w l] w l by blast
qed

text \<open>
  C20. Transmission on a ring, on every branch: a full ring or an occupied slot of the store gives
  \<open>EDMA_TX_DESC\<close> (in the second case the preheader is already pushed), a buffer that cannot be mapped is
  freed, and otherwise the frame is stored at the producer index, described with its address and length,
  and published by moving the producer index.
\<close>

theorem edma_ring_xmit_spec:
  fixes k L acc w r skb netdev
  defines "i \<equiv> td_id (txdesc_ring w ! r)"
  defines "p \<equiv> pidx (ek_soc k) TXDESC w i" and "c \<equiv> cidx (ek_soc k) TXDESC w i" and "addr \<equiv> ek_map_tx k (es_ref skb)"
  assumes "engine_ok k" "edma_reach k L acc w" "r < length (txdesc_ring w)"
  shows "edma_ring_xmit k netdev skb r w =
     (if ring_next 128 p = c then Inr (EDMA_TX_DESC, w)
      else if tx_skb_store w ! unat p \<noteq> None then Inr (EDMA_TX_DESC, xmit_pushed k netdev skb w)
      else if addr = 0
      then Inr (EDMA_TX_OK, ekcalls [Ek_kfree (es_ref skb)]
             (xmit_written k netdev skb r p \<lparr>td_buffer_addr = 0, td_word1 = 0\<rparr> w))
      else Inr (EDMA_TX_OK,
             edma_reg_write
               ((xmit_written k netdev skb r p
                   \<lparr>td_buffer_addr = addr, td_word1 = edma_tx_word1 (ucast (es_headlen skb))\<rparr> w)
                 \<lparr>tx_skb_store := (tx_skb_store w)[unat p := Some (es_ref skb)]\<rparr>)
               (EDMA_REG_TXDESC_PROD_IDX i) (ucast (ring_next 128 p))))"
proof -
  have inv: "edma_inv k L acc w" by (rule edma_reach_inv [OF assms(5,6)])
  note rr = edma_okD(5) [OF inv [unfolded edma_inv_def, THEN conjunct1] assms(7), unfolded txdesc_ok_def Let_def]
  have eq: "reg_idx w (EDMA_REG_TXDESC_PROD_IDX i) = p" "reg_idx w (EDMA_REG_TXDESC_CONS_IDX i) = c"
    by (simp_all add: p_def c_def i_def pidx_def cidx_def idx_base_def)
  have l: "unat p < 128" using rr by (simp add: p_def i_def)
  show ?thesis
    using edma_ring_xmit_ok [OF assms(7), of k netdev skb] rr l edma_inv_lengths(7) [OF inv]
    unfolding i_def [symmetric] eq addr_def [symmetric] by simp
qed

theorem edma_ring_xmit_spec_witness:
  "\<exists>w. edma_reach demo_edma demo_layout {#} w \<and> 0 < length (txdesc_ring w)
     \<and> (\<exists>ret w'. edma_ring_xmit demo_edma 0 demo_frame 0 w = Inr (ret, w'))"
proof -
  obtain w where w: "edma_reach demo_edma demo_layout {#} w" using demo_reach by blast
  have l: "0 < length (txdesc_ring w)" using demo_rings(3) [OF w] by simp
  show ?thesis using edma_ring_xmit_spec [OF demo_engine w l, of 0 demo_frame] w l by auto
qed

text \<open>
  C21. Receiving a frame: for every descriptor between the consumer and the producer index, the buffer its
  preheader names is unmapped and taken off the store, and leaves the driver exactly once: delivered to the
  running net device of its port, kept by the PHY driver, or freed (\<open>rx_outcome\<close>); an empty slot is skipped.
\<close>

theorem edma_rx_frame_spec:
  fixes k w r
  defines "n \<equiv> rd_id (rxdesc_ring w ! r)"
  assumes "edma_ok k w" "r < length (rxdesc_ring w)"
    "i \<in> set (ring_span 128 (cidx (ek_soc k) RXDESC w n) (pidx (ek_soc k) RXDESC w n))"
  shows "edma_clean_rx_one k r i w =
      Inr (ekcalls (rx_calls k r i w) (w\<lparr>rx_skb_store := (rx_skb_store w)[rx_slot w r i := None]\<rparr>))
    \<and> all_gone (rx_calls k r i w) = (case rx_skb_store w ! rx_slot w r i of None \<Rightarrow> {#} | Some s \<Rightarrow> {#s#})
    \<and> rx_slot w r i < 128"
proof -
  note rr = edma_okD(4) [OF assms(2,3), unfolded rxdesc_ok_def Let_def]
  have i: "unat i < 128" using ring_span_set [OF _ assms(4)] rr by (simp add: n_def)
  show ?thesis
    using edma_clean_rx_one_ok [OF assms(3), of i k] rr i assms(4) edma_okD(1) [OF assms(2)] rx_calls_gone [of k r i w]
    by (simp add: n_def edma_shape_def)
qed

text \<open>A machine with one buffer in the receive store, and the frame the engine has posted in it.\<close>

definition demo_filled :: edma_world where
  "demo_filled = demo_machine\<lparr>
     txdesc_ring := map (\<lambda>i. \<lparr>td_id = i, td_desc = replicate 128 \<lparr>td_buffer_addr = 0, td_word1 = 0\<rparr>, td_dma = 0, td_count = 128\<rparr>) [0, 1],
     txcmpl_ring := [\<lparr>tc_id = 0, tc_desc = replicate 128 \<lparr>tc_buffer_addr = 0, tc_status = 0\<rparr>, tc_dma = 0, tc_count = 128\<rparr>],
     rxfill_ring := [\<lparr>rf_id = 0, rf_desc = replicate 128 \<lparr>rf_buffer_addr = 0, rf_word1 = 0\<rparr>, rf_dma = 0, rf_count = 128\<rparr>],
     rxdesc_ring := [\<lparr>rd_id = 0, rd_rxfill = 0, rd_desc = replicate 128 \<lparr>rd_buffer_addr = 0, rd_status = 0\<rparr>, rd_dma = 0, rd_count = 128\<rparr>],
     tx_skb_store := replicate 128 None, rx_skb_store := (replicate 128 None)[0 := Some (Alloc 0)]\<rparr>"

definition demo_posted :: edma_world where
  "demo_posted = dma_post_rx IPQ807X 0 0x40000000 demo_rxph 60 demo_filled"

lemma demo_idx: "pidx s kd demo_filled n = 0" "cidx s kd demo_filled n = 0"
  by (simp_all add: pidx_def cidx_def reg_idx_def edma_reg_read_def demo_filled_def demo_machine_def)

lemma demo_filled_ok: "edma_ok demo_edma demo_filled"
proof (rule edma_okI)
  show "edma_shape demo_edma demo_filled"
    by (simp add: edma_shape_def demo_filled_def demo_machine_def demo_layout_def demo_edma_def NSS_DP_HAL_MAX_PORTS_def)
  show "tags_ok demo_edma demo_filled"
    by (auto simp: tags_ok_def demo_filled_def demo_machine_def demo_rxph_def dest!: set_update_subset_insert [THEN subsetD])
  fix r
  show "r < length (rxfill_ring demo_filled) \<Longrightarrow> rxfill_ok (ek_soc demo_edma) demo_filled r"
    by (simp add: rxfill_ok_def Let_def demo_idx) (simp add: demo_filled_def kind_max_def)
  show "r < length (rxdesc_ring demo_filled) \<Longrightarrow> rxdesc_ok (ek_soc demo_edma) demo_filled r"
    by (simp add: rxdesc_ok_def Let_def demo_idx) (simp add: demo_filled_def kind_max_def)
  show "r < length (txdesc_ring demo_filled) \<Longrightarrow> txdesc_ok (ek_soc demo_edma) demo_filled r"
    by (simp add: txdesc_ok_def Let_def demo_idx) (auto simp: demo_filled_def kind_max_def nth_Cons split: nat.splits)
  show "r < length (txcmpl_ring demo_filled) \<Longrightarrow> txcmpl_ok (ek_soc demo_edma) demo_filled r"
    by (simp add: txcmpl_ok_def Let_def demo_idx) (simp add: demo_filled_def kind_max_def demo_edma_def EDMA_MAX_TXCMPL_RINGS_def)
qed

lemma demo_posted_ok: "edma_ok demo_edma demo_posted" "length (rxdesc_ring demo_posted) = 1"
  "0 \<in> set (ring_span 128 (cidx (ek_soc demo_edma) RXDESC demo_posted (rd_id (rxdesc_ring demo_posted ! 0)))
                          (pidx (ek_soc demo_edma) RXDESC demo_posted (rd_id (rxdesc_ring demo_posted ! 0))))"
proof -
  have "edma_ok demo_edma (dma_post_rx (ek_soc demo_edma) 0 (ek_map_rx demo_edma 0) demo_rxph 60 demo_filled)"
    by (rule dma_post_rx_ok [OF demo_filled_ok])
       (simp_all add: demo_idx, simp_all add: demo_filled_def demo_machine_def ring_next_def set_update_memI)
  then show "edma_ok demo_edma demo_posted" by (simp add: demo_posted_def demo_edma_def)
  show "length (rxdesc_ring demo_posted) = 1" by (simp add: demo_posted_def dma_post_rx_def demo_filled_def Let_def)
  have i: "rd_id (rxdesc_ring demo_posted ! 0) = 0" by (simp add: demo_posted_def dma_post_rx_def demo_filled_def Let_def)
  have p: "pidx IPQ807X RXDESC demo_posted 0 = 1" "cidx IPQ807X RXDESC demo_posted 0 = 0"
    by (simp_all add: demo_posted_def dma_post_rx_def Let_def demo_idx ring_next_def)
       (simp_all add: pidx_def cidx_def reg_idx_def edma_reg_read_def edma_reg_write_def idx_base_def demo_filled_def demo_machine_def)
  show "0 \<in> set (ring_span 128 (cidx (ek_soc demo_edma) RXDESC demo_posted (rd_id (rxdesc_ring demo_posted ! 0)))
                          (pidx (ek_soc demo_edma) RXDESC demo_posted (rd_id (rxdesc_ring demo_posted ! 0))))"
    unfolding i using p by (simp add: demo_edma_def ring_span_def ring_dist_def)
qed

theorem edma_rx_frame_spec_witness:
  "\<exists>w'. edma_clean_rx_one demo_edma 0 0 demo_posted = Inr w' \<and> rx_slot demo_posted 0 0 < 128"
  using edma_rx_frame_spec [OF demo_posted_ok(1) _ demo_posted_ok(3)] demo_posted_ok(2) by auto



text \<open>
  C23. Interrupts come back after a poll: when a poll did less work than its budget, it has told NAPI so as its
  last call, and the interrupt mask of every receive, completion and fill ring is back at its working value.
\<close>

theorem edma_napi_rearms:
  assumes "engine_ok k" "edma_reach k L acc w" "edma_napi k budget w = Inr (n, w')" "n < budget"
  shows "unmasked (ek_soc k) w' \<and> last (ek_trace w') = Ek_napi_complete"
proof -
  have inv: "edma_inv k L acc w" by (rule edma_reach_inv [OF assms(1,2)])
  obtain m :: u32 and w1 where w1: "edma_inv k L acc w1" "edma_napi k budget w =
     (if sint m < budget then bindR (napi_unmask k L (ekcalls [Ek_napi_complete] w1)) (\<lambda>w. Inr (sint m, w)) else Inr (sint m, w1))"
    using edma_napi_split [OF assms(1) inv, of budget] by blast
  have m: "sint m < budget" using assms(3,4) w1(2) by (auto split: if_splits)
  then have "napi_unmask k L (ekcalls [Ek_napi_complete] w1) = Inr w'"
    using assms(3) w1(2) by (auto simp: bindR_eq_Inr)
  moreover have "edma_inv k L acc (ekcalls [Ek_napi_complete] w1)" by (rule edma_inv_calls [OF w1(1)]) simp_all
  ultimately show ?thesis using napi_unmask_ok [of k L acc "ekcalls [Ek_napi_complete] w1" w'] by simp
qed

text \<open>A poll with an unlimited budget always ends its round.\<close>

lemma sint_u32_less: "sint (n :: u32) < 0x80000000"
  using sint_lt [of n] by simp

theorem edma_napi_rearms_witness:
  "\<exists>w n w'. edma_reach demo_edma demo_layout {#} w \<and> edma_napi demo_edma 0x80000000 w = Inr (n, w')
     \<and> unmasked IPQ807X w' \<and> last (ek_trace w') = Ek_napi_complete"
proof -
  obtain w where w: "edma_reach demo_edma demo_layout {#} w" using demo_reach by blast
  have inv: "edma_inv demo_edma demo_layout {#} w" by (rule edma_reach_inv [OF demo_engine w])
  obtain n w' where n: "edma_napi demo_edma 0x80000000 w = Inr (n, w')" using edma_napi_inv [OF demo_engine inv] by blast
  obtain m :: u32 and w1 where "edma_napi demo_edma 0x80000000 w =
     (if sint m < 0x80000000 then bindR (napi_unmask demo_edma demo_layout (ekcalls [Ek_napi_complete] w1)) (\<lambda>w. Inr (sint m, w)) else Inr (sint m, w1))"
    using edma_napi_split [OF demo_engine inv, of "0x80000000"] by blast
  then have "bindR (napi_unmask demo_edma demo_layout (ekcalls [Ek_napi_complete] w1)) (\<lambda>w. Inr (sint m, w)) = Inr (n, w')"
    using n sint_u32_less [of m] by simp
  then have "n < 0x80000000" using sint_u32_less [of m] by (auto simp: bindR_eq_Inr)
  from edma_napi_rearms [OF demo_engine w n this] n w show ?thesis by (auto simp: demo_edma_def)
qed

text \<open>
  C24. The interrupt handler: it masks the interrupts of every receive, completion and fill ring and nothing
  else; it schedules the poll and claims the interrupt exactly when some ring has a status bit set. With no
  status bit set it returns \<open>IRQ_NONE\<close>, yet all rings are masked.
\<close>

theorem edma_handle_irq_spec:
  fixes k L acc w
  defines "M \<equiv> rxdesc_mask_regs w \<union> txcmpl_mask_regs (ek_soc k) w \<union> rxfill_mask_regs w"
  assumes "engine_ok k" "edma_reach k L acc w"
  shows "edma_handle_irq k True w =
     (if irq_pending (ek_soc k) w
      then Inr (IRQ_HANDLED, if ek_napi_schedule_prep k then ekcalls [Ek_napi_schedule] (set_regs M 0 w) else set_regs M 0 w)
      else Inr (IRQ_NONE, set_regs M 0 w))"
  unfolding M_def by (rule edma_handle_irq_ok [OF edma_reach_inv [OF assms(2,3)]])

theorem edma_handle_irq_spec_witness:
  "\<exists>w i w'. edma_reach demo_edma demo_layout {#} w \<and> edma_handle_irq demo_edma True w = Inr (i, w')
     \<and> (i = IRQ_HANDLED \<longleftrightarrow> irq_pending IPQ807X w)"
proof -
  obtain w where w: "edma_reach demo_edma demo_layout {#} w" using demo_reach by blast
  show ?thesis
    using edma_handle_irq_spec [OF demo_engine w] w
    by (intro exI [of _ w]) (auto simp: demo_edma_def split: if_splits)
qed

text \<open>
  C26. The transmit ring is chosen as the number of rings modulo the queue, so that with several rings a frame
  on a queue above their number selects a ring past the end: a well-formed frame then accesses the ring array
  out of range.
\<close>

theorem edma_xmit_queue_out_of_range:
  assumes "engine_ok k" "edma_reach k L acc w" "1 < txdesc_rings L" "txdesc_rings L < es_queue skb"
    "14 \<le> es_len skb" "\<not> es_nonlinear skb" "\<not> ek_expand_head k (es_ref skb)"
  shows "edma_if_xmit k (Some nd) skb w = Inl Index_Range"
proof -
  have inv: "edma_inv k L acc w" by (rule edma_reach_inv [OF assms(1,2)])
  have L: "layout w = L" using inv by (simp add: edma_inv_def)
  have "0 < txdesc_rings L" using assms(3) by (meson less_trans word_neq_0_conv zero_neq_one word_gt_0)
  then have "\<not> edma_select_ring w (es_queue skb) < txdesc_rings L"
    using edma_select_ring_range [of w "es_queue skb"] assms(3,4) by (auto simp: L)
  then have "\<not> unat (edma_select_ring w (es_queue skb)) < length (txdesc_ring w)"
    using edma_inv_lengths(3) [OF inv] by (simp add: word_less_nat_alt)
  then have "edma_ring_xmit k nd skb (unat (edma_select_ring w (es_queue skb))) v = Inl Index_Range" if "txdesc_ring v = txdesc_ring w" for v
    using that by (simp add: edma_ring_xmit_def aget_def)
  then show ?thesis using assms(5-7) by (auto simp: edma_if_xmit_def Let_def not_less)
qed

theorem edma_xmit_queue_out_of_range_witness:
  "\<exists>w. edma_reach demo_edma demo_layout {#} w \<and> edma_if_xmit demo_edma (Some 0) (demo_frame\<lparr>es_queue := 3\<rparr>) w = Inl Index_Range"
proof -
  obtain w where w: "edma_reach demo_edma demo_layout {#} w" using demo_reach by blast
  have "edma_if_xmit demo_edma (Some 0) (demo_frame\<lparr>es_queue := 3\<rparr>) w = Inl Index_Range"
    by (rule edma_xmit_queue_out_of_range [OF demo_engine w]) (simp_all add: demo_layout_def demo_frame_def demo_edma_def)
  with w show ?thesis by blast
qed

lemma txdesc_cleanup_next_unat: "unat x < 128 \<Longrightarrow> unat (txdesc_cleanup_next 128 x) = (unat x + 2) mod 128"
  unfolding txdesc_cleanup_next_def by (simp add: u16_succ_and_127 [simplified] ring_next_128 mod_simps)

lemma txdesc_cleanup_funpow: "unat x < 128 \<Longrightarrow> unat ((txdesc_cleanup_next 128 ^^ n) x) = (unat x + 2 * n) mod 128"
proof (induction n)
  case (Suc n)
  then have "unat ((txdesc_cleanup_next 128 ^^ n) x) < 128" by simp
  then show ?case using Suc by (simp add: txdesc_cleanup_next_unat mod_simps add.commute)
qed simp

text \<open>
  A walk whose body uses up a finite stock ends before its fuel does: by a fault of the body, or at its stopping index.
\<close>

lemma walk_ends:
  assumes "\<And>i s s'. body i s = Inr s' \<Longrightarrow> stock s' < (stock s :: nat)" "stock s < fuel" "walk fuel nxt body stop idx s = Inl e"
  shows "\<exists>i s. body i s = Inl e"
  using assms(2,3)
proof (induction fuel arbitrary: idx s)
  case (Suc fuel)
  have ne: "idx \<noteq> stop" using Suc.prems(2) by (auto simp: walk.simps)
  show ?case
  proof (cases "body idx s")
    case (Inr s')
    then have "walk fuel nxt body stop (nxt idx) s' = Inl e" using Suc.prems(2) ne by (simp add: walk.simps)
    then show ?thesis using Suc.IH [of s'] assms(1) [OF Inr] Suc.prems(1) by simp
  qed (use Suc.prems(2) ne in \<open>auto simp: walk.simps\<close>)
qed simp

lemma walk_stop: "walk fuel nxt body i i s = Inr s"
  by (simp add: walk.simps)

lemma stored_size: "size (stored s) \<le> length s"
  by (induction s) (auto split: option.split)

lemma walk_short: "(\<And>k. k \<le> fuel \<Longrightarrow> (nxt ^^ k) idx \<noteq> stop) \<Longrightarrow> walk fuel nxt body stop idx s \<noteq> Inr s'"
proof (induction fuel arbitrary: idx s)
  case 0
  then show ?case using "0" [of 0] by (simp add: walk.simps)
next
  case (Suc fuel)
  have ne: "idx \<noteq> stop" using Suc.prems [of 0] by simp
  have IH: "walk fuel nxt body stop (nxt idx) t \<noteq> Inr s'" for t
    by (rule Suc.IH) (use Suc.prems [of "Suc n" for n] in \<open>simp add: funpow_swap1\<close>)
  then show ?case using ne by (subst walk.simps) (auto simp: bindR_eq_Inr)
qed

lemma walk_returns:
  assumes "walk fuel nxt body stop idx s = Inr s'"
  shows "\<exists>n. (nxt ^^ n) idx = stop \<and> (\<forall>k < n. (nxt ^^ k) idx \<noteq> stop) \<and> for_list body (map (\<lambda>k. (nxt ^^ k) idx) [0..<n]) s = Inr s'"
proof (cases "\<exists>n. (nxt ^^ n) idx = stop")
  case True
  define n where "n = (LEAST n. (nxt ^^ n) idx = stop)"
  have n: "(nxt ^^ n) idx = stop" using True unfolding n_def by (rule LeastI_ex)
  have least: "(nxt ^^ k) idx \<noteq> stop" if "k < n" for k using that not_less_Least unfolding n_def by blast
  have "n \<le> fuel"
  proof (rule ccontr)
    assume "\<not> n \<le> fuel"
    then have "walk fuel nxt body stop idx s \<noteq> Inr s'" by (intro walk_short) (use least in auto)
    then show False using assms by simp
  qed
  then show ?thesis using assms n least walk_visits [of n nxt idx stop fuel body s] by auto
next
  case False
  then have "walk fuel nxt body stop idx s \<noteq> Inr s'" by (intro walk_short) auto
  then show ?thesis using assms by simp
qed

text \<open>The turn of the clean-up: it frees the buffer of a slot, or faults.\<close>

lemma cleanup_txdesc_one_frees:
  assumes "edma_cleanup_txdesc_one ring i w = Inr w'"
  shows "\<exists>b. stored (tx_skb_store w) = add_mset b (stored (tx_skb_store w')) \<and> ek_trace w' = ek_trace w @ [Ek_unmap_tx b, Ek_kfree b]"
  using assms stored_take [of _ "tx_skb_store w"]
  by (auto simp: edma_cleanup_txdesc_one_def Let_def aget_def split: option.splits if_splits)

lemma cleanup_txdesc_one_faults:
  "edma_cleanup_txdesc_one ring i w = Inl e \<Longrightarrow> e = Index_Range \<or> e = Null_Pointer"
  by (auto simp: edma_cleanup_txdesc_one_def Let_def aget_def split: option.splits if_splits)

lemma cleanup_txdesc_frees:
  assumes "for_list (edma_cleanup_txdesc_one ring) is w = Inr w'"
  shows "\<exists>bs. length bs = length is \<and> stored (tx_skb_store w) = mset bs + stored (tx_skb_store w') \<and> ek_trace w' = ek_trace w @ tx_release bs"
  using assms
proof (induction "is" arbitrary: w)
  case Nil
  then show ?case by simp
next
  case (Cons i "is")
  then obtain v where v: "edma_cleanup_txdesc_one ring i w = Inr v" "for_list (edma_cleanup_txdesc_one ring) is v = Inr w'"
    by (auto simp: bindR_eq_Inr)
  obtain b where b: "stored (tx_skb_store w) = add_mset b (stored (tx_skb_store v))" "ek_trace v = ek_trace w @ [Ek_unmap_tx b, Ek_kfree b]"
    using cleanup_txdesc_one_frees [OF v(1)] by blast
  obtain bs where "length bs = length is" "stored (tx_skb_store v) = mset bs + stored (tx_skb_store w')" "ek_trace w' = ek_trace v @ tx_release bs"
    using Cons.IH [OF v(2)] by blast
  with b show ?case by (intro exI [of _ "b # bs"]) (simp add: tx_release_def)
qed

text \<open>Steps of two meet the producer index only over an even distance, half way through the count of frames.\<close>

lemma cleanup_txdesc_turns:
  assumes "unat c < 128" "unat p < 128" "(txdesc_cleanup_next 128 ^^ n) c = p" "\<forall>k < n. (txdesc_cleanup_next 128 ^^ k) c \<noteq> p"
  shows "ring_dist 128 c p = 2 * n"
proof -
  have at: "(txdesc_cleanup_next 128 ^^ k) c = p \<longleftrightarrow> (unat c + 2 * k) mod 128 = unat p" for k
    using txdesc_cleanup_funpow [OF assms(1), of k] by (auto simp: word_unat_eq_iff)
  have "n < 64"
  proof (rule ccontr)
    assume "\<not> n < 64"
    then obtain m where m: "n = m + 64" using le_Suc_ex [of 64 n] by (auto simp: not_less add.commute)
    then have "(unat c + 2 * m) mod 128 = (unat c + 2 * n) mod 128" by (simp add: add.assoc [symmetric])
    then show False using at [of m] at [of n] assms(3,4) m by simp
  qed
  then have "(unat c + 2 * n) mod 128 = (if unat c + 2 * n < 128 then unat c + 2 * n else unat c + 2 * n - 128)"
    using assms(1) by (simp add: le_mod_geq)
  then have "unat p = (if unat c + 2 * n < 128 then unat c + 2 * n else unat c + 2 * n - 128)" using at [of n] assms(3) by simp
  then show ?thesis using \<open>n < 64\<close> unfolding ring_dist_def by (simp split: if_splits)
qed

text \<open>
  C27. The transmit clean-up of a ring always ends, but it only completes when the ring holds an even number of frames,
  because its index moves by two on every turn: it has then freed half as many buffers as there are frames, and the
  others stay in the store. In every other case it ends in an access outside the store or through a NULL slot:
  always when the number of frames is odd, and at once when the bus address of the oldest frame, which it takes for the number of
  a slot, is not below 128.
\<close>

theorem edma_cleanup_txdesc_ends:
  fixes w r
  defines "ring \<equiv> txdesc_ring w ! r"
  defines "p \<equiv> reg_idx w (EDMA_REG_TXDESC_PROD_IDX (td_id ring))" and "c \<equiv> reg_idx w (EDMA_REG_TXDESC_CONS_IDX (td_id ring))"
  assumes "edma_ok k w" "r < length (txdesc_ring w)"
  shows "((\<exists>w' bs. edma_cleanup_txdesc_ring_res r w = Inr w' \<and> ring_dist 128 c p = 2 * length bs
        \<and> stored (tx_skb_store w) = mset bs + stored (tx_skb_store w')
        \<and> ek_trace w' = ek_trace w @ tx_release bs @ [Ek_dma_free_coherent (td_dma ring)])
      \<or> edma_cleanup_txdesc_ring_res r w \<in> {Inl Index_Range, Inl Null_Pointer})
    \<and> (odd (ring_dist 128 c p) \<longrightarrow> edma_cleanup_txdesc_ring_res r w \<in> {Inl Index_Range, Inl Null_Pointer})
    \<and> (c \<noteq> p \<and> 128 \<le> unat (td_buffer_addr (td_desc ring ! unat c)) \<longrightarrow> edma_cleanup_txdesc_ring_res r w = Inl Index_Range)"
proof -
  note rr = edma_okD(5) [OF assms(4,5), unfolded txdesc_ok_def Let_def]
  have cp: "unat c < 128" "unat p < 128" "td_count ring = 128" "length (td_desc ring) = 128"
    using rr by (simp_all add: c_def p_def ring_def pidx_def cidx_def idx_base_def)
  have st: "length (tx_skb_store w) = 128" using edma_okD(1) [OF assms(4)] by (simp add: edma_shape_def)
  let ?walk = "walk 65536 (txdesc_cleanup_next 128) (edma_cleanup_txdesc_one ring) p c w"
  have run: "edma_cleanup_txdesc_ring_res r w = bindR ?walk (\<lambda>w. Inr (ekcalls [Ek_dma_free_coherent (td_dma ring)] w))"
    using assms(5) cp(3)
    by (simp add: edma_cleanup_txdesc_ring_res_def walk_u16_def aget_in Let_def ring_def [symmetric] p_def c_def reg_idx_def)
  have "size (stored (tx_skb_store w)) < 65536"
    using st stored_size [of "tx_skb_store w"] by simp
  then have faults: "e = Index_Range \<or> e = Null_Pointer" if "?walk = Inl e" for e
    using walk_ends [of "edma_cleanup_txdesc_one ring" "\<lambda>w. size (stored (tx_skb_store w))", OF _ _ that]
      cleanup_txdesc_one_frees cleanup_txdesc_one_faults by fastforce
  have ended: "\<exists>bs. ring_dist 128 c p = 2 * length bs \<and> stored (tx_skb_store w) = mset bs + stored (tx_skb_store v)
      \<and> ek_trace v = ek_trace w @ tx_release bs" if "?walk = Inr v" for v
    using walk_returns [OF that] cleanup_txdesc_frees cleanup_txdesc_turns [OF cp(1,2)] by fastforce
  have first: "?walk = Inl Index_Range" if "c \<noteq> p" "128 \<le> unat (td_buffer_addr (td_desc ring ! unat c))"
    using that cp(1,4) st by (subst walk.simps) (simp add: edma_cleanup_txdesc_one_def aget_def Let_def)
  show ?thesis
  proof (cases ?walk)
    case (Inl e)
    then show ?thesis using faults first unfolding run by auto
  next
    case (Inr v)
    with ended [OF Inr] first show ?thesis unfolding run by (auto simp: ekcalls_def)
  qed
qed

text \<open>A ring with one frame, whose bus address is that of a DMA buffer.\<close>

definition demo_unsent :: edma_world where
  "demo_unsent = edma_reg_write (demo_filled\<lparr>txph_mem := (txph_mem demo_filled)(Stack 0 := zero_txph), txdesc_ring := (txdesc_ring demo_filled)
     [0 := (txdesc_ring demo_filled ! 0)\<lparr>td_desc := replicate 128 \<lparr>td_buffer_addr = 0x50000000, td_word1 = 0\<rparr>\<rparr>]\<rparr>)
     (EDMA_REG_TXDESC_PROD_IDX 0) (ucast (1 :: u16))"

lemma demo_unsent_ok: "edma_ok demo_edma demo_unsent"
  unfolding demo_unsent_def idx_regs(1) [of _ "ek_soc demo_edma"]
  by (intro edma_ok_prod edma_ok_tx_write [OF demo_filled_ok]) (simp_all add: demo_filled_def zero_txph_def kind_max_def)

theorem edma_cleanup_txdesc_ends_witness:
  "edma_ok demo_edma demo_unsent \<and> edma_cleanup_txdesc_ring_res 0 demo_unsent = Inl Index_Range
    \<and> (\<exists>w'. edma_cleanup_txdesc_ring_res 0 demo_filled = Inr w' \<and> ek_trace w' = [Ek_dma_free_coherent 0])"
proof -
  have i: "td_id (txdesc_ring demo_unsent ! 0) = 0" "td_id (txdesc_ring demo_filled ! 0) = 0" "td_dma (txdesc_ring demo_filled ! 0) = 0"
    "0 < length (txdesc_ring demo_unsent)" "0 < length (txdesc_ring demo_filled)"
    "td_desc (txdesc_ring demo_unsent ! 0) ! 0 = \<lparr>td_buffer_addr = 0x50000000, td_word1 = 0\<rparr>"
    by (simp_all add: demo_unsent_def demo_filled_def)
  have x: "reg_idx demo_unsent (EDMA_REG_TXDESC_PROD_IDX 0) = 1" "reg_idx demo_unsent (EDMA_REG_TXDESC_CONS_IDX 0) = 0"
    "reg_idx demo_filled (EDMA_REG_TXDESC_PROD_IDX 0) = 0" "reg_idx demo_filled (EDMA_REG_TXDESC_CONS_IDX 0) = 0"
    by (simp_all add: demo_unsent_def reg_idx_def edma_reg_read_def edma_reg_write_def demo_filled_def demo_machine_def)
  have "edma_cleanup_txdesc_ring_res 0 demo_unsent = Inl Index_Range"
    using edma_cleanup_txdesc_ends [OF demo_unsent_ok i(4), unfolded i(1) x] i(6) by simp
  moreover have "edma_reg_read demo_filled a = 0" for a by (simp add: edma_reg_read_def demo_filled_def demo_machine_def)
  then have "edma_cleanup_txdesc_ring_res 0 demo_filled = Inr (ekcalls [Ek_dma_free_coherent 0] demo_filled)"
    by (simp add: edma_cleanup_txdesc_ring_res_def walk_u16_def walk_stop aget_in [OF i(5)] i)
  ultimately show ?thesis using demo_unsent_ok by (simp add: demo_filled_def demo_machine_def)
qed

section \<open>NAPI and the open ports\<close>

text \<open>
  The opens and closes of ports, in the order the kernel asks for them: it opens a port that is closed and closes one
  that is open. \<open>ports_after\<close> are the ports open afterwards, and \<open>napi_calls\<close> is what NAPI is to be told.
\<close>

datatype updown = Open_port nat | Close_port nat

fun port_call :: "updown \<Rightarrow> edma_world \<Rightarrow> edma_world" where
  "port_call (Open_port n) w = snd (edma_if_open (Some n) 0 0 0 w)"
| "port_call (Close_port n) w = snd (edma_if_close (Some n) w)"

fun orderly :: "nat set \<Rightarrow> updown list \<Rightarrow> bool" where
  "orderly S [] = True"
| "orderly S (Open_port n # cs) = (n \<notin> S \<and> orderly (insert n S) cs)"
| "orderly S (Close_port n # cs) = (n \<in> S \<and> orderly (S - {n}) cs)"

fun ports_after :: "nat set \<Rightarrow> updown list \<Rightarrow> nat set" where
  "ports_after S [] = S"
| "ports_after S (Open_port n # cs) = ports_after (insert n S) cs"
| "ports_after S (Close_port n # cs) = ports_after (S - {n}) cs"

fun napi_calls :: "nat set \<Rightarrow> updown list \<Rightarrow> edma_kcall list" where
  "napi_calls S [] = []"
| "napi_calls S (Open_port n # cs) = (if S = {} then [Ek_napi_enable] else []) @ napi_calls (insert n S) cs"
| "napi_calls S (Close_port n # cs) = (if S = {n} then [Ek_napi_disable] else []) @ napi_calls (S - {n}) cs"

lemma napi_balance:
  assumes "orderly S cs"
  shows "count_list (napi_calls S cs) Ek_napi_enable + (if S = {} then 0 else 1)
    = count_list (napi_calls S cs) Ek_napi_disable + (if ports_after S cs = {} then 0 else 1)"
  using assms
proof (induction S cs rule: orderly.induct)
  case (2 S n cs)
  then show ?case by (cases "S = {}") (auto split: if_splits)
next
  case (3 S n cs)
  then have "S - {n} = {} \<longleftrightarrow> S = {n}" "S \<noteq> {}" by auto
  then show ?case using 3 by (simp split: if_splits)
qed simp

text \<open>
  C28. NAPI and the ports that are open: along every sequence of opens of closed ports and closes of open ports, the
  data plane counts the open ports, enables NAPI with the open of a port while none is open and disables it with the close of
  the last open one, and calls it at no other moment; so that the enabling calls are ahead of the disabling ones, by one,
  exactly while some port is open.
\<close>

theorem edma_open_close_napi:
  assumes "finite S" "active w = int (card S)" "orderly S cs"
  shows "active (fold port_call cs w) = int (card (ports_after S cs)) \<and> ek_trace (fold port_call cs w) = ek_trace w @ napi_calls S cs
    \<and> (S = {} \<longrightarrow> count_list (napi_calls S cs) Ek_napi_enable
        = count_list (napi_calls S cs) Ek_napi_disable + (if ports_after S cs = {} then 0 else 1))"
proof -
  have "active (fold port_call cs w) = int (card (ports_after S cs)) \<and> ek_trace (fold port_call cs w) = ek_trace w @ napi_calls S cs"
    using assms
  proof (induction cs arbitrary: S w)
    case (Cons c cs)
    show ?case
    proof (cases c)
      case (Open_port n)
      have "active (port_call c w) = int (card (insert n S))" "ek_trace (port_call c w) = ek_trace w @ (if S = {} then [Ek_napi_enable] else [])"
        using Cons.prems Open_port by (auto simp: edma_if_open_def Let_def ekcalls_def)
      then show ?thesis using Cons.IH [of "insert n S" "port_call c w"] Cons.prems Open_port by simp
    next
      case (Close_port n)
      have one: "card S = 1 \<longleftrightarrow> S = {n}" using Cons.prems(3) Close_port by (auto simp: card_1_singleton_iff)
      have "card S = Suc (card (S - {n}))" using Cons.prems Close_port by (intro card.remove) auto
      then have "active (port_call c w) = int (card (S - {n}))" "ek_trace (port_call c w) = ek_trace w @ (if S = {n} then [Ek_napi_disable] else [])"
        using Cons.prems(2) Close_port one by (auto simp: edma_if_close_def Let_def ekcalls_def)
      then show ?thesis using Cons.IH [of "S - {n}" "port_call c w"] Cons.prems Close_port by simp
    qed
  qed simp
  then show ?thesis using napi_balance [OF assms(3)] by (cases "S = {}") simp_all
qed

theorem edma_open_close_napi_witness:
  "ek_trace (fold port_call [Open_port 0, Open_port 1, Close_port 0, Close_port 1, Open_port 1] demo_machine)
     = [Ek_napi_enable, Ek_napi_disable, Ek_napi_enable]"
proof -
  have calls: "orderly {} [Open_port 0, Open_port 1, Close_port 0, Close_port 1, Open_port 1]"
    "napi_calls {} [Open_port 0, Open_port 1, Close_port 0, Close_port 1, Open_port 1] = [Ek_napi_enable, Ek_napi_disable, Ek_napi_enable]"
    by (auto simp: insert_Diff_if)
  show ?thesis using edma_open_close_napi [OF _ _ calls(1), of demo_machine] calls(2) by (simp add: demo_machine_def)
qed

section \<open>Well-formedness\<close>

text \<open>
  C9. Every state the driver and the engine reach together is well-formed: the stores have 128 slots, the rings are
  those of the layout, each with 128 descriptors, a number of its own within the limits of the SoC and both indices
  in range, and every buffer in a store carries the number of a slot in its preheader.
\<close>

theorem edma_well_formed:
  assumes "engine_ok k" "edma_reach k L acc w"
  shows "edma_ok k w \<and> layout w = L"
  using edma_reach_inv [OF assms] by (simp add: edma_inv_def)

theorem edma_well_formed_witness:
  "\<exists>w. edma_reach demo_edma demo_layout {#} w \<and> edma_ok demo_edma w \<and> layout w = demo_layout"
proof -
  obtain w where w: "edma_reach demo_edma demo_layout {#} w" using demo_reach by blast
  show ?thesis using edma_well_formed [OF demo_engine w] w by blast
qed

end
