(* ===== verification/Edma_Port.thy ===== *)
theory Edma_Port
  imports Hal_Arch Edma_Reach Dp_Life
begin

text \<open>
  The driver on the EDMA SoCs: the EDMA data plane meets the contract of the net device driver, with the properties
  of ports that follow: opening, closing, transmitting, removal; and what a port does to the engine it shares with the others.
\<close>

section \<open>Setting up the interrupts returns\<close>

lemma yields_try_upto:
  assumes "\<And>i s. i < a + n \<Longrightarrow> P s \<Longrightarrow> yields (\<lambda>(r, w). P w) (f i s)" "P s"
  shows "yields (\<lambda>(r, w). P w) (try_upto a n f s)"
  using assms
proof (induction n arbitrary: a s)
  case (Suc n)
  have IH: "yields (\<lambda>(r, w). P w) (try_upto (Suc a) n f w)" if "P w" for w
    by (rule Suc.IH) (use Suc.prems(1) that in auto)
  have "yields (\<lambda>(r, w). P w) (f a s)" using Suc.prems by simp
  then show ?case by (auto simp: intro!: yields_bind2 [where P = P] yields_if IH)
qed simp

text \<open>The interrupt arrays of the engine have room for the rings of the layout.\<close>

definition irq_room :: "edma_layout \<Rightarrow> edma_world \<Rightarrow> bool" where
  "irq_room L w \<longleftrightarrow> unat (txcmpl_rings L) \<le> length (txcmpl_intr w) \<and> unat (rxfill_rings L) \<le> length (rxfill_intr w)
     \<and> unat (rxdesc_rings L) \<le> length (rxdesc_intr w)"

definition engine_inv :: "edma_kernel \<Rightarrow> edma_layout \<Rightarrow> skb_ref multiset \<Rightarrow> edma_world \<Rightarrow> bool" where
  "engine_inv k L acc w \<longleftrightarrow> edma_inv k L acc w \<and> irq_room L w"

lemma engine_invD: "engine_inv k L acc w \<Longrightarrow> edma_inv k L acc w" "engine_inv k L acc w \<Longrightarrow> irq_room L w"
    "engine_inv k L acc w \<Longrightarrow> layout w = L"
  by (simp_all add: engine_inv_def edma_inv_def)

lemma irq_room_calls [simp]: "irq_room L (ekcalls cs w) = irq_room L w"
  by (simp add: irq_room_def ekcalls_def)

lemma engine_inv_calls:
  "engine_inv k L acc w \<Longrightarrow> all_gone cs = {#} \<Longrightarrow> all_came cs = {#} \<Longrightarrow> engine_inv k L acc (ekcalls cs w)"
  by (simp add: engine_inv_def edma_inv_calls)

lemma get_irq_yields:
  assumes "engine_inv k L acc w"
  shows "i < unat (txcmpl_rings L) \<Longrightarrow> yields (engine_inv k L acc) (get_txcmpl_irq k i w)"
    "i < unat (rxfill_rings L) \<Longrightarrow> yields (engine_inv k L acc) (get_rxfill_irq k j i w)"
    "i < unat (rxdesc_rings L) \<Longrightarrow> yields (engine_inv k L acc) (get_rxdesc_irq k j i w)"
proof -
  note inv = get_irq_inv [OF engine_invD(1) [OF assms]] and room = engine_invD(2) [OF assms, unfolded irq_room_def]
  show "i < unat (txcmpl_rings L) \<Longrightarrow> yields (engine_inv k L acc) (get_txcmpl_irq k i w)"
    using inv(1) [of i] room by (simp add: engine_inv_def get_txcmpl_irq_def aset_in irq_room_def)
  show "i < unat (rxfill_rings L) \<Longrightarrow> yields (engine_inv k L acc) (get_rxfill_irq k j i w)"
    using inv(2) [of j i] room by (simp add: engine_inv_def get_rxfill_irq_def aset_in irq_room_def)
  show "i < unat (rxdesc_rings L) \<Longrightarrow> yields (engine_inv k L acc) (get_rxdesc_irq k j i w)"
    using inv(3) [of j i] room by (simp add: engine_inv_def get_rxdesc_irq_def aset_in irq_room_def)
qed

lemma request_irq_keeps:
  assumes "engine_inv k L acc w"
  shows "engine_inv k L acc (snd (request_irq k irq w))"
  using assms request_irq_inv [of k L acc w irq] by (auto simp: engine_inv_def request_irq_def)

lemma irqs_yield:
  assumes "engine_inv k L acc w" "\<And>v. engine_inv k L acc v \<Longrightarrow> n \<le> length (intr v)"
  shows "yields (\<lambda>(b, w). engine_inv k L acc w) (request_irqs k intr n w)"
    "yields (engine_inv k L acc) (free_irqs c intr n w)"
proof -
  have one: "yields (\<lambda>(r, w). engine_inv k L acc w) (bindR (aget (intr v) i) (\<lambda>irq. Inr (request_irq k irq v)))"
      "yields (engine_inv k L acc) (bindR (aget (intr v) i) (\<lambda>irq. Inr (ekcalls [Ek_sync_irq irq, Ek_free_irq irq c] v)))"
    if "i < n" "engine_inv k L acc v" for i v
    using assms(2) [OF that(2)] that request_irq_keeps [OF that(2), of "intr v ! i"] engine_inv_calls [OF that(2)]
    by (simp_all add: aget_in split_beta gone_def came_def)
  show "yields (\<lambda>(b, w). engine_inv k L acc w) (request_irqs k intr n w)"
    unfolding request_irqs_def by (rule yields_try_upto [where P = "engine_inv k L acc"]) (use one assms(1) in simp_all)
  show "yields (engine_inv k L acc) (free_irqs c intr n w)"
    unfolding free_irqs_def by (rule yields_upto) (use one assms(1) in simp_all)
qed

lemma irq_room_le:
  assumes "engine_inv k L acc v"
  shows "unat (txcmpl_rings L) \<le> length (txcmpl_intr v)" "unat (rxfill_rings L) \<le> length (rxfill_intr v)"
    "unat (rxdesc_rings L) \<le> length (rxdesc_intr v)"
  using assms by (simp_all add: engine_inv_def irq_room_def)

lemma mask_irq_room:
  assumes "irq_room L w"
  shows "edma_set_rxdesc_mask m i w = Inr w' \<Longrightarrow> irq_room L w'" "edma_set_txcmpl_mask s m i w = Inr w' \<Longrightarrow> irq_room L w'"
    "edma_set_rxfill_mask m i w = Inr w' \<Longrightarrow> irq_room L w'"
  using assms by (auto simp: edma_set_rxdesc_mask_def edma_set_txcmpl_mask_def edma_set_rxfill_mask_def bindR_eq_Inr
      irq_room_def edma_reg_write_def)

lemma mask_yields:
  assumes "engine_inv k L acc w"
  shows "i < unat (rxdesc_rings L) \<Longrightarrow> yields (engine_inv k L acc) (edma_set_rxdesc_mask m i w)"
    "i < unat (txcmpl_rings L) \<Longrightarrow> yields (engine_inv k L acc) (edma_set_txcmpl_mask (ek_soc k) m i w)"
    "i < unat (rxfill_rings L) \<Longrightarrow> yields (engine_inv k L acc) (edma_set_rxfill_mask m i w)"
  using set_mask_inv [OF engine_invD(1) [OF assms], of i m] mask_irq_room [OF engine_invD(2) [OF assms]]
  unfolding yields_def engine_inv_def by blast+

lemma masks_yield:
  assumes "engine_inv k L acc w"
  shows "yields (engine_inv k L acc) (for_upto 0 (unat (rxdesc_rings L)) (edma_set_rxdesc_mask m) w)"
    "yields (engine_inv k L acc) (for_upto 0 (unat (txcmpl_rings L)) (edma_set_txcmpl_mask (ek_soc k) m) w)"
    "yields (engine_inv k L acc) (for_upto 0 (unat (rxfill_rings L)) (edma_set_rxfill_mask m) w)"
  by (rule yields_upto; use assms mask_yields in blast)+

lemma engine_inv_same:
  assumes "engine_inv k L acc w"
  shows "engine_inv k L acc (w\<lparr>misc_intr := i\<rparr>)" "engine_inv k L acc (w\<lparr>napi_added := b\<rparr>)"
    "engine_inv k L acc (w\<lparr>needed_headroom := h\<rparr>)" "engine_inv k L acc (w\<lparr>active := n\<rparr>)"
    "length arr = length (netdev_arr w) \<Longrightarrow> engine_inv k L acc (w\<lparr>netdev_arr := arr\<rparr>)"
    "int_reg (ek_soc k) reg \<Longrightarrow> engine_inv k L acc (edma_reg_write w reg v)"
  using assms by (auto simp: engine_inv_def irq_room_def same_rings_def edma_reg_write_def
      intro: edma_inv_same edma_inv_netdev edma_inv_int [unfolded edma_reg_write_def])

lemma edma_irq_init_yields:
  assumes "engine_inv k L acc w"
  shows "yields (\<lambda>(r, w). engine_inv k L acc w) (edma_irq_init k w)"
proof -
  have misc: "int_reg (ek_soc k) EDMA_REG_MISC_INT_MASK" by (simp add: int_reg_def)
  have tail: "yields (\<lambda>(r, w). engine_inv k L acc w)
      (bindR (for_upto 0 (unat (rxfill_rings L)) (edma_set_rxfill_mask (rxfill_intr_mask v)) v) (\<lambda>w.
       bindR (for_upto 0 (unat (txcmpl_rings L)) (edma_set_txcmpl_mask (ek_soc k) (txcmpl_intr_mask w)) w) (\<lambda>w.
       bindR (for_upto 0 (unat (rxdesc_rings L)) (edma_set_rxdesc_mask (rxdesc_intr_mask w)) w) (\<lambda>w.
       Inr (Success, edma_reg_write w EDMA_REG_MISC_INT_MASK (misc_intr_mask w))))))" if "engine_inv k L acc v" for v
    by (intro yields_bind [where P = "engine_inv k L acc"] masks_yield that) (simp_all add: engine_inv_same(6) misc)
  have req: "yields (\<lambda>(r, w). engine_inv k L acc w) (case request_irq k i v of (ret, w) \<Rightarrow> f ret w)"
    if "engine_inv k L acc v" "\<And>ret w. engine_inv k L acc w \<Longrightarrow> yields (\<lambda>(r, w). engine_inv k L acc w) (f ret w)" for v f i
    using request_irq_keeps [OF that(1), of i] that(2) by (simp add: split_beta)
  show ?thesis
    unfolding edma_irq_init_def engine_invD(3) [OF assms] Let_def
    by (intro yields_bind [where P = "engine_inv k L acc"] yields_bind2 [where P = "engine_inv k L acc"] yields_if
        yields_upto irqs_yield get_irq_yields tail req engine_inv_same(1) irq_room_le assms) (simp_all add: irqs_yield irq_room_le)
qed

lemma edma_if_init_yields:
  assumes "engine_inv k L acc w"
  shows "yields (\<lambda>(r, w). engine_inv k L acc w) (edma_if_init k (Some nd) w)"
proof -
  let ?a = "unat (ek_macid k nd) - 1"
  have reg: "yields (\<lambda>(r, w). engine_inv k L acc w) (edma_register_netdevice k (Some nd) (ek_macid k nd) w)"
  proof (cases "unat (ek_macid k nd) < EDMA_START_GMACS \<or> unat (ek_macid k nd) > EDMA_MAX_GMACS (ek_soc k)")
    case False
    then have "?a < length (netdev_arr w)"
      using edma_inv_lengths(5) [OF engine_invD(1) [OF assms]] by auto
    then have a: "aset (netdev_arr w) ?a (Some nd) = Inr ((netdev_arr w)[?a := Some nd])" by (rule aset_in)
    have w1: "engine_inv k L acc (w\<lparr>netdev_arr := (netdev_arr w)[?a := Some nd]\<rparr>)" using assms by (simp add: engine_inv_same)
    have w2: "engine_inv k L acc (ekcalls [Ek_napi_add nd] (w\<lparr>netdev_arr := (netdev_arr w)[?a := Some nd]\<rparr>))"
      by (rule engine_inv_calls [OF w1]) (simp_all add: gone_def came_def)
    have irq: "yields (\<lambda>(r, w). engine_inv k L acc w) (bindR (edma_irq_init k
        (ekcalls [Ek_napi_add nd] (w\<lparr>netdev_arr := (netdev_arr w)[?a := Some nd]\<rparr>))) (\<lambda>(ret, w).
        if failed ret then Inr (Errno EINVAL, w) else Inr (Success, w\<lparr>napi_added := True\<rparr>)))"
      by (rule yields_bind2 [where P = "engine_inv k L acc", OF edma_irq_init_yields [OF w2]]) (simp add: engine_inv_same)
    show ?thesis using False a w1 irq by (auto simp: edma_register_netdevice_def Let_def)
  qed (use assms in \<open>auto simp: edma_register_netdevice_def\<close>)
  show ?thesis
    unfolding edma_if_init_def option.case
    by (rule yields_bind2 [where P = "engine_inv k L acc"]) (simp_all add: reg engine_inv_same)
qed

section \<open>The EDMA data plane meets the contract\<close>

text \<open>The invariant of the engine does not depend on the port numbers of the net devices.\<close>

lemma engine_inv_macid [simp]: "engine_inv (k\<lparr>ek_macid := f\<rparr>) L acc w = engine_inv k L acc w"
  by (simp add: engine_inv_def edma_inv_def edma_ok_def edma_shape_def tags_ok_def)

lemma engine_inv_edma_k [simp]: "engine_inv (edma_k k w) L acc v = engine_inv k L acc v"
  by (simp add: edma_k_def)

text \<open>The context of a port is one of the MAC whose table it has.\<close>

definition mac_fits :: "'v edma_hal nss_dp_dev \<Rightarrow> bool" where
  "mac_fits p \<longleftrightarrow> (case (gmac_hal_ops p, gmac_hal_ctx p) of (Some Qcom_hal_ops, Some (Hal_qcom d)) \<Rightarrow> True
     | (Some Syn_hal_ops, Some (Hal_xgmac d)) \<Rightarrow> True | _ \<Rightarrow> False)"

lemma mac_fitsE:
  assumes "mac_fits p"
  obtains d where "gmac_hal_ops p = Some Qcom_hal_ops" "gmac_hal_ctx p = Some (Hal_qcom d)"
    | d where "gmac_hal_ops p = Some Syn_hal_ops" "gmac_hal_ctx p = Some (Hal_xgmac d)"
  using assms by (auto simp: mac_fits_def split: option.splits hal_ref.splits edma_hal.splits)

lemma mac_fitsI:
  "gmac_hal_ops p = Some Qcom_hal_ops \<Longrightarrow> mac_fits (p\<lparr>gmac_hal_ctx := Some (Hal_qcom d)\<rparr>)"
  "gmac_hal_ops p = Some Syn_hal_ops \<Longrightarrow> mac_fits (p\<lparr>gmac_hal_ctx := Some (Hal_xgmac d')\<rparr>)"
  by (simp_all add: mac_fits_def)

lemma mac_fits_wiring [simp]: "mac_fits (p\<lparr>data_plane_ops := o', dpc := c\<rparr>) = mac_fits p"
  by (simp add: mac_fits_def)

definition edma_port :: "edma_kernel \<Rightarrow> edma_layout \<Rightarrow> skb_ref multiset \<Rightarrow> nat \<Rightarrow> 'v edma_driver \<Rightarrow> bool" where
  "edma_port k L acc n w \<longleftrightarrow> engine_inv k L acc (dp w)
     \<and> (\<exists>p d. privs w n = Some p \<and> netdevs w n = Some d \<and> port_linked n w p \<and> mac_fits p)"

lemma edma_port_dp: "edma_port k L acc n w \<Longrightarrow> engine_inv k L acc s \<Longrightarrow> edma_port k L acc n (w\<lparr>dp := s\<rparr>)"
  by (auto simp: edma_port_def port_linked_def)

lemma edma_op_runs:
  assumes "edma_port k L acc n w" "yields (\<lambda>(r, s). engine_inv k L acc s) (f (dp w))"
  shows "runs (edma_port k L acc) n w (edma_op f w)"
  using assms by (auto simp: edma_op_def yields_def runs_def keeps_own edma_port_dp)

lemma edma_dev_op_runs:
  assumes "edma_port k L acc n w" "privs w n = Some p" "yields (\<lambda>(r, s). engine_inv k L acc s) (f (Some n) (dp w))"
  shows "runs (edma_port k L acc) n w (edma_dev_op ov (dpc p) f w)"
proof -
  obtain i where "dpc p = Some (Dpc_global i)" "i < length (dp_ctx w)" "dp_ctx w ! i = Some n"
    using assms(1,2) by (auto simp: edma_port_def port_linked_def)
  from dpc_dev_linked [OF this] show ?thesis using edma_op_runs [of k L acc n w "f (Some n)", OF assms(1,3)] by (simp add: edma_dev_op_def)
qed

lemma edma_table:
  assumes "edma_port k L acc n w" "privs w n = Some p"
  shows "call_op (edma_env k m x) p entry f =
    (case entry (nss_dp_edma_ops k (ke_overlay_dev x)) of None \<Rightarrow> Inl Null_Pointer | Some g \<Rightarrow> f g)"
  using assms by (auto simp: call_op_def edma_env_def edma_port_def port_linked_def)

lemma edma_vsi_keeps:
  assumes "engine_inv k L acc s"
  shows "engine_inv k L acc (snd (edma_if_vsi_assign k' c v s))" "engine_inv k L acc (snd (edma_if_vsi_unassign k' c v s))"
  using assms by (auto simp: edma_if_vsi_assign_def edma_if_vsi_unassign_def Let_def gone_def came_def intro!: engine_inv_calls)

lemma edma_open_close_keeps:
  assumes "engine_inv k L acc s"
  shows "engine_inv k L acc (snd (edma_if_open c t r m s))" "engine_inv k L acc (snd (edma_if_close c s))"
  using assms by (auto simp: edma_if_open_def edma_if_close_def Let_def gone_def came_def intro!: engine_inv_calls engine_inv_same)

lemma edma_port_inv: "edma_port k L acc n w \<Longrightarrow> engine_inv k L acc (dp w)"
  by (simp add: edma_port_def)

lemma yields_pair: "yields (\<lambda>(r, s). P s) (Inr x) = P (snd x)"
  by (simp add: split_beta)

text \<open>The MACs: their address and their statistics.\<close>

lemma edma_ctx_runs:
  assumes "edma_port k L acc n w" "privs w n = Some p" "mac_fits (p\<lparr>gmac_hal_ctx := c\<rparr>)"
  shows "runs (edma_port k L acc) n w (Inr (r, upd_priv n (\<lambda>p. p\<lparr>gmac_hal_ctx := c\<rparr>) w))"
  using assms by (auto simp: runs_def edma_port_def port_linked_def port_view_def intro!: keeps_own(4))

lemma edma_mac_runs:
  assumes "edma_port k L acc n w" "privs w n = Some p"
  shows "runs (edma_port k L acc) n w (call_hal (edma_env k m x) p (\<lambda>h. bindR (ho_setmacaddr h (gmac_hal_ctx p) a) (\<lambda>c.
      Inr (Success, upd_priv n (\<lambda>p. p\<lparr>gmac_hal_ctx := c\<rparr>) w))))"
    "runs (edma_port k L acc) n w (call_hal (edma_env k m x) p (\<lambda>h. bindR (ho_getndostats h src (gmac_hal_ctx p) st) (\<lambda>(_, c, st).
      Inr (st, upd_priv n (\<lambda>p. p\<lparr>gmac_hal_ctx := c\<rparr>) w))))"
proof -
  have "mac_fits p" using assms by (auto simp: edma_port_def)
  note ctx = edma_ctx_runs [OF assms]
  from \<open>mac_fits p\<close> show "runs (edma_port k L acc) n w (call_hal (edma_env k m x) p (\<lambda>h. bindR (ho_setmacaddr h (gmac_hal_ctx p) a) (\<lambda>c.
      Inr (Success, upd_priv n (\<lambda>p. p\<lparr>gmac_hal_ctx := c\<rparr>) w))))"
    by (cases rule: mac_fitsE; cases a) (simp_all add: call_hal_def edma_env_def qcom_hal_ops_def syn_xgmac_hal_ops_def qcom_ctx_def xgmac_ctx_def
        Syn_Xgmac.syn_set_mac_address_def ctx mac_fitsI)
  from \<open>mac_fits p\<close> show "runs (edma_port k L acc) n w (call_hal (edma_env k m x) p (\<lambda>h. bindR (ho_getndostats h src (gmac_hal_ctx p) st) (\<lambda>(_, c, st).
      Inr (st, upd_priv n (\<lambda>p. p\<lparr>gmac_hal_ctx := c\<rparr>) w))))"
    by (cases rule: mac_fitsE) (auto simp: call_hal_def edma_env_def qcom_hal_ops_def syn_xgmac_hal_ops_def qcom_ctx_def xgmac_ctx_def
        Syn_Xgmac.syn_get_netdev_stats_def ctx mac_fitsI Let_def split_beta split: prod.splits)
qed

lemmas edma_ops_keep = edma_port_inv edma_vsi_keeps edma_open_close_keeps

interpretation edma_dp: data_plane "edma_env k m x" "edma_port k L acc"
proof (unfold_locales, goal_cases)
  case (1 n w) then show ?case by (auto simp: edma_port_def)
next
  case (2 n w f) then show ?case by (auto simp: edma_port_def port_linked_def)
next
  case (3 n w cs) then show ?case by (auto simp: edma_port_def port_linked_def)
next
  case (4 n w b) then show ?case by (auto simp: edma_port_def port_linked_def)
next
  case (5 n w g)
  then have "mac_fits (g p) = mac_fits p" for p by (simp add: mac_fits_def)
  then show ?case using 5 by (auto simp: edma_port_def port_linked_def)
next
  case (6 n w p)
  have "yields (\<lambda>(r, s). engine_inv k L acc s) (edma_if_init (edma_k k w) (Some n) (dp w))"
    using edma_if_init_yields [of "edma_k k w" L acc "dp w" n] edma_port_inv [OF 6(1)] by simp
  then show ?case using 6 by (simp add: edma_table nss_dp_edma_ops_def edma_dev_op_runs)
next
  case (7 n w p)
  then show ?case using edma_port_inv [OF 7(1)]
    by (simp add: edma_table nss_dp_edma_ops_def runs_def keeps_own edma_port_dp edma_if_set_features_def)
qed (auto simp: edma_table nss_dp_edma_ops_def edma_if_link_state_def edma_if_mac_addr_def edma_if_change_mtu_def
    intro!: edma_dev_op_runs edma_op_runs edma_mac_runs simp: yields_pair edma_ops_keep simp del: yields_Inr)

section \<open>What a port does to the engine\<close>

text \<open>
  The engine is shared by the ports. What the port of number \<open>m\<close> does to it: it sets its own entry of \<open>netdev_arr\<close>,
  counts itself in or out, and the first one sets up NAPI and the interrupts; the rings, the buffers in the stores, the
  preheaders and every register that is not one of the interrupts stay as they are, and so do the entries of the
  other ports.
\<close>

definition frames_of :: "edma_world \<Rightarrow> _" where
  "frames_of w = (layout w, rx_skb_store w, tx_skb_store w, rxfill_ring w, txdesc_ring w, rxdesc_ring w, txcmpl_ring w,
     rxph_mem w, txph_mem w, ek_allocs w)"

definition engine_apart :: "edma_kernel \<Rightarrow> u32 \<Rightarrow> edma_world \<Rightarrow> edma_world \<Rightarrow> bool" where
  "engine_apart k m s s' \<longleftrightarrow> frames_of s' = frames_of s \<and> (\<forall>r. \<not> int_reg (ek_soc k) r \<longrightarrow> regs s' r = regs s r)
     \<and> length (netdev_arr s') = length (netdev_arr s) \<and> (\<forall>j. j \<noteq> unat m - 1 \<longrightarrow> netdev_arr s' ! j = netdev_arr s ! j)"

lemma engine_apart_refl [simp]: "engine_apart k m s s"
  by (simp add: engine_apart_def)

lemma engine_apart_trans: "engine_apart k m s s1 \<Longrightarrow> engine_apart k m s1 s2 \<Longrightarrow> engine_apart k m s s2"
  by (simp add: engine_apart_def)

lemma apart_own:
  assumes "engine_apart k m s v"
  shows "engine_apart k m s (ekcalls cs v)" "engine_apart k m s (v\<lparr>misc_intr := i\<rparr>)" "engine_apart k m s (v\<lparr>txcmpl_intr := ti\<rparr>)"
    "engine_apart k m s (v\<lparr>rxfill_intr := fi\<rparr>)" "engine_apart k m s (v\<lparr>rxdesc_intr := ri\<rparr>)" "engine_apart k m s (v\<lparr>napi_added := b\<rparr>)"
    "engine_apart k m s (v\<lparr>needed_headroom := h\<rparr>)" "engine_apart k m s (v\<lparr>active := a\<rparr>)"
    "engine_apart k m s (v\<lparr>netdev_arr := (netdev_arr v)[unat m - 1 := nd]\<rparr>)"
    "int_reg (ek_soc k) r \<Longrightarrow> engine_apart k m s (edma_reg_write v r x)"
  using assms by (auto simp: engine_apart_def frames_of_def ekcalls_def edma_reg_write_def)

text \<open>Setting up the interrupts.\<close>

lemma get_irq_apart:
  assumes "engine_apart k m s v"
  shows "ends (engine_apart k m s) (get_txcmpl_irq k i v)" "ends (engine_apart k m s) (get_rxfill_irq k e i v)"
    "ends (engine_apart k m s) (get_rxdesc_irq k e i v)"
  by (auto simp: get_txcmpl_irq_def get_rxfill_irq_def get_rxdesc_irq_def result_elims ends_def intro!: apart_own [OF assms])

lemma request_irq_apart: "engine_apart k m s v \<Longrightarrow> engine_apart k m s (snd (request_irq k irq v))"
  by (simp add: request_irq_def apart_own)

lemma irqs_apart:
  assumes "engine_apart k m s v"
  shows "ends (\<lambda>(bad, w). engine_apart k m s w) (request_irqs k intr n v)" "ends (engine_apart k m s) (free_irqs c intr n v)"
  unfolding request_irqs_def free_irqs_def
  by (rule ends_try ends_upto; use assms request_irq_apart in \<open>auto simp: split_beta apart_own intro!: ends_any\<close>)+

lemma masks_apart:
  assumes "edma_ok k s" "engine_apart k m s v"
  shows "ends (engine_apart k m s) (edma_set_rxdesc_mask x i v)" "ends (engine_apart k m s) (edma_set_txcmpl_mask (ek_soc k) x i v)"
    "ends (engine_apart k m s) (edma_set_rxfill_mask x i v)"
proof -
  have "rxdesc_ring v = rxdesc_ring s" "txcmpl_ring v = txcmpl_ring s" "rxfill_ring v = rxfill_ring s"
    using assms(2) by (simp_all add: engine_apart_def frames_of_def)
  then show "ends (engine_apart k m s) (edma_set_rxdesc_mask x i v)" "ends (engine_apart k m s) (edma_set_txcmpl_mask (ek_soc k) x i v)"
      "ends (engine_apart k m s) (edma_set_rxfill_mask x i v)"
    using ring_int_regs [OF assms(1), of i] apart_own(10) [OF assms(2)]
    by (auto simp: ends_def edma_set_rxdesc_mask_def edma_set_txcmpl_mask_def edma_set_rxfill_mask_def result_elims)
qed

lemma edma_irq_init_apart:
  assumes ok: "edma_ok k s" and v: "engine_apart k m s v"
  shows "ends (\<lambda>(r, w). engine_apart k m s w) (edma_irq_init k v)"
proof -
  note loops = ends_upto [where P = "engine_apart k m s", OF masks_apart(1) [OF ok]] ends_upto [where P = "engine_apart k m s", OF masks_apart(2) [OF ok]]
    ends_upto [where P = "engine_apart k m s", OF masks_apart(3) [OF ok]]
  have tail: "ends (\<lambda>(r, w). engine_apart k m s w)
      (bindR (for_upto 0 nfill (edma_set_rxfill_mask (rxfill_intr_mask u)) u) (\<lambda>w.
       bindR (for_upto 0 ntx (edma_set_txcmpl_mask (ek_soc k) (txcmpl_intr_mask w)) w) (\<lambda>w.
       bindR (for_upto 0 nrx (edma_set_rxdesc_mask (rxdesc_intr_mask w)) w) (\<lambda>w.
       Inr (Success, edma_reg_write w EDMA_REG_MISC_INT_MASK (misc_intr_mask w))))))" if "engine_apart k m s u" for u nfill ntx nrx
    by (intro ends_bind [where P = "engine_apart k m s"] loops that) (simp_all add: apart_own int_reg_def)
  have req: "ends (\<lambda>(r, w). engine_apart k m s w) (case request_irq k i u of (ret, w) \<Rightarrow> f ret w)"
    if "engine_apart k m s u" "\<And>ret w. engine_apart k m s w \<Longrightarrow> ends (\<lambda>(r, w). engine_apart k m s w) (f ret w)" for u f i
    using request_irq_apart [OF that(1), of i] that(2) by (simp add: split_beta)
  show ?thesis
    unfolding edma_irq_init_def Let_def
    by (intro ends_bind [where P = "engine_apart k m s"] ends_bind2 [where P = "engine_apart k m s"] ends_if
        ends_upto irqs_apart get_irq_apart tail req apart_own v) simp_all
qed

lemma edma_if_init_apart:
  assumes "edma_ok k s"
  shows "ends (\<lambda>(r, s'). engine_apart k (ek_macid k nd) s s') (edma_if_init k (Some nd) s)"
proof -
  let ?m = "ek_macid k nd"
  have irq: "ends (\<lambda>(r, w). engine_apart k ?m s w) (bindR (edma_irq_init k v) (\<lambda>(ret, w).
      if failed ret then Inr (Errno EINVAL, w) else Inr (Success, w\<lparr>napi_added := True\<rparr>)))" if "engine_apart k ?m s v" for v
    by (rule ends_bind2 [where P = "engine_apart k ?m s", OF edma_irq_init_apart [OF assms that]]) (simp add: apart_own)
  have "ends (\<lambda>(r, w). engine_apart k ?m s w) (edma_register_netdevice k (Some nd) ?m s)"
    unfolding edma_register_netdevice_def option.case Let_def
    by (rule ends_if, simp) (auto simp: aset_def intro!: irq apart_own(1) apart_own(9) [unfolded One_nat_def])
  then show ?thesis unfolding edma_if_init_def option.case
    by (rule ends_bind2 [where P = "engine_apart k ?m s"]) (auto intro: apart_own)
qed

lemma engine_apart_edma_k [simp]: "engine_apart (edma_k k w) = engine_apart k"
  by (simp add: edma_k_def engine_apart_def fun_eq_iff)

lemma edma_op_state: "edma_op f w = Inr (r, w') \<longleftrightarrow> (\<exists>s. f (dp w) = Inr (r, s) \<and> w' = w\<lparr>dp := s\<rparr>)"
  by (auto simp: edma_op_def bindR_eq_Inr)

text \<open>What a call of the port does: the net device its context gives is its own.\<close>

lemma edma_calls_apart:
  assumes port: "edma_port k L acc n w" "privs w n = Some p" and call: "calls_of (edma_env k m x) p n w (Inr w')"
  shows "engine_apart k (macid p) (dp w) (dp w')"
proof -
  obtain i where i: "dpc p = Some (Dpc_global i)" "i < length (dp_ctx w)" "dp_ctx w ! i = Some n"
    using port by (auto simp: edma_port_def port_linked_def)
  note dev = dpc_dev_linked [OF i] and table = edma_table [OF port] nss_dp_edma_ops_def
  have "edma_ok (edma_k k w) (dp w)" using edma_port_inv [OF port(1)]
    by (simp add: engine_inv_def edma_inv_def edma_k_def edma_ok_def edma_shape_def tags_ok_def)
  note init_apart = edma_if_init_apart [OF this, of n]
  have num: "ek_macid (edma_k k w) n = macid p" using port(2) by (simp add: edma_k_def)
  have init: "engine_apart k (macid p) (dp w) s" if "edma_if_init (edma_k k w) (Some n) (dp w) = Inr (r, s)" for r s
    using that num init_apart by (auto simp: ends_def)
  from call show ?thesis
  proof (cases rule: calls_of.cases)
    case call_init
    then show ?thesis using init by (auto simp: table state_of_eq edma_dev_op_def dev edma_op_state)
  next
    case (call_mac_set a)
    then show ?thesis by (auto simp: state_of_eq call_hal_def bindR_eq_Inr split: option.splits)
  next
    case (call_mac_stats st)
    then show ?thesis by (auto simp: state_of_eq call_hal_def bindR_eq_Inr split: option.splits)
  qed (auto simp: table state_of_eq edma_dev_op_def dev edma_op_state edma_if_vsi_assign_def edma_if_vsi_unassign_def edma_if_mac_addr_def
      edma_if_change_mtu_def edma_if_open_def edma_if_close_def edma_if_link_state_def edma_if_set_features_def Let_def apart_own
      split: if_splits)
qed

interpretation edma_parts: data_plane_parts "edma_env k m x" "edma_port k L acc" "engine_apart k"
proof (unfold_locales, goal_cases)
  case (2 m s s1 s2) then show ?case by (rule engine_apart_trans)
next
  case (3 n w p w') then show ?case by (rule edma_calls_apart)
qed simp

end
