(* ===== verification/Edma_Lines.thy ===== *)
theory Edma_Lines
  imports Edma_Port
begin

text \<open>
  The interrupt lines of the engine are recorded when the first net device registers and stay: the data path, the
  interrupt handlers and the engine leave them alone, so the condition \<open>engine_inv\<close> of the data plane is kept by
  everything that runs on an engine.
\<close>

section \<open>The lines through the data path\<close>

definition lines :: "edma_world \<Rightarrow> _" where
  "lines w = (txcmpl_intr w, rxfill_intr w, rxdesc_intr w)"

abbreviation (input) same_lines :: "edma_world \<Rightarrow> edma_world \<Rightarrow> bool" where
  "same_lines w \<equiv> \<lambda>w'. lines w' = lines w"

lemma lines_own [simp]:
  "lines (ekcalls cs w) = lines w" "lines (edma_reg_write w r v) = lines w" "lines (w\<lparr>rx_skb_store := s\<rparr>) = lines w"
  "lines (w\<lparr>tx_skb_store := s\<rparr>) = lines w" "lines (w\<lparr>rxph_mem := m\<rparr>) = lines w" "lines (w\<lparr>txph_mem := m'\<rparr>) = lines w"
  "lines (w\<lparr>rxfill_ring := rf\<rparr>) = lines w" "lines (w\<lparr>txdesc_ring := td\<rparr>) = lines w" "lines (w\<lparr>rxdesc_ring := rd\<rparr>) = lines w"
  "lines (w\<lparr>txcmpl_ring := tc\<rparr>) = lines w" "lines (w\<lparr>ek_allocs := a\<rparr>) = lines w"
  by (simp_all add: lines_def ekcalls_def edma_reg_write_def)

lemma irq_room_lines: "lines w' = lines w \<Longrightarrow> irq_room L w' = irq_room L w"
  by (simp add: lines_def irq_room_def)

lemma desc_set_lines:
  "rxfill_desc_set r i d w = Inr w' \<Longrightarrow> lines w' = lines w" "txdesc_set r i d' w = Inr w' \<Longrightarrow> lines w' = lines w"
  by (auto simp: rxfill_desc_set_def txdesc_set_def result_elims)

lemma alloc_one_lines: "edma_alloc_rx_one k r nx w = Inr (go, w') \<Longrightarrow> lines w' = lines w"
  by (auto simp: edma_alloc_rx_one_def Let_def result_elims dest!: desc_set_lines split: if_splits)

lemma alloc_loop_lines: "edma_alloc_rx_loop k r c cons nx n w = Inr (nx', n', w') \<Longrightarrow> lines w' = lines w"
proof (induction k r c cons nx n w rule: edma_alloc_rx_loop.induct)
  case (1 k r c cons nx n w)
  then show ?case
    by (subst (asm) edma_alloc_rx_loop.simps) (auto simp: Let_def dest: alloc_one_lines split: sum.splits if_splits)
qed

lemma refill_lines: "edma_alloc_rx_buffer k r w = Inr (n, w') \<Longrightarrow> lines w' = lines w"
  by (auto simp: edma_alloc_rx_buffer_def Let_def result_elims dest!: alloc_loop_lines)

lemma ends_walk:
  assumes "\<And>i s. P s \<Longrightarrow> ends P (body i s)" "P s"
  shows "ends P (walk f nxt body stop idx s)"
  using assms(2)
proof (induction f arbitrary: idx s)
  case 0
  then show ?case by (subst walk.simps) simp
next
  case (Suc f)
  then show ?case by (subst walk.simps) (auto intro!: ends_bind [where P = P] assms(1))
qed

lemma clean_tx_one_lines: "edma_clean_tx_one r i w = Inr w' \<Longrightarrow> lines w' = lines w"
  by (auto simp: edma_clean_tx_one_def Let_def result_elims split: option.splits)

lemma clean_tx_lines: "edma_clean_tx k r w = Inr (n, w') \<Longrightarrow> lines w' = lines w"
proof -
  let ?body = "\<lambda>i (n :: u32, w). bindR (edma_clean_tx_one r i w) (\<lambda>w. Inr (n + 1, w))"
  have w: "ends (\<lambda>(n, w'). lines w' = lines w) (walk f nxt ?body stop idx (0, w))" for f nxt stop idx
    by (rule ends_walk) (auto simp: ends_def result_elims dest!: clean_tx_one_lines)
  have reap: "lines w' = lines w" if "walk f nxt ?body stop idx (0, w) = Inr (n, w')" for f nxt stop idx n w'
    using endsD [OF w that] by simp
  show "edma_clean_tx k r w = Inr (n, w') \<Longrightarrow> lines w' = lines w"
    unfolding edma_clean_tx_def Let_def walk_u16_def
    by (auto simp: result_elims dest!: reap split: if_splits)
qed

section \<open>The engine\<close>

lemma dma_lines: "edma_dma k w w' \<Longrightarrow> lines w' = lines w"
  by (induction rule: edma_dma.induct) (simp_all add: dma_post_rx_def dma_post_txcmpl_def Let_def)

lemma dma_star_lines: "rtranclp (edma_dma k) w w' \<Longrightarrow> lines w' = lines w"
  by (induction rule: rtranclp_induct) (auto dest: dma_lines)

lemma rx_deliver_lines: "edma_rx_deliver k ph d s w = Inr w' \<Longrightarrow> lines w' = lines w"
  by (auto simp: edma_rx_deliver_def Let_def nss_phy_tstamp_rx_buf_def result_elims split: option.splits if_splits)

lemma clean_rx_one_lines: "edma_clean_rx_one k r i w = Inr w' \<Longrightarrow> lines w' = lines w"
  by (auto simp: edma_clean_rx_one_def Let_def result_elims dest!: rx_deliver_lines split: option.splits)

lemma clean_rx_loop_lines:
  assumes "engine_ok k" "edma_clean_rx_loop k r rid cnt todo ci wd w = Inr (c, d, w')"
  shows "lines w' = lines w"
  using assms
proof (induction k r rid cnt todo ci wd w rule: edma_clean_rx_loop.induct)
  case (1 k r rid cnt todo ci wd w)
  have "rtranclp (edma_dma k) w (ek_rx_hw k r (unat wd) w)" using 1(2) by (simp add: engine_ok_def)
  then have hw: "lines (ek_rx_hw k r (unat wd) w) = lines w" by (rule dma_star_lines)
  note run = 1(3) [unfolded edma_clean_rx_loop.simps [of k r rid cnt todo ci wd w] Let_def]
  show ?case using run hw "1.IH" [OF refl refl _ _ 1(2)] by (auto simp: result_elims dest!: clean_rx_one_lines split: if_splits)
qed

lemma clean_rx_lines: "engine_ok k \<Longrightarrow> edma_clean_rx k todo r w = Inr (n, w') \<Longrightarrow> lines w' = lines w"
  by (auto simp: edma_clean_rx_def Let_def result_elims dest!: clean_rx_loop_lines refill_lines)

section \<open>Polls, interrupts and transmission\<close>

lemma mask_lines:
  "edma_set_rxdesc_mask m i w = Inr w' \<Longrightarrow> lines w' = lines w" "edma_set_txcmpl_mask s m i w = Inr w' \<Longrightarrow> lines w' = lines w"
  "edma_set_rxfill_mask m i w = Inr w' \<Longrightarrow> lines w' = lines w" "edma_wake_one k i w = Inr w' \<Longrightarrow> lines w' = lines w"
  by (auto simp: edma_set_rxdesc_mask_def edma_set_txcmpl_mask_def edma_set_rxfill_mask_def edma_wake_one_def result_elims
      split: option.splits if_splits)

lemma irq_one_lines:
  "rxdesc_irq_one i s = Inr s' \<Longrightarrow> lines (snd s') = lines (snd s)" "txcmpl_irq_one so i s = Inr s' \<Longrightarrow> lines (snd s') = lines (snd s)"
  "rxfill_irq_one i s = Inr s' \<Longrightarrow> lines (snd s') = lines (snd s)"
  by (auto simp: rxdesc_irq_one_def txcmpl_irq_one_def rxfill_irq_one_def result_elims Let_def split_beta)

lemma loop_lines:
  assumes "\<And>i s s'. f i s = Inr s' \<Longrightarrow> lines (snd s') = lines (snd s)" "lines (snd s) = lines w"
  shows "ends (\<lambda>s. lines (snd s) = lines w) (for_upto a n f s)"
  by (rule ends_upto [where P = "\<lambda>s. lines (snd s) = lines w", OF _ assms(2)]) (auto simp: ends_def assms(1))

lemma loop_lines1:
  assumes "\<And>i s s'. f i s = Inr s' \<Longrightarrow> lines s' = lines s" "lines s = lines w"
  shows "ends (same_lines w) (for_upto a n f s)"
  by (rule ends_upto [where P = "same_lines w", OF _ assms(2)]) (auto simp: ends_def assms(1))

lemma add_work_lines:
  assumes "\<And>w n w'. f i w = Inr (n, w') \<Longrightarrow> lines w' = lines w" "add_work f i s = Inr s'"
  shows "lines (snd s') = lines (snd s)"
  using assms by (auto simp: add_work_def result_elims split: prod.splits)

lemma ends_bind_snd:
  assumes "ends (\<lambda>s. P (snd s)) m" "\<And>r w. P w \<Longrightarrow> ends Q (f r w)"
  shows "ends Q (bindR m (\<lambda>(r, w). f r w))"
  using assms by (auto simp: ends_def bindR_eq_Inr)

lemmas masks_lines = loop_lines1 [OF mask_lines(1)] loop_lines1 [OF mask_lines(2)] loop_lines1 [OF mask_lines(3)]
  loop_lines1 [OF mask_lines(4)]

lemma napi_lines:
  assumes "engine_ok k" "edma_napi k budget w = Inr (n, w')"
  shows "lines w' = lines w"
proof -
  have work: "lines (snd s) = lines w \<Longrightarrow> ends (\<lambda>s. lines (snd s) = lines w) (for_upto 0 a (add_work (edma_clean_rx k budget)) s)"
    "lines (snd s) = lines w \<Longrightarrow> ends (\<lambda>s. lines (snd s) = lines w) (for_upto 0 a (add_work (edma_clean_tx k)) s)"
    "lines (snd s) = lines w \<Longrightarrow> ends (\<lambda>s. lines (snd s) = lines w) (for_upto 0 a (add_work (edma_alloc_rx_buffer k)) s)" for s a
    by (rule loop_lines, erule add_work_lines [rotated], erule clean_rx_lines [OF assms(1)] clean_tx_lines refill_lines, assumption)+
  have "ends (\<lambda>(n, w'). lines w' = lines w) (edma_napi k budget w)"
    unfolding edma_napi_def Let_def
    by (rule ends_bind [OF work(1)], simp, rule ends_bind [OF work(2)], assumption,
        rule ends_bind_snd [where P = "same_lines w", OF work(3)], assumption,
        intro ends_bind [where P = "same_lines w"] ends_if masks_lines) simp_all
  then show ?thesis using assms(2) by (auto simp: ends_def)
qed

lemma irq_lines:
  assumes "edma_handle_irq k d w = Inr (r, w')"
  shows "lines w' = lines w"
proof -
  note stat = loop_lines [OF irq_one_lines(1)] loop_lines [OF irq_one_lines(2)] loop_lines [OF irq_one_lines(3)]
  have "ends (\<lambda>(n, w'). lines w' = lines w) (edma_handle_irq k d w)"
    unfolding edma_handle_irq_def Let_def
    by (intro ends_if ends_bind_snd [where P = "same_lines w"] ends_bind [where P = "same_lines w"] stat masks_lines) simp_all
  then show ?thesis using assms by (auto simp: ends_def)
qed

lemma ends_aget: "(\<And>x. ends Q (f x)) \<Longrightarrow> ends Q (bindR (aget xs i) f)"
  by (rule ends_any)

lemma ring_xmit_lines: "ends (\<lambda>(x, w'). lines w' = lines w) (edma_ring_xmit k nd skb r w)"
proof -
  have set: "lines v = lines w \<Longrightarrow> ends (same_lines w) (txdesc_set r i d v)" for i d v
    by (auto simp: ends_def dest: desc_set_lines)
  have stamp: "lines (nss_phy_tstamp_tx_buf k nd s v) = lines v" for s v by (simp add: nss_phy_tstamp_tx_buf_def)
  show ?thesis
    unfolding edma_ring_xmit_def Let_def
    by (intro ends_aget ends_if ends_bind [where P = "same_lines w"] set) (simp_all add: stamp)
qed

lemma xmit_lines: "ends (\<lambda>(r, w'). lines w' = lines w) (edma_if_xmit k c skb w)"
proof -
  have ring: "lines v = lines w \<Longrightarrow> ends (\<lambda>(x, w'). lines w' = lines w) (edma_ring_xmit k nd skb r v)" for nd r v
    using ring_xmit_lines [of v] by simp
  have sent: "lines v = lines w \<Longrightarrow> ends (\<lambda>(r, w'). lines w' = lines w) (case x of EDMA_TX_OK \<Rightarrow> Inr (NETDEV_TX_OK, v)
      | EDMA_TX_DESC \<Rightarrow> Inr (NETDEV_TX_BUSY, ekcalls [Ek_stop_queue nd] v) | EDMA_TX_FAIL \<Rightarrow> Inr (edma_xmit_drop nd skb v))" for x v nd
    by (cases x) (simp_all add: edma_xmit_drop_def)
  show ?thesis
  proof (cases c)
    case (Some nd)
    show ?thesis
      unfolding edma_if_xmit_def Let_def Some option.case
      by (intro ends_if ends_bind2 [where P = "same_lines w"] ring sent) (simp_all add: edma_xmit_drop_def)
  qed (simp add: edma_if_xmit_def)
qed

section \<open>Everything on the engine keeps its condition\<close>

lemma engine_inv_lines: "engine_inv k L acc w \<Longrightarrow> edma_inv k L acc' w' \<Longrightarrow> lines w' = lines w \<Longrightarrow> engine_inv k L acc' w'"
  using irq_room_lines [of w' w L] by (simp add: engine_inv_def)

lemma engine_napi:
  assumes "engine_ok k" "engine_inv k L acc w"
  shows "yields (\<lambda>(n, w'). engine_inv k L acc w') (edma_napi k budget w)"
  using edma_napi_inv [OF assms(1) engine_invD(1) [OF assms(2)], of budget] napi_lines [OF assms(1)] engine_inv_lines [OF assms(2)]
  by (auto simp: yields_def)

lemma engine_irq:
  assumes "engine_inv k L acc w"
  shows "yields (\<lambda>(r, w'). engine_inv k L acc w') (edma_handle_irq k d w)" "engine_inv k L acc (snd (edma_handle_misc_irq w))"
  using edma_handle_irq_inv [OF engine_invD(1) [OF assms], of d] irq_lines engine_inv_lines [OF assms]
    edma_misc_irq_inv [OF engine_invD(1) [OF assms]]
  by (auto simp: yields_def edma_handle_misc_irq_def Let_def)

lemma engine_dma: "engine_inv k L acc w \<Longrightarrow> edma_dma k w w' \<Longrightarrow> engine_inv k L acc w'"
  using edma_inv_dma [of k L acc w w'] engine_inv_lines [of k L acc w acc w'] dma_lines [of k w w'] by (auto simp: engine_inv_def)

text \<open>A frame whose queue selects a ring that exists.\<close>

definition queue_fits :: "edma_layout \<Rightarrow> edma_skb \<Rightarrow> bool" where
  "queue_fits L skb \<longleftrightarrow> 0 < txdesc_rings L \<and> (txdesc_rings L = 1 \<or> es_queue skb \<le> txdesc_rings L)"

lemma engine_xmit:
  assumes "engine_inv k L acc w"
  shows "edma_if_xmit k c skb w = Inr (ret, w') \<Longrightarrow> engine_inv k L (if ret = NETDEV_TX_OK then add_mset (es_ref skb) acc else acc) w'"
    "queue_fits L skb \<Longrightarrow> \<exists>ret w'. edma_if_xmit k (Some nd) skb w = Inr (ret, w')"
proof -
  note inv = engine_invD(1) [OF assms]
  show "edma_if_xmit k c skb w = Inr (ret, w') \<Longrightarrow> engine_inv k L (if ret = NETDEV_TX_OK then add_mset (es_ref skb) acc else acc) w'"
    using edma_xmit_keeps [OF inv] engine_inv_lines [OF assms] endsD [OF xmit_lines] by fastforce
  show "\<exists>ret w'. edma_if_xmit k (Some nd) skb w = Inr (ret, w')" if "queue_fits L skb"
    using edma_if_xmit_inv [OF inv, of skb nd] edma_select_ring_range [of w "es_queue skb"] engine_invD(3) [OF assms] that
    by (auto simp: queue_fits_def word_less_nat_alt)
qed

text \<open>The engine does not look at the numbers of the ports.\<close>

lemma edma_dma_macid: "edma_dma (k\<lparr>ek_macid := f\<rparr>) w w' \<longleftrightarrow> edma_dma k w w'"
proof -
  have "edma_dma k w w'" if "edma_dma k' w w'" "ek_soc k' = ek_soc k" "ek_map_rx k' = ek_map_rx k" for k k' :: edma_kernel
    using that(1) unfolding edma_dma.simps [of k'] edma_dma.simps [of k] that(2,3) .
  from this [of "k\<lparr>ek_macid := f\<rparr>" k] this [of k "k\<lparr>ek_macid := f\<rparr>"] show ?thesis by auto
qed

lemma engine_ok_macid [simp]: "engine_ok (edma_k k w) = engine_ok k"
proof -
  have "edma_dma (k\<lparr>ek_macid := f\<rparr>) = edma_dma k" for f by (intro ext) (rule edma_dma_macid)
  then show ?thesis by (simp add: engine_ok_def edma_k_def)
qed

section \<open>The lines through the initialisation\<close>

lemma lines_modify [simp]: "lines (edma_reg_modify r f w) = lines w"
  by (simp add: edma_reg_modify_def)

lemma for_rings_lines: "(\<And>i w. lines (f i w) = lines w) \<Longrightarrow> lines (for_rings a n f w) = lines w"
  by (induction n arbitrary: a w) simp_all

lemma map_txcmpl_lines [simp]: "lines (edma_map_txcmpl w) = lines w"
proof -
  have "lines (edma_map_txcmpl_loop a n d w) = lines w" for a n d w
    by (induction n arbitrary: a d w) (simp_all add: Let_def)
  then show ?thesis by (simp add: edma_map_txcmpl_def Let_def)
qed

lemma prepared_lines [simp]: "lines (edma_prepared k w) = lines w"
proof -
  have "lines (edma_quiesce s w) = lines w" for s w by (simp add: edma_quiesce_def Let_def for_rings_lines)
  moreover have "lines (w\<lparr>misc_intr_mask := a, rxfill_intr_mask := b, rxdesc_intr_mask := c, txcmpl_intr_mask := d,
      rx_payload_offset := e, active := f, edma_initialized := g\<rparr>) = lines w" for a b c d e f g by (simp add: lines_def)
  ultimately show ?thesis by (simp add: edma_prepared_def Let_def split: soc.split)
qed

lemma enable_lines [simp]: "lines (edma_enable s w) = lines w"
proof -
  have "lines (w\<lparr>edma_initialized := b\<rparr>) = lines w" for w b by (simp add: lines_def)
  then show ?thesis by (cases s) (simp_all add: edma_enable_def Let_def for_range_def for_rings_lines)
qed

lemma configure_lines: "edma_configure_rings k w = Inr w' \<Longrightarrow> lines w' = lines w"
proof -
  have one: "edma_configure_txdesc_ring i v = Inr v' \<Longrightarrow> lines v' = lines v" "edma_configure_txcmpl_ring k i v = Inr v' \<Longrightarrow> lines v' = lines v"
      "edma_configure_rxfill_ring k i v = Inr v' \<Longrightarrow> lines v' = lines v" "edma_configure_rxdesc_ring i v = Inr v' \<Longrightarrow> lines v' = lines v" for i v v'
    by (auto simp: edma_configure_txdesc_ring_def edma_configure_txcmpl_ring_def edma_configure_rxfill_ring_def edma_configure_rxdesc_ring_def
        Let_def result_elims dest!: refill_lines)
  note loops = loop_lines1 [OF one(1)] loop_lines1 [OF one(2)] loop_lines1 [OF one(3)] loop_lines1 [OF one(4)]
  have "ends (same_lines w) (edma_configure_rings k w)"
    unfolding edma_configure_rings_def Let_def by (intro ends_bind [where P = "same_lines w"] loops) simp_all
  then show "edma_configure_rings k w = Inr w' \<Longrightarrow> lines w' = lines w" by (auto simp: ends_def)
qed

lemma map_rxfill_lines: "edma_map_rxfill w = Inr w' \<Longrightarrow> lines w' = lines w"
proof -
  have one: "edma_map_rxfill_one i v = Inr v' \<Longrightarrow> lines v' = lines v" for i v v'
    by (auto simp: edma_map_rxfill_one_def result_elims)
  have "ends (same_lines w) (edma_map_rxfill w)"
    unfolding edma_map_rxfill_def Let_def by (intro loop_lines1 [OF one]) simp_all
  then show "edma_map_rxfill w = Inr w' \<Longrightarrow> lines w' = lines w" by (auto simp: ends_def)
qed

lemma hw_init_lines:
  assumes "edma_hw_init k w = Inr (Success, w')"
  shows "lines w' = lines w"
proof -
  have c: "ek_reset_control k" using assms by (cases "ek_reset_control k") (simp_all add: edma_hw_init_def edma_hw_reset_def)
  obtain v w1 w2 where 1: "edma_init_rings k (edma_prepared k w) = Inr (Success, v)" "edma_configure_rings k v = Inr w1"
      "edma_map_rxfill w1 = Inr w2" "w' = edma_enable (ek_soc k) w2"
    using assms unfolding edma_hw_init_eq [OF c] by (auto simp: bindR_eq_Inr failed_def split: if_splits)
  have "lines v = lines w"
    using edma_init_rings_ok [OF 1(1)] prepared_lines [of k w] by (auto simp: outside_rings_def lines_def)
  then show ?thesis using configure_lines [OF 1(2)] map_rxfill_lines [OF 1(3)] 1(4) by simp
qed

section \<open>The engine starts\<close>

text \<open>The device tree node of the engine, with the layout \<open>L\<close> it describes.\<close>

definition edma_node :: "edma_dt \<Rightarrow> edma_layout \<Rightarrow> bool" where
  "edma_node dt L \<longleftrightarrow> dt_node dt \<and> dt_pdev dt \<and> dt_resource dt
     \<and> dt_txdesc_ring_start dt = Some (txdesc_ring_start L) \<and> dt_txdesc_rings dt = Some (txdesc_rings L)
     \<and> dt_txcmpl_ring_start dt = Some (txcmpl_ring_start L) \<and> dt_txcmpl_rings dt = Some (txcmpl_rings L)
     \<and> dt_rxfill_ring_start dt = Some (rxfill_ring_start L) \<and> dt_rxfill_rings dt = Some (rxfill_rings L)
     \<and> dt_rxdesc_ring_start dt = Some (rxdesc_ring_start L) \<and> dt_rxdesc_rings dt = Some (rxdesc_rings L)
     \<and> txdesc_ring_end L = txdesc_ring_start L + txdesc_rings L \<and> txcmpl_ring_end L = txcmpl_ring_start L + txcmpl_rings L
     \<and> rxfill_ring_end L = rxfill_ring_start L + rxfill_rings L \<and> rxdesc_ring_end L = rxdesc_ring_start L + rxdesc_rings L"

lemma of_get_pdata_layout: "edma_node (ek_dt k) L \<Longrightarrow> edma_of_get_pdata k w = (Success, w\<lparr>layout := L\<rparr>)"
  by (simp add: edma_node_def edma_of_get_pdata_def Let_def of_read_def)

text \<open>The machine before the module starts: idle index registers and the static arrays of \<open>struct edma_hw\<close>.\<close>

definition edma_off :: "edma_kernel \<Rightarrow> edma_world \<Rightarrow> bool" where
  "edma_off k w \<longleftrightarrow> idle (ek_soc k) w \<and> length (netdev_arr w) = NSS_DP_HAL_MAX_PORTS (ek_soc k) \<and> ek_trace w = []
     \<and> length (txcmpl_intr w) = EDMA_MAX_TXCMPL_RINGS (ek_soc k) \<and> length (rxfill_intr w) = EDMA_MAX_RXFILL_RINGS
     \<and> length (rxdesc_intr w) = EDMA_MAX_RXDESC_RINGS"

text \<open>A layout within the limits of the SoC, described by the device tree.\<close>

definition edma_fits :: "edma_kernel \<Rightarrow> edma_layout \<Rightarrow> bool" where
  "edma_fits k L \<longleftrightarrow> edma_node (ek_dt k) L \<and> layout_ok (ek_soc k) L"

lemma edma_off_boot: "edma_off k w \<Longrightarrow> edma_fits k L \<Longrightarrow> edma_boot k (w\<lparr>layout := L\<rparr>) \<and> irq_room L (w\<lparr>layout := L\<rparr>)"
  by (auto simp: edma_off_def edma_fits_def edma_boot_def idle_def pidx_def cidx_def reg_idx_def edma_reg_read_def irq_room_def
      layout_ok_def kind_max_def)

lemma edma_init_engine:
  assumes "edma_off k w" "edma_fits k L" "edma_init k w = Inr (Success, w')"
  shows "engine_inv k L {#} w'"
proof -
  let ?w = "w\<lparr>layout := L\<rparr>"
  note b = edma_off_boot [OF assms(1,2)]
  have "edma_of_get_pdata k w = (Success, ?w)" using assms(2) by (simp add: edma_fits_def of_get_pdata_layout)
  then obtain v where v: "edma_hw_init k ?w = Inr (Success, v)" "w' = (ekcalls [Ek_set_drvdata] v)\<lparr>napi_added := False\<rparr>"
    using assms(3) by (auto simp: edma_init_def bindR_eq_Inr failed_def split: if_splits)
  have "edma_inv k L {#} v" using edma_hw_init_inv [OF conjunct1 [OF b] v(1)] by simp
  moreover have "irq_room L v" using irq_room_lines [OF hw_init_lines [OF v(1)]] b by simp
  ultimately have "engine_inv k L {#} v" by (simp add: engine_inv_def)
  then show ?thesis unfolding v(2) by (intro engine_inv_same(2) engine_inv_calls) (simp_all add: gone_def came_def)
qed

lemma edma_init_succeeds:
  assumes "edma_off k w" "edma_fits k L" "memory_ok k" "ek_request_mem_region k" "ek_ioremap k"
  shows "\<exists>w'. edma_init k w = Inr (Success, w')"
proof -
  have "edma_of_get_pdata k w = (Success, w\<lparr>layout := L\<rparr>)" using assms(2) by (simp add: edma_fits_def of_get_pdata_layout)
  then show ?thesis
    using edma_hw_init_succeeds [OF conjunct1 [OF edma_off_boot [OF assms(1,2)]] assms(3)] assms(4,5) by (auto simp: edma_init_def)
qed

end
