(* ===== verification/Edma_Driver.thy ===== *)
theory Edma_Driver
  imports Edma_Lines Dp_Fleet
begin

text \<open>
  The driver on the EDMA SoCs: the EDMA data plane with the Qualcomm and the 10G MACs meets the contract of a SoC;
  the start of the module, the hand-over of a port and the removal.
\<close>

section \<open>Probing a port\<close>

text \<open>A kernel with memory for the net device, and a platform with the resources of the MACs.\<close>

definition edma_served :: "'v mac_plat \<Rightarrow> ('h, 's, 'k) kernel_env \<Rightarrow> port_dt \<Rightarrow> ('h, 's) dp_world \<Rightarrow> bool" where
  "edma_served m x t w \<longleftrightarrow> ke_alloc_etherdev x (nd_allocs w) \<and> (pt_mactype t = Some 0 \<or> pt_mactype t = Some 1)
     \<and> (\<forall>i. pe_resource (mp_env m i) \<noteq> None \<and> pe_kzalloc (mp_env m i) \<and> pe_request_mem_region (mp_env m i) \<noteq> None \<and> pe_ioremap (mp_env m i) \<noteq> 0)"

definition edma_tables :: "'v edma_driver \<Rightarrow> bool" where
  "edma_tables w \<longleftrightarrow> gmac_ops w = [Some Qcom_hal_ops, Some Syn_hal_ops, None]"

lemma edma_probe_succeeds:
  assumes "tables_ok (edma_env k m x) w" "edma_tables w" "edma_served m x t w" "dt_complete (edma_env k m x) t"
  shows "\<exists>w'. nss_dp_probe (edma_env k m x) t pd w = Inr (Success, w')"
proof (rule probe_succeeds)
  have "fst (ho_init (qcom_hal_ops m) pd fl tr) \<noteq> None" "fst (ho_init (syn_xgmac_hal_ops m) pd fl tr) \<noteq> None" for pd fl tr
    using assms(3) by (auto simp: edma_served_def qcom_hal_ops_def syn_xgmac_hal_ops_def qcom_init_def Syn_Xgmac.syn_init_def Let_def split: option.splits)
  then show "mac_starts (edma_env k m x) t w"
    using assms(2,3) by (auto simp: mac_starts_def edma_served_def edma_env_def edma_tables_def)
qed (use assms in \<open>simp_all add: tables_ok_def edma_env_def edma_served_def\<close>)

lemma edma_mac_ready:
  assumes "mac_ready (edma_env k m x) n i p"
  shows "mac_fits p"
proof -
  obtain r c pd tr tr' where p: "gmac_hal_ops p = Some r" "gmac_hal_ctx p = Some c"
      "ho_init (de_hal (edma_env k m x) r) pd 0 tr = (Some c, dp_flags p, tr')"
    using assms by (auto simp: mac_ready_def)
  then show ?thesis by (cases r) (auto simp: mac_fits_def edma_env_def qcom_hal_ops_def syn_xgmac_hal_ops_def)
qed

lemma edma_probe_done:
  assumes "tables_ok (edma_env k m x) w" "engine_inv k L acc (dp w)" "probe_done (edma_env k m x) i n w w'"
  shows "edma_port k L acc n w'"
proof -
  obtain p d where p: "privs w' n = Some p" "netdevs w' n = Some d" "mac_ready (edma_env k m x) n i p"
    using assms(3) by (auto simp: probe_done_def)
  have "0 < unat i" "unat i \<le> NSS_DP_HAL_MAX_PORTS (ek_soc k)" "dp_ctx w' = (dp_ctx w)[unat i - 1 := Some n]" "dp w' = dp w"
    using assms(3) by (simp_all add: probe_done_def edma_env_def)
  moreover have "mac_fits p" by (rule edma_mac_ready [OF p(3)])
  ultimately show ?thesis using p assms(1,2) by (auto simp: edma_port_def port_linked_def mac_ready_def wired_def tables_ok_def edma_env_def)
qed

interpretation edma_soc: soc_driver "edma_env k m x" "edma_port k L acc" "engine_apart k" "engine_inv k L acc"
proof (unfold_locales, goal_cases)
  case 1 show ?case by (simp add: edma_env_def)
next
  case (2 n w) then show ?case by (rule edma_port_inv)
next
  case (3 n w p) then show ?case by (auto simp: edma_port_def)
next
  case (4 n w w' p) then show ?case by (auto simp: edma_port_def)
next
  case (5 w i n w') then show ?case by (rule edma_probe_done)
next
  case (6 r pd tr c fl tr') then show ?case by (cases r) (auto simp: edma_env_def qcom_hal_ops_def syn_xgmac_hal_ops_def)
qed

section \<open>The start of the module\<close>

text \<open>The globals before the module starts: the engine off, the tables empty.\<close>

definition edma_boot_world :: "edma_kernel \<Rightarrow> 'v edma_driver \<Rightarrow> bool" where
  "edma_boot_world k w \<longleftrightarrow> edma_off k (dp w) \<and> gmac_ops w = [None, None, None]
     \<and> nss_dp w = replicate (NSS_DP_HAL_MAX_PORTS (ek_soc k)) None \<and> length (dp_ctx w) = NSS_DP_HAL_MAX_PORTS (ek_soc k)"

lemma edma_module_init:
  assumes "edma_boot_world k w"
  shows "nss_dp_init True (edma_hal_init k) r w = bindR (edma_init k (dp w)) (\<lambda>(ret, s).
     let w1 = w\<lparr>common_init_done := False, gmac_ops := [Some Qcom_hal_ops, Some Syn_hal_ops, None], dp := s\<rparr>
     in if failed ret then Inr (Errno EFAULT, w1) else Inr (r, w1\<lparr>common_init_done := True\<rparr>))"
  using assms
  by (auto simp: edma_boot_world_def nss_dp_init_def edma_hal_init_def nss_dp_hal_set_gmac_ops_def edma_op_def aset_def
      bindR_def Let_def split: sum.splits prod.splits)

lemma edma_fleet_start:
  assumes "edma_boot_world k w" "edma_fits k L" "nss_dp_init True (edma_hal_init k) Success w = Inr (Success, w1)"
  shows "fleet (edma_env k m x) (edma_port k L {#}) (engine_inv k L {#}) w1 \<and> edma_tables w1"
proof -
  obtain s where s: "edma_init k (dp w) = Inr (Success, s)"
      "w1 = w\<lparr>common_init_done := True, gmac_ops := [Some Qcom_hal_ops, Some Syn_hal_ops, None], dp := s\<rparr>"
    using assms(3) unfolding edma_module_init [OF assms(1)] by (auto simp: bindR_eq_Inr failed_def Let_def split: if_splits)
  have "engine_inv k L {#} s" using assms(1) by (intro edma_init_engine [OF _ assms(2) s(1)]) (simp add: edma_boot_world_def)
  then show ?thesis
    using assms(1) by (auto simp: s(2) fleet_def tables_ok_def edma_boot_world_def edma_tables_def edma_env_def)
qed

section \<open>Concrete states\<close>

definition demo_macs :: "u64 mac_plat" where
  "demo_macs = \<lparr>mp_env = (\<lambda>_. \<lparr>pe_resource = Some 1, pe_resource_size = 0x1000, pe_request_mem_region = Some 1, pe_kzalloc = True,
     pe_ioremap = 0x3a001000, pe_window = (\<lambda>_. 0)\<rparr>), mp_mib = (\<lambda>_. (0, \<lambda>_. 0)), mp_xgmib = (\<lambda>_. (0, \<lambda>_. 0)), mp_gstring_len = 32\<rparr>"

definition demo_edma_kenv :: "(u64 edma_hal, edma_world, edma_skb) kernel_env" where
  "demo_edma_kenv = \<lparr>ke_overlay = (\<lambda>_. nss_dp_edma_ops demo_edma (\<lambda>_. None)), ke_overlay_dev = (\<lambda>_. None),
     ke_mii_ioctl = (\<lambda>_ _. Success), ke_prepare_mac = (\<lambda>_ _. Success), ke_alloc_etherdev = (\<lambda>_. True), ke_valid_addr = (\<lambda>_. True)\<rparr>"

abbreviation "demo_edma_env \<equiv> edma_env demo_edma demo_macs demo_edma_kenv"

definition demo_edma_node :: port_dt where
  "demo_edma_node = \<lparr>pt_id = Some 3, pt_mactype = Some 1, pt_resource = Some (0x3a001800, 0x200), pt_phy_mode = 0, pt_link_poll = False,
     pt_mdio_addr = None, pt_forced_speed = None, pt_forced_duplex = None, pt_mac = None, pt_random = Eth 2 9 9 9 9 9,
     pt_mdio_bus = None, pt_mdio_node = False, pt_mdio_plat = False, pt_mdio_data = None, pt_phy_connect = None,
     pt_vsi_get = Some 4, pt_register = True\<rparr>"

definition demo_edma_pdata :: gmac_hal_platform_data where
  "demo_edma_pdata = \<lparr>pd_netdev = 0, pd_reg_len = 0, pd_mactype = 0, pd_macid = 0\<rparr>"

definition demo_edma_world :: "edma_world \<Rightarrow> u64 edma_driver" where
  "demo_edma_world s = \<lparr>netdevs = (\<lambda>_. None), privs = (\<lambda>_. None), nd_allocs = 0, nss_dp = replicate 6 None,
     gmac_ops = [None, None, None], common_init_done = False, slowproto_acl_bm = 0, dp_ctx = replicate 6 None,
     switch_init_done = False, nk_trace = [], dp = s\<rparr>"

text \<open>A machine that is off, with the interrupt arrays of ipq807x, and the engine after the start of the module.\<close>

definition demo_off :: edma_world where
  "demo_off = demo_machine\<lparr>txcmpl_intr := replicate 8 0, rxfill_intr := replicate 8 0, rxdesc_intr := replicate 16 0\<rparr>"

lemma demo_edma_off: "edma_boot_world demo_edma (demo_edma_world demo_off)" "edma_fits demo_edma demo_layout"
  by (simp_all add: edma_boot_world_def edma_off_def edma_fits_def edma_node_def demo_edma_world_def demo_off_def demo_edma_def demo_machine_def
      demo_dt_def demo_layout_def layout_ok_def kind_max_def EDMA_MAX_TXCMPL_RINGS_def idle_def pidx_def cidx_def reg_idx_def
      edma_reg_read_def NSS_DP_HAL_MAX_PORTS_def)

lemma demo_edma_up: "\<exists>s. engine_inv demo_edma demo_layout {#} s"
proof -
  have "edma_off demo_edma demo_off" using demo_edma_off(1) by (simp add: edma_boot_world_def demo_edma_world_def)
  moreover have "ek_request_mem_region demo_edma" "ek_ioremap demo_edma" by (simp_all add: demo_edma_def)
  ultimately show ?thesis
    using edma_init_succeeds [OF _ demo_edma_off(2) demo_memory] edma_init_engine [OF _ demo_edma_off(2)] by blast
qed

lemma demo_edma_probes:
  "dt_complete demo_edma_env demo_edma_node" "nd_allocs w = 0 \<Longrightarrow> edma_served demo_macs demo_edma_kenv demo_edma_node w"
  "nss_dp w = replicate 6 None \<Longrightarrow> node_ok demo_edma_env demo_edma_node w"
  by (simp_all add: dt_complete_def edma_served_def node_ok_def node_probes_def demo_edma_node_def edma_env_def demo_edma_kenv_def demo_macs_def demo_edma_def NSS_DP_HAL_MAX_PORTS_def)

section \<open>Properties\<close>

text \<open>
  C35. Giving a port that is down back to the EDMA data plane restores the table and the context the probe had given
  it: the port meets the contract of the data plane again.
\<close>

theorem edma_restore_relinks:
  assumes "engine_inv k L acc (dp w)" "privs w n = Some p" "netdevs w n = Some d" "\<not> bit (dp_flags p) 0" "0 < unat (macid p)"
    "unat (macid p) \<le> length (dp_ctx w)" "dp_ctx w ! (unat (macid p) - 1) = Some n" "mac_fits p"
  shows "\<exists>w'. nss_dp_restore_data_plane (edma_env k m x) n w = Inr w' \<and> edma_port k L acc n w'
    \<and> privs w' n = Some (p\<lparr>data_plane_ops := Some Soc_ops, dpc := Some (Dpc_global (unat (macid p) - 1))\<rparr>)"
  using assms by (auto simp: nss_dp_restore_data_plane_def force_stop_def run_simps edma_env_def edma_port_def port_linked_def)

definition demo_overlaid :: "u64 edma_hal nss_dp_dev" where
  "demo_overlaid = (zero_dp_dev 0)\<lparr>macid := 3, data_plane_ops := Some (Overlay_ops 0), dpc := Some (Dpc_overlay 7),
     gmac_hal_ops := Some Syn_hal_ops,
     gmac_hal_ctx := Some (Hal_xgmac (nss_gmac_hal_dev.extend (kzalloc_nghd (\<lambda>_. 0)) (Syn_Xgmac.syn_hal_dev.fields (\<lambda>_. 0))))\<rparr>"

definition demo_overlaid_world :: "edma_world \<Rightarrow> u64 edma_driver" where
  "demo_overlaid_world s = (demo_edma_world s)\<lparr>netdevs := [0 \<mapsto> fresh_netdev], privs := [0 \<mapsto> demo_overlaid],
     dp_ctx := (replicate 6 None)[2 := Some 0], nss_dp := (replicate 6 None)[2 := Some 0]\<rparr>"

lemma demo_overlaid_port:
  "privs (demo_overlaid_world s) 0 = Some demo_overlaid" "netdevs (demo_overlaid_world s) 0 = Some fresh_netdev"
  "\<not> bit (dp_flags demo_overlaid) 0" "0 < unat (macid demo_overlaid)" "unat (macid demo_overlaid) \<le> length (dp_ctx (demo_overlaid_world s))"
  "dp_ctx (demo_overlaid_world s) ! (unat (macid demo_overlaid) - 1) = Some 0" "mac_fits demo_overlaid" "dp (demo_overlaid_world s) = s"
  by (simp_all add: mac_fits_def demo_overlaid_world_def demo_overlaid_def demo_edma_world_def zero_dp_dev_def)

theorem edma_restore_relinks_witness:
  "\<exists>w w'. data_plane_ops demo_overlaid = Some (Overlay_ops 0) \<and> privs w 0 = Some demo_overlaid
    \<and> nss_dp_restore_data_plane demo_edma_env 0 w = Inr w' \<and> edma_port demo_edma demo_layout {#} 0 w'"
proof -
  obtain s where "engine_inv demo_edma demo_layout {#} s" using demo_edma_up by blast
  then have "engine_inv demo_edma demo_layout {#} (dp (demo_overlaid_world s))" unfolding demo_overlaid_port(8) .
  from edma_restore_relinks [OF this demo_overlaid_port(1-7), of demo_macs demo_edma_kenv] obtain w' where
    "nss_dp_restore_data_plane demo_edma_env 0 (demo_overlaid_world s) = Inr w'" "edma_port demo_edma demo_layout {#} 0 w'" by blast
  moreover have "data_plane_ops demo_overlaid = Some (Overlay_ops 0)" by (simp add: demo_overlaid_def)
  ultimately show ?thesis using demo_overlaid_port(1) [of s] by blast
qed

text \<open>
  C39. The tables of the Qualcomm and of the 10G MAC have no \<open>exit\<close> entry, and neither the removal of the driver nor
  a probe whose registration fails looks before it calls: with a port in the table the removal follows a NULL
  pointer, whatever the state of the port.
\<close>

theorem edma_remove_null:
  assumes "length (nss_dp w) = NSS_DP_HAL_MAX_PORTS (ek_soc k)" "i < length (nss_dp w)" "\<forall>j < i. nss_dp w ! j = None"
    "nss_dp w ! i = Some n" "privs w n = Some p" "gmac_hal_ops p = Some r"
  shows "nss_dp_remove (edma_env k m x) w = Inl Null_Pointer"
proof (rule remove_null)
  show "ho_exit (de_hal (edma_env k m x) r) = None" by (cases r) (simp_all add: edma_env_def qcom_hal_ops_def syn_xgmac_hal_ops_def)
qed (use assms in \<open>simp_all add: edma_env_def\<close>)

theorem edma_remove_null_witness:
  "nss_dp (demo_overlaid_world demo_machine) ! 2 = Some 0 \<and> nss_dp_remove demo_edma_env (demo_overlaid_world demo_machine) = Inl Null_Pointer"
proof -
  have w: "length (nss_dp (demo_overlaid_world demo_machine)) = NSS_DP_HAL_MAX_PORTS (ek_soc demo_edma)"
      "2 < length (nss_dp (demo_overlaid_world demo_machine))" "\<forall>j < 2. nss_dp (demo_overlaid_world demo_machine) ! j = None"
      "nss_dp (demo_overlaid_world demo_machine) ! 2 = Some 0" "gmac_hal_ops demo_overlaid = Some Syn_hal_ops"
    by (auto simp: demo_overlaid_world_def demo_edma_def demo_overlaid_def NSS_DP_HAL_MAX_PORTS_def less_2_cases_iff nth_Cons')
  from edma_remove_null [OF w(1-4) demo_overlaid_port(1) w(5), of demo_macs demo_edma_kenv] w(4) show ?thesis by blast
qed

end
