(* ===== verification/Edma_System.thy ===== *)
theory Edma_System
  imports Edma_Driver
begin

text \<open>
  The whole driver on the EDMA SoCs as one state machine: the module starts, ports are probed, opened, closed and sent
  frames on, NAPI polls and interrupts run, and the DMA engine works, in any order. Everything the driver is asked to
  do in a state of that machine returns.
\<close>

section \<open>The state machine\<close>

text \<open>
  \<open>acc\<close> are the frames the driver has accepted from the stack. A frame is sent on a port of the table; NAPI polls and
  interrupt handlers work on the engine that all the ports share.
\<close>

inductive edma_system ::
  "edma_kernel \<Rightarrow> 'c::len word mac_plat \<Rightarrow> ('c word edma_hal, edma_world, edma_skb) kernel_env \<Rightarrow> edma_layout
     \<Rightarrow> skb_ref multiset \<Rightarrow> 'c word edma_driver \<Rightarrow> bool"
  for k :: edma_kernel and m :: "'c::len word mac_plat" and x :: "('c word edma_hal, edma_world, edma_skb) kernel_env"
    and L :: edma_layout where
  module_init: "edma_boot_world k w0 \<Longrightarrow> edma_fits k L \<Longrightarrow> nss_dp_init True (edma_hal_init k) Success w0 = Inr (Success, w)
    \<Longrightarrow> edma_system k m x L {#} w"
| probe: "edma_system k m x L acc w \<Longrightarrow> node_ok (edma_env k m x) t w \<Longrightarrow> nss_dp_probe (edma_env k m x) t pd w = Inr (ret, w')
    \<Longrightarrow> edma_system k m x L acc w'"
| event: "edma_system k m x L acc w \<Longrightarrow> i < NSS_DP_HAL_MAX_PORTS (ek_soc k) \<Longrightarrow> nss_dp w ! i = Some n
    \<Longrightarrow> port_step (edma_env k m x) n ev w = Inr w' \<Longrightarrow> edma_system k m x L acc w'"
| xmit: "edma_system k m x L acc w \<Longrightarrow> i < NSS_DP_HAL_MAX_PORTS (ek_soc k) \<Longrightarrow> nss_dp w ! i = Some n
    \<Longrightarrow> nss_dp_xmit (edma_env k m x) (Some skb) (Some n) w = Inr (ret, w')
    \<Longrightarrow> edma_system k m x L (if ret = NETDEV_TX_OK then add_mset (es_ref skb) acc else acc) w'"
| napi: "edma_system k m x L acc w \<Longrightarrow> edma_napi (edma_k k w) budget (dp w) = Inr (work, s)
    \<Longrightarrow> edma_system k m x L acc (w\<lparr>dp := s\<rparr>)"
| irq: "edma_system k m x L acc w \<Longrightarrow> edma_handle_irq (edma_k k w) d (dp w) = Inr (r, s) \<Longrightarrow> edma_system k m x L acc (w\<lparr>dp := s\<rparr>)"
| misc_irq: "edma_system k m x L acc w \<Longrightarrow> edma_system k m x L acc (w\<lparr>dp := snd (edma_handle_misc_irq (dp w))\<rparr>)"
| dma: "edma_system k m x L acc w \<Longrightarrow> edma_dma k (dp w) s \<Longrightarrow> edma_system k m x L acc (w\<lparr>dp := s\<rparr>)"

section \<open>The invariant\<close>

text \<open>Sending a frame on a port of the table is \<open>edma_if_xmit\<close> on the engine.\<close>

lemma edma_port_xmit:
  assumes "edma_port k L acc n w"
  shows "nss_dp_xmit (edma_env k m x) (Some skb) (Some n) w = edma_op (edma_if_xmit (edma_k k w) (Some n) skb) w"
proof -
  obtain p where p: "privs w n = Some p" "port_linked n w p" using assms by (auto simp: edma_port_def)
  from p(2) obtain i where "dpc p = Some (Dpc_global i)" "i < length (dp_ctx w)" "dp_ctx w ! i = Some n" by (auto simp: port_linked_def)
  from dpc_dev_linked [OF this] show ?thesis
    by (simp add: nss_dp_xmit_def run_simps p(1) edma_table [OF assms p(1)] nss_dp_edma_ops_def edma_dev_op_def)
qed

text \<open>The ports stay good on a changed engine, also with more frames accepted.\<close>

lemma fleet_engine:
  assumes "fleet (edma_env k m x) (edma_port k L acc) (engine_inv k L acc) w" "engine_inv k L acc' s"
  shows "fleet (edma_env k m x) (edma_port k L acc') (engine_inv k L acc') (w\<lparr>dp := s\<rparr>)"
  using assms unfolding fleet_def tables_ok_def in_place_def edma_port_def port_linked_def by fastforce

lemma fleet_port:
  assumes "fleet (edma_env k m x) (edma_port k L acc) B w" "i < NSS_DP_HAL_MAX_PORTS (ek_soc k)" "nss_dp w ! i = Some n"
  shows "edma_port k L acc n w"
  using fleetD(3) [OF assms(1), of i n] assms(2,3) by (simp add: edma_env_def in_place_def)

definition system_ok ::
  "edma_kernel \<Rightarrow> 'c::len word mac_plat \<Rightarrow> ('c word edma_hal, edma_world, edma_skb) kernel_env \<Rightarrow> edma_layout
     \<Rightarrow> skb_ref multiset \<Rightarrow> 'c word edma_driver \<Rightarrow> bool" where
  "system_ok k m x L acc w \<longleftrightarrow> fleet (edma_env k m x) (edma_port k L acc) (engine_inv k L acc) w \<and> edma_tables w"

lemma system_okD:
  assumes "system_ok k m x L acc w"
  shows "fleet (edma_env k m x) (edma_port k L acc) (engine_inv k L acc) w" "edma_tables w" "engine_inv k L acc (dp w)"
  using assms by (simp_all add: system_ok_def fleet_def)

lemma system_ok_engine: "system_ok k m x L acc w \<Longrightarrow> engine_inv k L acc' s \<Longrightarrow> system_ok k m x L acc' (w\<lparr>dp := s\<rparr>)"
  by (auto simp: system_ok_def edma_tables_def intro: fleet_engine)

lemma edma_system_ok:
  assumes "edma_system k m x L acc w" "engine_ok k"
  shows "system_ok k m x L acc w"
  using assms
proof (induction rule: edma_system.induct)
  case (module_init w0 w)
  then show ?case by (simp add: system_ok_def edma_fleet_start)
next
  case (probe acc w t pd ret w')
  then show ?case
    using edma_soc.probe_ok [of k m x L acc w t pd] edma_soc.probe_result_ops [of k m x t w ret w']
    by (auto simp: system_ok_def edma_tables_def)
next
  case (event acc w i n ev w')
  then show ?case
    using edma_soc.event_ok [of k m x L acc w i n ev] by (auto simp: system_ok_def edma_tables_def edma_env_def frame_def others_def)
next
  case (xmit acc w i n skb ret w')
  note ok = xmit.IH [OF xmit.prems]
  obtain s where s: "edma_if_xmit (edma_k k w) (Some n) skb (dp w) = Inr (ret, s)" "w' = w\<lparr>dp := s\<rparr>"
    using xmit.hyps(4) unfolding edma_port_xmit [OF fleet_port [OF system_okD(1) [OF ok] xmit.hyps(2,3)]]
    by (auto simp: edma_op_def bindR_eq_Inr)
  then show ?case
    using system_ok_engine [OF ok] engine_xmit(1) [of "edma_k k w", unfolded engine_inv_edma_k, OF system_okD(3) [OF ok] s(1)] by simp
next
  case (napi acc w budget work s)
  note ok = napi.IH [OF napi.prems]
  show ?case
    using system_ok_engine [OF ok] engine_napi [of "edma_k k w" L acc "dp w" budget] system_okD(3) [OF ok] napi by simp
next
  case (irq acc w d r s)
  note ok = irq.IH [OF irq.prems]
  show ?case
    using system_ok_engine [OF ok] engine_irq(1) [of "edma_k k w" L acc "dp w" d] system_okD(3) [OF ok] irq by simp
next
  case (misc_irq acc w)
  then show ?case using system_ok_engine engine_irq(2) system_okD(3) by blast
next
  case (dma acc w s)
  then show ?case using system_ok_engine engine_dma system_okD(3) by blast
qed

section \<open>Properties\<close>

text \<open>
  C10. The module starts: with the engine off and a device tree node whose ring layout is within the limits of the SoC,
  when memory, the reset controller and the register window are available, \<open>nss_dp_init\<close> reads the node, sets up the
  engine and the tables of both MACs, and succeeds in a state of the state machine; every ring then has 128
  descriptors, a number within the limits and its indices in range.
\<close>

theorem edma_module_starts:
  assumes "edma_boot_world k w" "edma_fits k L" "memory_ok k" "ek_request_mem_region k" "ek_ioremap k"
  shows "\<exists>w1. nss_dp_init True (edma_hal_init k) Success w = Inr (Success, w1) \<and> edma_system k m x L {#} w1
    \<and> edma_ok k (dp w1) \<and> layout (dp w1) = L \<and> edma_tables w1 \<and> nss_dp w1 = nss_dp w"
proof -
  have "edma_off k (dp w)" using assms(1) by (simp add: edma_boot_world_def)
  from edma_init_succeeds [OF this assms(2-5)] obtain s where s: "edma_init k (dp w) = Inr (Success, s)" by blast
  define w1 where "w1 = w\<lparr>common_init_done := True, gmac_ops := [Some Qcom_hal_ops, Some Syn_hal_ops, None], dp := s\<rparr>"
  have run: "nss_dp_init True (edma_hal_init k) Success w = Inr (Success, w1)"
    unfolding edma_module_init [OF assms(1)] by (simp add: s Let_def w1_def)
  note up = edma_fleet_start [OF assms(1,2) run]
  have "edma_inv k L {#} (dp w1)" using up fleetD(2) engine_invD(1) by blast
  then show ?thesis
    using run up edma_system.module_init [OF assms(1,2) run] by (auto simp: edma_inv_def w1_def)
qed

lemma demo_window: "ek_request_mem_region demo_edma" "ek_ioremap demo_edma"
  by (simp_all add: demo_edma_def)

theorem edma_module_starts_witness:
  "\<exists>w1. nss_dp_init True (edma_hal_init demo_edma) Success (demo_edma_world demo_off) = Inr (Success, w1)
    \<and> edma_system demo_edma demo_macs demo_edma_kenv demo_layout {#} w1 \<and> edma_ok demo_edma (dp w1) \<and> layout (dp w1) = demo_layout"
  using edma_module_starts [OF demo_edma_off demo_memory demo_window, of demo_macs demo_edma_kenv] by blast

lemma system_probe:
  assumes "system_ok k m x L acc w" "\<forall>ty. pt_mactype t = Some ty \<longrightarrow> unat ty < 3" "pt_register t"
  shows "\<exists>ret w'. nss_dp_probe (edma_env k m x) t pd w = Inr (ret, w')
    \<and> (dt_complete (edma_env k m x) t \<and> edma_served m x t w \<longrightarrow> ret = Success)
    \<and> (if ret = Success then \<exists>i. pt_id t = Some i \<and> nss_dp w' = (nss_dp w)[unat i - 1 := Some (nd_allocs w)] else nss_dp w' = nss_dp w)"
proof -
  let ?e = "edma_env k m x"
  obtain ret w' where p: "nss_dp_probe ?e t pd w = Inr (ret, w')" "probe_result ?e t w (ret, w')"
    using edma_soc.probe_returns [OF system_okD(1) [OF assms(1)], of t pd] assms(2,3) by (auto simp: node_probes_def)
  have "dt_complete ?e t \<and> edma_served m x t w \<longrightarrow> ret = Success"
    using edma_probe_succeeds [OF fleetD(1) [OF system_okD(1) [OF assms(1)]] system_okD(2) [OF assms(1)], of t pd] p(1) by auto
  then show ?thesis using p by (auto simp: probe_result_def probe_done_def probe_failed_def split: if_splits)
qed

lemma system_xmit:
  assumes "system_ok k m x L acc w" "i < NSS_DP_HAL_MAX_PORTS (ek_soc k)" "nss_dp w ! i = Some n" "queue_fits L skb"
  shows "\<exists>ret w'. nss_dp_xmit (edma_env k m x) (Some skb) (Some n) w = Inr (ret, w')"
proof -
  note d = system_okD [OF assms(1)]
  obtain ret s where "edma_if_xmit (edma_k k w) (Some n) skb (dp w) = Inr (ret, s)"
    using engine_xmit(2) [of "edma_k k w" L acc "dp w" skb n] d(3) assms(4) by auto
  then show ?thesis by (simp add: edma_port_xmit [OF fleet_port [OF d(1) assms(2,3)]] edma_op_def)
qed

text \<open>
  C3. The driver on an EDMA SoC never faults, whatever the order of what happens to it. In every state that the start
  of the module, probes (of nodes with a MAC type within the table of MACs, a free place in the table of ports, and a registration
  that succeeds), events on ports, transmissions, NAPI polls, interrupts and the DMA engine lead to: the
  buffers and rings of the engine are in order, with the frames accepted from the stack accounted for; the ports of
  the table are there, each with the number and the context of its place, with a carrier only while up with their link up once opened; opening and closing one of them,
  a link, MTU or address change, its statistics, flow control and bridge attributes return and leave the others
  alone: their net devices and private parts, their entries of \<open>netdev_arr\<close>, and the rings and buffers of the engine
  (\<open>engine_apart\<close>);
  the probe of a node whose MAC type is within the table and whose registration succeeds returns, succeeds when the
  node is complete and served, and changes the table only then (a registration that fails calls the missing
  \<open>exit\<close> entry of the MAC); a frame on a queue that fits the rings, a NAPI poll and an
  interrupt return.
\<close>

theorem edma_driver_life:
  assumes "engine_ok k" "edma_system k m x L acc w"
  shows "engine_inv k L acc (dp w) \<and> ports_live (edma_env k m x) (engine_apart k) w
    \<and> (\<forall>t pd. (\<forall>ty. pt_mactype t = Some ty \<longrightarrow> unat ty < 3) \<and> pt_register t \<longrightarrow> (\<exists>ret w'. nss_dp_probe (edma_env k m x) t pd w = Inr (ret, w')
        \<and> (dt_complete (edma_env k m x) t \<and> edma_served m x t w \<longrightarrow> ret = Success)
        \<and> (if ret = Success then \<exists>i. pt_id t = Some i \<and> nss_dp w' = (nss_dp w)[unat i - 1 := Some (nd_allocs w)] else nss_dp w' = nss_dp w)))
    \<and> (\<forall>i n skb. i < NSS_DP_HAL_MAX_PORTS (ek_soc k) \<longrightarrow> nss_dp w ! i = Some n \<longrightarrow> queue_fits L skb \<longrightarrow>
        (\<exists>ret w'. nss_dp_xmit (edma_env k m x) (Some skb) (Some n) w = Inr (ret, w')))
    \<and> (\<forall>budget. \<exists>work s. edma_napi (edma_k k w) budget (dp w) = Inr (work, s))
    \<and> (\<forall>d. \<exists>r s. edma_handle_irq (edma_k k w) d (dp w) = Inr (r, s))"
proof -
  note ok = edma_system_ok [OF assms(2,1)]
  note d = system_okD [OF ok]
  have inv: "engine_inv (edma_k k w) L acc (dp w)" and e: "engine_ok (edma_k k w)" using d(3) assms(1) by simp_all
  have "ports_live (edma_env k m x) (engine_apart k) w" by (rule edma_soc.fleet_live [OF d(1)])
  moreover have "\<exists>work s. edma_napi (edma_k k w) budget (dp w) = Inr (work, s)" for budget
    using engine_napi [OF e inv, of budget] by (auto simp: yields_def)
  moreover have "\<exists>r s. edma_handle_irq (edma_k k w) b (dp w) = Inr (r, s)" for b
    using engine_irq(1) [OF inv, of b] by (auto simp: yields_def)
  ultimately show ?thesis using d(3) system_probe [OF ok] system_xmit [OF ok] by blast
qed

text \<open>The state machine has more than its first state: a port is probed on it.\<close>

lemma demo_system:
  "\<exists>w1. edma_system demo_edma demo_macs demo_edma_kenv demo_layout {#} w1 \<and> nss_dp w1 = replicate 6 None \<and> nd_allocs w1 = 0"
proof -
  obtain s where s: "edma_init demo_edma (dp (demo_edma_world demo_off)) = Inr (Success, s)"
    using edma_init_succeeds [OF _ demo_edma_off(2) demo_memory demo_window] demo_edma_off(1) by (auto simp: edma_boot_world_def)
  then obtain w1 where "nss_dp_init True (edma_hal_init demo_edma) Success (demo_edma_world demo_off) = Inr (Success, w1)"
      "nss_dp w1 = replicate 6 None" "nd_allocs w1 = 0"
    unfolding edma_module_init [OF demo_edma_off(1)] by (simp add: Let_def demo_edma_world_def)
  then show ?thesis using edma_system.module_init [OF demo_edma_off] by blast
qed

theorem edma_driver_life_witness:
  "\<exists>w w2 w3. edma_system demo_edma demo_macs demo_edma_kenv demo_layout {#} w
    \<and> nss_dp_probe demo_edma_env demo_edma_node demo_edma_pdata w = Inr (Success, w2) \<and> nss_dp w2 ! 2 = Some 0
    \<and> (\<exists>w'. port_step demo_edma_env 0 Ev_open w2 = Inr w' \<and> frame 0 w2 w')
    \<and> (\<exists>ret. nss_dp_xmit demo_edma_env (Some demo_frame) (Some 0) w2 = Inr (ret, w3))
    \<and> (\<exists>work s. edma_napi (edma_k demo_edma w2) 64 (dp w2) = Inr (work, s))"
proof -
  obtain w where w: "edma_system demo_edma demo_macs demo_edma_kenv demo_layout {#} w" "nss_dp w = replicate 6 None" "nd_allocs w = 0"
    using demo_system by blast
  note life = edma_driver_life [OF demo_engine]
  have node: "node_ok demo_edma_env demo_edma_node w" "(\<forall>ty. pt_mactype demo_edma_node = Some ty \<longrightarrow> unat ty < 3) \<and> pt_register demo_edma_node"
    using demo_edma_probes(3) [OF w(2)] by (simp_all add: demo_edma_node_def)
  note full = demo_edma_probes(1) demo_edma_probes(2) [OF w(3)]
  have id: "pt_id demo_edma_node = Some 3" "NSS_DP_HAL_MAX_PORTS (ek_soc demo_edma) = 6" "de_max_ports demo_edma_env = 6"
    "queue_fits demo_layout demo_frame"
    by (simp_all add: demo_edma_node_def demo_edma_def NSS_DP_HAL_MAX_PORTS_def edma_env_def queue_fits_def demo_layout_def demo_frame_def)
  obtain w2 where w2: "nss_dp_probe demo_edma_env demo_edma_node demo_edma_pdata w = Inr (Success, w2)"
      "nss_dp w2 = (replicate 6 None)[2 := Some 0]"
    using conjunct1 [OF conjunct2 [OF conjunct2 [OF life [OF w(1)]]], THEN spec, THEN spec, THEN mp, OF node(2), of demo_edma_pdata] full id(1) w(2,3) by auto
  have here: "edma_system demo_edma demo_macs demo_edma_kenv demo_layout {#} w2" "nss_dp w2 ! 2 = Some 0" "2 < (6 :: nat)"
    using edma_system.probe [OF w(1) node(1) w2(1)] w2(2) by simp_all
  note l = life [OF here(1), unfolded id(2)]
  have "\<exists>w'. port_step demo_edma_env 0 Ev_open w2 = Inr w' \<and> frame 0 w2 w'"
    using l here(2,3) unfolding ports_live_def id(3) by blast
  moreover have "\<exists>ret w3. nss_dp_xmit demo_edma_env (Some demo_frame) (Some 0) w2 = Inr (ret, w3)" using l here(2,3) id(4) by blast
  ultimately show ?thesis using w(1) w2(1) here(2) l by blast
qed

end
