(* ===== verification/Spec2Isabelle.thy ===== *)
theory Spec2Isabelle
  imports Hal_Props Edma_Map Gmac_Driver Edma_System
begin

text \<open>
  A verification development of the nss-dp network driver: the net device driver of the Qualcomm IPQ SoCs, with its
  hardware abstraction of three Ethernet MACs and its two data planes. File names are relative to \<open>src/\<close>.

  \<^bold>\<open>The program.\<close> \<open>nss_dp_main.c\<close> registers one net device per port and serves the network stack. It talks to a port
  through two tables of functions. The table of the MAC (\<open>nss_gmac_hal_ops\<close>) is that of the Qualcomm 1G MAC, of the
  Synopsys 10G MAC or of the Synopsys 1G MAC. The table of the data plane (\<open>nss_dp_data_plane_ops\<close>) moves the
  frames: on ipq807x and ipq60xx it is the EDMA engine, shared by all ports; on ipq50xx it is the DMA engine each 1G
  MAC has of its own. An overlay driver may take a port over with a table of its own and give it back
  (\<open>nss_dp_attach.c\<close>). The ethtool and switchdev operations (\<open>nss_dp_ethtools.c\<close>, \<open>nss_dp_switchdev.c\<close>) act on the
  same port state. The glue in \<open>hal/arch\<close> says which tables a SoC has.

  \<^bold>\<open>Conventions.\<close> A C function that can go wrong returns a value of type \<open>result\<close>: \<open>Inl\<close> of a fault (a NULL pointer
  followed, an index out of range, a \<open>BUG_ON\<close>, a loop without end) or \<open>Inr\<close> of its result and the new state. Error
  codes of the source are ordinary results of type \<open>status\<close>. Integers keep their width as words. What the driver does
  to the kernel (buffers delivered or freed, mappings, NAPI, interrupts, PHY) is a trace in the state; what the
  kernel, the device tree, the PHY layer and the switch driver answer is a parameter, as are the tables of an overlay
  driver. The registers of a device are a function from offsets to words; the engines move between the steps of the
  driver.

  \<^bold>\<open>Theories.\<close>
  \<^item> \<open>Prelude\<close>: word types, faults, checked array access, loops over indices, and the calculus of computations
    that return (\<open>yields\<close>) and of those that keep a condition if they return (\<open>ends\<close>). \<open>Ring\<close>: circular arrays, the locale \<open>fifo_ring\<close> of a bounded queue kept in one, and the
    walk of a 16-bit index.
  \<^item> \<open>Hal_If\<close>: \<open>hal/include/nss_dp_hal_if.h\<close>, the device context and the register accessors, with the locales
    \<open>reg_file\<close> (a register file), \<open>mac_addr_unit\<close> (a station address in two registers) and \<open>string_sets\<close> (the names of
    the counters).
  \<^item> \<open>Qcom_Gmac\<close>, \<open>Syn_Xgmac\<close>, \<open>Syn_Gmac\<close>: the three MACs in \<open>hal/gmac_hal_ops\<close>, every helper and every operation, each with its
    interpretations of the locales of \<open>Hal_If\<close>; \<open>Hal_Props\<close>: the properties of the three.
  \<^item> \<open>Syn_Ring\<close>: \<open>hal/syn_gmac_dp/syn_dma_desc.h\<close>, \<open>syn_data_plane.h\<close>, \<open>syn_dp_tx_rx.c\<close> and \<open>syn_dp_cfg.c\<close>; both rings interpret
    \<open>fifo_ring\<close>. \<open>Syn_Ring_Safety\<close>: the driver interleaved with the write-backs of the DMA as the relation \<open>syn_reach\<close>.
    \<open>Syn_Dp\<close>: \<open>syn_data_plane.c\<close>, the operations table, NAPI poll and interrupt handler.
  \<^item> \<open>Edma_Regs\<close> (\<open>edma_regs.h\<close>), \<open>Edma_State\<close> (\<open>edma_data_plane.h\<close>), \<open>Edma_Tx_Rx\<close> (\<open>edma_tx_rx.c\<close>), \<open>Edma_Cfg\<close> (\<open>edma_cfg.c\<close>) and
    \<open>Edma_Dp\<close> (\<open>edma_data_plane.c\<close>): the EDMA data plane in \<open>hal/edma\<close>. \<open>Edma_Rings\<close>: what each step does, branch by branch,
    against abstract specifications. \<open>Edma_Safety\<close>: the invariant and the moves of the engine (\<open>edma_dma\<close>). \<open>Edma_Inv\<close>,
    \<open>Edma_Init\<close>: its preservation and its establishment. \<open>Edma_Reach\<close>: the states driver and engine reach together
    (\<open>edma_reach\<close>) and the properties of the data path on them. \<open>Edma_Map\<close>: the register map of the engine as a whole.
  \<^item> \<open>Dp_Dev\<close>: \<open>include/nss_dp_dev.h\<close> and \<open>exports/nss_dp_api_if.h\<close>, the state of the driver proper: net devices, their
    private parts, the table of ports, the contexts of the data plane, the state of the data plane below, and the two
    tables of functions with optional entries. \<open>Dp_Main\<close>, \<open>Dp_Attach\<close>, \<open>Dp_Ethtools\<close>, \<open>Dp_Switchdev\<close>: the files of the same
    names. \<open>Hal_Arch\<close>: the tables and the environments of the SoCs.
  \<^item> \<open>Dp_Contract\<close>: the locale \<open>data_plane\<close>, what the net device driver needs of a data plane (every operation returns on a
    port it knows and leaves alone what belongs to the driver), and opening, closing and link changes proved once from
    it; and the locale \<open>data_plane_parts\<close>, which adds what a port may do to the state of the data plane below, stated on
    its single calls (\<open>calls_of\<close>). \<open>Dp_Life\<close>: what the kernel asks of a port (\<open>port_event\<close>: open, close, link, MTU, address, statistics, flow control,
    bridge attributes), in the same locales: each call returns, keeps the port sane, leaves the others alone and stays within its part of the data plane.
    \<open>Dp_Probe\<close>: probe and removal on any SoC. \<open>Dp_Fleet\<close>: all the ports of a SoC together, as the locale \<open>soc_driver\<close> that
    extends \<open>data_plane_parts\<close>: the condition \<open>fleet\<close> on the whole driver is kept by every probe and every event (\<open>soc_reach\<close>).
  \<^item> \<open>Gmac_Port\<close>, \<open>Edma_Port\<close>: the interpretations of \<open>data_plane\<close> and of \<open>data_plane_parts\<close> by the GMAC data plane, where a
    port has its own entry of \<open>dp_info\<close> (\<open>gmac_apart\<close>), and by the EDMA data plane, where the ports share the engine and the work
    on one leaves its rings and buffers alone (\<open>engine_apart\<close>). \<open>Edma_Lines\<close>: the
    start of the engine, and the interrupt lines through everything that runs on it. \<open>Gmac_Driver\<close>, \<open>Edma_Driver\<close>: the
    interpretations of \<open>soc_driver\<close> and the driver on each kind of SoC, from the start of the module to the removal.
    \<open>Edma_System\<close>: the driver, its ports and the engine as one state machine (\<open>edma_system\<close>).
  \<^item> This theory: the properties that hold across the SoCs.

  \<^bold>\<open>What the theorems show.\<close>
  \<^item> Rings of both data planes: on every state the driver and the hardware reach together no operation faults, buffers
    are conserved, and the state is well-formed; each receive, transmit, refill and completion pass does what its
    specification says; the EDMA reaping refines an abstract one; a receive pass handles as many descriptors as it
    returns, within its budget; NAPI is re-armed, and enabled exactly while a port is open. No two registers of the EDMA map share a word.
  \<^item> MACs: round trip of the station address, bounds of the string buffers, what start and stop do to every register.
  \<^item> Driver: on both kinds of SoC, from the start of the module, in every state that probes, events on any port and (on
    the EDMA SoCs) transmissions, polls, interrupts and the engine lead to, whatever the driver is asked next returns
    (for a probe: of a node whose MAC type is in the table and whose registration succeeds where the MAC has no \<open>exit\<close> entry),
    and work on one port leaves the others alone; the result of open and close; probe and removal; override and restore; the slow protocol filter against the switch; the round
    trip of the EEE settings; the agreement of the two versions of the flow control code.
  \<^item> Errors: the inputs on which the code faults or leaks, each as a theorem with a concrete instance:
    the race on the last transmit descriptor, the clean-up loops that leak or leave their ring, the choice of the transmit ring, misplaced register
    fields, the NULL entry behind the removal, contexts and interface numbers past an array.

  \<^bold>\<open>Loops and bounds.\<close> Loops are recursive functions with termination proofs. The reaping loops compare 16-bit
  indices; they are walks of at most \<open>2 ^ 16\<close> steps, after which the index has repeated, and a walk that has not met
  its end by then is the fault \<open>Diverges\<close>: the bound loses no terminating run. The rings of the EDMA have 128
  descriptors, those of the GMAC 128, as in the source.

  \<^bold>\<open>Not modelled.\<close> Spin locks are not state: a critical section is one step, and the race above is stated between the
  sections. The kernel, the switch driver, the PHY driver with its time stamping, the device tree and the firmware
  calls are parameters or entries of the trace. Log messages, the sysctl table and the Kbuild files have no counterpart.
  The code of \<open>nss_ipq60xx.c\<close> is that of \<open>nss_ipq807x.c\<close>; the two SoCs are one definition with the type \<open>soc\<close> as its
  parameter. Where the source has two versions of a function for two kernels, both are modelled, those for older
  kernels with the suffix \<open>_old\<close>.
\<close>

section \<open>Opening and closing a port on every SoC\<close>

text \<open>
  C8. Opening and closing a port return on both kinds of SoC, whatever the kernel answers, and keep the port in the
  shape its data plane needs. A close turns the queue and the carrier off even when it fails, and leaves the port
  down when it succeeds. An open that succeeds leaves the port up, initialised, with its queue started, its carrier
  following whether the link is polled; one that fails leaves the carrier off, but the port stays marked as up when
  the failure comes after the initialisation.
\<close>

theorem port_open_close:
  assumes "gmac_port n w" "edma_port k L acc n' v"
  shows "(\<exists>r w' p d. nss_dp_open (gmac_env kg q i x) n w = Inr (r, w') \<and> gmac_port n w'
        \<and> privs w' n = Some p \<and> netdevs w' n = Some d \<and> port_opened r p d)
    \<and> (\<exists>r w' p d. nss_dp_close (gmac_env kg q i x) n w = Inr (r, w') \<and> gmac_port n w'
        \<and> privs w' n = Some p \<and> netdevs w' n = Some d \<and> port_closed r p d)
    \<and> (\<exists>r v' p d. nss_dp_open (edma_env k m y) n' v = Inr (r, v') \<and> edma_port k L acc n' v'
        \<and> privs v' n' = Some p \<and> netdevs v' n' = Some d \<and> port_opened r p d)
    \<and> (\<exists>r v' p d. nss_dp_close (edma_env k m y) n' v = Inr (r, v') \<and> edma_port k L acc n' v'
        \<and> privs v' n' = Some p \<and> netdevs v' n' = Some d \<and> port_closed r p d)"
  using gmac_dp.open_spec [OF assms(1)] gmac_dp.close_spec [OF assms(1)]
    edma_dp.open_spec [OF assms(2)] edma_dp.close_spec [OF assms(2)] by blast

text \<open>Port 3 of an EDMA SoC on the data plane of the SoC.\<close>

definition demo_soc_port :: "u64 edma_hal nss_dp_dev" where
  "demo_soc_port = demo_overlaid\<lparr>data_plane_ops := Some Soc_ops, dpc := Some (Dpc_global 2)\<rparr>"

lemma demo_soc_edma_port: "\<exists>v. edma_port demo_edma demo_layout {#} 0 v \<and> privs v 0 = Some demo_soc_port"
proof -
  obtain s where s: "engine_inv demo_edma demo_layout {#} s" using demo_edma_up by blast
  let ?v = "(demo_overlaid_world s)\<lparr>privs := [0 \<mapsto> demo_soc_port]\<rparr>"
  have "edma_port demo_edma demo_layout {#} 0 ?v"
    using s demo_overlaid_port(2,8) [of s] demo_overlaid_port(7)
    by (simp add: edma_port_def port_linked_def demo_soc_port_def demo_overlaid_world_def)
  then show ?thesis by (intro exI [of _ ?v]) simp
qed

theorem port_open_close_witness:
  "(\<exists>r w' p d. nss_dp_open demo_env 0 (demo_gmac_world 1) = Inr (r, w') \<and> privs w' 0 = Some p \<and> netdevs w' 0 = Some d \<and> port_opened r p d)
   \<and> (\<exists>v r v' p d. privs v 0 = Some demo_soc_port \<and> nss_dp_close demo_edma_env 0 v = Inr (r, v')
        \<and> privs v' 0 = Some p \<and> netdevs v' 0 = Some d \<and> port_closed r p d)"
proof -
  obtain v where v: "edma_port demo_edma demo_layout {#} 0 v" "privs v 0 = Some demo_soc_port" using demo_soc_edma_port by blast
  show ?thesis
    using port_open_close [OF demo_gmac_port(1) v(1), of demo_kernel demo_plat demo_soc demo_kenv demo_macs demo_edma_kenv] v(2)
    by blast
qed

section \<open>Interface numbers\<close>

text \<open>
  C40. On the EDMA SoCs \<open>nss_dp_get_netdev_by_nss_if_num\<close> answers for every number: the net device of the port in
  the table for a number from 1 to the number of ports, and no device for any other. On ipq50xx, where the numbers
  start at 0, the bound on the number lets 2 through, which is past the end of the table.
\<close>

theorem if_num_bounds:
  assumes "length (nss_dp w) = NSS_DP_HAL_MAX_PORTS (ek_soc k)" "\<forall>n. Some n \<in> set (nss_dp w) \<longrightarrow> privs w n \<noteq> None"
    "length (nss_dp v) = 2" "\<forall>n. Some n \<in> set (nss_dp v) \<longrightarrow> privs v n \<noteq> None"
  shows "nss_dp_get_netdev_by_nss_if_num (edma_env k m y) j w
      = Inr (if 1 \<le> j \<and> j \<le> int (NSS_DP_HAL_MAX_PORTS (ek_soc k))
             then map_option (\<lambda>n. dp_netdev (the (privs w n))) (nss_dp w ! nat (j - 1)) else None)
    \<and> nss_dp_get_netdev_by_nss_if_num (gmac_env kg q i x) j v
      = (if j = 2 then Inl Index_Range
         else Inr (if 0 \<le> j \<and> j < 2 then map_option (\<lambda>n. dp_netdev (the (privs v n))) (nss_dp v ! nat j) else None))"
proof -
  have port: "(case nss_dp u ! a of None \<Rightarrow> Inr None | Some n \<Rightarrow> with_priv u n (\<lambda>p. Inr (Some (dp_netdev p))))
      = Inr (map_option (\<lambda>n. dp_netdev (the (privs u n))) (nss_dp u ! a))"
    if "a < length (nss_dp u)" "\<forall>n. Some n \<in> set (nss_dp u) \<longrightarrow> privs u n \<noteq> None" for u :: "('h, 's) dp_world" and a
    using that nth_mem [OF that(1)] by (cases "nss_dp u ! a") (auto simp: with_priv_def)
  have e: "nat (j - 1) < length (nss_dp w)" if "1 \<le> j" "j \<le> int (NSS_DP_HAL_MAX_PORTS (ek_soc k))"
    using that assms(1) by linarith
  have g: "nat j < length (nss_dp v)" if "0 \<le> j" "j < 2" using that assms(3) by linarith
  show ?thesis
    using port [OF e assms(2)] port [OF g assms(4)] e g assms(3)
    by (auto simp: nss_dp_get_netdev_by_nss_if_num_def edma_env_def gmac_env_def aget_def)
qed

theorem if_num_bounds_witness:
  "nss_dp_get_netdev_by_nss_if_num demo_edma_env 3 (demo_overlaid_world demo_machine) = Inr (Some 0)
   \<and> nss_dp_get_netdev_by_nss_if_num demo_edma_env 7 (demo_overlaid_world demo_machine) = Inr None
   \<and> nss_dp_get_netdev_by_nss_if_num demo_env 2 (demo_gmac_world 1) = Inl Index_Range"
proof -
  have w: "length (nss_dp (demo_overlaid_world demo_machine)) = NSS_DP_HAL_MAX_PORTS (ek_soc demo_edma)"
      "\<forall>n. Some n \<in> set (nss_dp (demo_overlaid_world demo_machine)) \<longrightarrow> privs (demo_overlaid_world demo_machine) n \<noteq> None"
      "length (nss_dp (demo_gmac_world 1)) = 2" "\<forall>n. Some n \<in> set (nss_dp (demo_gmac_world 1)) \<longrightarrow> privs (demo_gmac_world 1) n \<noteq> None"
    by (auto simp: demo_overlaid_world_def demo_gmac_world_def demo_edma_def NSS_DP_HAL_MAX_PORTS_def dest: set_update_subset_insert [THEN subsetD])
  note b = if_num_bounds [OF w, of demo_macs demo_edma_kenv _ demo_kernel demo_plat demo_soc demo_kenv]
  show ?thesis
    using b [of 3] b [of 7] b [of 2]
    by (simp add: demo_overlaid_world_def demo_overlaid_def demo_edma_def NSS_DP_HAL_MAX_PORTS_def zero_dp_dev_def)
qed

end
